(* ===== verification/Prelude.thy ===== *)
theory Prelude
  imports Main "HOL-Library.Word"
begin

text \<open>
  Shared vocabulary of the development.

  Machine integers are words at the width the source declares them; a C \<^verbatim>\<open>int\<close> is a
  32-bit word read by \<^verbatim>\<open>sint\<close> where its sign matters.  Guest memory is a flat byte map
  indexed by natural numbers (a guest address is below 2^47, so it never wraps), together with
  the set of live \<^verbatim>\<open>malloc\<close> blocks, the open file descriptors and the stack pointer.  The
  answers the guest's C library may give (an allocation that fails, a socket pair that cannot be
  made) are lists of outcomes the world consumes, so every error branch of the source is
  reachable in the model.
\<close>

unbundle bit_operations_syntax

named_theorems bridge_simps \<open>unfolding rules of the bridge call helpers\<close>
named_theorems world_frame \<open>what an operation leaves unchanged in the world\<close>

section \<open>Machine integers\<close>

type_synonym u8 = "8 word"
type_synonym u16 = "16 word"
type_synonym u32 = "32 word"
type_synonym u64 = "64 word"
type_synonym c_int = "32 word"
type_synonym s64 = "64 word"

text \<open>Little-endian bytes, the layout of every x86-64 scalar in guest memory.\<close>

primrec le_bytes :: "nat \<Rightarrow> 'a::len word \<Rightarrow> u8 list" where
  "le_bytes 0 w = []"
| "le_bytes (Suc n) w = ucast w # le_bytes n (drop_bit 8 w)"

primrec le_word :: "u8 list \<Rightarrow> 'a::len word" where
  "le_word [] = 0"
| "le_word (b # bs) = ucast b OR push_bit 8 (le_word bs)"

lemma length_le_bytes [simp]: "length (le_bytes n w) = n"
  by (induction n arbitrary: w) auto

lemma nth_le_bytes: "i < n \<Longrightarrow> le_bytes n w ! i = ucast (drop_bit (8 * i) w)"
proof (induction n arbitrary: i w)
  case (Suc n)
  show ?case
  proof (cases i)
    case (Suc j)
    then show ?thesis
      using Suc.IH [of j "drop_bit 8 w"] Suc.prems by (simp add: ac_simps)
  qed simp
qed simp

lemma bit_le_word:
  "bit (le_word bs :: 'a::len word) k \<longleftrightarrow>
     k < LENGTH('a) \<and> k div 8 < length bs \<and> bit (bs ! (k div 8)) (k mod 8)"
proof (induction bs arbitrary: k)
  case (Cons b bs)
  show ?case
  proof (cases "k < 8")
    case True
    then show ?thesis by (auto simp: bit_simps)
  next
    case False
    then have "k div 8 = Suc ((k - 8) div 8)" "k mod 8 = (k - 8) mod 8"
      by (simp_all add: le_div_geq le_mod_geq)
    with False Cons.IH [of "k - 8"] show ?thesis
      by (auto simp: bit_simps dest: bit_imp_le_length)
  qed
qed simp

lemma le_word_le_bytes [simp]:
  fixes w :: "'a::len word"
  assumes "LENGTH('a) \<le> 8 * n"
  shows "(le_word (le_bytes n w) :: 'a word) = w"
proof (rule bit_word_eqI)
  fix k assume k: "k < LENGTH('a)"
  with assms have "k div 8 < n" by (simp add: div_less_iff_less_mult mult.commute)
  moreover have "8 * (k div 8) + k mod 8 = k" by simp
  ultimately show "bit (le_word (le_bytes n w) :: 'a word) k = bit w k"
    using k by (simp add: bit_le_word nth_le_bytes bit_simps)
qed

text \<open>The low four bytes of a 64-bit scalar are the truncated scalar.\<close>

lemma le_word_le_bytes_ucast:
  fixes w :: "'a::len word"
  assumes "LENGTH('b) \<le> 8 * n"
  shows "(le_word (le_bytes n w) :: 'b::len word) = ucast w"
proof (rule bit_word_eqI)
  fix k assume k: "k < LENGTH('b)"
  with assms have "k div 8 < n" by (simp add: div_less_iff_less_mult mult.commute)
  moreover have "8 * (k div 8) + k mod 8 = k" by simp
  ultimately show "bit (le_word (le_bytes n w) :: 'b word) k = bit (ucast w :: 'b word) k"
    using k by (simp add: bit_le_word nth_le_bytes bit_simps)
qed

lemma le_bytes_le_word:
  assumes "length bs = n" "8 * n \<le> LENGTH('a::len)"
  shows "le_bytes n (le_word bs :: 'a word) = bs"
proof (rule nth_equalityI)
  fix i assume "i < length (le_bytes n (le_word bs :: 'a word))"
  then have i: "i < n" by simp
  show "le_bytes n (le_word bs :: 'a word) ! i = bs ! i"
  proof (rule bit_word_eqI)
    fix k assume "k < LENGTH(8)"
    then have k: "k < 8" by simp
    then have "(8 * i + k) div 8 = i" "(8 * i + k) mod 8 = k" "8 * i + k < LENGTH('a)"
      using i assms(2) by auto
    then show "bit (le_bytes n (le_word bs :: 'a word) ! i) k = bit (bs ! i) k"
      using i k assms(1) by (simp add: nth_le_bytes bit_simps bit_le_word)
  qed
qed (use assms in simp)

lemma sint_nat64 [simp]: "n < 2 ^ 63 \<Longrightarrow> sint (of_nat n :: s64) = int n"
  by (simp add: signed_of_nat signed_take_bit_int_eq_self)

lemma ucast_nat: "(ucast (x :: u32) :: u64) = of_nat (unat x)"
  by (metis unsigned_eq_0_iff of_nat_unat)

lemma ucast_of_nat_down: "(ucast (of_nat k :: u64) :: u32) = of_nat k"
  unfolding unsigned_of_nat by (simp add: word_of_nat_eq_iff)

section \<open>Flat memory\<close>

type_synonym memory = "nat \<Rightarrow> u8"

definition rd :: "memory \<Rightarrow> nat \<Rightarrow> nat \<Rightarrow> u8 list" where
  "rd m a n = map m [a..<a + n]"

definition wr :: "memory \<Rightarrow> nat \<Rightarrow> u8 list \<Rightarrow> memory" where
  "wr m a bs = (\<lambda>i. if a \<le> i \<and> i < a + length bs then bs ! (i - a) else m i)"

lemma length_rd [simp]: "length (rd m a n) = n" by (simp add: rd_def)

lemma nth_rd [simp]: "i < n \<Longrightarrow> rd m a n ! i = m (a + i)" by (simp add: rd_def)

lemma rd_0 [simp]: "rd m a 0 = []" by (simp add: rd_def)

lemma wr_Nil [simp]: "wr m a [] = m" by (rule ext) (auto simp: wr_def)

lemma rd_wr_same [simp]: "length bs = n \<Longrightarrow> rd (wr m a bs) a n = bs"
  by (rule nth_equalityI) (auto simp: wr_def)

lemma rd_wr_other: "a + n \<le> b \<or> b + length bs \<le> a \<Longrightarrow> rd (wr m b bs) a n = rd m a n"
  by (rule nth_equalityI) (auto simp: wr_def)

lemma rd_wr_inside:
  "a \<le> b \<Longrightarrow> b + n \<le> a + length bs \<Longrightarrow> rd (wr m a bs) b n = take n (drop (b - a) bs)"
  by (rule nth_equalityI) (auto simp: wr_def)

lemma wr_outside [simp]: "i < a \<or> a + length bs \<le> i \<Longrightarrow> wr m a bs i = m i"
  by (auto simp: wr_def)

lemma rd_append: "rd m a (n + k) = rd m a n @ rd m (a + n) k"
  by (rule nth_equalityI) (auto simp: nth_append)

lemma take_rd: "k \<le> n \<Longrightarrow> take k (rd m a n) = rd m a k"
  by (rule nth_equalityI) auto

lemma drop_rd: "drop k (rd m a n) = rd m (a + k) (n - k)"
  by (rule nth_equalityI) (auto simp: add.assoc)

lemma wr_rd_id [simp]: "wr m a (rd m a n) = m"
  by (rule ext) (auto simp: wr_def)

end
