(* ===== verification/World.thy ===== *)
theory World
  imports Prelude
begin

text \<open>
  The guest process as the shims see it: flat memory, the C library's allocator, the stack the
  locals live on, and the file descriptors.  The host's X server state is the polymorphic field
  \<^verbatim>\<open>server\<close>.  Allocation may fail: \<^verbatim>\<open>oom\<close> lists the answers the next allocations get
  (an exhausted list means success), and an allocation that no longer fits below
  \<^verbatim>\<open>heap_top\<close> fails as well.  A \<^verbatim>\<open>free\<close> of something that is not a live block is
  recorded in \<^verbatim>\<open>bad_free\<close>, a \<^verbatim>\<open>close\<close> of a descriptor that is not open in
  \<^verbatim>\<open>bad_close\<close>; both are sticky, so their absence is an invariant.
\<close>

section \<open>State\<close>

record 'h world =
  mem :: memory
  live :: "nat \<Rightarrow> nat option"
  brk :: nat
  sp :: nat
  oom :: "bool list"
  socks :: "(nat \<times> nat) option list"
  fds :: "nat list"
  bad_free :: bool
  bad_close :: bool
  server :: 'h

definition heap_top :: nat where "heap_top = 2 ^ 46"
definition stack_top :: nat where "stack_top = 2 ^ 47"

text \<open>Loads and stores of little-endian scalars.\<close>

definition ld :: "nat \<Rightarrow> nat \<Rightarrow> 'h world \<Rightarrow> 'a::len word" where
  "ld n a \<sigma> = le_word (rd (mem \<sigma>) a n)"

definition store :: "nat \<Rightarrow> nat \<Rightarrow> 'a::len word \<Rightarrow> 'h world \<Rightarrow> 'h world" where
  "store n a v \<sigma> = \<sigma>\<lparr>mem := wr (mem \<sigma>) a (le_bytes n v)\<rparr>"

definition st_bytes :: "nat \<Rightarrow> u8 list \<Rightarrow> 'h world \<Rightarrow> 'h world" where
  "st_bytes a bs \<sigma> = \<sigma>\<lparr>mem := wr (mem \<sigma>) a bs\<rparr>"

text \<open>A guest pointer as the 64-bit scalar that holds it, and back.\<close>

definition P :: "nat \<Rightarrow> u64" where "P p = word_of_nat p"

lemma unat_P [simp]: "p < 2 ^ 64 \<Longrightarrow> unat (P p) = p"
  by (simp add: P_def unat_of_nat)

lemma P_0 [simp]: "P 0 = 0" by (simp add: P_def)

lemma P_eq_0: "p < 2 ^ 64 \<Longrightarrow> P p = 0 \<longleftrightarrow> p = 0"
  by (metis P_0 unat_0 unat_P)

section \<open>The allocator\<close>

text \<open>Live blocks lie below the break, above the null page, and never overlap.\<close>

definition heap_ok :: "'h world \<Rightarrow> bool" where
  "heap_ok \<sigma> \<longleftrightarrow> 4096 \<le> brk \<sigma> \<and> brk \<sigma> \<le> heap_top \<and>
     (\<forall>b s. live \<sigma> b = Some s \<longrightarrow> 4096 \<le> b \<and> b + s < brk \<sigma>) \<and>
     (\<forall>b s c t. live \<sigma> b = Some s \<longrightarrow> live \<sigma> c = Some t \<longrightarrow> b < c \<longrightarrow> b + s \<le> c)"

definition alloc_fails :: "nat \<Rightarrow> 'h world \<Rightarrow> bool" where
  "alloc_fails n \<sigma> \<longleftrightarrow> (oom \<sigma> \<noteq> [] \<and> hd (oom \<sigma>)) \<or> heap_top < brk \<sigma> + n + 16"

definition malloc :: "nat \<Rightarrow> 'h world \<Rightarrow> nat \<times> 'h world" where
  "malloc n \<sigma> =
     (if alloc_fails n \<sigma> then (0, \<sigma>\<lparr>oom := tl (oom \<sigma>)\<rparr>)
      else (brk \<sigma>, \<sigma>\<lparr>oom := tl (oom \<sigma>), live := (live \<sigma>)(brk \<sigma> \<mapsto> n),
                       brk := brk \<sigma> + n + 16\<rparr>))"

definition calloc :: "nat \<Rightarrow> nat \<Rightarrow> 'h world \<Rightarrow> nat \<times> 'h world" where
  "calloc k n \<sigma> =
     (case malloc (k * n) \<sigma> of (p, \<sigma>') \<Rightarrow>
        if p = 0 then (0, \<sigma>') else (p, st_bytes p (replicate (k * n) 0) \<sigma>'))"

definition free :: "nat \<Rightarrow> 'h world \<Rightarrow> 'h world" where
  "free p \<sigma> =
     (if p = 0 then \<sigma>
      else if live \<sigma> p = None then \<sigma>\<lparr>bad_free := True\<rparr>
      else \<sigma>\<lparr>live := (live \<sigma>)(p := None)\<rparr>)"

text \<open>\<^verbatim>\<open>realloc\<close> moves: a new block with the old contents, the old one freed; when the
  allocation fails the old block stays.\<close>

definition realloc :: "nat \<Rightarrow> nat \<Rightarrow> 'h world \<Rightarrow> nat \<times> 'h world" where
  "realloc p n \<sigma> =
     (case malloc n \<sigma> of (q, \<sigma>1) \<Rightarrow>
        if q = 0 then (0, \<sigma>1)
        else let old = (if p = 0 then 0 else case live \<sigma> p of None \<Rightarrow> 0 | Some s \<Rightarrow> s)
             in (q, free p (st_bytes q (rd (mem \<sigma>1) p (min old n)) \<sigma>1)))"

lemma heap_okD:
  assumes "heap_ok \<sigma>" "live \<sigma> b = Some s"
  shows "4096 \<le> b" "b + s < brk \<sigma>" "brk \<sigma> \<le> heap_top" "b \<noteq> 0"
proof -
  show "4096 \<le> b" "b + s < brk \<sigma>" "brk \<sigma> \<le> heap_top" using assms by (auto simp: heap_ok_def)
  then show "b \<noteq> 0" by simp
qed

lemma malloc_null [simp]: "fst (malloc n \<sigma>) = 0 \<longleftrightarrow> alloc_fails n \<sigma> \<or> brk \<sigma> = 0"
  by (simp add: malloc_def)

lemma malloc_heap_ok: "heap_ok \<sigma> \<Longrightarrow> heap_ok (snd (malloc n \<sigma>))"
  unfolding heap_ok_def malloc_def alloc_fails_def
  by (auto split: if_splits) (metis less_or_eq_imp_le not_add_less1 order_less_le_trans not_less)+

lemma malloc_fresh:
  assumes "heap_ok \<sigma>" "malloc n \<sigma> = (p, \<sigma>')" "p \<noteq> 0"
  shows "live \<sigma> p = None" "live \<sigma>' = (live \<sigma>)(p \<mapsto> n)" "mem \<sigma>' = mem \<sigma>"
    "p + n < heap_top" "p = brk \<sigma>"
proof -
  have "live \<sigma> (brk \<sigma>) = None"
    using assms(1) by (cases "live \<sigma> (brk \<sigma>)") (auto simp: heap_ok_def)
  then show "live \<sigma> p = None" "live \<sigma>' = (live \<sigma>)(p \<mapsto> n)" "mem \<sigma>' = mem \<sigma>"
    "p + n < heap_top" "p = brk \<sigma>"
    using assms(2,3) by (auto simp: malloc_def alloc_fails_def split: if_splits)
qed

lemma malloc_fail:
  "malloc n \<sigma> = (0, \<sigma>') \<Longrightarrow> heap_ok \<sigma> \<Longrightarrow> \<sigma>' = \<sigma>\<lparr>oom := tl (oom \<sigma>)\<rparr>"
  by (auto simp: malloc_def heap_ok_def split: if_splits)

lemma heap_ok_st_bytes [simp]: "heap_ok (st_bytes a bs \<sigma>) = heap_ok \<sigma>"
  by (simp add: heap_ok_def st_bytes_def)

lemma heap_ok_st [simp]: "heap_ok (store n a v \<sigma>) = heap_ok \<sigma>"
  by (simp add: heap_ok_def store_def)

lemma calloc_heap_ok: "heap_ok \<sigma> \<Longrightarrow> heap_ok (snd (calloc k n \<sigma>))"
  using malloc_heap_ok [of \<sigma> "k * n"] by (auto simp: calloc_def split: prod.splits)

lemma free_heap_ok: "heap_ok \<sigma> \<Longrightarrow> heap_ok (free p \<sigma>)"
  by (auto simp: heap_ok_def free_def)

lemma free_0 [simp]: "free 0 \<sigma> = \<sigma>" by (simp add: free_def)

lemma free_live: "live \<sigma> p = Some s \<Longrightarrow> p \<noteq> 0 \<Longrightarrow> free p \<sigma> = \<sigma>\<lparr>live := (live \<sigma>)(p := None)\<rparr>"
  by (simp add: free_def)

section \<open>Locals\<close>

text \<open>A C local whose address is taken: the stack pointer moves down over it for the time the
  body runs.\<close>

definition with_local :: "nat \<Rightarrow> (nat \<Rightarrow> 'h world \<Rightarrow> 'a \<times> 'h world) \<Rightarrow> 'h world \<Rightarrow> 'a \<times> 'h world" where
  "with_local n body \<sigma> =
     (let p = sp \<sigma> - n in
      case body p (\<sigma>\<lparr>sp := p\<rparr>) of (r, \<sigma>') \<Rightarrow> (r, \<sigma>'\<lparr>sp := sp \<sigma>\<rparr>))"

text \<open>The same with the local initialised to given bytes.\<close>

definition with_bytes ::
  "u8 list \<Rightarrow> (nat \<Rightarrow> 'h world \<Rightarrow> 'a \<times> 'h world) \<Rightarrow> 'h world \<Rightarrow> 'a \<times> 'h world" where
  "with_bytes bs body = with_local (length bs) (\<lambda>p \<sigma>. body p (st_bytes p bs \<sigma>))"

section \<open>File descriptors\<close>

definition socketpair :: "'h world \<Rightarrow> (nat \<times> nat) option \<times> 'h world" where
  "socketpair \<sigma> =
     (case socks \<sigma> of
        [] \<Rightarrow> (None, \<sigma>)
      | None # r \<Rightarrow> (None, \<sigma>\<lparr>socks := r\<rparr>)
      | Some (a, b) # r \<Rightarrow>
          if a = b \<or> a \<in> set (fds \<sigma>) \<or> b \<in> set (fds \<sigma>) then (None, \<sigma>\<lparr>socks := r\<rparr>)
          else (Some (a, b), \<sigma>\<lparr>socks := r, fds := a # b # fds \<sigma>\<rparr>))"

definition close_fd :: "nat \<Rightarrow> 'h world \<Rightarrow> 'h world" where
  "close_fd fd \<sigma> =
     (if fd \<in> set (fds \<sigma>) then \<sigma>\<lparr>fds := remove1 fd (fds \<sigma>)\<rparr> else \<sigma>\<lparr>bad_close := True\<rparr>)"

lemma close_fd_open: "fd \<in> set (fds \<sigma>) \<Longrightarrow> close_fd fd \<sigma> = \<sigma>\<lparr>fds := remove1 fd (fds \<sigma>)\<rparr>"
  by (simp add: close_fd_def)

section \<open>Frames\<close>

text \<open>The parts of the world a host call never touches, and the part of the heap a call that
  keeps nothing must leave as it was.\<close>

definition same_heap :: "'h world \<Rightarrow> 'h world \<Rightarrow> bool" where
  "same_heap \<sigma> \<sigma>' \<longleftrightarrow> live \<sigma>' = live \<sigma> \<and> bad_free \<sigma>' = bad_free \<sigma>"

definition same_fds :: "'h world \<Rightarrow> 'h world \<Rightarrow> bool" where
  "same_fds \<sigma> \<sigma>' \<longleftrightarrow> fds \<sigma>' = fds \<sigma> \<and> bad_close \<sigma>' = bad_close \<sigma>"

lemma same_heap_refl [simp]: "same_heap \<sigma> \<sigma>" by (simp add: same_heap_def)
lemma same_fds_refl [simp]: "same_fds \<sigma> \<sigma>" by (simp add: same_fds_def)
lemma same_heap_trans [trans]: "same_heap a b \<Longrightarrow> same_heap b c \<Longrightarrow> same_heap a c"
  by (simp add: same_heap_def)
lemma same_fds_trans [trans]: "same_fds a b \<Longrightarrow> same_fds b c \<Longrightarrow> same_fds a c"
  by (simp add: same_fds_def)

lemma st_frame [world_frame, simp]:
  "live (store n a v \<sigma>) = live \<sigma>" "brk (store n a v \<sigma>) = brk \<sigma>" "sp (store n a v \<sigma>) = sp \<sigma>"
  "oom (store n a v \<sigma>) = oom \<sigma>" "fds (store n a v \<sigma>) = fds \<sigma>" "bad_free (store n a v \<sigma>) = bad_free \<sigma>"
  "bad_close (store n a v \<sigma>) = bad_close \<sigma>" "server (store n a v \<sigma>) = server \<sigma>" "socks (store n a v \<sigma>) = socks \<sigma>"
  by (simp_all add: store_def)

lemma st_bytes_frame [world_frame, simp]:
  "live (st_bytes a v \<sigma>) = live \<sigma>" "brk (st_bytes a v \<sigma>) = brk \<sigma>" "sp (st_bytes a v \<sigma>) = sp \<sigma>"
  "oom (st_bytes a v \<sigma>) = oom \<sigma>" "fds (st_bytes a v \<sigma>) = fds \<sigma>"
  "bad_free (st_bytes a v \<sigma>) = bad_free \<sigma>" "bad_close (st_bytes a v \<sigma>) = bad_close \<sigma>"
  "server (st_bytes a v \<sigma>) = server \<sigma>" "socks (st_bytes a v \<sigma>) = socks \<sigma>"
  by (simp_all add: st_bytes_def)

lemma malloc_frame [world_frame, simp]:
  "mem (snd (malloc n \<sigma>)) = mem \<sigma>" "sp (snd (malloc n \<sigma>)) = sp \<sigma>"
  "fds (snd (malloc n \<sigma>)) = fds \<sigma>" "bad_free (snd (malloc n \<sigma>)) = bad_free \<sigma>"
  "bad_close (snd (malloc n \<sigma>)) = bad_close \<sigma>" "server (snd (malloc n \<sigma>)) = server \<sigma>"
  "socks (snd (malloc n \<sigma>)) = socks \<sigma>"
  by (simp_all add: malloc_def)

lemma malloc_frameD:
  assumes "malloc n \<sigma> = (p, \<sigma>')"
  shows "mem \<sigma>' = mem \<sigma>" "sp \<sigma>' = sp \<sigma>" "fds \<sigma>' = fds \<sigma>" "bad_free \<sigma>' = bad_free \<sigma>"
    "bad_close \<sigma>' = bad_close \<sigma>" "server \<sigma>' = server \<sigma>" "socks \<sigma>' = socks \<sigma>"
  using assms by (auto simp: malloc_def split: if_splits)

lemma free_frame [world_frame, simp]:
  "mem (free p \<sigma>) = mem \<sigma>" "sp (free p \<sigma>) = sp \<sigma>" "fds (free p \<sigma>) = fds \<sigma>"
  "bad_close (free p \<sigma>) = bad_close \<sigma>" "server (free p \<sigma>) = server \<sigma>" "brk (free p \<sigma>) = brk \<sigma>"
  "oom (free p \<sigma>) = oom \<sigma>" "socks (free p \<sigma>) = socks \<sigma>"
  by (simp_all add: free_def)

lemma close_fd_frame [world_frame, simp]:
  "mem (close_fd p \<sigma>) = mem \<sigma>" "sp (close_fd p \<sigma>) = sp \<sigma>" "live (close_fd p \<sigma>) = live \<sigma>"
  "bad_free (close_fd p \<sigma>) = bad_free \<sigma>" "server (close_fd p \<sigma>) = server \<sigma>" "brk (close_fd p \<sigma>) = brk \<sigma>"
  "oom (close_fd p \<sigma>) = oom \<sigma>"
  by (simp_all add: close_fd_def)

section \<open>Reading what was stored\<close>

lemma ld_st_same [simp]:
  "LENGTH('a) \<le> 8 * n \<Longrightarrow> (ld n a (store n a (v :: 'a::len word) \<sigma>) :: 'a word) = v"
  by (simp add: ld_def store_def)

lemma ld_st_other:
  "a + n \<le> b \<or> b + k \<le> a \<Longrightarrow> ld n a (store k b v \<sigma>) = ld n a \<sigma>"
  by (simp add: ld_def store_def rd_wr_other)

lemma ld_st_bytes_other:
  "a + n \<le> b \<or> b + length bs \<le> a \<Longrightarrow> ld n a (st_bytes b bs \<sigma>) = ld n a \<sigma>"
  by (simp add: ld_def st_bytes_def rd_wr_other)

lemma ld_st_bytes_inside:
  "b \<le> a \<Longrightarrow> a + n \<le> b + length bs \<Longrightarrow>
     ld n a (st_bytes b bs \<sigma>) = le_word (take n (drop (a - b) bs))"
  by (simp add: ld_def st_bytes_def rd_wr_inside)

lemma rd_st_bytes_same [simp]: "length bs = n \<Longrightarrow> rd (mem (st_bytes a bs \<sigma>)) a n = bs"
  by (simp add: st_bytes_def)

lemma ld_free [simp]: "ld n a (free p \<sigma>) = ld n a \<sigma>" by (simp add: ld_def)
lemma ld_close [simp]: "ld n a (close_fd p \<sigma>) = ld n a \<sigma>" by (simp add: ld_def)

section \<open>A concrete start\<close>

text \<open>A process with an empty heap, one open descriptor, and an allocator whose second request fails.\<close>

definition world0 :: "unit world" where
  "world0 = \<lparr>mem = (\<lambda>_. 0), live = (\<lambda>_. None), brk = 4096, sp = stack_top, oom = [False, True],
     socks = [Some (5, 6)], fds = [1], bad_free = False, bad_close = False, server = ()\<rparr>"

lemma world0_ok: "heap_ok world0" "\<not> bad_free world0"
  by (simp_all add: heap_ok_def world0_def heap_top_def)

end
