(* ===== verification/X11Context.thy ===== *)
theory X11Context
  imports World
begin

text \<open>
  Contexts and quarks of \<^verbatim>\<open>tools/x11-64/X11.c\<close>: the client-side association table Xlib keeps
  between a resource id, a context and a pointer.  The table is an array of 1024 bucket lists of
  \<^verbatim>\<open>malloc\<close>ed entries behind a mutex; an entry is modelled with the address of its block, so
  that leaks and double frees are visible in the world.
\<close>

section \<open>Quarks\<close>

text \<open>\<^verbatim>\<open>next_quark\<close> is a static int; the atomic addition wraps.\<close>

definition XrmUniqueQuark :: "c_int \<Rightarrow> c_int \<times> c_int" where
  "XrmUniqueQuark next_quark = (let q = next_quark + 1 in (q, q))"

section \<open>The table\<close>

record bw_context_entry =
  rid :: u64
  ctx :: c_int
  data :: u64

definition entry_bytes :: nat where "entry_bytes = 32"

definition BW_CONTEXT_BUCKETS :: nat where "BW_CONTEXT_BUCKETS = 1024"

record context_lib =
  bw_context_table :: "nat \<Rightarrow> (nat \<times> bw_context_entry) list"
  bw_context_locked :: bool

definition XCNOMEM :: c_int where "XCNOMEM = 1"
definition XCNOENT :: c_int where "XCNOENT = 2"

text \<open>The 64-bit product of the id and the 32-bit product of the context, xored at 64 bits, cut to
  32 and reduced.\<close>

definition bw_context_bucket :: "u64 \<Rightarrow> c_int \<Rightarrow> nat" where
  "bw_context_bucket r c =
     unat (ucast ((r * 2654435761) XOR ucast (c * 40503 :: u32)) :: u32) mod BW_CONTEXT_BUCKETS"

definition entry_matches :: "u64 \<Rightarrow> c_int \<Rightarrow> bw_context_entry \<Rightarrow> bool" where
  "entry_matches r c e \<longleftrightarrow> rid e = r \<and> ctx e = c"

text \<open>The three list walks: set the first match's data, read it, unlink it.\<close>

primrec walk_set :: "u64 \<Rightarrow> c_int \<Rightarrow> u64 \<Rightarrow> (nat \<times> bw_context_entry) list \<Rightarrow> (nat \<times> bw_context_entry) list option" where
  "walk_set r c d [] = None"
| "walk_set r c d (x # xs) =
     (if entry_matches r c (snd x) then Some ((fst x, (snd x)\<lparr>data := d\<rparr>) # xs)
      else map_option ((#) x) (walk_set r c d xs))"

primrec walk_find :: "u64 \<Rightarrow> c_int \<Rightarrow> (nat \<times> bw_context_entry) list \<Rightarrow> u64 option" where
  "walk_find r c [] = None"
| "walk_find r c (x # xs) = (if entry_matches r c (snd x) then Some (data (snd x)) else walk_find r c xs)"

primrec walk_unlink ::
  "u64 \<Rightarrow> c_int \<Rightarrow> (nat \<times> bw_context_entry) list \<Rightarrow> (nat \<times> (nat \<times> bw_context_entry) list) option" where
  "walk_unlink r c [] = None"
| "walk_unlink r c (x # xs) =
     (if entry_matches r c (snd x) then Some (fst x, xs)
      else map_option (\<lambda>(a, ys). (a, x # ys)) (walk_unlink r c xs))"

definition lock_context :: "context_lib \<Rightarrow> context_lib" where
  "lock_context L = L\<lparr>bw_context_locked := True\<rparr>"

definition unlock_context :: "context_lib \<Rightarrow> context_lib" where
  "unlock_context L = L\<lparr>bw_context_locked := False\<rparr>"

definition set_bucket :: "nat \<Rightarrow> (nat \<times> bw_context_entry) list \<Rightarrow> context_lib \<Rightarrow> context_lib" where
  "set_bucket b xs L = L\<lparr>bw_context_table := (bw_context_table L)(b := xs)\<rparr>"

definition XSaveContext ::
  "u64 \<Rightarrow> c_int \<Rightarrow> u64 \<Rightarrow> context_lib \<times> 'h world \<Rightarrow> c_int \<times> context_lib \<times> 'h world" where
  "XSaveContext r c d = (\<lambda>(L, \<sigma>).
     let bucket = bw_context_bucket r c; L1 = lock_context L in
     case walk_set r c d (bw_context_table L1 bucket) of
       Some xs \<Rightarrow> (0, unlock_context (set_bucket bucket xs L1), \<sigma>)
     | None \<Rightarrow>
         (case malloc entry_bytes \<sigma> of (p, \<sigma>') \<Rightarrow>
            if p = 0 then (XCNOMEM, unlock_context L1, \<sigma>')
            else (0, unlock_context (set_bucket bucket
                     ((p, \<lparr>rid = r, ctx = c, data = d\<rparr>) # bw_context_table L1 bucket) L1), \<sigma>')))"

text \<open>The second component is what is stored through \<^verbatim>\<open>data_return\<close>, if anything.\<close>

definition XFindContext ::
  "u64 \<Rightarrow> c_int \<Rightarrow> context_lib \<times> 'h world \<Rightarrow> c_int \<times> u64 option \<times> context_lib \<times> 'h world" where
  "XFindContext r c = (\<lambda>(L, \<sigma>).
     let bucket = bw_context_bucket r c; L1 = lock_context L in
     case walk_find r c (bw_context_table L1 bucket) of
       Some d \<Rightarrow> (0, Some d, unlock_context L1, \<sigma>)
     | None \<Rightarrow> (XCNOENT, None, unlock_context L1, \<sigma>))"

definition XDeleteContext ::
  "u64 \<Rightarrow> c_int \<Rightarrow> context_lib \<times> 'h world \<Rightarrow> c_int \<times> context_lib \<times> 'h world" where
  "XDeleteContext r c = (\<lambda>(L, \<sigma>).
     let bucket = bw_context_bucket r c; L1 = lock_context L in
     case walk_unlink r c (bw_context_table L1 bucket) of
       Some (p, xs) \<Rightarrow> (0, unlock_context (set_bucket bucket xs L1), free p \<sigma>)
     | None \<Rightarrow> (XCNOENT, unlock_context L1, \<sigma>))"

definition context_start :: context_lib where
  "context_start = \<lparr>bw_context_table = (\<lambda>_. []), bw_context_locked = False\<rparr>"

section \<open>Abstraction and invariant\<close>

type_synonym context_map = "u64 \<times> c_int \<Rightarrow> u64 option"

definition context_abs :: "context_lib \<times> 'h world \<Rightarrow> context_map" where
  "context_abs = (\<lambda>(L, \<sigma>) (r, c). walk_find r c (bw_context_table L (bw_context_bucket r c)))"

definition keys_of :: "(nat \<times> bw_context_entry) list \<Rightarrow> (u64 \<times> c_int) list" where
  "keys_of xs = map (\<lambda>x. (rid (snd x), ctx (snd x))) xs"

text \<open>Every entry sits in the bucket its key hashes to, once; its block is live, of the size of an
  entry, and belongs to no other entry; the mutex is free and no bad \<^verbatim>\<open>free\<close> has happened.\<close>

definition context_inv :: "context_lib \<times> 'h world \<Rightarrow> bool" where
  "context_inv = (\<lambda>(L, \<sigma>).
     heap_ok \<sigma> \<and> \<not> bad_free \<sigma> \<and> \<not> bw_context_locked L \<and>
     (\<forall>b. distinct (keys_of (bw_context_table L b))) \<and>
     (\<forall>b p e. (p, e) \<in> set (bw_context_table L b) \<longrightarrow>
        b = bw_context_bucket (rid e) (ctx e) \<and> live \<sigma> p = Some entry_bytes) \<and>
     (\<forall>b b' p e e'. (p, e) \<in> set (bw_context_table L b) \<longrightarrow> (p, e') \<in> set (bw_context_table L b') \<longrightarrow> e = e'))"

lemma context_start_inv:
  "heap_ok \<sigma> \<Longrightarrow> \<not> bad_free \<sigma> \<Longrightarrow> context_inv (context_start, \<sigma>)"
  by (simp add: context_inv_def context_start_def keys_of_def)

section \<open>The list walks\<close>

lemma walk_find_None: "walk_find r c xs = None \<longleftrightarrow> (r, c) \<notin> set (keys_of xs)"
  by (induction xs) (auto simp: keys_of_def entry_matches_def)

lemma walk_find_append:
  "walk_find r c (xs @ ys) = (case walk_find r c xs of None \<Rightarrow> walk_find r c ys | Some d \<Rightarrow> Some d)"
  by (induction xs) auto

lemma walk_set_None: "walk_set r c d xs = None \<longleftrightarrow> (r, c) \<notin> set (keys_of xs)"
  by (induction xs) (auto simp: keys_of_def entry_matches_def)

lemma walk_set_Some:
  "walk_set r c d xs = Some ys \<Longrightarrow>
   \<exists>as p e bs. xs = as @ (p, e) # bs \<and> ys = as @ (p, e\<lparr>data := d\<rparr>) # bs \<and>
     rid e = r \<and> ctx e = c \<and> (r, c) \<notin> set (keys_of as)"
proof (induction xs arbitrary: ys)
  case (Cons x xs)
  show ?case
  proof (cases "entry_matches r c (snd x)")
    case True
    then show ?thesis using Cons.prems
      by (intro exI [of _ "[]"] exI [of _ "fst x"] exI [of _ "snd x"] exI [of _ xs])
         (auto simp: entry_matches_def keys_of_def)
  next
    case False
    then obtain zs where z: "walk_set r c d xs = Some zs" "ys = x # zs" using Cons.prems by auto
    from Cons.IH [OF z(1)] obtain as p e bs where s: "xs = as @ (p, e) # bs"
      "zs = as @ (p, e\<lparr>data := d\<rparr>) # bs" "rid e = r" "ctx e = c" "(r, c) \<notin> set (keys_of as)" by blast
    then show ?thesis using False z(2)
      by (intro exI [of _ "x # as"] exI [of _ p] exI [of _ e] exI [of _ bs])
         (auto simp: keys_of_def entry_matches_def)
  qed
qed simp

lemma walk_unlink_None: "walk_unlink r c xs = None \<longleftrightarrow> (r, c) \<notin> set (keys_of xs)"
  by (induction xs) (auto simp: keys_of_def entry_matches_def)

lemma walk_unlink_Some:
  "walk_unlink r c xs = Some (p, ys) \<Longrightarrow>
   \<exists>as e bs. xs = as @ (p, e) # bs \<and> ys = as @ bs \<and> rid e = r \<and> ctx e = c \<and> (r, c) \<notin> set (keys_of as)"
proof (induction xs arbitrary: ys)
  case (Cons x xs)
  show ?case
  proof (cases "entry_matches r c (snd x)")
    case True
    then show ?thesis using Cons.prems
      by (intro exI [of _ "[]"] exI [of _ "snd x"] exI [of _ xs]) (auto simp: entry_matches_def keys_of_def)
  next
    case False
    then obtain zs where z: "walk_unlink r c xs = Some (p, zs)" "ys = x # zs" using Cons.prems by auto
    from Cons.IH [OF z(1)] obtain as e bs where s: "xs = as @ (p, e) # bs"
      "zs = as @ bs" "rid e = r" "ctx e = c" "(r, c) \<notin> set (keys_of as)" by blast
    then show ?thesis using False z(2)
      by (intro exI [of _ "x # as"] exI [of _ e] exI [of _ bs])
         (auto simp: keys_of_def entry_matches_def)
  qed
qed simp

lemma walk_find_cong_other:
  "rid e = r \<Longrightarrow> ctx e = c \<Longrightarrow> (r', c') \<noteq> (r, c) \<Longrightarrow>
     walk_find r' c' (as @ (p, e) # bs) = walk_find r' c' (as @ bs)"
  by (auto simp: walk_find_append entry_matches_def split: option.splits)

lemma keys_of_append: "keys_of (as @ bs) = keys_of as @ keys_of bs" by (simp add: keys_of_def)

lemma keys_of_Cons: "keys_of (x # xs) = (rid (snd x), ctx (snd x)) # keys_of xs" by (simp add: keys_of_def)

lemmas context_simps = lock_context_def unlock_context_def set_bucket_def Let_def
lemmas keys_simps = keys_of_append keys_of_Cons

section \<open>The contract of a context store\<close>

text \<open>What an Xlib client may assume of the three calls: a map from (id, context) to a pointer, that
  a save may refuse only a new association, for want of memory, and refusing changes nothing.\<close>

locale context_store =
  fixes save :: "u64 \<Rightarrow> c_int \<Rightarrow> u64 \<Rightarrow> 's \<Rightarrow> c_int \<times> 's"
    and find :: "u64 \<Rightarrow> c_int \<Rightarrow> 's \<Rightarrow> c_int \<times> u64 option \<times> 's"
    and delete :: "u64 \<Rightarrow> c_int \<Rightarrow> 's \<Rightarrow> c_int \<times> 's"
    and invar :: "'s \<Rightarrow> bool"
    and abs :: "'s \<Rightarrow> context_map"
  assumes save_ok: "invar s \<Longrightarrow> save r c d s = (0, s') \<Longrightarrow> invar s' \<and> abs s' = (abs s)((r, c) := Some d)"
    and save_refused: "invar s \<Longrightarrow> save r c d s = (k, s') \<Longrightarrow> k \<noteq> 0 \<Longrightarrow>
      k = XCNOMEM \<and> abs s (r, c) = None \<and> invar s' \<and> abs s' = abs s"
    and find_result: "invar s \<Longrightarrow> find r c s = (k, v, s') \<Longrightarrow>
      invar s' \<and> abs s' = abs s \<and> v = abs s (r, c) \<and> k = (if v = None then XCNOENT else 0)"
    and delete_result: "invar s \<Longrightarrow> delete r c s = (k, s') \<Longrightarrow>
      invar s' \<and> abs s' = (abs s)((r, c) := None) \<and> k = (if abs s (r, c) = None then XCNOENT else 0)"

datatype context_op = Save u64 c_int u64 | Find u64 c_int | Delete u64 c_int

text \<open>A client's sequence of calls, with the codes and values it gets back.\<close>

primrec context_run ::
  "(u64 \<Rightarrow> c_int \<Rightarrow> u64 \<Rightarrow> 's \<Rightarrow> c_int \<times> 's) \<Rightarrow> (u64 \<Rightarrow> c_int \<Rightarrow> 's \<Rightarrow> c_int \<times> u64 option \<times> 's) \<Rightarrow>
   (u64 \<Rightarrow> c_int \<Rightarrow> 's \<Rightarrow> c_int \<times> 's) \<Rightarrow> context_op list \<Rightarrow> 's \<Rightarrow> (c_int \<times> u64 option) list \<times> 's" where
  "context_run sv fd dl [] s = ([], s)"
| "context_run sv fd dl (x # xs) s =
     (let (res, s1) = (case x of
          Save r c d \<Rightarrow> (case sv r c d s of (k, s') \<Rightarrow> ((k, None), s'))
        | Find r c \<Rightarrow> (case fd r c s of (k, v, s') \<Rightarrow> ((k, v), s'))
        | Delete r c \<Rightarrow> (case dl r c s of (k, s') \<Rightarrow> ((k, None), s')));
        (rs, s2) = context_run sv fd dl xs s1
      in (res # rs, s2))"

text \<open>The specification machine: a map, and which answers it allows.\<close>

fun context_spec :: "context_map \<Rightarrow> context_op list \<Rightarrow> (c_int \<times> u64 option) list \<Rightarrow> context_map option" where
  "context_spec M [] [] = Some M"
| "context_spec M (Save r c d # xs) (res # rs) =
     (if res = (0, None) then context_spec (M((r, c) := Some d)) xs rs
      else if res = (XCNOMEM, None) \<and> M (r, c) = None then context_spec M xs rs
      else None)"
| "context_spec M (Find r c # xs) (res # rs) =
     (if res = (if M (r, c) = None then XCNOENT else 0, M (r, c)) then context_spec M xs rs else None)"
| "context_spec M (Delete r c # xs) (res # rs) =
     (if res = (if M (r, c) = None then XCNOENT else 0, None) then context_spec (M((r, c) := None)) xs rs else None)"
| "context_spec _ _ _ = None"

context context_store
begin

lemma run_refines:
  "invar s \<Longrightarrow> context_run save find delete ops s = (rs, s') \<Longrightarrow>
     context_spec (abs s) ops rs = Some (abs s') \<and> invar s'"
proof (induction ops arbitrary: s rs)
  case (Cons x xs)
  show ?case
  proof (cases x)
    case (Save r c d)
    obtain k s1 where k: "save r c d s = (k, s1)" by (cases "save r c d s")
    obtain rs1 where r: "context_run save find delete xs s1 = (rs1, s')" "rs = (k, None) # rs1"
      using Cons.prems(2) Save k by (auto split: prod.splits)
    show ?thesis
      using Cons.IH [OF _ r(1)] save_ok [of s r c d s1] save_refused [OF _ k] Cons.prems(1) Save k r(2)
      by (cases "k = 0") (auto simp: XCNOMEM_def fun_upd_def)
  next
    case (Find r c)
    obtain k v s1 where k: "find r c s = (k, v, s1)" by (cases "find r c s") auto
    obtain rs1 where r: "context_run save find delete xs s1 = (rs1, s')" "rs = (k, v) # rs1"
      using Cons.prems(2) Find k by (auto split: prod.splits)
    show ?thesis
      using Cons.IH [OF _ r(1)] find_result [OF Cons.prems(1) k] Find r(2) by auto
  next
    case (Delete r c)
    obtain k s1 where k: "delete r c s = (k, s1)" by (cases "delete r c s")
    obtain rs1 where r: "context_run save find delete xs s1 = (rs1, s')" "rs = (k, None) # rs1"
      using Cons.prems(2) Delete k by (auto split: prod.splits)
    show ?thesis
      using Cons.IH [OF _ r(1)] delete_result [OF Cons.prems(1) k] Delete r(2)
      by (auto simp: fun_upd_def)
  qed
qed simp

end

section \<open>The table provides it\<close>

lemma context_abs_set:
  assumes "bw_context_table L (bw_context_bucket r c) = as @ (p, e) # bs"
    "rid e = r" "ctx e = c" "(r, c) \<notin> set (keys_of as)"
  shows "context_abs (set_bucket (bw_context_bucket r c) (as @ (p, e\<lparr>data := d\<rparr>) # bs) L, \<sigma>')
       = (context_abs (L, \<sigma>))((r, c) := Some d)"
proof (rule ext, clarify)
  fix r' c'
  have n: "walk_find r c as = None" using assms(4) by (simp add: walk_find_None)
  show "context_abs (set_bucket (bw_context_bucket r c) (as @ (p, e\<lparr>data := d\<rparr>) # bs) L, \<sigma>') (r', c')
      = ((context_abs (L, \<sigma>))((r, c) := Some d)) (r', c')"
    using assms n walk_find_cong_other [of "e\<lparr>data := d\<rparr>" r c r' c' as p bs]
      walk_find_cong_other [of e r c r' c' as p bs]
    by (auto simp: context_abs_def set_bucket_def walk_find_append entry_matches_def)
qed

lemma context_abs_push:
  assumes "(r, c) \<notin> set (keys_of (bw_context_table L (bw_context_bucket r c)))"
  shows "context_abs (set_bucket (bw_context_bucket r c)
           ((p, \<lparr>rid = r, ctx = c, data = d\<rparr>) # bw_context_table L (bw_context_bucket r c)) L, \<sigma>')
       = (context_abs (L, \<sigma>))((r, c) := Some d)"
  by (rule ext) (auto simp: context_abs_def set_bucket_def entry_matches_def split: if_splits)

lemma context_abs_unlink:
  assumes "bw_context_table L (bw_context_bucket r c) = as @ (p, e) # bs"
    "rid e = r" "ctx e = c" "distinct (keys_of (bw_context_table L (bw_context_bucket r c)))"
  shows "context_abs (set_bucket (bw_context_bucket r c) (as @ bs) L, \<sigma>') = (context_abs (L, \<sigma>))((r, c) := None)"
proof (rule ext, clarify)
  fix r' c'
  have "walk_find r c (as @ bs) = None"
    using assms by (auto simp: walk_find_None keys_simps)
  then show "context_abs (set_bucket (bw_context_bucket r c) (as @ bs) L, \<sigma>') (r', c')
      = ((context_abs (L, \<sigma>))((r, c) := None)) (r', c')"
    using assms walk_find_cong_other [of e r c r' c' as p bs]
    by (auto simp: context_abs_def set_bucket_def)
qed

lemma context_abs_locks [simp]:
  "context_abs (unlock_context L, \<sigma>) = context_abs (L, \<sigma>)"
  "context_abs (lock_context L, \<sigma>) = context_abs (L, \<sigma>)"
  "bw_context_table (lock_context L) = bw_context_table L"
  "bw_context_table (unlock_context L) = bw_context_table L"
  "set_bucket b xs (lock_context L) = lock_context (set_bucket b xs L)"
  "\<not> bw_context_locked (unlock_context L)"
  by (simp_all add: context_abs_def lock_context_def unlock_context_def set_bucket_def)

lemma context_abs_world: "context_abs (L, \<sigma>') = context_abs (L, \<sigma>)"
  by (simp add: context_abs_def)

lemma context_invD:
  assumes "context_inv (L, \<sigma>)"
  shows "heap_ok \<sigma>" "\<not> bad_free \<sigma>" "\<not> bw_context_locked L" "distinct (keys_of (bw_context_table L b))"
    "(p, e) \<in> set (bw_context_table L b) \<Longrightarrow> b = bw_context_bucket (rid e) (ctx e)"
    "(p, e) \<in> set (bw_context_table L b) \<Longrightarrow> live \<sigma> p = Some entry_bytes"
    "(p, e) \<in> set (bw_context_table L b) \<Longrightarrow> (p, e') \<in> set (bw_context_table L b') \<Longrightarrow> e = e'"
  using assms unfolding context_inv_def by blast+

text \<open>An entry's block belongs to no other place of the table.\<close>

lemma context_block_once:
  assumes I: "context_inv (L, \<sigma>)" and B: "bw_context_table L b = as @ (p, e) # bs"
  shows "(p, e') \<in> set (bw_context_table L b') \<Longrightarrow> b' = b"
    and "(p, e') \<notin> set as" "(p, e') \<notin> set bs"
proof -
  have m: "(p, e) \<in> set (bw_context_table L b)" by (simp add: B)
  show "b' = b" if "(p, e') \<in> set (bw_context_table L b')"
    using context_invD(5) [OF I that] context_invD(5) [OF I m] context_invD(7) [OF I m that] by simp
  have d: "(rid e, ctx e) \<notin> set (keys_of as)" "(rid e, ctx e) \<notin> set (keys_of bs)"
    using context_invD(4) [OF I, of b] by (auto simp: B keys_simps)
  have e: "e' = e" if "(p, e') \<in> set as \<union> set bs"
    using context_invD(7) [OF I m, of e' b] that by (auto simp: B)
  show "(p, e') \<notin> set as" "(p, e') \<notin> set bs"
    using d e by (force simp: keys_of_def)+
qed

lemma context_inv_set:
  assumes I: "context_inv (L, \<sigma>)" and B: "bw_context_table L b = as @ (p, e) # bs"
  shows "context_inv (unlock_context (set_bucket b (as @ (p, e\<lparr>data := d\<rparr>) # bs) L), \<sigma>)"
proof -
  let ?T = "bw_context_table (set_bucket b (as @ (p, e\<lparr>data := d\<rparr>) # bs) L)"
  have old: "(q = p \<and> x = e\<lparr>data := d\<rparr> \<and> c = b) \<or> (q \<noteq> p \<and> (q, x) \<in> set (bw_context_table L c))"
    if "(q, x) \<in> set (?T c)" for q x c
    using that context_block_once [OF I B] B by (fastforce simp: set_bucket_def split: if_splits)
  have m: "(p, e) \<in> set (bw_context_table L b)" by (simp add: B)
  have "distinct (keys_of (?T c))" for c
    using context_invD(4) [OF I, of c] B by (auto simp: set_bucket_def keys_simps)
  moreover have "c = bw_context_bucket (rid x) (ctx x) \<and> live \<sigma> q = Some entry_bytes"
    if "(q, x) \<in> set (?T c)" for q x c
    using old [OF that] context_invD(5,6) [OF I m] context_invD(5,6) [OF I, of q x c] by auto
  moreover have "x = y" if "(q, x) \<in> set (?T c)" "(q, y) \<in> set (?T c')" for q x y c c'
    using old [OF that(1)] old [OF that(2)] context_invD(7) [OF I] by auto
  ultimately show ?thesis
    using context_invD(1,2) [OF I] unfolding context_inv_def
    by (simp add: unlock_context_def) blast
qed

lemma context_inv_push:
  assumes I: "context_inv (L, \<sigma>)" and m: "malloc entry_bytes \<sigma> = (p, \<sigma>')" "p \<noteq> 0"
    and n: "(r, c) \<notin> set (keys_of (bw_context_table L (bw_context_bucket r c)))"
  shows "context_inv (unlock_context (set_bucket (bw_context_bucket r c)
           ((p, \<lparr>rid = r, ctx = c, data = d\<rparr>) # bw_context_table L (bw_context_bucket r c)) L), \<sigma>')"
proof -
  let ?b = "bw_context_bucket r c"
  let ?e = "\<lparr>rid = r, ctx = c, data = d\<rparr>"
  let ?T = "bw_context_table (set_bucket ?b ((p, ?e) # bw_context_table L ?b) L)"
  note H = context_invD(1) [OF I]
  note fresh = malloc_fresh [OF H m]
  have np: "(p, x) \<notin> set (bw_context_table L b)" for x b
    using context_invD(6) [OF I, of p x b] fresh(1) by auto
  have old: "(q = p \<and> x = ?e \<and> b = ?b) \<or> (q \<noteq> p \<and> (q, x) \<in> set (bw_context_table L b))"
    if "(q, x) \<in> set (?T b)" for q x b
    using that np by (auto simp: set_bucket_def split: if_splits)
  have "distinct (keys_of (?T b))" for b
    using context_invD(4) [OF I, of b] n by (auto simp: set_bucket_def keys_simps)
  moreover have "b = bw_context_bucket (rid x) (ctx x) \<and> live \<sigma>' q = Some entry_bytes"
    if "(q, x) \<in> set (?T b)" for q x b
    using old [OF that] context_invD(5,6) [OF I, of q x b] fresh(2) by auto
  moreover have "x = y" if "(q, x) \<in> set (?T b)" "(q, y) \<in> set (?T b')" for q x y b b'
    using old [OF that(1)] old [OF that(2)] context_invD(7) [OF I] by auto
  moreover have "heap_ok \<sigma>'" "\<not> bad_free \<sigma>'"
    using malloc_heap_ok [OF H, of entry_bytes] malloc_frame(4) [of entry_bytes \<sigma>] m context_invD(2) [OF I]
    by simp_all
  ultimately show ?thesis
    unfolding context_inv_def by (simp add: unlock_context_def) blast
qed

lemma context_inv_unlink:
  assumes I: "context_inv (L, \<sigma>)" and B: "bw_context_table L b = as @ (p, e) # bs"
  shows "context_inv (unlock_context (set_bucket b (as @ bs) L), free p \<sigma>)"
    and "live (free p \<sigma>) = (live \<sigma>)(p := None)"
proof -
  let ?T = "bw_context_table (set_bucket b (as @ bs) L)"
  have m: "(p, e) \<in> set (bw_context_table L b)" by (simp add: B)
  have l: "live \<sigma> p = Some entry_bytes" using context_invD(6) [OF I m] .
  have "p \<noteq> 0" using l context_invD(1) [OF I] by (fastforce simp: heap_ok_def)
  then have f: "free p \<sigma> = \<sigma>\<lparr>live := (live \<sigma>)(p := None)\<rparr>" using free_live l by blast
  then show "live (free p \<sigma>) = (live \<sigma>)(p := None)" by simp
  have old: "q \<noteq> p \<and> (q, x) \<in> set (bw_context_table L c)" if "(q, x) \<in> set (?T c)" for q x c
    using that context_block_once [OF I B] B by (fastforce simp: set_bucket_def split: if_splits)
  have "distinct (keys_of (?T c))" for c
    using context_invD(4) [OF I, of c] B by (auto simp: set_bucket_def keys_simps)
  moreover have "c = bw_context_bucket (rid x) (ctx x) \<and> live (free p \<sigma>) q = Some entry_bytes"
    if "(q, x) \<in> set (?T c)" for q x c
    using old [OF that] context_invD(5,6) [OF I, of q x c] f by auto
  moreover have "x = y" if "(q, x) \<in> set (?T c)" "(q, y) \<in> set (?T c')" for q x y c c'
    using old [OF that(1)] old [OF that(2)] context_invD(7) [OF I] by auto
  moreover have "heap_ok (free p \<sigma>)" using free_heap_ok context_invD(1) [OF I] .
  moreover have "\<not> bad_free (free p \<sigma>)" using context_invD(2) [OF I] f by simp
  ultimately show "context_inv (unlock_context (set_bucket b (as @ bs) L), free p \<sigma>)"
    unfolding context_inv_def by (simp add: unlock_context_def) blast
qed

lemma unlock_lock: "\<not> bw_context_locked L \<Longrightarrow> unlock_context (lock_context L) = L"
  by (cases L) (simp add: unlock_context_def lock_context_def)

lemma unlock_set_lock [simp]:
  "unlock_context (lock_context L) = unlock_context L"
  by (simp add: unlock_context_def lock_context_def)

lemma context_inv_unlock: "context_inv (L, \<sigma>) \<Longrightarrow> unlock_context L = L"
  using unlock_lock context_invD(3) by fastforce

lemma context_inv_oom [simp]: "context_inv (L, \<sigma>\<lparr>oom := x\<rparr>) = context_inv (L, \<sigma>)"
  by (simp add: context_inv_def heap_ok_def)

text \<open>The three calls by cases.\<close>

lemma XSaveContext_cases:
  assumes "context_inv (L, \<sigma>)" and S: "XSaveContext r c d (L, \<sigma>) = (k, L', \<sigma>')"
  obtains (update) as p e bs where "bw_context_table L (bw_context_bucket r c) = as @ (p, e) # bs"
      "rid e = r" "ctx e = c" "(r, c) \<notin> set (keys_of as)" "k = 0" "\<sigma>' = \<sigma>"
      "L' = unlock_context (set_bucket (bw_context_bucket r c) (as @ (p, e\<lparr>data := d\<rparr>) # bs) L)"
  | (insert) p where "(r, c) \<notin> set (keys_of (bw_context_table L (bw_context_bucket r c)))"
      "malloc entry_bytes \<sigma> = (p, \<sigma>')" "p \<noteq> 0" "k = 0"
      "L' = unlock_context (set_bucket (bw_context_bucket r c)
              ((p, \<lparr>rid = r, ctx = c, data = d\<rparr>) # bw_context_table L (bw_context_bucket r c)) L)"
  | (nomem) "(r, c) \<notin> set (keys_of (bw_context_table L (bw_context_bucket r c)))"
      "k = XCNOMEM" "L' = L" "\<sigma>' = \<sigma>\<lparr>oom := tl (oom \<sigma>)\<rparr>"
proof (cases "walk_set r c d (bw_context_table L (bw_context_bucket r c))")
  case (Some ys)
  with S have "k = 0" "\<sigma>' = \<sigma>" "L' = unlock_context (set_bucket (bw_context_bucket r c) ys L)"
    by (simp_all add: XSaveContext_def Let_def)
  with walk_set_Some [OF Some] update show ?thesis by blast
next
  case None
  then have n: "(r, c) \<notin> set (keys_of (bw_context_table L (bw_context_bucket r c)))"
    by (simp only: walk_set_None not_False_eq_True)
  obtain p \<sigma>1 where m: "malloc entry_bytes \<sigma> = (p, \<sigma>1)" by (cases "malloc entry_bytes \<sigma>")
  show ?thesis
  proof (cases "p = 0")
    case True
    with S None m have "k = XCNOMEM" "L' = L" "\<sigma>' = \<sigma>1"
      using context_inv_unlock [OF assms(1)] by (simp_all add: XSaveContext_def Let_def)
    moreover have "\<sigma>1 = \<sigma>\<lparr>oom := tl (oom \<sigma>)\<rparr>"
      using malloc_fail m True context_invD(1) [OF assms(1)] by blast
    ultimately show ?thesis using nomem n by blast
  next
    case False
    with S None m have "k = 0" "\<sigma>' = \<sigma>1"
      "L' = unlock_context (set_bucket (bw_context_bucket r c)
              ((p, \<lparr>rid = r, ctx = c, data = d\<rparr>) # bw_context_table L (bw_context_bucket r c)) L)"
      by (simp_all add: XSaveContext_def Let_def)
    then show ?thesis using insert n m False by blast
  qed
qed

lemma XDeleteContext_cases:
  assumes "context_inv (L, \<sigma>)" and S: "XDeleteContext r c (L, \<sigma>) = (k, L', \<sigma>')"
  obtains (found) as p e bs where "bw_context_table L (bw_context_bucket r c) = as @ (p, e) # bs"
      "rid e = r" "ctx e = c" "k = 0" "\<sigma>' = free p \<sigma>"
      "L' = unlock_context (set_bucket (bw_context_bucket r c) (as @ bs) L)"
  | (absent) "(r, c) \<notin> set (keys_of (bw_context_table L (bw_context_bucket r c)))"
      "k = XCNOENT" "L' = L" "\<sigma>' = \<sigma>"
proof (cases "walk_unlink r c (bw_context_table L (bw_context_bucket r c))")
  case (Some x)
  obtain p ys where x: "x = (p, ys)" by (cases x)
  with S Some have "k = 0" "\<sigma>' = free p \<sigma>" "L' = unlock_context (set_bucket (bw_context_bucket r c) ys L)"
    by (simp_all add: XDeleteContext_def Let_def)
  with walk_unlink_Some [OF Some [unfolded x]] found show ?thesis by blast
next
  case None
  then have "(r, c) \<notin> set (keys_of (bw_context_table L (bw_context_bucket r c)))"
    by (simp only: walk_unlink_None not_False_eq_True)
  moreover have "k = XCNOENT" "L' = L" "\<sigma>' = \<sigma>"
    using S None context_inv_unlock [OF assms(1)] by (simp_all add: XDeleteContext_def Let_def)
  ultimately show ?thesis using absent by blast
qed

lemma context_abs_None: "context_abs (L, \<sigma>) (r, c) = None \<longleftrightarrow>
    (r, c) \<notin> set (keys_of (bw_context_table L (bw_context_bucket r c)))"
  by (simp add: context_abs_def walk_find_None)

interpretation contexts: context_store XSaveContext XFindContext XDeleteContext context_inv context_abs
proof (unfold_locales, goal_cases)
  case (1 s r c d s')
  obtain L \<sigma> L' \<sigma>' where s: "s = (L, \<sigma>)" "s' = (L', \<sigma>')" by (cases s, cases s')
  from 1(1) have I: "context_inv (L, \<sigma>)" by (simp add: s)
  from 1(2) have "XSaveContext r c d (L, \<sigma>) = (0, L', \<sigma>')" by (simp add: s)
  with I show ?case
  proof (cases rule: XSaveContext_cases)
    case (update as p e bs)
    then show ?thesis
      using context_inv_set [OF I update(1)] context_abs_set [OF update(1-4)] by (simp add: s)
  next
    case (insert p)
    then show ?thesis
      using context_inv_push [OF I insert(2,3,1)] context_abs_push [OF insert(1)] by (simp add: s)
  qed (simp add: XCNOMEM_def)
next
  case (2 s r c d k s')
  obtain L \<sigma> L' \<sigma>' where s: "s = (L, \<sigma>)" "s' = (L', \<sigma>')" by (cases s, cases s')
  from 2(1) have I: "context_inv (L, \<sigma>)" by (simp add: s)
  from 2(2) have "XSaveContext r c d (L, \<sigma>) = (k, L', \<sigma>')" by (simp add: s)
  with I show ?case
  proof (cases rule: XSaveContext_cases)
    case nomem
    then show ?thesis
      using I context_abs_world [of L \<sigma>'] by (simp add: s context_abs_None)
  qed (use 2(3) in simp_all)
next
  case (3 s r c k v s')
  obtain L \<sigma> where s: "s = (L, \<sigma>)" by (cases s)
  then have "context_inv (L, \<sigma>)" using 3(1) by simp
  then have "s' = s" "v = context_abs s (r, c)" "k = (if v = None then XCNOENT else 0)"
    using 3(2) context_inv_unlock [of L \<sigma>]
    by (auto simp: s XFindContext_def Let_def context_abs_def split: option.splits)
  then show ?case using 3(1) by simp
next
  case (4 s r c k s')
  obtain L \<sigma> L' \<sigma>' where s: "s = (L, \<sigma>)" "s' = (L', \<sigma>')" by (cases s, cases s')
  from 4(1) have I: "context_inv (L, \<sigma>)" by (simp add: s)
  from 4(2) have "XDeleteContext r c (L, \<sigma>) = (k, L', \<sigma>')" by (simp add: s)
  with I show ?case
  proof (cases rule: XDeleteContext_cases)
    case (found as p e bs)
    have "context_abs (L, \<sigma>) (r, c) \<noteq> None"
      unfolding context_abs_None found(1) using found(2,3) by (simp add: keys_simps)
    then show ?thesis
      using context_inv_unlink [OF I found(1)] found
        context_abs_unlink [OF found(1-3) context_invD(4) [OF I]] by (auto simp: s)
  next
    case absent
    then have "context_abs (L, \<sigma>) (r, c) = None" by (simp add: context_abs_None)
    then show ?thesis using absent I by (auto simp: s fun_upd_idem)
  qed
qed

section \<open>Properties\<close>

text \<open>C4: a session of context calls, from the start of the process and with allocations
  failing at any point, gives exactly the answers of a map from (id, context) to pointers; the
  mutex is released after every call and no block is freed twice.\<close>

theorem context_session:
  assumes "heap_ok \<sigma>" "\<not> bad_free \<sigma>"
    and "context_run XSaveContext XFindContext XDeleteContext ops (context_start, \<sigma>) = (rs, s')"
  shows "context_spec (\<lambda>_. None) ops rs = Some (context_abs s') \<and> context_inv s'"
proof -
  have "context_abs (context_start, \<sigma>) = (\<lambda>_. None)"
    by (rule ext) (auto simp: context_abs_def context_start_def)
  then show ?thesis
    using contexts.run_refines [OF context_start_inv [OF assms(1,2)] assms(3)] by simp
qed

theorem context_session_witness:
  "context_spec (\<lambda>_. None) [Save 7 1 100, Save 8 1 200, Find 7 1, Delete 7 1, Find 7 1]
     [(0, None), (XCNOMEM, None), (0, Some 100), (0, None), (XCNOENT, None)] \<noteq> None"
proof -
  have "fst (context_run XSaveContext XFindContext XDeleteContext
      [Save 7 1 100, Save 8 1 200, Find 7 1, Delete 7 1, Find 7 1] (context_start, world0)) =
      [(0, None), (XCNOMEM, None), (0, Some 100), (0, None), (XCNOENT, None)]"
    by (simp add: XSaveContext_def XFindContext_def XDeleteContext_def context_start_def world0_def
        malloc_def alloc_fails_def heap_top_def entry_bytes_def context_simps entry_matches_def
        bw_context_bucket_def BW_CONTEXT_BUCKETS_def free_def XCNOMEM_def XCNOENT_def)
  then show ?thesis
    using context_session [OF world0_ok,
        of "[Save 7 1 100, Save 8 1 200, Find 7 1, Delete 7 1, Find 7 1]"]
    by (metis option.distinct(1) prod.collapse)
qed

text \<open>Deleting an association that was just saved gives back the table and the set of live
  blocks as they were before the save.\<close>

theorem save_delete_roundtrip:
  assumes "context_inv (L, \<sigma>)" "context_abs (L, \<sigma>) (r, c) = None"
    and "XSaveContext r c d (L, \<sigma>) = (0, L1, \<sigma>1)"
    and "XDeleteContext r c (L1, \<sigma>1) = (k, L2, \<sigma>2)"
  shows "k = 0 \<and> L2 = L \<and> live \<sigma>2 = live \<sigma> \<and> \<not> bad_free \<sigma>2"
  using assms(1,3)
proof (cases rule: XSaveContext_cases)
  case (update as p e bs)
  then show ?thesis using assms(2) by (simp add: context_abs_None keys_simps)
next
  case (insert p)
  note f = malloc_fresh [OF context_invD(1) [OF assms(1)] insert(2,3)]
  have "bad_free \<sigma>1 = bad_free \<sigma>" using insert(2) malloc_frame(4) by (metis snd_conv)
  then show ?thesis
    using assms(4) insert f context_invD(2,3) [OF assms(1)]
    by (auto simp: XDeleteContext_def Let_def unlock_context_def set_bucket_def entry_matches_def
        free_def fun_upd_idem)
qed (simp add: XCNOMEM_def)

lemma save_delete_roundtrip_witness:
  "case XSaveContext 7 1 100 (context_start, world0) of (_, s1) \<Rightarrow>
     fst (XDeleteContext 7 1 s1) = 0 \<and> live (snd (snd (XDeleteContext 7 1 s1))) = live world0"
proof -
  obtain k L1 \<sigma>1 where s: "XSaveContext 7 1 100 (context_start, world0) = (k, L1, \<sigma>1)" by (metis surj_pair)
  obtain k' L2 \<sigma>2 where d: "XDeleteContext 7 1 (L1, \<sigma>1) = (k', L2, \<sigma>2)" by (metis surj_pair)
  have "fst (XSaveContext 7 1 100 (context_start, world0)) = 0"
    by (simp add: XSaveContext_def context_start_def world0_def malloc_def alloc_fails_def heap_top_def
        entry_bytes_def lock_context_def)
  then have "k = 0" using s by simp
  moreover have "context_inv (context_start, world0)" using world0_ok by (rule context_start_inv)
  moreover have "context_abs (context_start, world0) (7, 1) = None" by (simp add: context_abs_def context_start_def)
  ultimately show ?thesis using save_delete_roundtrip [of context_start world0 7 1 100 L1 \<sigma>1 k' L2 \<sigma>2] s d by simp
qed

end
