(* ===== verification/X11Protocol.thy ===== *)
theory X11Protocol
  imports World
begin

text \<open>
  The wire contract between the guest libX11 and the host: the operation table, the error codes
  and the argument limit of \<^verbatim>\<open>include/boxedwine_x64_x11_bridge.h\<close>, and the admission policy
  of \<^verbatim>\<open>include/x11_bridge64_policy.h\<close> that decides whether a call is dispatched at all.
\<close>

section \<open>Operation table\<close>

text \<open>An operation is its position in the table; the text is what diagnostics print.\<close>

definition bridge_ops :: "(string \<times> string) list" where
  "bridge_ops =
    [(''INIT_THREADS'', ''init-threads''),
     (''OPEN_DISPLAY'', ''open-display''),
     (''CLOSE_DISPLAY'', ''close-display''),
     (''GRAB_SERVER'', ''grab-server''),
     (''UNGRAB_SERVER'', ''ungrab-server''),
     (''SYNC'', ''sync''),
     (''FLUSH'', ''flush''),
     (''INTERN_ATOM'', ''intern-atom''),
     (''INTERN_ATOMS'', ''intern-atoms''),
     (''GET_ATOM_NAME'', ''get-atom-name''),
     (''CREATE_WINDOW'', ''create-window''),
     (''DESTROY_WINDOW'', ''destroy-window''),
     (''MAP_WINDOW'', ''map-window''),
     (''UNMAP_WINDOW'', ''unmap-window''),
     (''SELECT_INPUT'', ''select-input''),
     (''MOVE_RESIZE_WINDOW'', ''move-resize-window''),
     (''CONFIGURE_WINDOW'', ''configure-window''),
     (''CHANGE_WINDOW_ATTRIBUTES'', ''change-window-attributes''),
     (''GET_WINDOW_ATTRIBUTES'', ''get-window-attributes''),
     (''REPARENT_WINDOW'', ''reparent-window''),
     (''TRANSLATE_COORDINATES'', ''translate-coordinates''),
     (''GET_GEOMETRY'', ''get-geometry''),
     (''QUERY_TREE'', ''query-tree''),
     (''WITHDRAW_WINDOW'', ''withdraw-window''),
     (''ICONIFY_WINDOW'', ''iconify-window''),
     (''SET_INPUT_FOCUS'', ''set-input-focus''),
     (''GET_INPUT_FOCUS'', ''get-input-focus''),
     (''SET_TRANSIENT_FOR_HINT'', ''set-transient-for-hint''),
     (''CLEAR_AREA'', ''clear-area''),
     (''CHANGE_PROPERTY'', ''change-property''),
     (''GET_WINDOW_PROPERTY'', ''get-window-property''),
     (''DELETE_PROPERTY'', ''delete-property''),
     (''SET_WM_HINTS'', ''set-wm-hints''),
     (''GET_WM_HINTS'', ''get-wm-hints''),
     (''SET_WM_NORMAL_HINTS'', ''set-wm-normal-hints''),
     (''GET_WM_NORMAL_HINTS'', ''get-wm-normal-hints''),
     (''SET_TEXT_PROPERTY'', ''set-text-property''),
     (''LOCK_EVENTS'', ''lock-events''),
     (''GET_EVENT'', ''get-event''),
     (''REMOVE_EVENT'', ''remove-event''),
     (''UNLOCK_EVENTS'', ''unlock-events''),
     (''CHECK_TYPED_WINDOW_EVENT'', ''check-typed-window-event''),
     (''SEND_EVENT'', ''send-event''),
     (''PUT_BACK_EVENT'', ''put-back-event''),
     (''GRAB_POINTER'', ''grab-pointer''),
     (''UNGRAB_POINTER'', ''ungrab-pointer''),
     (''WARP_POINTER'', ''warp-pointer''),
     (''QUERY_POINTER'', ''query-pointer''),
     (''CREATE_COLORMAP'', ''create-colormap''),
     (''FREE_COLORMAP'', ''free-colormap''),
     (''ALLOC_COLOR'', ''alloc-color''),
     (''ALLOC_COLOR_CELLS'', ''alloc-color-cells''),
     (''FREE_COLORS'', ''free-colors''),
     (''QUERY_COLOR'', ''query-color''),
     (''QUERY_COLORS'', ''query-colors''),
     (''STORE_COLOR'', ''store-color''),
     (''CREATE_GC'', ''create-gc''),
     (''FREE_GC'', ''free-gc''),
     (''CHANGE_GC'', ''change-gc''),
     (''SET_GC_VALUE'', ''set-gc-value''),
     (''SET_CLIP_RECTANGLES'', ''set-clip-rectangles''),
     (''COPY_AREA'', ''copy-area''),
     (''DRAW_LINE'', ''draw-line''),
     (''DRAW_RECTANGLE'', ''draw-rectangle''),
     (''FILL_RECTANGLE'', ''fill-rectangle''),
     (''PUT_IMAGE'', ''put-image''),
     (''GET_IMAGE'', ''get-image''),
     (''CREATE_PIXMAP'', ''create-pixmap''),
     (''CREATE_BITMAP_FROM_DATA'', ''create-bitmap-from-data''),
     (''FREE_PIXMAP'', ''free-pixmap''),
     (''CREATE_FONT_CURSOR'', ''create-font-cursor''),
     (''CREATE_PIXMAP_CURSOR'', ''create-pixmap-cursor''),
     (''DEFINE_CURSOR'', ''define-cursor''),
     (''FREE_CURSOR'', ''free-cursor''),
     (''GET_KEYBOARD_MAPPING'', ''get-keyboard-mapping''),
     (''GET_MODIFIER_MAPPING'', ''get-modifier-mapping''),
     (''KEYSYM_TO_KEYCODE'', ''keysym-to-keycode''),
     (''KEYCODE_TO_KEYSYM'', ''keycode-to-keysym''),
     (''KEYSYM_TO_STRING'', ''keysym-to-string''),
     (''LOOKUP_STRING'', ''lookup-string''),
     (''KB_TRANSLATE_KEYSYM'', ''kb-translate-keysym''),
     (''LOOKUP_KEYSYM'', ''lookup-keysym''),
     (''QUERY_EXTENSION'', ''query-extension''),
     (''SET_SELECTION_OWNER'', ''set-selection-owner''),
     (''GET_SELECTION_OWNER'', ''get-selection-owner''),
     (''CONVERT_SELECTION'', ''convert-selection''),
     (''REPORT_UNIMPLEMENTED'', ''report-unimplemented''),
     (''TRACE'', ''trace''),
     (''RANDR_GET_STATE'', ''randr-get-state''),
     (''RANDR_SET_MODE'', ''randr-set-mode'')]"

definition OP_COUNT :: nat where "OP_COUNT = length bridge_ops"

lemma OP_COUNT_eq [simp]: "OP_COUNT = 90"
  by (simp add: OP_COUNT_def bridge_ops_def)

text \<open>The enumeration generated from the table.\<close>

abbreviation (input) OP_INIT_THREADS :: nat where "OP_INIT_THREADS \<equiv> 0"
abbreviation (input) OP_OPEN_DISPLAY :: nat where "OP_OPEN_DISPLAY \<equiv> 1"
abbreviation (input) OP_CLOSE_DISPLAY :: nat where "OP_CLOSE_DISPLAY \<equiv> 2"
abbreviation (input) OP_GRAB_SERVER :: nat where "OP_GRAB_SERVER \<equiv> 3"
abbreviation (input) OP_UNGRAB_SERVER :: nat where "OP_UNGRAB_SERVER \<equiv> 4"
abbreviation (input) OP_SYNC :: nat where "OP_SYNC \<equiv> 5"
abbreviation (input) OP_FLUSH :: nat where "OP_FLUSH \<equiv> 6"
abbreviation (input) OP_INTERN_ATOM :: nat where "OP_INTERN_ATOM \<equiv> 7"
abbreviation (input) OP_INTERN_ATOMS :: nat where "OP_INTERN_ATOMS \<equiv> 8"
abbreviation (input) OP_GET_ATOM_NAME :: nat where "OP_GET_ATOM_NAME \<equiv> 9"
abbreviation (input) OP_CREATE_WINDOW :: nat where "OP_CREATE_WINDOW \<equiv> 10"
abbreviation (input) OP_DESTROY_WINDOW :: nat where "OP_DESTROY_WINDOW \<equiv> 11"
abbreviation (input) OP_MAP_WINDOW :: nat where "OP_MAP_WINDOW \<equiv> 12"
abbreviation (input) OP_UNMAP_WINDOW :: nat where "OP_UNMAP_WINDOW \<equiv> 13"
abbreviation (input) OP_SELECT_INPUT :: nat where "OP_SELECT_INPUT \<equiv> 14"
abbreviation (input) OP_MOVE_RESIZE_WINDOW :: nat where "OP_MOVE_RESIZE_WINDOW \<equiv> 15"
abbreviation (input) OP_CONFIGURE_WINDOW :: nat where "OP_CONFIGURE_WINDOW \<equiv> 16"
abbreviation (input) OP_CHANGE_WINDOW_ATTRIBUTES :: nat where "OP_CHANGE_WINDOW_ATTRIBUTES \<equiv> 17"
abbreviation (input) OP_GET_WINDOW_ATTRIBUTES :: nat where "OP_GET_WINDOW_ATTRIBUTES \<equiv> 18"
abbreviation (input) OP_REPARENT_WINDOW :: nat where "OP_REPARENT_WINDOW \<equiv> 19"
abbreviation (input) OP_TRANSLATE_COORDINATES :: nat where "OP_TRANSLATE_COORDINATES \<equiv> 20"
abbreviation (input) OP_GET_GEOMETRY :: nat where "OP_GET_GEOMETRY \<equiv> 21"
abbreviation (input) OP_QUERY_TREE :: nat where "OP_QUERY_TREE \<equiv> 22"
abbreviation (input) OP_WITHDRAW_WINDOW :: nat where "OP_WITHDRAW_WINDOW \<equiv> 23"
abbreviation (input) OP_ICONIFY_WINDOW :: nat where "OP_ICONIFY_WINDOW \<equiv> 24"
abbreviation (input) OP_SET_INPUT_FOCUS :: nat where "OP_SET_INPUT_FOCUS \<equiv> 25"
abbreviation (input) OP_GET_INPUT_FOCUS :: nat where "OP_GET_INPUT_FOCUS \<equiv> 26"
abbreviation (input) OP_SET_TRANSIENT_FOR_HINT :: nat where "OP_SET_TRANSIENT_FOR_HINT \<equiv> 27"
abbreviation (input) OP_CLEAR_AREA :: nat where "OP_CLEAR_AREA \<equiv> 28"
abbreviation (input) OP_CHANGE_PROPERTY :: nat where "OP_CHANGE_PROPERTY \<equiv> 29"
abbreviation (input) OP_GET_WINDOW_PROPERTY :: nat where "OP_GET_WINDOW_PROPERTY \<equiv> 30"
abbreviation (input) OP_DELETE_PROPERTY :: nat where "OP_DELETE_PROPERTY \<equiv> 31"
abbreviation (input) OP_SET_WM_HINTS :: nat where "OP_SET_WM_HINTS \<equiv> 32"
abbreviation (input) OP_GET_WM_HINTS :: nat where "OP_GET_WM_HINTS \<equiv> 33"
abbreviation (input) OP_SET_WM_NORMAL_HINTS :: nat where "OP_SET_WM_NORMAL_HINTS \<equiv> 34"
abbreviation (input) OP_GET_WM_NORMAL_HINTS :: nat where "OP_GET_WM_NORMAL_HINTS \<equiv> 35"
abbreviation (input) OP_SET_TEXT_PROPERTY :: nat where "OP_SET_TEXT_PROPERTY \<equiv> 36"
abbreviation (input) OP_LOCK_EVENTS :: nat where "OP_LOCK_EVENTS \<equiv> 37"
abbreviation (input) OP_GET_EVENT :: nat where "OP_GET_EVENT \<equiv> 38"
abbreviation (input) OP_REMOVE_EVENT :: nat where "OP_REMOVE_EVENT \<equiv> 39"
abbreviation (input) OP_UNLOCK_EVENTS :: nat where "OP_UNLOCK_EVENTS \<equiv> 40"
abbreviation (input) OP_CHECK_TYPED_WINDOW_EVENT :: nat where "OP_CHECK_TYPED_WINDOW_EVENT \<equiv> 41"
abbreviation (input) OP_SEND_EVENT :: nat where "OP_SEND_EVENT \<equiv> 42"
abbreviation (input) OP_PUT_BACK_EVENT :: nat where "OP_PUT_BACK_EVENT \<equiv> 43"
abbreviation (input) OP_GRAB_POINTER :: nat where "OP_GRAB_POINTER \<equiv> 44"
abbreviation (input) OP_UNGRAB_POINTER :: nat where "OP_UNGRAB_POINTER \<equiv> 45"
abbreviation (input) OP_WARP_POINTER :: nat where "OP_WARP_POINTER \<equiv> 46"
abbreviation (input) OP_QUERY_POINTER :: nat where "OP_QUERY_POINTER \<equiv> 47"
abbreviation (input) OP_CREATE_COLORMAP :: nat where "OP_CREATE_COLORMAP \<equiv> 48"
abbreviation (input) OP_FREE_COLORMAP :: nat where "OP_FREE_COLORMAP \<equiv> 49"
abbreviation (input) OP_ALLOC_COLOR :: nat where "OP_ALLOC_COLOR \<equiv> 50"
abbreviation (input) OP_ALLOC_COLOR_CELLS :: nat where "OP_ALLOC_COLOR_CELLS \<equiv> 51"
abbreviation (input) OP_FREE_COLORS :: nat where "OP_FREE_COLORS \<equiv> 52"
abbreviation (input) OP_QUERY_COLOR :: nat where "OP_QUERY_COLOR \<equiv> 53"
abbreviation (input) OP_QUERY_COLORS :: nat where "OP_QUERY_COLORS \<equiv> 54"
abbreviation (input) OP_STORE_COLOR :: nat where "OP_STORE_COLOR \<equiv> 55"
abbreviation (input) OP_CREATE_GC :: nat where "OP_CREATE_GC \<equiv> 56"
abbreviation (input) OP_FREE_GC :: nat where "OP_FREE_GC \<equiv> 57"
abbreviation (input) OP_CHANGE_GC :: nat where "OP_CHANGE_GC \<equiv> 58"
abbreviation (input) OP_SET_GC_VALUE :: nat where "OP_SET_GC_VALUE \<equiv> 59"
abbreviation (input) OP_SET_CLIP_RECTANGLES :: nat where "OP_SET_CLIP_RECTANGLES \<equiv> 60"
abbreviation (input) OP_COPY_AREA :: nat where "OP_COPY_AREA \<equiv> 61"
abbreviation (input) OP_DRAW_LINE :: nat where "OP_DRAW_LINE \<equiv> 62"
abbreviation (input) OP_DRAW_RECTANGLE :: nat where "OP_DRAW_RECTANGLE \<equiv> 63"
abbreviation (input) OP_FILL_RECTANGLE :: nat where "OP_FILL_RECTANGLE \<equiv> 64"
abbreviation (input) OP_PUT_IMAGE :: nat where "OP_PUT_IMAGE \<equiv> 65"
abbreviation (input) OP_GET_IMAGE :: nat where "OP_GET_IMAGE \<equiv> 66"
abbreviation (input) OP_CREATE_PIXMAP :: nat where "OP_CREATE_PIXMAP \<equiv> 67"
abbreviation (input) OP_CREATE_BITMAP_FROM_DATA :: nat where "OP_CREATE_BITMAP_FROM_DATA \<equiv> 68"
abbreviation (input) OP_FREE_PIXMAP :: nat where "OP_FREE_PIXMAP \<equiv> 69"
abbreviation (input) OP_CREATE_FONT_CURSOR :: nat where "OP_CREATE_FONT_CURSOR \<equiv> 70"
abbreviation (input) OP_CREATE_PIXMAP_CURSOR :: nat where "OP_CREATE_PIXMAP_CURSOR \<equiv> 71"
abbreviation (input) OP_DEFINE_CURSOR :: nat where "OP_DEFINE_CURSOR \<equiv> 72"
abbreviation (input) OP_FREE_CURSOR :: nat where "OP_FREE_CURSOR \<equiv> 73"
abbreviation (input) OP_GET_KEYBOARD_MAPPING :: nat where "OP_GET_KEYBOARD_MAPPING \<equiv> 74"
abbreviation (input) OP_GET_MODIFIER_MAPPING :: nat where "OP_GET_MODIFIER_MAPPING \<equiv> 75"
abbreviation (input) OP_KEYSYM_TO_KEYCODE :: nat where "OP_KEYSYM_TO_KEYCODE \<equiv> 76"
abbreviation (input) OP_KEYCODE_TO_KEYSYM :: nat where "OP_KEYCODE_TO_KEYSYM \<equiv> 77"
abbreviation (input) OP_KEYSYM_TO_STRING :: nat where "OP_KEYSYM_TO_STRING \<equiv> 78"
abbreviation (input) OP_LOOKUP_STRING :: nat where "OP_LOOKUP_STRING \<equiv> 79"
abbreviation (input) OP_KB_TRANSLATE_KEYSYM :: nat where "OP_KB_TRANSLATE_KEYSYM \<equiv> 80"
abbreviation (input) OP_LOOKUP_KEYSYM :: nat where "OP_LOOKUP_KEYSYM \<equiv> 81"
abbreviation (input) OP_QUERY_EXTENSION :: nat where "OP_QUERY_EXTENSION \<equiv> 82"
abbreviation (input) OP_SET_SELECTION_OWNER :: nat where "OP_SET_SELECTION_OWNER \<equiv> 83"
abbreviation (input) OP_GET_SELECTION_OWNER :: nat where "OP_GET_SELECTION_OWNER \<equiv> 84"
abbreviation (input) OP_CONVERT_SELECTION :: nat where "OP_CONVERT_SELECTION \<equiv> 85"
abbreviation (input) OP_REPORT_UNIMPLEMENTED :: nat where "OP_REPORT_UNIMPLEMENTED \<equiv> 86"
abbreviation (input) OP_TRACE :: nat where "OP_TRACE \<equiv> 87"
abbreviation (input) OP_RANDR_GET_STATE :: nat where "OP_RANDR_GET_STATE \<equiv> 88"
abbreviation (input) OP_RANDR_SET_MODE :: nat where "OP_RANDR_SET_MODE \<equiv> 89"

definition op_enum :: "(string \<times> nat) list" where
  "op_enum =
    [(''INIT_THREADS'', OP_INIT_THREADS),
     (''OPEN_DISPLAY'', OP_OPEN_DISPLAY),
     (''CLOSE_DISPLAY'', OP_CLOSE_DISPLAY),
     (''GRAB_SERVER'', OP_GRAB_SERVER),
     (''UNGRAB_SERVER'', OP_UNGRAB_SERVER),
     (''SYNC'', OP_SYNC),
     (''FLUSH'', OP_FLUSH),
     (''INTERN_ATOM'', OP_INTERN_ATOM),
     (''INTERN_ATOMS'', OP_INTERN_ATOMS),
     (''GET_ATOM_NAME'', OP_GET_ATOM_NAME),
     (''CREATE_WINDOW'', OP_CREATE_WINDOW),
     (''DESTROY_WINDOW'', OP_DESTROY_WINDOW),
     (''MAP_WINDOW'', OP_MAP_WINDOW),
     (''UNMAP_WINDOW'', OP_UNMAP_WINDOW),
     (''SELECT_INPUT'', OP_SELECT_INPUT),
     (''MOVE_RESIZE_WINDOW'', OP_MOVE_RESIZE_WINDOW),
     (''CONFIGURE_WINDOW'', OP_CONFIGURE_WINDOW),
     (''CHANGE_WINDOW_ATTRIBUTES'', OP_CHANGE_WINDOW_ATTRIBUTES),
     (''GET_WINDOW_ATTRIBUTES'', OP_GET_WINDOW_ATTRIBUTES),
     (''REPARENT_WINDOW'', OP_REPARENT_WINDOW),
     (''TRANSLATE_COORDINATES'', OP_TRANSLATE_COORDINATES),
     (''GET_GEOMETRY'', OP_GET_GEOMETRY),
     (''QUERY_TREE'', OP_QUERY_TREE),
     (''WITHDRAW_WINDOW'', OP_WITHDRAW_WINDOW),
     (''ICONIFY_WINDOW'', OP_ICONIFY_WINDOW),
     (''SET_INPUT_FOCUS'', OP_SET_INPUT_FOCUS),
     (''GET_INPUT_FOCUS'', OP_GET_INPUT_FOCUS),
     (''SET_TRANSIENT_FOR_HINT'', OP_SET_TRANSIENT_FOR_HINT),
     (''CLEAR_AREA'', OP_CLEAR_AREA),
     (''CHANGE_PROPERTY'', OP_CHANGE_PROPERTY),
     (''GET_WINDOW_PROPERTY'', OP_GET_WINDOW_PROPERTY),
     (''DELETE_PROPERTY'', OP_DELETE_PROPERTY),
     (''SET_WM_HINTS'', OP_SET_WM_HINTS),
     (''GET_WM_HINTS'', OP_GET_WM_HINTS),
     (''SET_WM_NORMAL_HINTS'', OP_SET_WM_NORMAL_HINTS),
     (''GET_WM_NORMAL_HINTS'', OP_GET_WM_NORMAL_HINTS),
     (''SET_TEXT_PROPERTY'', OP_SET_TEXT_PROPERTY),
     (''LOCK_EVENTS'', OP_LOCK_EVENTS),
     (''GET_EVENT'', OP_GET_EVENT),
     (''REMOVE_EVENT'', OP_REMOVE_EVENT),
     (''UNLOCK_EVENTS'', OP_UNLOCK_EVENTS),
     (''CHECK_TYPED_WINDOW_EVENT'', OP_CHECK_TYPED_WINDOW_EVENT),
     (''SEND_EVENT'', OP_SEND_EVENT),
     (''PUT_BACK_EVENT'', OP_PUT_BACK_EVENT),
     (''GRAB_POINTER'', OP_GRAB_POINTER),
     (''UNGRAB_POINTER'', OP_UNGRAB_POINTER),
     (''WARP_POINTER'', OP_WARP_POINTER),
     (''QUERY_POINTER'', OP_QUERY_POINTER),
     (''CREATE_COLORMAP'', OP_CREATE_COLORMAP),
     (''FREE_COLORMAP'', OP_FREE_COLORMAP),
     (''ALLOC_COLOR'', OP_ALLOC_COLOR),
     (''ALLOC_COLOR_CELLS'', OP_ALLOC_COLOR_CELLS),
     (''FREE_COLORS'', OP_FREE_COLORS),
     (''QUERY_COLOR'', OP_QUERY_COLOR),
     (''QUERY_COLORS'', OP_QUERY_COLORS),
     (''STORE_COLOR'', OP_STORE_COLOR),
     (''CREATE_GC'', OP_CREATE_GC),
     (''FREE_GC'', OP_FREE_GC),
     (''CHANGE_GC'', OP_CHANGE_GC),
     (''SET_GC_VALUE'', OP_SET_GC_VALUE),
     (''SET_CLIP_RECTANGLES'', OP_SET_CLIP_RECTANGLES),
     (''COPY_AREA'', OP_COPY_AREA),
     (''DRAW_LINE'', OP_DRAW_LINE),
     (''DRAW_RECTANGLE'', OP_DRAW_RECTANGLE),
     (''FILL_RECTANGLE'', OP_FILL_RECTANGLE),
     (''PUT_IMAGE'', OP_PUT_IMAGE),
     (''GET_IMAGE'', OP_GET_IMAGE),
     (''CREATE_PIXMAP'', OP_CREATE_PIXMAP),
     (''CREATE_BITMAP_FROM_DATA'', OP_CREATE_BITMAP_FROM_DATA),
     (''FREE_PIXMAP'', OP_FREE_PIXMAP),
     (''CREATE_FONT_CURSOR'', OP_CREATE_FONT_CURSOR),
     (''CREATE_PIXMAP_CURSOR'', OP_CREATE_PIXMAP_CURSOR),
     (''DEFINE_CURSOR'', OP_DEFINE_CURSOR),
     (''FREE_CURSOR'', OP_FREE_CURSOR),
     (''GET_KEYBOARD_MAPPING'', OP_GET_KEYBOARD_MAPPING),
     (''GET_MODIFIER_MAPPING'', OP_GET_MODIFIER_MAPPING),
     (''KEYSYM_TO_KEYCODE'', OP_KEYSYM_TO_KEYCODE),
     (''KEYCODE_TO_KEYSYM'', OP_KEYCODE_TO_KEYSYM),
     (''KEYSYM_TO_STRING'', OP_KEYSYM_TO_STRING),
     (''LOOKUP_STRING'', OP_LOOKUP_STRING),
     (''KB_TRANSLATE_KEYSYM'', OP_KB_TRANSLATE_KEYSYM),
     (''LOOKUP_KEYSYM'', OP_LOOKUP_KEYSYM),
     (''QUERY_EXTENSION'', OP_QUERY_EXTENSION),
     (''SET_SELECTION_OWNER'', OP_SET_SELECTION_OWNER),
     (''GET_SELECTION_OWNER'', OP_GET_SELECTION_OWNER),
     (''CONVERT_SELECTION'', OP_CONVERT_SELECTION),
     (''REPORT_UNIMPLEMENTED'', OP_REPORT_UNIMPLEMENTED),
     (''TRACE'', OP_TRACE),
     (''RANDR_GET_STATE'', OP_RANDR_GET_STATE),
     (''RANDR_SET_MODE'', OP_RANDR_SET_MODE)]"

text \<open>Results below zero.\<close>

definition E_BADOP :: s64 where "E_BADOP = - 1"
definition E_BUFFER :: s64 where "E_BUFFER = - 2"
definition E_FAULT :: s64 where "E_FAULT = - 3"
definition E_ARGS :: s64 where "E_ARGS = - 4"
definition E_UNIMPL :: s64 where "E_UNIMPL = - 5"
definition E_DISPLAY :: s64 where "E_DISPLAY = - 6"

lemmas error_defs = E_BADOP_def E_BUFFER_def E_FAULT_def E_ARGS_def E_UNIMPL_def E_DISPLAY_def

definition MAX_ARGS :: nat where "MAX_ARGS = 16"

lemma error_neg [simp]:
  "sint E_BADOP = -1" "sint E_BUFFER = -2" "sint E_FAULT = -3" "sint E_ARGS = -4"
  "sint E_UNIMPL = -5" "sint E_DISPLAY = -6"
  by (simp_all add: error_defs)

section \<open>Admission\<close>

text \<open>The guest page table as the policy sees it: the address of a page and whether write access
  is wanted.\<close>

type_synonym probe = "u64 \<Rightarrow> bool \<Rightarrow> bool"

definition kX11Bridge64CanonicalLimit :: u64 where "kX11Bridge64CanonicalLimit = 0x0000800000000000"
definition kX11Bridge64PageSize :: u64 where "kX11Bridge64PageSize = 4096"

text \<open>The page walk.  The source increments the page until it equals the page of the last byte;
  both are page aligned, so that takes as many steps as there are pages between them
  (\<^verbatim>\<open>range_pages_end\<close>).\<close>

primrec range_walk :: "probe \<Rightarrow> bool \<Rightarrow> u64 \<Rightarrow> nat \<Rightarrow> bool" where
  "range_walk pr w page 0 = pr page w"
| "range_walk pr w page (Suc n) = (if \<not> pr page w then False else range_walk pr w (page + kX11Bridge64PageSize) n)"

definition page_of :: "u64 \<Rightarrow> u64" where
  "page_of a = a AND NOT (kX11Bridge64PageSize - 1)"

definition x11Bridge64RangeAccessible :: "probe \<Rightarrow> u64 \<Rightarrow> u64 \<Rightarrow> bool \<Rightarrow> bool" where
  "x11Bridge64RangeAccessible pr address len write =
     (if len = 0 then True
      else if address = 0 then False
      else if kX11Bridge64CanonicalLimit \<le> address \<or> kX11Bridge64CanonicalLimit - address < len then False
      else let first = page_of address; last = page_of (address + len - 1)
           in range_walk pr write first (unat ((last - first) div kX11Bridge64PageSize)))"

datatype admission = Admitted | UnknownOperation | BadArgumentCount | ArgumentArrayFault

definition x11Bridge64OpName :: "u64 \<Rightarrow> string option" where
  "x11Bridge64OpName op = (if unat op < OP_COUNT then Some (snd (bridge_ops ! unat op)) else None)"

definition x11Bridge64KnownOp :: "u64 \<Rightarrow> bool" where
  "x11Bridge64KnownOp op \<longleftrightarrow> unat op < OP_COUNT"

text \<open>Decode: the decision, and the sixteen argument slots (zero where the caller passed
  fewer).\<close>

primrec read_args :: "memory \<Rightarrow> nat \<Rightarrow> nat \<Rightarrow> u64 list" where
  "read_args m a 0 = []"
| "read_args m a (Suc n) = le_word (rd m a 8) # read_args m (a + 8) n"

definition x11Bridge64Decode ::
  "probe \<Rightarrow> u64 \<Rightarrow> u64 \<Rightarrow> u64 \<Rightarrow> memory \<Rightarrow> admission \<times> u64 list" where
  "x11Bridge64Decode pr op argsAddress count m =
     (let none = replicate MAX_ARGS 0 in
      if \<not> x11Bridge64KnownOp op then (UnknownOperation, none)
      else if MAX_ARGS < unat count then (BadArgumentCount, none)
      else if count \<noteq> 0 \<and> \<not> x11Bridge64RangeAccessible pr argsAddress (count * 8) True
        then (ArgumentArrayFault, none)
      else (Admitted, read_args m (unat argsAddress) (unat count) @ replicate (MAX_ARGS - unat count) 0))"

fun x11Bridge64AdmissionResult :: "admission \<Rightarrow> s64" where
  "x11Bridge64AdmissionResult Admitted = 0"
| "x11Bridge64AdmissionResult UnknownOperation = E_BADOP"
| "x11Bridge64AdmissionResult BadArgumentCount = E_ARGS"
| "x11Bridge64AdmissionResult ArgumentArrayFault = E_FAULT"

section \<open>The page walk covers exactly the bytes of the range\<close>

lemma page_of_alt: "page_of a = push_bit 12 (drop_bit 12 a)"
proof -
  have m: "kX11Bridge64PageSize - 1 = mask 12"
    by (simp add: kX11Bridge64PageSize_def mask_eq_exp_minus_1)
  show ?thesis
    unfolding page_of_def m by (rule bit_word_eqI) (auto simp: bit_simps)
qed

lemma unat_page_of: "unat (page_of a) = unat a div 4096 * 4096"
proof -
  have "unat a div 4096 * 4096 \<le> unat a" by simp
  moreover have u: "unat a < 2 ^ 64" using unsigned_less [of a] by simp
  ultimately have lt: "unat a div 4096 * 4096 < 2 ^ 64" by (rule le_less_trans)
  have "unat (page_of a) = take_bit 64 (push_bit 12 (drop_bit 12 (take_bit 64 (unat a))))"
    unfolding page_of_alt unsigned_push_bit_eq unsigned_drop_bit_eq by simp
  also have "take_bit 64 (unat a) = unat a" using u by (simp add: take_bit_eq_mod)
  also have "push_bit 12 (drop_bit 12 (unat a)) = unat a div 4096 * 4096"
    by (simp add: push_bit_eq_mult drop_bit_eq_div)
  finally show ?thesis using lt by (simp only: take_bit_eq_mod mod_less)
qed

text \<open>The page with a given index.\<close>

definition page_at :: "nat \<Rightarrow> u64" where "page_at i = word_of_nat (i * 4096)"

lemma page_of_page_at: "page_of a = page_at (unat a div 4096)"
  by (simp add: page_at_def flip: unat_page_of)

lemma page_at_Suc: "page_at i + kX11Bridge64PageSize = page_at (Suc i)"
  by (simp add: page_at_def kX11Bridge64PageSize_def)

lemma range_walk_iff: "range_walk pr w (page_at i) n \<longleftrightarrow> (\<forall>k \<le> n. pr (page_at (i + k)) w)"
proof (induction n arbitrary: i)
  case (Suc n)
  have "(\<forall>k \<le> Suc n. pr (page_at (i + k)) w) \<longleftrightarrow>
        pr (page_at i) w \<and> (\<forall>k \<le> n. pr (page_at (Suc i + k)) w)"
    by (metis (no_types, lifting) Suc_le_mono add.right_neutral add_Suc add_Suc_right le0 not0_implies_Suc)
  then show ?case by (simp add: Suc.IH page_at_Suc)
qed simp

lemma page_at_diff:
  assumes "i \<le> j" "j * 4096 < 2 ^ 64"
  shows "unat ((page_at j - page_at i) div kX11Bridge64PageSize) = j - i"
proof -
  have "unat (page_at j) = j * 4096" "unat (page_at i) = i * 4096"
    unfolding page_at_def unat_of_nat using assms by (auto simp: take_bit_eq_mod)
  moreover from this have "page_at i \<le> page_at j" using assms by (simp add: word_le_nat_alt)
  ultimately have "unat (page_at j - page_at i) = (j - i) * 4096"
    by (simp add: unat_sub diff_mult_distrib)
  then show ?thesis by (simp add: unat_div kX11Bridge64PageSize_def)
qed

text \<open>The policy's walk, in terms of the bytes it protects.\<close>

definition bytes_accessible :: "probe \<Rightarrow> bool \<Rightarrow> nat \<Rightarrow> nat \<Rightarrow> bool" where
  "bytes_accessible pr w a n \<longleftrightarrow> (\<forall>b. a \<le> b \<longrightarrow> b < a + n \<longrightarrow> pr (page_at (b div 4096)) w)"

lemma all_pages_iff_bytes:
  assumes "0 < (n::nat)"
  shows "(\<forall>k \<le> (a + n - 1) div 4096 - a div 4096. Q (a div 4096 + k)) \<longleftrightarrow>
         (\<forall>b. a \<le> b \<longrightarrow> b < a + n \<longrightarrow> Q (b div 4096))" (is "?L \<longleftrightarrow> ?R")
proof
  assume L: ?L
  show ?R
  proof (intro allI impI)
    fix b assume b: "a \<le> b" "b < a + n"
    then have "a div 4096 \<le> b div 4096" "b div 4096 \<le> (a + n - 1) div 4096"
      by (auto intro!: div_le_mono)
    then show "Q (b div 4096)"
      using L [rule_format, OF diff_le_mono, of "b div 4096"] by simp
  qed
next
  assume R: ?R
  show ?L
  proof (intro allI impI)
    fix k assume k: "k \<le> (a + n - 1) div 4096 - a div 4096"
    show "Q (a div 4096 + k)"
    proof (cases "k = 0")
      case True
      then show ?thesis using R assms by (metis add.right_neutral le_refl less_add_same_cancel1)
    next
      case False
      let ?b = "(a div 4096 + k) * 4096"
      have "a = a div 4096 * 4096 + a mod 4096" "a mod 4096 < 4096" by simp_all
      then have "a \<le> ?b" using False by (cases k) (simp_all add: algebra_simps)
      moreover have "?b \<le> a + n - 1"
      proof -
        have "a div 4096 + k \<le> (a + n - 1) div 4096" using k False by linarith
        then have "?b \<le> (a + n - 1) div 4096 * 4096" by (rule mult_le_mono1)
        also have "\<dots> \<le> a + n - 1" by simp
        finally show ?thesis .
      qed
      ultimately show ?thesis using R [rule_format, of ?b] assms by simp
    qed
  qed
qed

lemma x11Bridge64RangeAccessible_iff:
  "x11Bridge64RangeAccessible pr address len w \<longleftrightarrow>
     len = 0 \<or> address \<noteq> 0 \<and> unat address + unat len \<le> 2 ^ 47 \<and>
       bytes_accessible pr w (unat address) (unat len)"
proof (cases "len = 0 \<or> address = 0")
  case True
  then show ?thesis by (auto simp: x11Bridge64RangeAccessible_def)
next
  case False
  let ?A = "unat address" and ?L = "unat len"
  have L: "0 < ?L" using False by (simp add: unat_gt_0)
  have lim: "unat kX11Bridge64CanonicalLimit = 2 ^ 47" by (simp add: kX11Bridge64CanonicalLimit_def)
  have guard: "(kX11Bridge64CanonicalLimit \<le> address \<or> kX11Bridge64CanonicalLimit - address < len)
      \<longleftrightarrow> \<not> ?A + ?L \<le> 2 ^ 47"
  proof (cases "kX11Bridge64CanonicalLimit \<le> address")
    case True
    then show ?thesis using lim L by (simp add: word_le_nat_alt)
  next
    case F: False
    then have "unat (kX11Bridge64CanonicalLimit - address) = 2 ^ 47 - ?A"
      using lim by (simp add: unat_sub not_le order_less_imp_le)
    then show ?thesis using F lim by (auto simp: word_less_nat_alt word_le_nat_alt)
  qed
  show ?thesis
  proof (cases "?A + ?L \<le> 2 ^ 47")
    case False
    then show ?thesis using guard L \<open>\<not> (len = 0 \<or> address = 0)\<close>
      by (simp add: x11Bridge64RangeAccessible_def)
  next
    case True
    have "address + len - 1 = word_of_nat (?A + ?L - 1)"
      using L by (simp add: of_nat_diff)
    then have last: "unat (address + len - 1) = ?A + ?L - 1"
      using True by (simp add: unat_of_nat)
    have "unat ((page_at ((?A + ?L - 1) div 4096) - page_at (?A div 4096)) div kX11Bridge64PageSize)
        = (?A + ?L - 1) div 4096 - ?A div 4096"
      by (rule page_at_diff) (use True L in \<open>auto intro!: div_le_mono\<close>)
    then show ?thesis
      using True guard \<open>\<not> (len = 0 \<or> address = 0)\<close> all_pages_iff_bytes [OF L, of ?A "\<lambda>i. pr (page_at i) w"]
      by (simp add: x11Bridge64RangeAccessible_def page_of_page_at last range_walk_iff
          bytes_accessible_def Let_def)
  qed
qed

end
