(* ===== verification/X11Bridge.thy ===== *)
theory X11Bridge
  imports X11Protocol
begin

text \<open>
  Both ends of the private system call.  The guest end is \<^verbatim>\<open>bw_call\<close> and \<^verbatim>\<open>bw_sized\<close> of
  \<^verbatim>\<open>tools/x11-64/X11.c\<close>; the host end is \<^verbatim>\<open>x11Bridge64\<close> with its \<^verbatim>\<open>Call\<close> object in
  \<^verbatim>\<open>source/x11/x11bridge64.cpp\<close>.  The guest end takes the system call as a parameter, so the
  laws of the host that the shim relies on are the assumptions of the locale
  \<^verbatim>\<open>sized_operation\<close> below, discharged for the host's own handlers in the theories that model
  them.
\<close>

section \<open>Guest end\<close>

text \<open>The system call: operation, address of the argument array, count; it may change memory and
  the server.\<close>

type_synonym 'h syscall = "u64 \<Rightarrow> u64 \<Rightarrow> u64 \<Rightarrow> memory \<Rightarrow> 'h \<Rightarrow> s64 \<times> memory \<times> 'h"

definition words_bytes :: "u64 list \<Rightarrow> u8 list" where
  "words_bytes ws = concat (map (le_bytes 8) ws)"

text \<open>\<^verbatim>\<open>BW(op, ...)\<close>: the arguments are a compound literal on the caller's stack, read back
  after the call because the array is in and out.  \<^verbatim>\<open>BW0\<close> passes a null array.\<close>

definition bw_call :: "'h syscall \<Rightarrow> nat \<Rightarrow> u64 list \<Rightarrow> 'h world \<Rightarrow> (s64 \<times> u64 list) \<times> 'h world" where
  "bw_call sys op args =
     with_local (8 * length args) (\<lambda>p \<sigma>.
       let \<sigma>1 = st_bytes p (words_bytes args) \<sigma>;
           array = (if args = [] then 0 else P p) in
       case sys (of_nat op) array (of_nat (length args)) (mem \<sigma>1) (server \<sigma>1) of
         (r, m, h) \<Rightarrow> ((r, read_args m p (length args)), \<sigma>1\<lparr>mem := m, server := h\<rparr>))"

text \<open>The casts the callers apply to the status.\<close>

definition BW :: "'h syscall \<Rightarrow> nat \<Rightarrow> u64 list \<Rightarrow> 'h world \<Rightarrow> s64 \<times> 'h world" where
  "BW sys op args \<sigma> = (case bw_call sys op args \<sigma> of ((r, _), \<sigma>') \<Rightarrow> (r, \<sigma>'))"

definition to_int :: "s64 \<Rightarrow> c_int" where "to_int r = ucast r"

definition A_int :: "c_int \<Rightarrow> u64" where "A_int x = scast x"
definition A_uint :: "u32 \<Rightarrow> u64" where "A_uint x = ucast x"

text \<open>\<^verbatim>\<open>bw_sized\<close>: up to three attempts, growing the buffer to the size the host reports.\<close>

primrec bw_sized_loop ::
  "'h syscall \<Rightarrow> nat \<Rightarrow> nat \<Rightarrow> nat \<Rightarrow> u64 list \<Rightarrow> nat \<Rightarrow> s64 \<Rightarrow> 'h world \<Rightarrow> (nat \<times> s64) \<times> 'h world" where
  "bw_sized_loop sys op slot 0 args buffer status \<sigma> = ((buffer, status), \<sigma>)"
| "bw_sized_loop sys op slot (Suc k) args buffer status \<sigma> =
     (case bw_call sys op args \<sigma> of ((status', args'), \<sigma>1) \<Rightarrow>
        if status' \<noteq> E_BUFFER then ((buffer, status'), \<sigma>1)
        else
          let needed = unat (args' ! (slot + 1)); \<sigma>2 = free buffer \<sigma>1 in
          case calloc 1 (if needed \<noteq> 0 then needed else 1) \<sigma>2 of (p, \<sigma>3) \<Rightarrow>
            if p = 0 then ((0, E_FAULT), \<sigma>3)
            else bw_sized_loop sys op slot k (args'[slot := P p, slot + 1 := of_nat needed]) p status' \<sigma>3)"

definition bw_sized ::
  "'h syscall \<Rightarrow> nat \<Rightarrow> u64 list \<Rightarrow> nat \<Rightarrow> 'h world \<Rightarrow> (nat \<times> s64) \<times> 'h world" where
  "bw_sized sys op args slot \<sigma> =
     (case bw_sized_loop sys op slot 3 (args[slot := 0, slot + 1 := 0]) 0 E_BUFFER \<sigma> of
        ((buffer, status), \<sigma>') \<Rightarrow>
          if sint status < 0 then ((0, status), free buffer \<sigma>') else ((buffer, status), \<sigma>'))"

section \<open>Host end\<close>

text \<open>The \<^verbatim>\<open>Call\<close> object: the sixteen argument slots, the count the guest passed, the sticky
  fault flag, and guest memory behind its page table.\<close>

record hcall =
  c_args :: "u64 list"
  c_count :: nat
  c_faulted :: bool
  c_mem :: memory
  c_probe :: probe

definition arg :: "hcall \<Rightarrow> nat \<Rightarrow> u64" where
  "arg c i = (if i < c_count c then c_args c ! i else 0)"

definition iarg :: "hcall \<Rightarrow> nat \<Rightarrow> c_int" where "iarg c i = ucast (arg c i)"
definition uarg :: "hcall \<Rightarrow> nat \<Rightarrow> u32" where "uarg c i = ucast (arg c i)"

definition setArg :: "nat \<Rightarrow> u64 \<Rightarrow> hcall \<Rightarrow> hcall" where
  "setArg i v c = (if i < MAX_ARGS then c\<lparr>c_args := (c_args c)[i := v]\<rparr> else c)"

definition h_read :: "u64 \<Rightarrow> nat \<Rightarrow> hcall \<Rightarrow> u8 list option \<times> hcall" where
  "h_read a n c =
     (if n = 0 then (Some [], c)
      else if \<not> x11Bridge64RangeAccessible (c_probe c) a (of_nat n) False then (None, c\<lparr>c_faulted := True\<rparr>)
      else (Some (rd (c_mem c) (unat a) n), c))"

definition h_write :: "u64 \<Rightarrow> u8 list \<Rightarrow> hcall \<Rightarrow> bool \<times> hcall" where
  "h_write a bs c =
     (if bs = [] then (True, c)
      else if \<not> x11Bridge64RangeAccessible (c_probe c) a (of_nat (length bs)) True
        then (False, c\<lparr>c_faulted := True\<rparr>)
      else (True, c\<lparr>c_mem := wr (c_mem c) (unat a) bs\<rparr>))"

definition h_write32 :: "u64 \<Rightarrow> u32 \<Rightarrow> hcall \<Rightarrow> bool \<times> hcall" where "h_write32 a v = h_write a (le_bytes 4 v)"
definition h_write64 :: "u64 \<Rightarrow> u64 \<Rightarrow> hcall \<Rightarrow> bool \<times> hcall" where "h_write64 a v = h_write a (le_bytes 8 v)"

definition h_read32 :: "u64 \<Rightarrow> hcall \<Rightarrow> u32 option \<times> hcall" where
  "h_read32 a c = (case h_read a 4 c of (v, c') \<Rightarrow> (map_option le_word v, c'))"
definition h_read64 :: "u64 \<Rightarrow> hcall \<Rightarrow> u64 option \<times> hcall" where
  "h_read64 a c = (case h_read a 8 c of (v, c') \<Rightarrow> (map_option le_word v, c'))"

text \<open>Variable-size results: \<^verbatim>\<open>Inl\<close> the status to return at once, \<^verbatim>\<open>Inr\<close> when the bytes
  are in the caller's buffer.\<close>

definition sizedResult :: "nat \<Rightarrow> u8 list \<Rightarrow> hcall \<Rightarrow> (s64 + unit) \<times> hcall" where
  "sizedResult slot bs c =
     (let buffer = arg c slot; capacity = arg c (slot + 1);
          c1 = setArg (slot + 1) (of_nat (length bs)) c in
      if buffer = 0 \<or> unat capacity < length bs then (Inl E_BUFFER, c1)
      else case h_write buffer bs c1 of
             (False, c2) \<Rightarrow> (Inl E_FAULT, c2)
           | (True, c2) \<Rightarrow> (Inr (), c2))"

type_synonym 'h handler = "hcall \<Rightarrow> 'h \<Rightarrow> s64 \<times> hcall \<times> 'h"

text \<open>\<^verbatim>\<open>x11Bridge64\<close>: decode, dispatch through the handler table, turn a fault into
  \<^verbatim>\<open>E_FAULT\<close>, write the argument array back.\<close>

definition x11Bridge64 :: "probe \<Rightarrow> (nat \<Rightarrow> 'h handler) \<Rightarrow> 'h syscall" where
  "x11Bridge64 pr kOps op argsAddress count m h =
     (case x11Bridge64Decode pr op argsAddress count m of (adm, args) \<Rightarrow>
        if adm \<noteq> Admitted then (x11Bridge64AdmissionResult adm, m, h)
        else
          case kOps (unat op) \<lparr>c_args = args, c_count = unat count, c_faulted = False, c_mem = m,
                               c_probe = pr\<rparr> h of (r, c, h') \<Rightarrow>
            let r' = (if c_faulted c \<and> 0 \<le> sint r then E_FAULT else r);
                m' = (if count \<noteq> 0 then wr (c_mem c) (unat argsAddress)
                                          (words_bytes (take (unat count) (c_args c)))
                      else c_mem c)
            in (r', m', h'))"

text \<open>\<^verbatim>\<open>REQUIRE_ARGS\<close>.\<close>

definition require_args :: "nat \<Rightarrow> 'h handler \<Rightarrow> 'h handler" where
  "require_args n f c h = (if c_count c < n then (E_ARGS, c, h) else f c h)"

section \<open>The argument array\<close>

lemma length_words_bytes [simp]: "length (words_bytes ws) = 8 * length ws"
  by (induction ws) (auto simp: words_bytes_def)

lemma words_bytes_Cons: "words_bytes (w # ws) = le_bytes 8 w @ words_bytes ws"
  by (simp add: words_bytes_def)

lemma length_read_args [simp]: "length (read_args m a n) = n"
  by (induction n arbitrary: a) auto

lemma read_args_cong: "rd m a (8 * n) = rd m' a (8 * n) \<Longrightarrow> read_args m a n = read_args m' a n"
proof (induction n arbitrary: a)
  case (Suc n)
  have "rd m a 8 @ rd m (a + 8) (8 * n) = rd m' a 8 @ rd m' (a + 8) (8 * n)"
    using Suc.prems by (simp add: rd_append [symmetric])
  then show ?case using Suc.IH [of "a + 8"] by simp
qed simp

lemma read_args_of_bytes: "rd m a (8 * length ws) = words_bytes ws \<Longrightarrow> read_args m a (length ws) = ws"
proof (induction ws arbitrary: a)
  case (Cons w ws)
  have "rd m a 8 @ rd m (a + 8) (8 * length ws) = le_bytes 8 w @ words_bytes ws"
    using Cons.prems by (simp add: rd_append [symmetric] words_bytes_Cons)
  then show ?case using Cons.IH [of "a + 8"] by simp
qed simp

lemma read_args_wr [simp]: "n = length ws \<Longrightarrow> read_args (wr m a (words_bytes ws)) a n = ws"
  by (simp add: read_args_of_bytes)

section \<open>What a bridge call leaves alone\<close>

lemma with_local_frame:
  assumes "with_local n body \<sigma> = (r, \<sigma>')"
    and "\<And>p. \<exists>r1 \<sigma>1. body p (\<sigma>\<lparr>sp := p\<rparr>) = (r1, \<sigma>1) \<and> same_heap \<sigma> \<sigma>1 \<and> same_fds \<sigma> \<sigma>1 \<and>
           brk \<sigma>1 = brk \<sigma> \<and> oom \<sigma>1 = oom \<sigma> \<and> socks \<sigma>1 = socks \<sigma>"
  shows "same_heap \<sigma> \<sigma>'" "same_fds \<sigma> \<sigma>'" "brk \<sigma>' = brk \<sigma>" "oom \<sigma>' = oom \<sigma>" "sp \<sigma>' = sp \<sigma>"
    "socks \<sigma>' = socks \<sigma>"
  using assms(1) assms(2) [of "sp \<sigma> - n"]
  by (auto simp: with_local_def same_heap_def same_fds_def)

lemma bw_call_frame:
  assumes "bw_call sys op args \<sigma> = (r, \<sigma>')"
  shows "same_heap \<sigma> \<sigma>'" "same_fds \<sigma> \<sigma>'" "brk \<sigma>' = brk \<sigma>" "oom \<sigma>' = oom \<sigma>" "sp \<sigma>' = sp \<sigma>"
    "socks \<sigma>' = socks \<sigma>"
  using assms unfolding bw_call_def
  by (auto simp: with_local_def same_heap_def same_fds_def Let_def split: prod.splits)

lemma BW_frame:
  assumes "BW sys op args \<sigma> = (r, \<sigma>')"
  shows "same_heap \<sigma> \<sigma>'" "same_fds \<sigma> \<sigma>'" "brk \<sigma>' = brk \<sigma>" "oom \<sigma>' = oom \<sigma>" "sp \<sigma>' = sp \<sigma>"
    "socks \<sigma>' = socks \<sigma>"
proof -
  obtain a where "bw_call sys op args \<sigma> = ((r, a), \<sigma>')"
    using assms by (auto simp: BW_def split: prod.splits)
  from bw_call_frame [OF this] show "same_heap \<sigma> \<sigma>'" "same_fds \<sigma> \<sigma>'" "brk \<sigma>' = brk \<sigma>"
    "oom \<sigma>' = oom \<sigma>" "sp \<sigma>' = sp \<sigma>" "socks \<sigma>' = socks \<sigma>" by blast+
qed

lemma heap_ok_cong:
  "brk \<sigma>' = brk \<sigma> \<Longrightarrow> live \<sigma>' = live \<sigma> \<Longrightarrow> heap_ok \<sigma>' = heap_ok \<sigma>"
  by (simp add: heap_ok_def)

lemma bw_call_heap_ok: "bw_call sys op args \<sigma> = (r, \<sigma>') \<Longrightarrow> heap_ok \<sigma> \<Longrightarrow> heap_ok \<sigma>'"
  by (metis bw_call_frame(1,3) heap_ok_cong same_heap_def)

lemma length_bw_call: "bw_call sys op args \<sigma> = ((r, args'), \<sigma>') \<Longrightarrow> length args' = length args"
  by (simp add: bw_call_def with_local_def Let_def case_prod_beta) (metis length_read_args)

section \<open>The two ends together\<close>

text \<open>The stack lies above the heap and leaves room for an argument array; the pages of both are
  mapped.\<close>

definition stack_ok :: "'h world \<Rightarrow> bool" where
  "stack_ok \<sigma> \<longleftrightarrow> heap_top + 4096 \<le> sp \<sigma> \<and> sp \<sigma> \<le> stack_top"

definition mapped :: "probe \<Rightarrow> bool" where
  "mapped pr \<longleftrightarrow> (\<forall>a w. 4096 \<le> unat a \<and> unat a < 2 ^ 47 \<longrightarrow> pr a w)"

lemma mapped_range:
  assumes "mapped pr" "4096 \<le> a" "a + n \<le> 2 ^ 47"
  shows "x11Bridge64RangeAccessible pr (P a) (of_nat n) w"
proof -
  have "unat (P a) = a" "unat (of_nat n :: u64) = n" using assms by (simp_all add: unat_of_nat)
  moreover have "pr (page_at (b div 4096)) w" if "a \<le> b" "b < a + n" for b
  proof -
    have "4096 div 4096 \<le> b div 4096" using assms(2) that(1) by (intro div_le_mono) simp
    then have "4096 \<le> b div 4096 * 4096" by simp
    moreover have "b div 4096 * 4096 \<le> b" by simp
    then have lt: "b div 4096 * 4096 < 2 ^ 47" using that(2) assms(3) by linarith
    then have "unat (page_at (b div 4096)) = b div 4096 * 4096"
      unfolding page_at_def unat_of_nat by (simp add: take_bit_eq_mod)
    ultimately show ?thesis using assms(1) lt by (simp add: mapped_def)
  qed
  moreover have "P a \<noteq> 0" using assms by (simp add: P_eq_0)
  ultimately show ?thesis
    using assms(3) by (simp add: x11Bridge64RangeAccessible_iff bytes_accessible_def)
qed

text \<open>The call object a handler starts from when the guest passes \<^verbatim>\<open>args\<close> at \<^verbatim>\<open>p\<close>.\<close>

definition call_for :: "probe \<Rightarrow> u64 list \<Rightarrow> memory \<Rightarrow> hcall" where
  "call_for pr args m = \<lparr>c_args = args @ replicate (MAX_ARGS - length args) 0, c_count = length args,
     c_faulted = False, c_mem = m, c_probe = pr\<rparr>"

lemma bw_call_x11Bridge64:
  assumes "mapped pr" "stack_ok \<sigma>" "length args \<le> MAX_ARGS" "op < OP_COUNT"
    and p: "p = sp \<sigma> - 8 * length args"
    and H: "H op (call_for pr args (wr (mem \<sigma>) p (words_bytes args))) (server \<sigma>) = (r, c, h)"
    and len: "length (c_args c) = MAX_ARGS"
  shows "bw_call (x11Bridge64 pr H) op args \<sigma> =
    ((if c_faulted c \<and> 0 \<le> sint r then E_FAULT else r, take (length args) (c_args c)),
     \<sigma>\<lparr>mem := wr (c_mem c) p (words_bytes (take (length args) (c_args c))), server := h\<rparr>)"
proof -
  have n: "length args \<le> 16" using assms(3) by (simp add: MAX_ARGS_def)
  have u: "unat (of_nat (length args) :: u64) = length args" using n by (simp add: unat_of_nat)
  have o: "unat (of_nat op :: u64) = op" using assms(4) by (simp add: unat_of_nat)
  have pb: "4096 \<le> p" "p + 8 * length args \<le> 2 ^ 47" "p < 2 ^ 64"
    using assms(2) n unfolding p stack_ok_def heap_top_def stack_top_def by auto
  have ac: "x11Bridge64RangeAccessible pr (P p) (of_nat (8 * length args)) True"
    using mapped_range [OF assms(1) pb(1,2)] .
  have z: "(of_nat (length args) :: u64) = 0 \<longleftrightarrow> args = []"
    using u by (cases args) (auto dest!: arg_cong [of _ 0 unat])
  have dec: "x11Bridge64Decode pr (of_nat op) (if args = [] then 0 else P p) (of_nat (length args))
      (wr (mem \<sigma>) p (words_bytes args)) = (Admitted, args @ replicate (MAX_ARGS - length args) 0)"
    using ac assms(3,4) pb(3)
    by (cases "args = []")
       (simp_all add: x11Bridge64Decode_def x11Bridge64KnownOp_def o u z mult.commute Let_def)
  let ?r = "if c_faulted c \<and> 0 \<le> sint r then E_FAULT else r"
  let ?out = "take (length args) (c_args c)"
  have up: "args \<noteq> [] \<Longrightarrow> unat (if args = [] then 0 else P p) = p" using pb(3) by simp
  have sys: "x11Bridge64 pr H (of_nat op) (if args = [] then 0 else P p) (of_nat (length args))
      (wr (mem \<sigma>) p (words_bytes args)) (server \<sigma>) = (?r, wr (c_mem c) p (words_bytes ?out), h)"
    unfolding x11Bridge64_def dec prod.case u o z using H up
    by (auto simp: call_for_def Let_def words_bytes_def)
  have "length ?out = length args" using len assms(3) by simp
  then show ?thesis
    using sys by (simp add: bw_call_def with_local_def Let_def p [symmetric] st_bytes_def)
qed

section \<open>Worlds that agree on the heap\<close>

text \<open>Two worlds that agree on the server and on the contents of every block live in the first.\<close>

definition agree :: "'h world \<Rightarrow> 'h world \<Rightarrow> bool" where
  "agree \<sigma> \<sigma>' \<longleftrightarrow> server \<sigma>' = server \<sigma> \<and> heap_ok \<sigma> \<and> sp \<sigma>' = sp \<sigma> \<and>
     (\<forall>b s. live \<sigma> b = Some s \<longrightarrow> live \<sigma>' b = Some s \<and> rd (mem \<sigma>') b s = rd (mem \<sigma>) b s)"

lemma agree_sub:
  assumes "agree \<sigma> \<sigma>'" "live \<sigma> b = Some s" "b \<le> a" "a + n \<le> b + s"
  shows "rd (mem \<sigma>') a n = rd (mem \<sigma>) a n"
proof -
  have e: "rd (mem \<sigma>') b s = rd (mem \<sigma>) b s" using assms(1,2) by (simp add: agree_def)
  show ?thesis
  proof (rule nth_equalityI)
    fix i assume "i < length (rd (mem \<sigma>') a n)"
    then have i: "a - b + i < s" "i < n" using assms(3,4) by auto
    have "rd (mem \<sigma>') b s ! (a - b + i) = rd (mem \<sigma>) b s ! (a - b + i)" using e by simp
    then show "rd (mem \<sigma>') a n ! i = rd (mem \<sigma>) a n ! i" using i assms(3) by simp
  qed simp
qed

lemma agree_calloc:
  assumes H: "heap_ok \<sigma>" and C: "calloc 1 n \<sigma> = (p, \<sigma>')"
  shows "agree \<sigma> \<sigma>'"
proof -
  obtain \<sigma>m where m: "malloc n \<sigma> = (p, \<sigma>m)" and e: "\<sigma>' = (if p = 0 then \<sigma>m else st_bytes p (replicate n 0) \<sigma>m)"
    using C by (auto simp: calloc_def split: prod.splits if_splits)
  show ?thesis
  proof (cases "p = 0")
    case True
    then show ?thesis using malloc_fail [of n \<sigma> \<sigma>m] m H e by (simp add: agree_def)
  next
    case False
    note f = malloc_fresh [OF H m False]
    have "b + s \<le> p" if "live \<sigma> b = Some s" for b s
      using H that f(5) by (auto simp: heap_ok_def dest: order_less_imp_le)
    then show ?thesis
      using H e False f malloc_frame [of n \<sigma>] m
      by (auto simp: agree_def st_bytes_def rd_wr_other)
  qed
qed

text \<open>Writing above the heap disturbs no live block.\<close>

lemma agree_stack:
  assumes "heap_ok \<sigma>" "heap_top \<le> p"
  shows "agree \<sigma> (\<sigma>\<lparr>mem := wr (wr (mem \<sigma>) p bs) p bs'\<rparr>)"
  using assms by (fastforce simp: agree_def heap_ok_def rd_wr_other)

section \<open>The contract of a sized operation\<close>

text \<open>
  What the shim relies on when it calls an operation whose result the host sizes.  \<^verbatim>\<open>ready\<close>
  says when the call is well-formed, \<^verbatim>\<open>answer\<close> which bytes and which final status the host has
  for it.  A short buffer gets \<^verbatim>\<open>E_BUFFER\<close>, the size written to the capacity slot and nothing
  else; a buffer that is large enough gets the bytes.
\<close>

locale sized_operation =
  fixes sys :: "'h syscall" and op slot :: nat
    and ready :: "u64 list \<Rightarrow> 'h world \<Rightarrow> bool"
    and answer :: "u64 list \<Rightarrow> 'h world \<Rightarrow> u8 list \<times> s64"
  assumes short_buffer:
    "ready args \<sigma> \<Longrightarrow> slot + 1 < length args \<Longrightarrow> answer args \<sigma> = (bs, s) \<Longrightarrow> heap_ok \<sigma> \<Longrightarrow>
     args ! slot = 0 \<or> unat (args ! (slot + 1)) < length bs \<Longrightarrow>
     \<exists>\<sigma>'. bw_call sys op args \<sigma> = ((E_BUFFER, args[slot + 1 := of_nat (length bs)]), \<sigma>') \<and>
          ready args \<sigma>' \<and> answer args \<sigma>' = (bs, s) \<and> agree \<sigma> \<sigma>'"
    and large_buffer:
    "ready args \<sigma> \<Longrightarrow> slot + 1 < length args \<Longrightarrow> answer args \<sigma> = (bs, s) \<Longrightarrow> heap_ok \<sigma> \<Longrightarrow>
     args ! slot = P p \<Longrightarrow> p \<noteq> 0 \<Longrightarrow> live \<sigma> p = Some (length bs) \<Longrightarrow>
     args ! (slot + 1) = of_nat (length bs) \<Longrightarrow> bs \<noteq> [] \<Longrightarrow>
     \<exists>args' \<sigma>'. bw_call sys op args \<sigma> = ((s, args'), \<sigma>') \<and> rd (mem \<sigma>') p (length bs) = bs \<and>
       server \<sigma>' = server \<sigma> \<and> (\<forall>b t. live \<sigma> b = Some t \<longrightarrow> b \<noteq> p \<longrightarrow> rd (mem \<sigma>') b t = rd (mem \<sigma>) b t)"
    and slots_free:
    "ready (args[slot := x, slot + 1 := y]) \<sigma> = ready args \<sigma>"
    "answer (args[slot := x, slot + 1 := y]) \<sigma> = answer args \<sigma>"
    and allocation_stable:
    "ready args \<sigma> \<Longrightarrow> heap_ok \<sigma> \<Longrightarrow> calloc 1 n \<sigma> = (p, \<sigma>') \<Longrightarrow>
     ready args \<sigma>' \<and> answer args \<sigma>' = answer args \<sigma>"
    and answer_bounds:
    "ready args \<sigma> \<Longrightarrow> answer args \<sigma> = (bs, s) \<Longrightarrow> bs \<noteq> [] \<and> length bs < 2 ^ 46 \<and> 0 \<le> sint s"
begin

lemma first_attempt:
  assumes "ready args \<sigma>" "slot + 1 < length args" "answer args \<sigma> = (bs, s)" "heap_ok \<sigma>"
  defines "args0 \<equiv> args[slot := 0, slot + 1 := 0]"
  obtains \<sigma>1 where "bw_call sys op args0 \<sigma> = ((E_BUFFER, args0[slot + 1 := of_nat (length bs)]), \<sigma>1)"
    "ready args \<sigma>1" "answer args \<sigma>1 = (bs, s)" "same_heap \<sigma> \<sigma>1" "brk \<sigma>1 = brk \<sigma>" "oom \<sigma>1 = oom \<sigma>"
    "agree \<sigma> \<sigma>1"
proof -
  have "ready args0 \<sigma>" "answer args0 \<sigma> = (bs, s)" using assms slots_free by simp_all
  moreover have "slot + 1 < length args0" "args0 ! slot = 0" using assms(2) by (simp_all add: args0_def)
  ultimately obtain \<sigma>1 where c: "bw_call sys op args0 \<sigma> = ((E_BUFFER, args0[slot + 1 := of_nat (length bs)]), \<sigma>1)"
    and r: "ready args0 \<sigma>1" "answer args0 \<sigma>1 = (bs, s)" and a: "agree \<sigma> \<sigma>1"
    using short_buffer assms(4) by blast
  then show thesis using that bw_call_frame [OF c] slots_free by (simp add: args0_def)
qed

text \<open>\<^verbatim>\<open>bw_sized\<close> hands back the host's bytes in a fresh block of exactly their size and the
  host's status; when the allocation fails it hands back no block, the fault status, and leaves the
  set of live blocks as it was.\<close>

theorem bw_sized_result:
  assumes R: "ready args \<sigma>" and H: "heap_ok \<sigma>" and L: "slot + 1 < length args"
    and A: "answer args \<sigma> = (bs, s)" and C: "bw_sized sys op args slot \<sigma> = ((p, status), \<sigma>')"
  shows "if alloc_fails (length bs) \<sigma>
         then p = 0 \<and> status = E_FAULT \<and> live \<sigma>' = live \<sigma>
         else p \<noteq> 0 \<and> status = s \<and> rd (mem \<sigma>') p (length bs) = bs \<and>
              live \<sigma> p = None \<and> live \<sigma>' = (live \<sigma>)(p \<mapsto> length bs) \<and>
              p = brk \<sigma> \<and> p + length bs < heap_top"
    and "bad_free \<sigma>' = bad_free \<sigma> \<and> heap_ok \<sigma>' \<and> oom \<sigma>' = tl (oom \<sigma>) \<and>
         brk \<sigma>' = brk \<sigma> + (if alloc_fails (length bs) \<sigma> then 0 else length bs + 16)"
    and "server \<sigma>' = server \<sigma> \<and> (\<forall>b t. live \<sigma> b = Some t \<longrightarrow> rd (mem \<sigma>') b t = rd (mem \<sigma>) b t)"
proof -
  let ?n = "length bs"
  have b: "bs \<noteq> []" "?n < 2 ^ 46" "0 \<le> sint s" using answer_bounds [OF R A] by auto
  define args0 where "args0 = args[slot := 0, slot + 1 := 0]"
  define args1 where "args1 = args0[slot + 1 := of_nat ?n]"
  obtain \<sigma>1 where c1: "bw_call sys op args0 \<sigma> = ((E_BUFFER, args1), \<sigma>1)"
    and r1: "ready args \<sigma>1" "answer args \<sigma>1 = (bs, s)"
    and f1: "same_heap \<sigma> \<sigma>1" "brk \<sigma>1 = brk \<sigma>" "oom \<sigma>1 = oom \<sigma>" and a1: "agree \<sigma> \<sigma>1"
    using first_attempt [OF R L A H] unfolding args0_def args1_def by blast
  have H1: "heap_ok \<sigma>1" using H f1 by (simp add: same_heap_def heap_ok_def)
  have n: "unat (args1 ! Suc slot) = ?n" "?n \<noteq> 0"
    using L b by (simp_all add: args1_def args0_def unat_of_nat take_bit_eq_mod)
  obtain q \<sigma>m where m: "malloc ?n \<sigma>1 = (q, \<sigma>m)" by (cases "malloc ?n \<sigma>1")
  have q0: "q = 0 \<longleftrightarrow> alloc_fails ?n \<sigma>"
    using m malloc_null [of ?n \<sigma>1] H1 f1 by (simp add: heap_ok_def alloc_fails_def)
  have "(if alloc_fails ?n \<sigma> then p = 0 \<and> status = E_FAULT \<and> live \<sigma>' = live \<sigma>
         else p \<noteq> 0 \<and> status = s \<and> rd (mem \<sigma>') p ?n = bs \<and>
              live \<sigma> p = None \<and> live \<sigma>' = (live \<sigma>)(p \<mapsto> ?n) \<and>
              p = brk \<sigma> \<and> p + ?n < heap_top) \<and>
        (bad_free \<sigma>' = bad_free \<sigma> \<and> heap_ok \<sigma>' \<and> oom \<sigma>' = tl (oom \<sigma>) \<and>
         brk \<sigma>' = brk \<sigma> + (if alloc_fails ?n \<sigma> then 0 else ?n + 16)) \<and>
        (server \<sigma>' = server \<sigma> \<and> (\<forall>b t. live \<sigma> b = Some t \<longrightarrow> rd (mem \<sigma>') b t = rd (mem \<sigma>) b t))"
  proof (cases "q = 0")
    case True
    then have "calloc 1 ?n \<sigma>1 = (0, \<sigma>m)" using m by (simp add: calloc_def)
    then have "((p, status), \<sigma>') = ((0, E_FAULT), \<sigma>m)"
      using C c1 n by (simp add: bw_sized_def args0_def numeral_3_eq_3)
    moreover have "\<sigma>m = \<sigma>1\<lparr>oom := tl (oom \<sigma>1)\<rparr>" using malloc_fail m True H1 by blast
    ultimately show ?thesis
      using True q0 f1 H1 a1 by (simp add: same_heap_def heap_ok_def agree_def)
  next
    case False
    define \<sigma>2 where "\<sigma>2 = st_bytes q (replicate ?n 0) \<sigma>m"
    have c2: "calloc 1 ?n \<sigma>1 = (q, \<sigma>2)" using m False by (simp add: calloc_def \<sigma>2_def)
    note fresh = malloc_fresh [OF H1 m False]
    have H2: "heap_ok \<sigma>2" using calloc_heap_ok [OF H1, of 1 ?n] c2 by simp
    have r2: "ready args \<sigma>2" "answer args \<sigma>2 = (bs, s)"
      using allocation_stable [OF r1(1) H1 c2] r1(2) by simp_all
    define args2 where "args2 = args1[slot := P q, slot + 1 := of_nat ?n]"
    have a2: "args2 = args[slot := P q, slot + 1 := of_nat ?n]"
      by (simp add: args2_def args1_def args0_def list_update_swap [of slot "Suc slot"])
    have r3: "ready args2 \<sigma>2" "answer args2 \<sigma>2 = (bs, s)"
      using r2 slots_free unfolding a2 by simp_all
    obtain args3 \<sigma>3 where c3: "bw_call sys op args2 \<sigma>2 = ((s, args3), \<sigma>3)" "rd (mem \<sigma>3) q ?n = bs"
      and a3: "server \<sigma>3 = server \<sigma>2" "\<And>b t. live \<sigma>2 b = Some t \<Longrightarrow> b \<noteq> q \<Longrightarrow> rd (mem \<sigma>3) b t = rd (mem \<sigma>2) b t"
      using large_buffer [OF r3(1) _ r3(2) H2, of q] L fresh(2) False b(1)
      by (auto simp: a2 \<sigma>2_def)
    have ns: "s \<noteq> E_BUFFER" "\<not> sint s < 0" using b(3) by auto
    have "((p, status), \<sigma>') = ((q, s), \<sigma>3)"
      using C c1 c2 c3(1) n ns False
      by (simp add: bw_sized_def args0_def args2_def numeral_3_eq_3)
    moreover have "oom \<sigma>3 = tl (oom \<sigma>)" "brk \<sigma>3 = brk \<sigma> + (?n + 16)"
      using bw_call_frame(3,4) [OF c3(1)] m False f1 by (auto simp: \<sigma>2_def malloc_def split: if_splits)
    moreover have "live \<sigma>3 = (live \<sigma>1)(q \<mapsto> ?n)" "bad_free \<sigma>3 = bad_free \<sigma>1" "heap_ok \<sigma>3"
      using bw_call_frame [OF c3(1)] bw_call_heap_ok [OF c3(1) H2] fresh(2) malloc_frame(4) [of ?n \<sigma>1] m
      by (simp_all add: same_heap_def \<sigma>2_def)
    moreover have "server \<sigma>3 = server \<sigma>" and "\<And>b t. live \<sigma> b = Some t \<Longrightarrow> rd (mem \<sigma>3) b t = rd (mem \<sigma>) b t"
    proof -
      have a2: "agree \<sigma>1 \<sigma>2" by (rule agree_calloc [OF H1 c2])
      show "server \<sigma>3 = server \<sigma>" using a1 a2 a3(1) by (simp add: agree_def)
      show "rd (mem \<sigma>3) b t = rd (mem \<sigma>) b t" if "live \<sigma> b = Some t" for b t
      proof -
        have b1: "live \<sigma>1 b = Some t" using that f1(1) by (simp add: same_heap_def)
        then have "live \<sigma>2 b = Some t" "b \<noteq> q" using a2 fresh(1) by (auto simp: agree_def)
        then show ?thesis using a3(2) a1 a2 that b1 by (simp add: agree_def)
      qed
    qed
    ultimately show ?thesis
      using False q0 c3(2) fresh(1,4,5) f1 by (simp add: same_heap_def)
  qed
  then show "if alloc_fails ?n \<sigma> then p = 0 \<and> status = E_FAULT \<and> live \<sigma>' = live \<sigma>
         else p \<noteq> 0 \<and> status = s \<and> rd (mem \<sigma>') p ?n = bs \<and>
              live \<sigma> p = None \<and> live \<sigma>' = (live \<sigma>)(p \<mapsto> ?n) \<and>
              p = brk \<sigma> \<and> p + ?n < heap_top"
    and "bad_free \<sigma>' = bad_free \<sigma> \<and> heap_ok \<sigma>' \<and> oom \<sigma>' = tl (oom \<sigma>) \<and>
         brk \<sigma>' = brk \<sigma> + (if alloc_fails (length bs) \<sigma> then 0 else length bs + 16)"
    and "server \<sigma>' = server \<sigma> \<and> (\<forall>b t. live \<sigma> b = Some t \<longrightarrow> rd (mem \<sigma>') b t = rd (mem \<sigma>) b t)"
    by blast+
qed

end

section \<open>Handlers that size their result\<close>

text \<open>A handler of the host that computes its bytes and its status from the arguments, the live
  blocks and the server, and delivers them with \<^verbatim>\<open>sizedResult\<close>.\<close>

locale sized_handler =
  fixes pr :: probe and H :: "nat \<Rightarrow> 'h handler" and op slot :: nat
    and good :: "u64 list \<Rightarrow> 'h world \<Rightarrow> bool"
    and ans :: "u64 list \<Rightarrow> 'h world \<Rightarrow> u8 list \<times> s64"
  assumes op_known: "op < OP_COUNT"
    and handler: "good args \<sigma> \<Longrightarrow> ans args \<sigma> = (bs, s) \<Longrightarrow>
      c = call_for pr args (wr (mem \<sigma>) (sp \<sigma> - 8 * length args) (words_bytes args)) \<Longrightarrow>
      H op c (server \<sigma>) = (case sizedResult slot bs c of
          (Inl e, c') \<Rightarrow> (e, c', server \<sigma>) | (Inr _, c') \<Rightarrow> (s, c', server \<sigma>))"
    and good_args: "good args \<sigma> \<Longrightarrow> mapped pr \<and> length args \<le> MAX_ARGS \<and> stack_ok \<sigma> \<and> heap_ok \<sigma>"
    and good_slots: "good (args[slot := x, slot + 1 := y]) \<sigma> = good args \<sigma>"
      "ans (args[slot := x, slot + 1 := y]) \<sigma> = ans args \<sigma>"
    and good_stable: "good args \<sigma> \<Longrightarrow> agree \<sigma> \<sigma>' \<Longrightarrow> heap_ok \<sigma>' \<Longrightarrow> good args \<sigma>' \<and> ans args \<sigma>' = ans args \<sigma>"
    and good_bounds: "good args \<sigma> \<Longrightarrow> ans args \<sigma> = (bs, s) \<Longrightarrow> bs \<noteq> [] \<and> length bs < 2 ^ 46 \<and> 0 \<le> sint s"
begin

lemma call_arg:
  assumes "length args \<le> MAX_ARGS" "i < length args"
  shows "arg (call_for pr args m) i = args ! i"
  using assms by (simp add: arg_def call_for_def nth_append)

lemma short_call:
  assumes g: "good args \<sigma>" and L: "slot + 1 < length args" and A: "ans args \<sigma> = (bs, s)"
    and short: "args ! slot = 0 \<or> unat (args ! (slot + 1)) < length bs"
  shows "\<exists>\<sigma>'. bw_call (x11Bridge64 pr H) op args \<sigma> = ((E_BUFFER, args[slot + 1 := of_nat (length bs)]), \<sigma>') \<and>
          good args \<sigma>' \<and> ans args \<sigma>' = (bs, s) \<and> agree \<sigma> \<sigma>'"
proof -
  let ?p = "sp \<sigma> - 8 * length args"
  let ?c = "call_for pr args (wr (mem \<sigma>) ?p (words_bytes args))"
  let ?c' = "setArg (slot + 1) (of_nat (length bs)) ?c"
  note ga = good_args [OF g]
  have "sizedResult slot bs ?c = (Inl E_BUFFER, ?c')"
    using short L ga by (auto simp: sizedResult_def call_arg Let_def)
  with handler [OF g A refl] have h: "H op ?c (server \<sigma>) = (E_BUFFER, ?c', server \<sigma>)" by simp
  have len: "length (c_args ?c') = MAX_ARGS" using ga by (simp add: setArg_def call_for_def)
  have out: "take (length args) (c_args ?c') = args[slot + 1 := of_nat (length bs)]"
    and nf: "\<not> c_faulted ?c'" and m: "c_mem ?c' = wr (mem \<sigma>) ?p (words_bytes args)"
    using ga L by (simp_all add: setArg_def call_for_def list_update_append)
  let ?\<sigma> = "\<sigma>\<lparr>mem := wr (wr (mem \<sigma>) ?p (words_bytes args)) ?p (words_bytes (args[slot + 1 := of_nat (length bs)]))\<rparr>"
  have call: "bw_call (x11Bridge64 pr H) op args \<sigma> = ((E_BUFFER, args[slot + 1 := of_nat (length bs)]), ?\<sigma>)"
    using bw_call_x11Bridge64 [where H = H and pr = pr, OF _ _ _ op_known refl h len] ga
    unfolding out m by (simp add: nf)
  have "heap_top \<le> ?p" using ga by (auto simp: stack_ok_def MAX_ARGS_def)
  then have "agree \<sigma> ?\<sigma>" using agree_stack ga by blast
  moreover have "heap_ok ?\<sigma>" using ga by (simp add: heap_ok_def)
  ultimately show ?thesis using call good_stable [OF g] A by metis
qed

lemma large_call:
  assumes g: "good args \<sigma>" and L: "slot + 1 < length args" and A: "ans args \<sigma> = (bs, s)"
    and p: "args ! slot = P p" "p \<noteq> 0" "live \<sigma> p = Some (length bs)"
    and cap: "args ! (slot + 1) = of_nat (length bs)"
  shows "\<exists>args' \<sigma>'. bw_call (x11Bridge64 pr H) op args \<sigma> = ((s, args'), \<sigma>') \<and> rd (mem \<sigma>') p (length bs) = bs \<and>
    server \<sigma>' = server \<sigma> \<and> (\<forall>b t. live \<sigma> b = Some t \<longrightarrow> b \<noteq> p \<longrightarrow> rd (mem \<sigma>') b t = rd (mem \<sigma>) b t)"
proof -
  let ?p = "sp \<sigma> - 8 * length args"
  let ?c = "call_for pr args (wr (mem \<sigma>) ?p (words_bytes args))"
  let ?c1 = "setArg (slot + 1) (of_nat (length bs)) ?c"
  let ?c' = "?c1\<lparr>c_mem := wr (c_mem ?c1) p bs\<rparr>"
  note ga = good_args [OF g] and b = good_bounds [OF g A]
  have h: "4096 \<le> p" "p + length bs \<le> heap_top"
    using ga p(3) by (auto simp: heap_ok_def) (meson le_trans less_imp_le)
  then have lt: "p < 2 ^ 64" "p + length bs \<le> 2 ^ 47" by (simp_all add: heap_top_def)
  have u: "unat (of_nat (length bs) :: u64) = length bs" using b by (simp add: unat_of_nat take_bit_eq_mod)
  have n0: "P p \<noteq> 0" using lt p(2) by (simp add: P_eq_0)
  have args1: "arg ?c slot = P p" "unat (arg ?c (slot + 1)) = length bs"
    using L ga p(1) cap u by (simp_all add: call_arg)
  have w: "h_write (P p) bs ?c1 = (True, ?c')"
    using mapped_range [OF _ h(1) lt(2), of pr True] ga b lt(1)
    by (simp add: h_write_def setArg_def call_for_def)
  have "sizedResult slot bs ?c = (Inr (), ?c')"
    unfolding sizedResult_def Let_def args1 w using n0 by simp
  with handler [OF g A refl] have H: "H op ?c (server \<sigma>) = (s, ?c', server \<sigma>)" by simp
  have len: "length (c_args ?c') = MAX_ARGS" using ga by (simp add: setArg_def call_for_def)
  have nf: "\<not> c_faulted ?c'" and m: "c_mem ?c' = wr (wr (mem \<sigma>) ?p (words_bytes args)) p bs"
    by (simp_all add: setArg_def call_for_def)
  have top: "heap_top \<le> ?p" using ga by (auto simp: stack_ok_def MAX_ARGS_def)
  then have "rd (wr (wr (wr (mem \<sigma>) ?p (words_bytes args)) p bs) ?p bs') p (length bs) = bs" for bs'
    using h by (simp add: rd_wr_other)
  moreover have "rd (wr (wr (wr (mem \<sigma>) ?p (words_bytes args)) p bs) ?p bs') b t = rd (mem \<sigma>) b t"
    if "live \<sigma> b = Some t" "b \<noteq> p" for b t bs'
  proof -
    have "b + t \<le> heap_top" "b + t \<le> p \<or> p + length bs \<le> b"
      using ga that p(3) unfolding heap_ok_def by (metis less_imp_le le_trans linorder_neqE_nat)+
    then show ?thesis using top by (simp add: rd_wr_other)
  qed
  ultimately show ?thesis
    using bw_call_x11Bridge64 [where H = H and pr = pr, OF _ _ _ op_known refl H len] ga nf
    unfolding m by auto
qed

end

sublocale sized_handler \<subseteq>
  sized: sized_operation "x11Bridge64 pr H" op slot good ans
proof (unfold_locales, goal_cases)
  case (1 args \<sigma> bs s)
  then show ?case using short_call by blast
next
  case (2 args \<sigma> bs s p)
  then show ?case using large_call by blast
next
  case (3 args x y \<sigma>)
  then show ?case by (rule good_slots)
next
  case (4 args x y \<sigma>)
  then show ?case by (rule good_slots)
next
  case (5 args \<sigma> n p \<sigma>')
  then show ?case using good_stable agree_calloc calloc_heap_ok by (metis snd_conv)
next
  case (6 args \<sigma> bs s)
  then show ?case by (rule good_bounds)
qed

end
