(* ===== verification/X11Requests.thy ===== *)
theory X11Requests
  imports X11Bridge
begin

text \<open>
  The requests of \<^verbatim>\<open>tools/x11-64/X11.c\<close> that cross to the host with one call: windows,
  properties, pointer, colormaps, graphics contexts, drawing, pixmaps, cursors, the keyboard and
  selections.  Each definition builds the argument array the function builds, with the conversions
  of the C types (an \<^verbatim>\<open>int\<close> is sign-extended, an \<^verbatim>\<open>unsigned\<close> zero-extended), and maps the
  status the way the function does.  Structures a function builds on its stack are locals of the
  model.
\<close>

section \<open>Status conventions\<close>

definition fwd_int :: "'h syscall \<Rightarrow> nat \<Rightarrow> u64 list \<Rightarrow> 'h world \<Rightarrow> c_int \<times> 'h world" where
  "fwd_int sys op args \<sigma> = (case BW sys op args \<sigma> of (r, \<sigma>') \<Rightarrow> (to_int r, \<sigma>'))"

text \<open>\<^verbatim>\<open>== 1 ? 1 : 0\<close>: a boolean answer.\<close>

definition fwd_true :: "'h syscall \<Rightarrow> nat \<Rightarrow> u64 list \<Rightarrow> 'h world \<Rightarrow> c_int \<times> 'h world" where
  "fwd_true sys op args \<sigma> = (case BW sys op args \<sigma> of (r, \<sigma>') \<Rightarrow> (if r = 1 then 1 else 0, \<sigma>'))"

text \<open>\<^verbatim>\<open>(Status)... == Success ? 1 : 0\<close>, compared after the cast to 32 bits.\<close>

definition fwd_success :: "'h syscall \<Rightarrow> nat \<Rightarrow> u64 list \<Rightarrow> 'h world \<Rightarrow> c_int \<times> 'h world" where
  "fwd_success sys op args \<sigma> = (case BW sys op args \<sigma> of (r, \<sigma>') \<Rightarrow> (if to_int r = 0 then 1 else 0, \<sigma>'))"

text \<open>\<^verbatim>\<open>result > 0 ? (XID)result : None\<close>.\<close>

definition fwd_xid :: "'h syscall \<Rightarrow> nat \<Rightarrow> u64 list \<Rightarrow> 'h world \<Rightarrow> u64 \<times> 'h world" where
  "fwd_xid sys op args \<sigma> = (case BW sys op args \<sigma> of (r, \<sigma>') \<Rightarrow> (if 0 < sint r then r else 0, \<sigma>'))"

text \<open>The result is dropped.\<close>

definition fwd_void :: "'h syscall \<Rightarrow> nat \<Rightarrow> u64 list \<Rightarrow> 'h world \<Rightarrow> unit \<times> 'h world" where
  "fwd_void sys op args \<sigma> = (case BW sys op args \<sigma> of (r, \<sigma>') \<Rightarrow> ((), \<sigma>'))"

lemmas fwd_defs = fwd_int_def fwd_true_def fwd_success_def fwd_xid_def fwd_void_def

definition BadImplementation :: u64 where "BadImplementation = 17"

section \<open>Server\<close>

definition XInitThreads :: "'h syscall \<Rightarrow> 'h world \<Rightarrow> c_int \<times> 'h world" where
  "XInitThreads sys \<sigma> = (case fwd_void sys OP_INIT_THREADS [] \<sigma> of (_, \<sigma>') \<Rightarrow> (1, \<sigma>'))"

definition XSync :: "'h syscall \<Rightarrow> nat \<Rightarrow> c_int \<Rightarrow> 'h world \<Rightarrow> c_int \<times> 'h world" where
  "XSync sys dpy discard \<sigma> = (case fwd_void sys OP_SYNC [P dpy] \<sigma> of (_, \<sigma>') \<Rightarrow> (1, \<sigma>'))"

definition XFlush :: "'h syscall \<Rightarrow> nat \<Rightarrow> 'h world \<Rightarrow> c_int \<times> 'h world" where
  "XFlush sys dpy \<sigma> = (case fwd_void sys OP_FLUSH [P dpy] \<sigma> of (_, \<sigma>') \<Rightarrow> (1, \<sigma>'))"

definition XGrabServer :: "'h syscall \<Rightarrow> nat \<Rightarrow> 'h world \<Rightarrow> c_int \<times> 'h world" where
  "XGrabServer sys dpy \<sigma> = (case fwd_void sys OP_GRAB_SERVER [P dpy] \<sigma> of (_, \<sigma>') \<Rightarrow> (1, \<sigma>'))"

definition XUngrabServer :: "'h syscall \<Rightarrow> nat \<Rightarrow> 'h world \<Rightarrow> c_int \<times> 'h world" where
  "XUngrabServer sys dpy \<sigma> = (case fwd_void sys OP_UNGRAB_SERVER [P dpy] \<sigma> of (_, \<sigma>') \<Rightarrow> (1, \<sigma>'))"

section \<open>Windows\<close>

text \<open>Layouts of the structures the functions build on the stack.\<close>

definition XSetWindowAttributes_size :: nat where "XSetWindowAttributes_size = 112"
definition swa_background_pixel :: nat where "swa_background_pixel = 8"
definition swa_border_pixel :: nat where "swa_border_pixel = 24"

definition XWindowChanges_size :: nat where "XWindowChanges_size = 40"
definition wc_x :: nat where "wc_x = 0"
definition wc_y :: nat where "wc_y = 4"
definition wc_width :: nat where "wc_width = 8"
definition wc_height :: nat where "wc_height = 12"
definition wc_stack_mode :: nat where "wc_stack_mode = 32"

definition CWX :: u32 where "CWX = 1"
definition CWY :: u32 where "CWY = 2"
definition CWWidth :: u32 where "CWWidth = 4"
definition CWHeight :: u32 where "CWHeight = 8"
definition CWStackMode :: u32 where "CWStackMode = 64"
definition CWBackPixel :: u64 where "CWBackPixel = 2"
definition CWBorderPixel :: u64 where "CWBorderPixel = 8"
definition InputOutput :: u32 where "InputOutput = 1"
definition Above :: c_int where "Above = 0"
definition Below :: c_int where "Below = 1"

definition XCreateWindow ::
  "'h syscall \<Rightarrow> nat \<Rightarrow> u64 \<Rightarrow> c_int \<Rightarrow> c_int \<Rightarrow> u32 \<Rightarrow> u32 \<Rightarrow> u32 \<Rightarrow> c_int \<Rightarrow> u32 \<Rightarrow> nat \<Rightarrow> u64 \<Rightarrow> nat \<Rightarrow>
   'h world \<Rightarrow> u64 \<times> 'h world" where
  "XCreateWindow sys dpy parent x y width height border_width depth cls visual valuemask attributes \<sigma> =
     (case BW sys OP_CREATE_WINDOW [P dpy, parent, A_int x, A_int y, A_uint width, A_uint height,
             A_uint border_width, A_int depth, A_uint cls, P visual, valuemask, P attributes] \<sigma> of
        (result, \<sigma>') \<Rightarrow> (if sint BadImplementation < sint result then result else 0, \<sigma>'))"

definition XCreateSimpleWindow ::
  "'h syscall \<Rightarrow> nat \<Rightarrow> u64 \<Rightarrow> c_int \<Rightarrow> c_int \<Rightarrow> u32 \<Rightarrow> u32 \<Rightarrow> u32 \<Rightarrow> u64 \<Rightarrow> u64 \<Rightarrow> 'h world \<Rightarrow> u64 \<times> 'h world" where
  "XCreateSimpleWindow sys dpy parent x y width height border_width border background =
     with_bytes (replicate XSetWindowAttributes_size 0) (\<lambda>attributes \<sigma>.
       XCreateWindow sys dpy parent x y width height border_width 0 InputOutput 0
         (CWBackPixel OR CWBorderPixel) attributes
         (store 8 (attributes + swa_background_pixel) background
           (store 8 (attributes + swa_border_pixel) border \<sigma>)))"

definition XDestroyWindow :: "'h syscall \<Rightarrow> nat \<Rightarrow> u64 \<Rightarrow> 'h world \<Rightarrow> c_int \<times> 'h world" where
  "XDestroyWindow sys dpy w = fwd_int sys OP_DESTROY_WINDOW [P dpy, w]"

definition XMapWindow :: "'h syscall \<Rightarrow> nat \<Rightarrow> u64 \<Rightarrow> 'h world \<Rightarrow> c_int \<times> 'h world" where
  "XMapWindow sys dpy w = fwd_int sys OP_MAP_WINDOW [P dpy, w]"

definition XMapRaised :: "'h syscall \<Rightarrow> nat \<Rightarrow> u64 \<Rightarrow> 'h world \<Rightarrow> c_int \<times> 'h world" where
  "XMapRaised sys dpy w = XMapWindow sys dpy w"

definition XUnmapWindow :: "'h syscall \<Rightarrow> nat \<Rightarrow> u64 \<Rightarrow> 'h world \<Rightarrow> c_int \<times> 'h world" where
  "XUnmapWindow sys dpy w = fwd_int sys OP_UNMAP_WINDOW [P dpy, w]"

definition XSelectInput :: "'h syscall \<Rightarrow> nat \<Rightarrow> u64 \<Rightarrow> u64 \<Rightarrow> 'h world \<Rightarrow> c_int \<times> 'h world" where
  "XSelectInput sys dpy w event_mask = fwd_int sys OP_SELECT_INPUT [P dpy, w, event_mask]"

definition XMoveResizeWindow ::
  "'h syscall \<Rightarrow> nat \<Rightarrow> u64 \<Rightarrow> c_int \<Rightarrow> c_int \<Rightarrow> u32 \<Rightarrow> u32 \<Rightarrow> 'h world \<Rightarrow> c_int \<times> 'h world" where
  "XMoveResizeWindow sys dpy w x y width height =
     fwd_int sys OP_MOVE_RESIZE_WINDOW [P dpy, w, A_int x, A_int y, A_uint width, A_uint height]"

definition XConfigureWindow ::
  "'h syscall \<Rightarrow> nat \<Rightarrow> u64 \<Rightarrow> u32 \<Rightarrow> nat \<Rightarrow> 'h world \<Rightarrow> c_int \<times> 'h world" where
  "XConfigureWindow sys dpy w value_mask values =
     fwd_int sys OP_CONFIGURE_WINDOW [P dpy, w, A_uint value_mask, P values]"

definition XReconfigureWMWindow ::
  "'h syscall \<Rightarrow> nat \<Rightarrow> u64 \<Rightarrow> c_int \<Rightarrow> u32 \<Rightarrow> nat \<Rightarrow> 'h world \<Rightarrow> c_int \<times> 'h world" where
  "XReconfigureWMWindow sys dpy w screen_number msk changes =
     fwd_success sys OP_CONFIGURE_WINDOW [P dpy, w, A_uint msk, P changes]"

definition XMoveWindow :: "'h syscall \<Rightarrow> nat \<Rightarrow> u64 \<Rightarrow> c_int \<Rightarrow> c_int \<Rightarrow> 'h world \<Rightarrow> c_int \<times> 'h world" where
  "XMoveWindow sys dpy w x y =
     with_bytes (replicate XWindowChanges_size 0) (\<lambda>changes \<sigma>.
       XConfigureWindow sys dpy w (CWX OR CWY) changes
         (store 4 (changes + wc_y) y (store 4 (changes + wc_x) x \<sigma>)))"

definition XResizeWindow :: "'h syscall \<Rightarrow> nat \<Rightarrow> u64 \<Rightarrow> u32 \<Rightarrow> u32 \<Rightarrow> 'h world \<Rightarrow> c_int \<times> 'h world" where
  "XResizeWindow sys dpy w width height =
     with_bytes (replicate XWindowChanges_size 0) (\<lambda>changes \<sigma>.
       XConfigureWindow sys dpy w (CWWidth OR CWHeight) changes
         (store 4 (changes + wc_height) height (store 4 (changes + wc_width) width \<sigma>)))"

definition XRaiseWindow :: "'h syscall \<Rightarrow> nat \<Rightarrow> u64 \<Rightarrow> 'h world \<Rightarrow> c_int \<times> 'h world" where
  "XRaiseWindow sys dpy w =
     with_bytes (replicate XWindowChanges_size 0) (\<lambda>changes \<sigma>.
       XConfigureWindow sys dpy w CWStackMode changes (store 4 (changes + wc_stack_mode) Above \<sigma>))"

definition XLowerWindow :: "'h syscall \<Rightarrow> nat \<Rightarrow> u64 \<Rightarrow> 'h world \<Rightarrow> c_int \<times> 'h world" where
  "XLowerWindow sys dpy w =
     with_bytes (replicate XWindowChanges_size 0) (\<lambda>changes \<sigma>.
       XConfigureWindow sys dpy w CWStackMode changes (store 4 (changes + wc_stack_mode) Below \<sigma>))"

definition XChangeWindowAttributes ::
  "'h syscall \<Rightarrow> nat \<Rightarrow> u64 \<Rightarrow> u64 \<Rightarrow> nat \<Rightarrow> 'h world \<Rightarrow> c_int \<times> 'h world" where
  "XChangeWindowAttributes sys dpy w valuemask attributes =
     fwd_int sys OP_CHANGE_WINDOW_ATTRIBUTES [P dpy, w, valuemask, P attributes]"

definition XSetWindowBackground :: "'h syscall \<Rightarrow> nat \<Rightarrow> u64 \<Rightarrow> u64 \<Rightarrow> 'h world \<Rightarrow> c_int \<times> 'h world" where
  "XSetWindowBackground sys dpy w background_pixel =
     with_bytes (replicate XSetWindowAttributes_size 0) (\<lambda>attributes \<sigma>.
       XChangeWindowAttributes sys dpy w CWBackPixel attributes
         (store 8 (attributes + swa_background_pixel) background_pixel \<sigma>))"

definition XGetWindowAttributes :: "'h syscall \<Rightarrow> nat \<Rightarrow> u64 \<Rightarrow> nat \<Rightarrow> 'h world \<Rightarrow> c_int \<times> 'h world" where
  "XGetWindowAttributes sys dpy w attributes_return =
     fwd_true sys OP_GET_WINDOW_ATTRIBUTES [P dpy, w, P attributes_return]"

definition XReparentWindow ::
  "'h syscall \<Rightarrow> nat \<Rightarrow> u64 \<Rightarrow> u64 \<Rightarrow> c_int \<Rightarrow> c_int \<Rightarrow> 'h world \<Rightarrow> c_int \<times> 'h world" where
  "XReparentWindow sys dpy w parent x y = fwd_int sys OP_REPARENT_WINDOW [P dpy, w, parent, A_int x, A_int y]"

definition XTranslateCoordinates ::
  "'h syscall \<Rightarrow> nat \<Rightarrow> u64 \<Rightarrow> u64 \<Rightarrow> c_int \<Rightarrow> c_int \<Rightarrow> nat \<Rightarrow> nat \<Rightarrow> nat \<Rightarrow> 'h world \<Rightarrow> c_int \<times> 'h world" where
  "XTranslateCoordinates sys dpy src_w dest_w src_x src_y dest_x_return dest_y_return child_return =
     fwd_true sys OP_TRANSLATE_COORDINATES [P dpy, src_w, dest_w, A_int src_x, A_int src_y,
       P dest_x_return, P dest_y_return, P child_return]"

definition XGetGeometry ::
  "'h syscall \<Rightarrow> nat \<Rightarrow> u64 \<Rightarrow> nat \<Rightarrow> nat \<Rightarrow> nat \<Rightarrow> nat \<Rightarrow> nat \<Rightarrow> nat \<Rightarrow> nat \<Rightarrow> 'h world \<Rightarrow> c_int \<times> 'h world" where
  "XGetGeometry sys dpy d root_return x_return y_return width_return height_return border_return depth_return =
     fwd_true sys OP_GET_GEOMETRY [P dpy, d, P root_return, P x_return, P y_return, P width_return,
       P height_return, P border_return, P depth_return]"

text \<open>The child list comes back in a block the caller frees; the count is the status.\<close>

definition XQueryTree ::
  "'h syscall \<Rightarrow> nat \<Rightarrow> u64 \<Rightarrow> nat \<Rightarrow> nat \<Rightarrow> nat \<Rightarrow> nat \<Rightarrow> 'h world \<Rightarrow> c_int \<times> 'h world" where
  "XQueryTree sys dpy w root_return parent_return children_return nchildren_return \<sigma> =
     (case bw_sized sys OP_QUERY_TREE [P dpy, w, P root_return, P parent_return, 0, 0] 4 \<sigma> of
        ((children, status), \<sigma>1) \<Rightarrow>
          if sint status < 0
          then (0, store 4 nchildren_return (0 :: u32) (store 8 children_return (0 :: u64) \<sigma>1))
          else (1, store 4 nchildren_return (ucast status :: u32) (store 8 children_return (P children) \<sigma>1)))"

definition XWithdrawWindow :: "'h syscall \<Rightarrow> nat \<Rightarrow> u64 \<Rightarrow> c_int \<Rightarrow> 'h world \<Rightarrow> c_int \<times> 'h world" where
  "XWithdrawWindow sys dpy w screen_number = fwd_success sys OP_WITHDRAW_WINDOW [P dpy, w]"

definition XIconifyWindow :: "'h syscall \<Rightarrow> nat \<Rightarrow> u64 \<Rightarrow> c_int \<Rightarrow> 'h world \<Rightarrow> c_int \<times> 'h world" where
  "XIconifyWindow sys dpy w screen_number = fwd_int sys OP_ICONIFY_WINDOW [P dpy, w]"

definition XSetInputFocus :: "'h syscall \<Rightarrow> nat \<Rightarrow> u64 \<Rightarrow> c_int \<Rightarrow> u64 \<Rightarrow> 'h world \<Rightarrow> c_int \<times> 'h world" where
  "XSetInputFocus sys dpy focus revert_to time =
     fwd_int sys OP_SET_INPUT_FOCUS [P dpy, focus, A_int revert_to, time]"

definition XGetInputFocus :: "'h syscall \<Rightarrow> nat \<Rightarrow> nat \<Rightarrow> nat \<Rightarrow> 'h world \<Rightarrow> c_int \<times> 'h world" where
  "XGetInputFocus sys dpy focus_return revert_to_return =
     fwd_int sys OP_GET_INPUT_FOCUS [P dpy, P focus_return, P revert_to_return]"

definition XSetTransientForHint :: "'h syscall \<Rightarrow> nat \<Rightarrow> u64 \<Rightarrow> u64 \<Rightarrow> 'h world \<Rightarrow> c_int \<times> 'h world" where
  "XSetTransientForHint sys dpy w prop_window = fwd_int sys OP_SET_TRANSIENT_FOR_HINT [P dpy, w, prop_window]"

definition XClearArea ::
  "'h syscall \<Rightarrow> nat \<Rightarrow> u64 \<Rightarrow> c_int \<Rightarrow> c_int \<Rightarrow> u32 \<Rightarrow> u32 \<Rightarrow> c_int \<Rightarrow> 'h world \<Rightarrow> c_int \<times> 'h world" where
  "XClearArea sys dpy w x y width height exposures =
     fwd_int sys OP_CLEAR_AREA [P dpy, w, A_int x, A_int y, A_uint width, A_uint height, A_int exposures]"

definition XClearWindow :: "'h syscall \<Rightarrow> nat \<Rightarrow> u64 \<Rightarrow> 'h world \<Rightarrow> c_int \<times> 'h world" where
  "XClearWindow sys dpy w = XClearArea sys dpy w 0 0 0 0 0"

section \<open>Properties\<close>

definition XChangeProperty ::
  "'h syscall \<Rightarrow> nat \<Rightarrow> u64 \<Rightarrow> u64 \<Rightarrow> u64 \<Rightarrow> c_int \<Rightarrow> c_int \<Rightarrow> nat \<Rightarrow> c_int \<Rightarrow> 'h world \<Rightarrow> c_int \<times> 'h world" where
  "XChangeProperty sys dpy w property type format mode data nelements =
     fwd_int sys OP_CHANGE_PROPERTY [P dpy, w, property, type, A_int format, A_int mode, P data, A_int nelements]"

definition XDeleteProperty :: "'h syscall \<Rightarrow> nat \<Rightarrow> u64 \<Rightarrow> u64 \<Rightarrow> 'h world \<Rightarrow> c_int \<times> 'h world" where
  "XDeleteProperty sys dpy w property = fwd_int sys OP_DELETE_PROPERTY [P dpy, w, property]"

text \<open>The value comes back in a fresh block; an absent property still gives one zeroed byte.\<close>

definition XGetWindowProperty ::
  "'h syscall \<Rightarrow> nat \<Rightarrow> u64 \<Rightarrow> u64 \<Rightarrow> u64 \<Rightarrow> u64 \<Rightarrow> c_int \<Rightarrow> u64 \<Rightarrow> nat \<Rightarrow> nat \<Rightarrow> nat \<Rightarrow> nat \<Rightarrow> nat \<Rightarrow>
   'h world \<Rightarrow> c_int \<times> 'h world" where
  "XGetWindowProperty sys dpy w property long_offset long_length delete req_type actual_type_return
       actual_format_return nitems_return bytes_after_return prop_return \<sigma> =
     (case bw_sized sys OP_GET_WINDOW_PROPERTY [P dpy, w, property, long_offset, long_length, A_int delete,
             req_type, P actual_type_return, P actual_format_return, P nitems_return,
             P bytes_after_return, 0, 0] 11 \<sigma> of
        ((value, status), \<sigma>1) \<Rightarrow>
          if sint status < 0 then (17, store 8 prop_return (0 :: u64) \<sigma>1)
          else
            let (value', \<sigma>2) = (if status = 0 \<and> value = 0 then calloc 1 1 \<sigma>1 else (value, \<sigma>1))
            in (to_int status, store 8 prop_return (P value') \<sigma>2))"

definition XSetWMHints :: "'h syscall \<Rightarrow> nat \<Rightarrow> u64 \<Rightarrow> nat \<Rightarrow> 'h world \<Rightarrow> c_int \<times> 'h world" where
  "XSetWMHints sys dpy w wm_hints = fwd_int sys OP_SET_WM_HINTS [P dpy, w, P wm_hints]"

definition XWMHints_size :: nat where "XWMHints_size = 56"

definition XGetWMHints :: "'h syscall \<Rightarrow> nat \<Rightarrow> u64 \<Rightarrow> 'h world \<Rightarrow> nat \<times> 'h world" where
  "XGetWMHints sys dpy w \<sigma> =
     (case calloc 1 XWMHints_size \<sigma> of (hints, \<sigma>1) \<Rightarrow>
        if hints = 0 then (0, \<sigma>1)
        else case BW sys OP_GET_WM_HINTS [P dpy, w, P hints] \<sigma>1 of (r, \<sigma>2) \<Rightarrow>
               if r \<noteq> 1 then (0, free hints \<sigma>2) else (hints, \<sigma>2))"

definition XSetWMNormalHints :: "'h syscall \<Rightarrow> nat \<Rightarrow> u64 \<Rightarrow> nat \<Rightarrow> 'h world \<Rightarrow> unit \<times> 'h world" where
  "XSetWMNormalHints sys dpy w hints = fwd_void sys OP_SET_WM_NORMAL_HINTS [P dpy, w, P hints]"

definition XGetWMNormalHints :: "'h syscall \<Rightarrow> nat \<Rightarrow> u64 \<Rightarrow> nat \<Rightarrow> nat \<Rightarrow> 'h world \<Rightarrow> c_int \<times> 'h world" where
  "XGetWMNormalHints sys dpy w hints_return supplied_return =
     fwd_true sys OP_GET_WM_NORMAL_HINTS [P dpy, w, P hints_return, P supplied_return]"

definition XSetTextProperty :: "'h syscall \<Rightarrow> nat \<Rightarrow> u64 \<Rightarrow> nat \<Rightarrow> u64 \<Rightarrow> 'h world \<Rightarrow> unit \<times> 'h world" where
  "XSetTextProperty sys dpy w text_prop property = fwd_void sys OP_SET_TEXT_PROPERTY [P dpy, w, P text_prop, property]"

definition XA_WM_NAME :: u64 where "XA_WM_NAME = 39"
definition XA_WM_ICON_NAME :: u64 where "XA_WM_ICON_NAME = 37"

definition XSetWMName :: "'h syscall \<Rightarrow> nat \<Rightarrow> u64 \<Rightarrow> nat \<Rightarrow> 'h world \<Rightarrow> unit \<times> 'h world" where
  "XSetWMName sys dpy w text_prop = XSetTextProperty sys dpy w text_prop XA_WM_NAME"

definition XSetWMIconName :: "'h syscall \<Rightarrow> nat \<Rightarrow> u64 \<Rightarrow> nat \<Rightarrow> 'h world \<Rightarrow> unit \<times> 'h world" where
  "XSetWMIconName sys dpy w text_prop = XSetTextProperty sys dpy w text_prop XA_WM_ICON_NAME"

text \<open>The structures the allocators hand out are zeroed blocks.\<close>

definition XAllocWMHints :: "'h world \<Rightarrow> nat \<times> 'h world" where "XAllocWMHints = calloc 1 XWMHints_size"
definition XAllocSizeHints :: "'h world \<Rightarrow> nat \<times> 'h world" where "XAllocSizeHints = calloc 1 80"
definition XAllocClassHint :: "'h world \<Rightarrow> nat \<times> 'h world" where "XAllocClassHint = calloc 1 16"
definition XAllocIconSize :: "'h world \<Rightarrow> nat \<times> 'h world" where "XAllocIconSize = calloc 1 24"

section \<open>Atoms\<close>

definition XInternAtom :: "'h syscall \<Rightarrow> nat \<Rightarrow> nat \<Rightarrow> c_int \<Rightarrow> 'h world \<Rightarrow> u64 \<times> 'h world" where
  "XInternAtom sys dpy atom_name only_if_exists =
     fwd_xid sys OP_INTERN_ATOM [P dpy, P atom_name, A_int only_if_exists]"

definition XInternAtoms :: "'h syscall \<Rightarrow> nat \<Rightarrow> nat \<Rightarrow> c_int \<Rightarrow> c_int \<Rightarrow> nat \<Rightarrow> 'h world \<Rightarrow> c_int \<times> 'h world" where
  "XInternAtoms sys dpy names count onlyIfExists atoms_return \<sigma> =
     (case BW sys OP_INTERN_ATOMS [P dpy, P names, A_int count, A_int onlyIfExists, P atoms_return] \<sigma> of
        (result, \<sigma>') \<Rightarrow> (if 0 \<le> sint result then 1 else 0, \<sigma>'))"

definition XGetAtomName :: "'h syscall \<Rightarrow> nat \<Rightarrow> u64 \<Rightarrow> 'h world \<Rightarrow> nat \<times> 'h world" where
  "XGetAtomName sys dpy atom \<sigma> =
     (case bw_sized sys OP_GET_ATOM_NAME [P dpy, atom, 0, 0] 2 \<sigma> of
        ((name, status), \<sigma>1) \<Rightarrow> if sint status \<le> 0 then (0, free name \<sigma>1) else (name, \<sigma>1))"

text \<open>The loop over \<^verbatim>\<open>count\<close> atoms: a missing name leaves NULL in its slot and clears the
  result, the others are still fetched.\<close>

primrec get_atom_names ::
  "'h syscall \<Rightarrow> nat \<Rightarrow> nat \<Rightarrow> nat \<Rightarrow> nat \<Rightarrow> nat \<Rightarrow> c_int \<Rightarrow> 'h world \<Rightarrow> c_int \<times> 'h world" where
  "get_atom_names sys dpy atoms names_return i 0 result \<sigma> = (result, \<sigma>)"
| "get_atom_names sys dpy atoms names_return i (Suc n) result \<sigma> =
     (case XGetAtomName sys dpy (ld 8 (atoms + 8 * i) \<sigma>) \<sigma> of (name, \<sigma>1) \<Rightarrow>
        get_atom_names sys dpy atoms names_return (Suc i) n (if name = 0 then 0 else result)
          (store 8 (names_return + 8 * i) (P name) \<sigma>1))"

definition XGetAtomNames :: "'h syscall \<Rightarrow> nat \<Rightarrow> nat \<Rightarrow> c_int \<Rightarrow> nat \<Rightarrow> 'h world \<Rightarrow> c_int \<times> 'h world" where
  "XGetAtomNames sys dpy atoms count names_return =
     get_atom_names sys dpy atoms names_return 0 (nat (sint count)) 1"

section \<open>Pointer and keyboard grabs\<close>

definition XGrabPointer ::
  "'h syscall \<Rightarrow> nat \<Rightarrow> u64 \<Rightarrow> c_int \<Rightarrow> u32 \<Rightarrow> c_int \<Rightarrow> c_int \<Rightarrow> u64 \<Rightarrow> u64 \<Rightarrow> u64 \<Rightarrow> 'h world \<Rightarrow> c_int \<times> 'h world" where
  "XGrabPointer sys dpy grab_window owner_events event_mask pointer_mode keyboard_mode confine_to cursor time =
     fwd_int sys OP_GRAB_POINTER [P dpy, grab_window, A_int owner_events, A_uint event_mask,
       A_int pointer_mode, A_int keyboard_mode, confine_to, cursor, time]"

definition XUngrabPointer :: "'h syscall \<Rightarrow> nat \<Rightarrow> u64 \<Rightarrow> 'h world \<Rightarrow> c_int \<times> 'h world" where
  "XUngrabPointer sys dpy time = fwd_int sys OP_UNGRAB_POINTER [P dpy, time]"

definition XWarpPointer ::
  "'h syscall \<Rightarrow> nat \<Rightarrow> u64 \<Rightarrow> u64 \<Rightarrow> c_int \<Rightarrow> c_int \<Rightarrow> u32 \<Rightarrow> u32 \<Rightarrow> c_int \<Rightarrow> c_int \<Rightarrow> 'h world \<Rightarrow> c_int \<times> 'h world" where
  "XWarpPointer sys dpy src_w dest_w src_x src_y src_width src_height dest_x dest_y =
     fwd_int sys OP_WARP_POINTER [P dpy, src_w, dest_w, A_int src_x, A_int src_y, A_uint src_width,
       A_uint src_height, A_int dest_x, A_int dest_y]"

definition XQueryPointer ::
  "'h syscall \<Rightarrow> nat \<Rightarrow> u64 \<Rightarrow> nat \<Rightarrow> nat \<Rightarrow> nat \<Rightarrow> nat \<Rightarrow> nat \<Rightarrow> nat \<Rightarrow> nat \<Rightarrow> 'h world \<Rightarrow> c_int \<times> 'h world" where
  "XQueryPointer sys dpy w root_return child_return root_x_return root_y_return win_x_return win_y_return mask_return =
     fwd_true sys OP_QUERY_POINTER [P dpy, w, P root_return, P child_return, P root_x_return,
       P root_y_return, P win_x_return, P win_y_return, P mask_return]"

section \<open>Colormaps\<close>

definition XCreateColormap :: "'h syscall \<Rightarrow> nat \<Rightarrow> u64 \<Rightarrow> nat \<Rightarrow> c_int \<Rightarrow> 'h world \<Rightarrow> u64 \<times> 'h world" where
  "XCreateColormap sys dpy w visual alloc = fwd_xid sys OP_CREATE_COLORMAP [P dpy, w, P visual, A_int alloc]"

definition XFreeColormap :: "'h syscall \<Rightarrow> nat \<Rightarrow> u64 \<Rightarrow> 'h world \<Rightarrow> c_int \<times> 'h world" where
  "XFreeColormap sys dpy colormap = fwd_int sys OP_FREE_COLORMAP [P dpy, colormap]"

definition XAllocColor :: "'h syscall \<Rightarrow> nat \<Rightarrow> u64 \<Rightarrow> nat \<Rightarrow> 'h world \<Rightarrow> c_int \<times> 'h world" where
  "XAllocColor sys dpy colormap screen_in_out = fwd_true sys OP_ALLOC_COLOR [P dpy, colormap, P screen_in_out]"

definition XAllocColorCells ::
  "'h syscall \<Rightarrow> nat \<Rightarrow> u64 \<Rightarrow> c_int \<Rightarrow> nat \<Rightarrow> u32 \<Rightarrow> nat \<Rightarrow> u32 \<Rightarrow> 'h world \<Rightarrow> c_int \<times> 'h world" where
  "XAllocColorCells sys dpy colormap contig plane_masks_return nplanes pixels_return npixels =
     fwd_true sys OP_ALLOC_COLOR_CELLS [P dpy, colormap, A_int contig, P plane_masks_return,
       A_uint nplanes, P pixels_return, A_uint npixels]"

definition XFreeColors :: "'h syscall \<Rightarrow> nat \<Rightarrow> u64 \<Rightarrow> nat \<Rightarrow> c_int \<Rightarrow> u64 \<Rightarrow> 'h world \<Rightarrow> c_int \<times> 'h world" where
  "XFreeColors sys dpy colormap pixels npixels planes =
     fwd_int sys OP_FREE_COLORS [P dpy, colormap, P pixels, A_int npixels, planes]"

definition XQueryColor :: "'h syscall \<Rightarrow> nat \<Rightarrow> u64 \<Rightarrow> nat \<Rightarrow> 'h world \<Rightarrow> c_int \<times> 'h world" where
  "XQueryColor sys dpy colormap def_in_out = fwd_int sys OP_QUERY_COLOR [P dpy, colormap, P def_in_out]"

definition XQueryColors :: "'h syscall \<Rightarrow> nat \<Rightarrow> u64 \<Rightarrow> nat \<Rightarrow> c_int \<Rightarrow> 'h world \<Rightarrow> c_int \<times> 'h world" where
  "XQueryColors sys dpy colormap defs_in_out ncolors =
     fwd_int sys OP_QUERY_COLORS [P dpy, colormap, P defs_in_out, A_int ncolors]"

definition XStoreColor :: "'h syscall \<Rightarrow> nat \<Rightarrow> u64 \<Rightarrow> nat \<Rightarrow> 'h world \<Rightarrow> c_int \<times> 'h world" where
  "XStoreColor sys dpy colormap color = fwd_int sys OP_STORE_COLOR [P dpy, colormap, P color]"

section \<open>Graphics contexts\<close>

text \<open>A \<^verbatim>\<open>GC\<close> is the server id carried in a pointer.\<close>

definition XCreateGC :: "'h syscall \<Rightarrow> nat \<Rightarrow> u64 \<Rightarrow> u64 \<Rightarrow> nat \<Rightarrow> 'h world \<Rightarrow> u64 \<times> 'h world" where
  "XCreateGC sys dpy d valuemask values = fwd_xid sys OP_CREATE_GC [P dpy, d, valuemask, P values]"

definition XFreeGC :: "'h syscall \<Rightarrow> nat \<Rightarrow> u64 \<Rightarrow> 'h world \<Rightarrow> c_int \<times> 'h world" where
  "XFreeGC sys dpy gc = fwd_int sys OP_FREE_GC [P dpy, gc]"

definition XChangeGC :: "'h syscall \<Rightarrow> nat \<Rightarrow> u64 \<Rightarrow> u64 \<Rightarrow> nat \<Rightarrow> 'h world \<Rightarrow> c_int \<times> 'h world" where
  "XChangeGC sys dpy gc valuemask values = fwd_int sys OP_CHANGE_GC [P dpy, gc, valuemask, P values]"

definition XGContextFromGC :: "u64 \<Rightarrow> u64" where "XGContextFromGC gc = gc"

text \<open>The selectors of \<^verbatim>\<open>SET_GC_VALUE\<close>.\<close>

definition GC_FUNCTION :: u64 where "GC_FUNCTION = 0"
definition GC_BACKGROUND :: u64 where "GC_BACKGROUND = 1"
definition GC_FOREGROUND :: u64 where "GC_FOREGROUND = 2"
definition GC_SUBWINDOW_MODE :: u64 where "GC_SUBWINDOW_MODE = 3"
definition GC_GRAPHICS_EXPOSURES :: u64 where "GC_GRAPHICS_EXPOSURES = 4"
definition GC_CLIP_MASK :: u64 where "GC_CLIP_MASK = 5"
definition GC_FILL_STYLE :: u64 where "GC_FILL_STYLE = 6"
definition GC_ARC_MODE :: u64 where "GC_ARC_MODE = 7"

lemmas gc_selector_defs = GC_FUNCTION_def GC_BACKGROUND_def GC_FOREGROUND_def GC_SUBWINDOW_MODE_def
  GC_GRAPHICS_EXPOSURES_def GC_CLIP_MASK_def GC_FILL_STYLE_def GC_ARC_MODE_def

definition XSetFunction :: "'h syscall \<Rightarrow> nat \<Rightarrow> u64 \<Rightarrow> c_int \<Rightarrow> 'h world \<Rightarrow> c_int \<times> 'h world" where
  "XSetFunction sys dpy gc v = fwd_int sys OP_SET_GC_VALUE [P dpy, gc, GC_FUNCTION, A_int v]"
definition XSetBackground :: "'h syscall \<Rightarrow> nat \<Rightarrow> u64 \<Rightarrow> u64 \<Rightarrow> 'h world \<Rightarrow> c_int \<times> 'h world" where
  "XSetBackground sys dpy gc v = fwd_int sys OP_SET_GC_VALUE [P dpy, gc, GC_BACKGROUND, v]"
definition XSetForeground :: "'h syscall \<Rightarrow> nat \<Rightarrow> u64 \<Rightarrow> u64 \<Rightarrow> 'h world \<Rightarrow> c_int \<times> 'h world" where
  "XSetForeground sys dpy gc v = fwd_int sys OP_SET_GC_VALUE [P dpy, gc, GC_FOREGROUND, v]"
definition XSetSubwindowMode :: "'h syscall \<Rightarrow> nat \<Rightarrow> u64 \<Rightarrow> c_int \<Rightarrow> 'h world \<Rightarrow> c_int \<times> 'h world" where
  "XSetSubwindowMode sys dpy gc v = fwd_int sys OP_SET_GC_VALUE [P dpy, gc, GC_SUBWINDOW_MODE, A_int v]"
definition XSetGraphicsExposures :: "'h syscall \<Rightarrow> nat \<Rightarrow> u64 \<Rightarrow> c_int \<Rightarrow> 'h world \<Rightarrow> c_int \<times> 'h world" where
  "XSetGraphicsExposures sys dpy gc v = fwd_int sys OP_SET_GC_VALUE [P dpy, gc, GC_GRAPHICS_EXPOSURES, A_int v]"
definition XSetClipMask :: "'h syscall \<Rightarrow> nat \<Rightarrow> u64 \<Rightarrow> u64 \<Rightarrow> 'h world \<Rightarrow> c_int \<times> 'h world" where
  "XSetClipMask sys dpy gc pixmap = fwd_int sys OP_SET_GC_VALUE [P dpy, gc, GC_CLIP_MASK, pixmap]"
definition XSetFillStyle :: "'h syscall \<Rightarrow> nat \<Rightarrow> u64 \<Rightarrow> c_int \<Rightarrow> 'h world \<Rightarrow> c_int \<times> 'h world" where
  "XSetFillStyle sys dpy gc v = fwd_int sys OP_SET_GC_VALUE [P dpy, gc, GC_FILL_STYLE, A_int v]"
definition XSetArcMode :: "'h syscall \<Rightarrow> nat \<Rightarrow> u64 \<Rightarrow> c_int \<Rightarrow> 'h world \<Rightarrow> c_int \<times> 'h world" where
  "XSetArcMode sys dpy gc v = fwd_int sys OP_SET_GC_VALUE [P dpy, gc, GC_ARC_MODE, A_int v]"

definition XSetClipRectangles ::
  "'h syscall \<Rightarrow> nat \<Rightarrow> u64 \<Rightarrow> c_int \<Rightarrow> c_int \<Rightarrow> nat \<Rightarrow> c_int \<Rightarrow> c_int \<Rightarrow> 'h world \<Rightarrow> c_int \<times> 'h world" where
  "XSetClipRectangles sys dpy gc clip_x_origin clip_y_origin rectangles n ord =
     fwd_int sys OP_SET_CLIP_RECTANGLES [P dpy, gc, A_int clip_x_origin, A_int clip_y_origin,
       P rectangles, A_int n, A_int ord]"

end
