(* ===== verification/X11Drawing.thy ===== *)
theory X11Drawing
  imports X11Requests
begin

text \<open>
  The remaining single-call requests of \<^verbatim>\<open>tools/x11-64/X11.c\<close>: drawing, images handed to the
  server, pixmaps, cursors, keyboard translation, selections and input-method stubs; and the stubs
  that report themselves to the host once per process.
\<close>

section \<open>Literals and stubs\<close>

definition cstr :: "string \<Rightarrow> u8 list" where
  "cstr s = map of_char s @ [0]"

text \<open>\<^verbatim>\<open>BW_STUB\<close>: the static flags of all stubs are the set of names already reported.\<close>

definition bw_stub :: "'h syscall \<Rightarrow> string \<Rightarrow> string list \<times> 'h world \<Rightarrow> string list \<times> 'h world" where
  "bw_stub sys name = (\<lambda>(reported, \<sigma>).
     if name \<in> set reported then (reported, \<sigma>)
     else (name # reported,
           snd (with_bytes (cstr name) (\<lambda>p. fwd_void sys OP_REPORT_UNIMPLEMENTED [P p]) \<sigma>)))"

definition bw_trace :: "'h syscall \<Rightarrow> string \<Rightarrow> 'h world \<Rightarrow> 'h world" where
  "bw_trace sys txt \<sigma> = snd (with_bytes (cstr txt) (\<lambda>p. fwd_void sys OP_TRACE [P p]) \<sigma>)"

section \<open>Drawing\<close>

definition XSetDashes :: "'h syscall \<Rightarrow> string list \<times> 'h world \<Rightarrow> c_int \<times> string list \<times> 'h world" where
  "XSetDashes sys s = (1, bw_stub sys ''XSetDashes'' s)"

definition XCopyArea ::
  "'h syscall \<Rightarrow> nat \<Rightarrow> u64 \<Rightarrow> u64 \<Rightarrow> u64 \<Rightarrow> c_int \<Rightarrow> c_int \<Rightarrow> u32 \<Rightarrow> u32 \<Rightarrow> c_int \<Rightarrow> c_int \<Rightarrow> 'h world \<Rightarrow> c_int \<times> 'h world" where
  "XCopyArea sys dpy src dest gc src_x src_y width height dest_x dest_y =
     fwd_int sys OP_COPY_AREA [P dpy, src, dest, gc, A_int src_x, A_int src_y, A_uint width,
       A_uint height, A_int dest_x, A_int dest_y]"

definition XCopyPlane :: "'h syscall \<Rightarrow> string list \<times> 'h world \<Rightarrow> c_int \<times> string list \<times> 'h world" where
  "XCopyPlane sys s = (1, bw_stub sys ''XCopyPlane'' s)"

definition XDrawLine ::
  "'h syscall \<Rightarrow> nat \<Rightarrow> u64 \<Rightarrow> u64 \<Rightarrow> c_int \<Rightarrow> c_int \<Rightarrow> c_int \<Rightarrow> c_int \<Rightarrow> 'h world \<Rightarrow> c_int \<times> 'h world" where
  "XDrawLine sys dpy d gc x1 y1 x2 y2 =
     fwd_int sys OP_DRAW_LINE [P dpy, d, gc, A_int x1, A_int y1, A_int x2, A_int y2]"

text \<open>An \<^verbatim>\<open>XPoint\<close> is two shorts; they are promoted to \<^verbatim>\<open>int\<close>.\<close>

definition point_x :: "nat \<Rightarrow> nat \<Rightarrow> 'h world \<Rightarrow> c_int" where
  "point_x points i \<sigma> = scast (ld 2 (points + 4 * i) \<sigma> :: u16)"
definition point_y :: "nat \<Rightarrow> nat \<Rightarrow> 'h world \<Rightarrow> c_int" where
  "point_y points i \<sigma> = scast (ld 2 (points + 4 * i + 2) \<sigma> :: u16)"

text \<open>The loop from \<^verbatim>\<open>i = 1\<close>: \<^verbatim>\<open>n\<close> segments are left.\<close>

primrec draw_lines :: "'h syscall \<Rightarrow> nat \<Rightarrow> u64 \<Rightarrow> u64 \<Rightarrow> nat \<Rightarrow> nat \<Rightarrow> nat \<Rightarrow> 'h world \<Rightarrow> 'h world" where
  "draw_lines sys dpy d gc points i 0 \<sigma> = \<sigma>"
| "draw_lines sys dpy d gc points i (Suc n) \<sigma> =
     draw_lines sys dpy d gc points (Suc i) n
       (snd (XDrawLine sys dpy d gc (point_x points (i - 1) \<sigma>) (point_y points (i - 1) \<sigma>)
                                    (point_x points i \<sigma>) (point_y points i \<sigma>) \<sigma>))"

definition XDrawLines :: "'h syscall \<Rightarrow> nat \<Rightarrow> u64 \<Rightarrow> u64 \<Rightarrow> nat \<Rightarrow> c_int \<Rightarrow> c_int \<Rightarrow> 'h world \<Rightarrow> c_int \<times> 'h world" where
  "XDrawLines sys dpy d gc points npoints mode \<sigma> =
     (1, draw_lines sys dpy d gc points 1 (nat (sint npoints) - 1) \<sigma>)"

definition XDrawRectangle ::
  "'h syscall \<Rightarrow> nat \<Rightarrow> u64 \<Rightarrow> u64 \<Rightarrow> c_int \<Rightarrow> c_int \<Rightarrow> u32 \<Rightarrow> u32 \<Rightarrow> 'h world \<Rightarrow> c_int \<times> 'h world" where
  "XDrawRectangle sys dpy d gc x y width height =
     fwd_int sys OP_DRAW_RECTANGLE [P dpy, d, gc, A_int x, A_int y, A_uint width, A_uint height]"

definition XFillRectangle ::
  "'h syscall \<Rightarrow> nat \<Rightarrow> u64 \<Rightarrow> u64 \<Rightarrow> c_int \<Rightarrow> c_int \<Rightarrow> u32 \<Rightarrow> u32 \<Rightarrow> 'h world \<Rightarrow> c_int \<times> 'h world" where
  "XFillRectangle sys dpy d gc x y width height =
     fwd_int sys OP_FILL_RECTANGLE [P dpy, d, gc, A_int x, A_int y, A_uint width, A_uint height]"

text \<open>An \<^verbatim>\<open>XRectangle\<close> is two shorts and two unsigned shorts.\<close>

primrec fill_rectangles :: "'h syscall \<Rightarrow> nat \<Rightarrow> u64 \<Rightarrow> u64 \<Rightarrow> nat \<Rightarrow> nat \<Rightarrow> nat \<Rightarrow> 'h world \<Rightarrow> 'h world" where
  "fill_rectangles sys dpy d gc rects i 0 \<sigma> = \<sigma>"
| "fill_rectangles sys dpy d gc rects i (Suc n) \<sigma> =
     fill_rectangles sys dpy d gc rects (Suc i) n
       (snd (XFillRectangle sys dpy d gc
               (scast (ld 2 (rects + 8 * i) \<sigma> :: u16)) (scast (ld 2 (rects + 8 * i + 2) \<sigma> :: u16))
               (ucast (ld 2 (rects + 8 * i + 4) \<sigma> :: u16)) (ucast (ld 2 (rects + 8 * i + 6) \<sigma> :: u16)) \<sigma>))"

definition XFillRectangles :: "'h syscall \<Rightarrow> nat \<Rightarrow> u64 \<Rightarrow> u64 \<Rightarrow> nat \<Rightarrow> c_int \<Rightarrow> 'h world \<Rightarrow> c_int \<times> 'h world" where
  "XFillRectangles sys dpy d gc rectangles nrectangles \<sigma> =
     (1, fill_rectangles sys dpy d gc rectangles 0 (nat (sint nrectangles)) \<sigma>)"

definition XDrawPoint :: "'h syscall \<Rightarrow> nat \<Rightarrow> u64 \<Rightarrow> u64 \<Rightarrow> c_int \<Rightarrow> c_int \<Rightarrow> 'h world \<Rightarrow> c_int \<times> 'h world" where
  "XDrawPoint sys dpy d gc x y = XFillRectangle sys dpy d gc x y 1 1"

definition XDrawArc :: "'h syscall \<Rightarrow> string list \<times> 'h world \<Rightarrow> c_int \<times> string list \<times> 'h world" where
  "XDrawArc sys s = (1, bw_stub sys ''XDrawArc'' s)"
definition XFillArc :: "'h syscall \<Rightarrow> string list \<times> 'h world \<Rightarrow> c_int \<times> string list \<times> 'h world" where
  "XFillArc sys s = (1, bw_stub sys ''XFillArc'' s)"
definition XFillPolygon :: "'h syscall \<Rightarrow> string list \<times> 'h world \<Rightarrow> c_int \<times> string list \<times> 'h world" where
  "XFillPolygon sys s = (1, bw_stub sys ''XFillPolygon'' s)"

definition XPutImage ::
  "'h syscall \<Rightarrow> nat \<Rightarrow> u64 \<Rightarrow> u64 \<Rightarrow> nat \<Rightarrow> c_int \<Rightarrow> c_int \<Rightarrow> c_int \<Rightarrow> c_int \<Rightarrow> u32 \<Rightarrow> u32 \<Rightarrow> 'h world \<Rightarrow> c_int \<times> 'h world" where
  "XPutImage sys dpy d gc img src_x src_y dest_x dest_y width height =
     fwd_int sys OP_PUT_IMAGE [P dpy, d, gc, P img, A_int src_x, A_int src_y, A_int dest_x,
       A_int dest_y, A_uint width, A_uint height]"

definition XGetImage :: "'h syscall \<Rightarrow> string list \<times> 'h world \<Rightarrow> nat \<times> string list \<times> 'h world" where
  "XGetImage sys s = (0, bw_stub sys ''XGetImage'' s)"

section \<open>Pixmaps and cursors\<close>

definition XCreatePixmap :: "'h syscall \<Rightarrow> nat \<Rightarrow> u64 \<Rightarrow> u32 \<Rightarrow> u32 \<Rightarrow> u32 \<Rightarrow> 'h world \<Rightarrow> u64 \<times> 'h world" where
  "XCreatePixmap sys dpy d width height depth =
     fwd_xid sys OP_CREATE_PIXMAP [P dpy, d, A_uint width, A_uint height, A_uint depth]"

definition XCreateBitmapFromData :: "'h syscall \<Rightarrow> nat \<Rightarrow> u64 \<Rightarrow> nat \<Rightarrow> u32 \<Rightarrow> u32 \<Rightarrow> 'h world \<Rightarrow> u64 \<times> 'h world" where
  "XCreateBitmapFromData sys dpy d data width height =
     fwd_xid sys OP_CREATE_BITMAP_FROM_DATA [P dpy, d, P data, A_uint width, A_uint height]"

definition XFreePixmap :: "'h syscall \<Rightarrow> nat \<Rightarrow> u64 \<Rightarrow> 'h world \<Rightarrow> c_int \<times> 'h world" where
  "XFreePixmap sys dpy pixmap = fwd_int sys OP_FREE_PIXMAP [P dpy, pixmap]"

definition XCreateFontCursor :: "'h syscall \<Rightarrow> nat \<Rightarrow> u32 \<Rightarrow> 'h world \<Rightarrow> u64 \<times> 'h world" where
  "XCreateFontCursor sys dpy shape = fwd_xid sys OP_CREATE_FONT_CURSOR [P dpy, A_uint shape]"

definition XCreatePixmapCursor ::
  "'h syscall \<Rightarrow> nat \<Rightarrow> u64 \<Rightarrow> u64 \<Rightarrow> nat \<Rightarrow> nat \<Rightarrow> u32 \<Rightarrow> u32 \<Rightarrow> 'h world \<Rightarrow> u64 \<times> 'h world" where
  "XCreatePixmapCursor sys dpy source msk foreground background x y =
     fwd_xid sys OP_CREATE_PIXMAP_CURSOR [P dpy, source, msk, P foreground, P background, A_uint x, A_uint y]"

definition XDefineCursor :: "'h syscall \<Rightarrow> nat \<Rightarrow> u64 \<Rightarrow> u64 \<Rightarrow> 'h world \<Rightarrow> c_int \<times> 'h world" where
  "XDefineCursor sys dpy w cursor = fwd_int sys OP_DEFINE_CURSOR [P dpy, w, cursor]"

definition XUndefineCursor :: "'h syscall \<Rightarrow> nat \<Rightarrow> u64 \<Rightarrow> 'h world \<Rightarrow> c_int \<times> 'h world" where
  "XUndefineCursor sys dpy w = XDefineCursor sys dpy w 0"

definition XFreeCursor :: "'h syscall \<Rightarrow> nat \<Rightarrow> u64 \<Rightarrow> 'h world \<Rightarrow> c_int \<times> 'h world" where
  "XFreeCursor sys dpy cursor = fwd_int sys OP_FREE_CURSOR [P dpy, cursor]"

section \<open>Keyboard translation\<close>

text \<open>A \<^verbatim>\<open>KeyCode\<close> is an unsigned char.\<close>

definition XKeysymToKeycode :: "'h syscall \<Rightarrow> nat \<Rightarrow> u64 \<Rightarrow> 'h world \<Rightarrow> u8 \<times> 'h world" where
  "XKeysymToKeycode sys dpy keysym \<sigma> =
     (case BW sys OP_KEYSYM_TO_KEYCODE [P dpy, keysym] \<sigma> of (r, \<sigma>') \<Rightarrow> (ucast r, \<sigma>'))"

definition XkbKeycodeToKeysym :: "'h syscall \<Rightarrow> nat \<Rightarrow> u32 \<Rightarrow> c_int \<Rightarrow> c_int \<Rightarrow> 'h world \<Rightarrow> u64 \<times> 'h world" where
  "XkbKeycodeToKeysym sys dpy kc grp level =
     BW sys OP_KEYCODE_TO_KEYSYM [P dpy, A_uint kc, A_int grp, A_int level]"

definition XKeycodeToKeysym :: "'h syscall \<Rightarrow> nat \<Rightarrow> u32 \<Rightarrow> c_int \<Rightarrow> 'h world \<Rightarrow> u64 \<times> 'h world" where
  "XKeycodeToKeysym sys dpy kc index = XkbKeycodeToKeysym sys dpy kc 0 index"

text \<open>The event is copied into a full \<^verbatim>\<open>XEvent\<close> before it crosses.\<close>

definition XEvent_size :: nat where "XEvent_size = 192"
definition XKeyEvent_size :: nat where "XKeyEvent_size = 96"

definition XLookupString ::
  "'h syscall \<Rightarrow> nat \<Rightarrow> nat \<Rightarrow> c_int \<Rightarrow> nat \<Rightarrow> 'h world \<Rightarrow> c_int \<times> 'h world" where
  "XLookupString sys event_struct buffer_return bytes_buffer keysym_return =
     with_bytes (replicate XEvent_size 0) (\<lambda>copy \<sigma>.
       fwd_int sys OP_LOOKUP_STRING [P copy, P buffer_return, A_int bytes_buffer, P keysym_return]
         (st_bytes copy (rd (mem \<sigma>) event_struct XKeyEvent_size) \<sigma>))"

definition XkbTranslateKeySym ::
  "'h syscall \<Rightarrow> nat \<Rightarrow> nat \<Rightarrow> u32 \<Rightarrow> nat \<Rightarrow> c_int \<Rightarrow> nat \<Rightarrow> 'h world \<Rightarrow> c_int \<times> 'h world" where
  "XkbTranslateKeySym sys dpy sym_return modifiers buffer nbytes extra_rtrn \<sigma> =
     fwd_int sys OP_KB_TRANSLATE_KEYSYM [P dpy, P sym_return, A_uint modifiers, P buffer, A_int nbytes,
       P extra_rtrn] (if extra_rtrn \<noteq> 0 then store 4 extra_rtrn (0 :: u32) \<sigma> else \<sigma>)"

definition XLookupKeysym :: "'h syscall \<Rightarrow> nat \<Rightarrow> c_int \<Rightarrow> 'h world \<Rightarrow> u64 \<times> 'h world" where
  "XLookupKeysym sys key_event index =
     with_bytes (replicate XEvent_size 0) (\<lambda>copy \<sigma>.
       BW sys OP_LOOKUP_KEYSYM [P copy, A_int index]
         (st_bytes copy (rd (mem \<sigma>) key_event XKeyEvent_size) \<sigma>))"

definition XLookupNone :: c_int where "XLookupNone = 1"
definition XLookupKeySym_status :: c_int where "XLookupKeySym_status = 3"
definition XLookupBoth :: c_int where "XLookupBoth = 4"

definition XmbLookupString ::
  "'h syscall \<Rightarrow> nat \<Rightarrow> nat \<Rightarrow> nat \<Rightarrow> c_int \<Rightarrow> nat \<Rightarrow> nat \<Rightarrow> 'h world \<Rightarrow> c_int \<times> 'h world" where
  "XmbLookupString sys ic event buffer_return bytes_buffer keysym_return status_return \<sigma> =
     (case XLookupString sys event buffer_return bytes_buffer keysym_return \<sigma> of
        (len, \<sigma>1) \<Rightarrow>
          (len, if status_return = 0 then \<sigma>1
                else store 4 status_return
                       (if 0 < sint len then XLookupBoth
                        else if keysym_return \<noteq> 0 \<and> (ld 8 keysym_return \<sigma>1 :: u64) \<noteq> 0
                          then XLookupKeySym_status else XLookupNone) \<sigma>1))"

section \<open>Extensions and selections\<close>

definition XQueryExtension :: "'h syscall \<Rightarrow> nat \<Rightarrow> nat \<Rightarrow> nat \<Rightarrow> nat \<Rightarrow> nat \<Rightarrow> 'h world \<Rightarrow> c_int \<times> 'h world" where
  "XQueryExtension sys dpy name major_opcode_return first_event_return first_error_return =
     fwd_true sys OP_QUERY_EXTENSION [P dpy, P name, P major_opcode_return, P first_event_return, P first_error_return]"

definition XSetSelectionOwner :: "'h syscall \<Rightarrow> nat \<Rightarrow> u64 \<Rightarrow> u64 \<Rightarrow> u64 \<Rightarrow> 'h world \<Rightarrow> c_int \<times> 'h world" where
  "XSetSelectionOwner sys dpy selection owner time =
     fwd_int sys OP_SET_SELECTION_OWNER [P dpy, selection, owner, time]"

definition XGetSelectionOwner :: "'h syscall \<Rightarrow> nat \<Rightarrow> u64 \<Rightarrow> 'h world \<Rightarrow> u64 \<times> 'h world" where
  "XGetSelectionOwner sys dpy selection = fwd_xid sys OP_GET_SELECTION_OWNER [P dpy, selection]"

definition XConvertSelection ::
  "'h syscall \<Rightarrow> nat \<Rightarrow> u64 \<Rightarrow> u64 \<Rightarrow> u64 \<Rightarrow> u64 \<Rightarrow> u64 \<Rightarrow> 'h world \<Rightarrow> c_int \<times> 'h world" where
  "XConvertSelection sys dpy selection target property requestor time =
     fwd_int sys OP_CONVERT_SELECTION [P dpy, selection, target, property, requestor, time]"

end
