(* ===== verification/X11Text.thy ===== *)
theory X11Text
  imports X11Drawing
begin

text \<open>
  Text properties (\<^verbatim>\<open>tools/x11-64/X11.c\<close>): a list of C strings is flattened into one
  NUL-separated value and split back.  A C string is the list of its bytes without the terminator, a
  NULL pointer in an argument list is \<^verbatim>\<open>None\<close>; the values the functions build are bytes in
  blocks of guest memory.
\<close>

section \<open>Lists to properties\<close>

definition Success :: c_int where "Success = 0"
definition XNoMemory :: c_int where "XNoMemory = - 1"
definition BadAlloc :: c_int where "BadAlloc = 11"
definition XA_STRING :: u64 where "XA_STRING = 31"
definition XA_WM_CLASS :: u64 where "XA_WM_CLASS = 67"
definition XA_WM_CLIENT_MACHINE :: u64 where "XA_WM_CLIENT_MACHINE = 36"
definition XStringStyle :: c_int where "XStringStyle = 0"
definition XUTF8StringStyle :: c_int where "XUTF8StringStyle = 4"

record XTextProperty =
  tp_value :: nat
  tp_encoding :: u64
  tp_format :: c_int
  tp_nitems :: nat

definition bw_utf8_string :: "'h syscall \<Rightarrow> nat \<Rightarrow> 'h world \<Rightarrow> u64 \<times> 'h world" where
  "bw_utf8_string sys dpy = with_bytes (cstr ''UTF8_STRING'') (\<lambda>p. XInternAtom sys dpy p 0)"

definition item_or_empty :: "u8 list option \<Rightarrow> u8 list" where
  "item_or_empty x = (case x of None \<Rightarrow> [] | Some s \<Rightarrow> s)"

primrec total_length :: "u8 list option list \<Rightarrow> nat" where
  "total_length [] = 0"
| "total_length (x # xs) = length (item_or_empty x) + 1 + total_length xs"

text \<open>Each item is copied with its terminator; the result is the cursor.\<close>

primrec copy_items :: "u8 list option list \<Rightarrow> nat \<Rightarrow> 'h world \<Rightarrow> nat \<times> 'h world" where
  "copy_items [] cursor \<sigma> = (cursor, \<sigma>)"
| "copy_items (x # xs) cursor \<sigma> =
     copy_items xs (cursor + length (item_or_empty x) + 1) (st_bytes cursor (item_or_empty x @ [0]) \<sigma>)"

definition bw_text_list_to_property ::
  "'h syscall \<Rightarrow> nat \<Rightarrow> u8 list option list \<Rightarrow> c_int \<Rightarrow> 'h world \<Rightarrow> (c_int \<times> XTextProperty option) \<times> 'h world" where
  "bw_text_list_to_property sys dpy lst style \<sigma> =
     (let total = total_length lst in
      case malloc (if total \<noteq> 0 then total + 1 else 1) \<sigma> of (value, \<sigma>1) \<Rightarrow>
        if value = 0 then ((XNoMemory, None), \<sigma>1)
        else case copy_items lst value \<sigma>1 of (cursor, \<sigma>2) \<Rightarrow>
          let \<sigma>3 = st_bytes cursor [0] \<sigma>2;
              (encoding, \<sigma>4) = (if style = XUTF8StringStyle then bw_utf8_string sys dpy \<sigma>3 else (XA_STRING, \<sigma>3))
          in ((Success, Some \<lparr>tp_value = value, tp_encoding = encoding, tp_format = 8,
                              tp_nitems = (if total \<noteq> 0 then total - 1 else 0)\<rparr>), \<sigma>4))"

definition XmbTextListToTextProperty ::
  "'h syscall \<Rightarrow> nat \<Rightarrow> u8 list option list \<Rightarrow> c_int \<Rightarrow> 'h world \<Rightarrow> (c_int \<times> XTextProperty option) \<times> 'h world" where
  "XmbTextListToTextProperty sys dpy lst style = bw_text_list_to_property sys dpy lst style"

definition Xutf8TextListToTextProperty ::
  "'h syscall \<Rightarrow> nat \<Rightarrow> u8 list option list \<Rightarrow> c_int \<Rightarrow> 'h world \<Rightarrow> (c_int \<times> XTextProperty option) \<times> 'h world" where
  "Xutf8TextListToTextProperty sys dpy lst style = bw_text_list_to_property sys dpy lst style"

definition XStringListToTextProperty ::
  "'h syscall \<Rightarrow> u8 list option list \<Rightarrow> 'h world \<Rightarrow> (c_int \<times> XTextProperty option) \<times> 'h world" where
  "XStringListToTextProperty sys lst \<sigma> =
     (case bw_text_list_to_property sys 0 lst XStringStyle \<sigma> of
        ((r, tp), \<sigma>') \<Rightarrow> ((if r = Success then 1 else 0, tp), \<sigma>'))"

section \<open>Properties to lists\<close>

text \<open>The loop that counts terminators.\<close>

primrec count_zeros :: "memory \<Rightarrow> nat \<Rightarrow> nat \<Rightarrow> nat" where
  "count_zeros m a 0 = 0"
| "count_zeros m a (Suc n) = (if m a = 0 then 1 else 0) + count_zeros m (a + 1) n"

text \<open>The loop that cuts the copy: \<^verbatim>\<open>n\<close> more positions to look at from \<^verbatim>\<open>i\<close>.\<close>

primrec cut_loop ::
  "nat \<Rightarrow> nat \<Rightarrow> nat \<Rightarrow> nat \<Rightarrow> nat \<Rightarrow> nat \<Rightarrow> nat \<Rightarrow> nat \<Rightarrow> 'h world \<Rightarrow> 'h world" where
  "cut_loop lst storage nitems count i 0 index start \<sigma> = \<sigma>"
| "cut_loop lst storage nitems count i (Suc n) index start \<sigma> =
     (if \<not> index < count then \<sigma>
      else if i = nitems \<or> mem \<sigma> (storage + i) = 0
        then cut_loop lst storage nitems count (Suc i) n (Suc index) (Suc i)
               (store 8 (lst + 8 * index) (P (storage + start)) \<sigma>)
      else cut_loop lst storage nitems count (Suc i) n index start \<sigma>)"

text \<open>The result is the code, the list pointer stored through \<^verbatim>\<open>list_return\<close> and the count.
  The counter is an \<^verbatim>\<open>int\<close> in the source; the model is exact while it does not overflow.\<close>

definition bw_text_property_to_list :: "XTextProperty \<Rightarrow> 'h world \<Rightarrow> (c_int \<times> (nat \<times> nat) option) \<times> 'h world" where
  "bw_text_property_to_list tp \<sigma> =
     (let value = tp_value tp; nitems = tp_nitems tp in
      if value = 0 \<or> nitems = 0 then ((Success, Some (0, 0)), \<sigma>)
      else
        let count = count_zeros (mem \<sigma>) value nitems + (if mem \<sigma> (value + nitems - 1) \<noteq> 0 then 1 else 0) in
        case malloc (8 * (count + 1) + nitems + 1) \<sigma> of (lst, \<sigma>1) \<Rightarrow>
          if lst = 0 then ((XNoMemory, None), \<sigma>1)
          else
            let storage = lst + 8 * (count + 1);
                \<sigma>2 = st_bytes storage (rd (mem \<sigma>1) value nitems) \<sigma>1;
                \<sigma>3 = st_bytes (storage + nitems) [0] \<sigma>2;
                \<sigma>4 = cut_loop lst storage nitems count 0 (nitems + 1) 0 0 \<sigma>3;
                \<sigma>5 = store 8 (lst + 8 * count) (0 :: u64) \<sigma>4
            in ((Success, Some (lst, count)), \<sigma>5))"

definition XmbTextPropertyToTextList :: "XTextProperty \<Rightarrow> 'h world \<Rightarrow> (c_int \<times> (nat \<times> nat) option) \<times> 'h world" where
  "XmbTextPropertyToTextList tp = bw_text_property_to_list tp"

definition Xutf8TextPropertyToTextList :: "XTextProperty \<Rightarrow> 'h world \<Rightarrow> (c_int \<times> (nat \<times> nat) option) \<times> 'h world" where
  "Xutf8TextPropertyToTextList tp = bw_text_property_to_list tp"

definition XFreeStringList :: "nat \<Rightarrow> 'h world \<Rightarrow> 'h world" where
  "XFreeStringList lst = free lst"

section \<open>Window hints built from text\<close>

definition text_prop_bytes :: "XTextProperty \<Rightarrow> u8 list" where
  "text_prop_bytes tp = le_bytes 8 (P (tp_value tp)) @ le_bytes 8 (tp_encoding tp) @ le_bytes 4 (tp_format tp) @
     replicate 4 0 @ le_bytes 8 (of_nat (tp_nitems tp) :: u64)"

definition XSetClassHint ::
  "'h syscall \<Rightarrow> nat \<Rightarrow> u64 \<Rightarrow> u8 list option \<Rightarrow> u8 list option \<Rightarrow> 'h world \<Rightarrow> c_int \<times> 'h world" where
  "XSetClassHint sys dpy w res_name res_class \<sigma> =
     (case bw_text_list_to_property sys dpy [Some (item_or_empty res_name), Some (item_or_empty res_class)]
             XStringStyle \<sigma> of
        ((_, None), \<sigma>1) \<Rightarrow> (BadAlloc, \<sigma>1)
      | ((r, Some prop), \<sigma>1) \<Rightarrow>
          if r \<noteq> Success then (BadAlloc, \<sigma>1)
          else
            let prop' = prop\<lparr>tp_nitems := tp_nitems prop + 1\<rparr> in
            case with_bytes (text_prop_bytes prop')
                   (\<lambda>p. fwd_int sys OP_SET_TEXT_PROPERTY [P dpy, w, P p, XA_WM_CLASS]) \<sigma>1 of
              (result, \<sigma>2) \<Rightarrow> (result, free (tp_value prop') \<sigma>2))"

definition XSetWMProperties ::
  "'h syscall \<Rightarrow> nat \<Rightarrow> u64 \<Rightarrow> nat \<Rightarrow> nat \<Rightarrow> nat \<Rightarrow> nat \<Rightarrow> (u8 list option \<times> u8 list option) option \<Rightarrow>
   'h world \<Rightarrow> 'h world" where
  "XSetWMProperties sys dpy w window_name icon_name normal_hints wm_hints class_hints \<sigma>0 =
     (let \<sigma>1 = (if window_name \<noteq> 0 then snd (XSetWMName sys dpy w window_name \<sigma>0) else \<sigma>0);
          \<sigma>2 = (if icon_name \<noteq> 0 then snd (XSetWMIconName sys dpy w icon_name \<sigma>1) else \<sigma>1);
          \<sigma>3 = (if normal_hints \<noteq> 0 then snd (XSetWMNormalHints sys dpy w normal_hints \<sigma>2) else \<sigma>2);
          \<sigma>4 = (if wm_hints \<noteq> 0 then snd (XSetWMHints sys dpy w wm_hints \<sigma>3) else \<sigma>3);
          \<sigma>5 = (case class_hints of None \<Rightarrow> \<sigma>4 | Some (n, c) \<Rightarrow> snd (XSetClassHint sys dpy w n c \<sigma>4));
          \<sigma>6 = snd (with_bytes (cstr ''debian'')
                 (\<lambda>p. XChangeProperty sys dpy w XA_WM_CLIENT_MACHINE XA_STRING 8 0 p 6) \<sigma>5);
          (atom, \<sigma>7) = with_bytes (cstr ''WM_LOCALE_NAME'') (\<lambda>p. XInternAtom sys dpy p 0) \<sigma>6
      in snd (with_bytes (cstr ''en_US.UTF-8'')
                (\<lambda>p. XChangeProperty sys dpy w atom XA_STRING 8 0 p 11) \<sigma>7))"

section \<open>The value of a list\<close>

definition list_value :: "u8 list option list \<Rightarrow> u8 list" where
  "list_value lst = concat (map (\<lambda>x. item_or_empty x @ [0]) lst)"

text \<open>The specification of the splitting: each item up to its terminator, a last item without one.\<close>

function items_of :: "u8 list \<Rightarrow> u8 list list" where
  "items_of v = (if v = [] then [] else takeWhile (\<lambda>b. b \<noteq> 0) v # items_of (tl (dropWhile (\<lambda>b. b \<noteq> 0) v)))"
  by pat_completeness auto
termination
proof (relation "measure length")
  fix v :: "u8 list" assume "v \<noteq> []"
  then show "(tl (dropWhile (\<lambda>b. b \<noteq> 0) v), v) \<in> measure length"
    using length_dropWhile_le [of "\<lambda>b. b \<noteq> 0" v] by (cases v) auto
qed simp

declare items_of.simps [simp del]

lemma items_of_Nil [simp]: "items_of [] = []" by (simp add: items_of.simps)

lemma items_of_terminated:
  assumes "0 \<notin> set s"
  shows "items_of (s @ 0 # v) = s # items_of v"
proof -
  have "takeWhile (\<lambda>b. b \<noteq> 0) (s @ 0 # v) = s" using assms by (subst takeWhile_append2) auto
  moreover have "dropWhile (\<lambda>b. b \<noteq> 0) (s @ 0 # v) = 0 # v" using assms by (subst dropWhile_append2) auto
  ultimately show ?thesis by (subst items_of.simps) simp
qed

lemma items_of_last:
  assumes "0 \<notin> set s" "s \<noteq> []"
  shows "items_of s = [s]"
proof -
  have "takeWhile (\<lambda>b. b \<noteq> 0) s = s" "dropWhile (\<lambda>b. b \<noteq> 0) s = []"
    using assms(1) by (auto simp: takeWhile_eq_all_conv dropWhile_eq_Nil_conv)
  then show ?thesis using assms(2)
    by (subst items_of.simps) (simp del: dropWhile_eq_Nil_conv takeWhile_eq_all_conv)
qed

lemma length_list_value: "length (list_value lst) = total_length lst"
  by (induction lst) (auto simp: list_value_def)

lemma list_value_Cons: "list_value (x # xs) = item_or_empty x @ 0 # list_value xs"
  by (simp add: list_value_def)

lemma list_value_Nil [simp]: "list_value [] = []" by (simp add: list_value_def)

text \<open>Splitting the flattened list, with the last terminator left out as the shim leaves it out,
  gives the list back, except that a trailing empty string is lost.\<close>

lemma items_of_list_value:
  assumes "\<forall>x \<in> set lst. 0 \<notin> set (item_or_empty x)"
  shows "items_of (butlast (list_value lst)) =
    (if lst \<noteq> [] \<and> item_or_empty (last lst) = [] then map item_or_empty (butlast lst)
     else map item_or_empty lst)"
  using assms
proof (induction lst)
  case (Cons x xs)
  then have z: "0 \<notin> set (item_or_empty x)" by simp
  show ?case
  proof (cases "xs = []")
    case True
    then show ?thesis using z items_of_last [OF z]
      by (simp add: list_value_Cons butlast_append)
  next
    case False
    then have "list_value xs \<noteq> []" by (cases xs) (simp_all add: list_value_Cons)
    then show ?thesis
      using Cons False items_of_terminated [OF z] by (simp add: list_value_Cons butlast_append)
  qed
qed simp

section \<open>Writing the value\<close>

lemma st_bytes_append:
  "st_bytes (c + length a) b (st_bytes c a \<sigma>) = st_bytes c (a @ b) \<sigma>"
proof -
  have "wr (wr m c a) (c + length a) b = wr m c (a @ b)" for m
    by (rule ext) (auto simp: wr_def nth_append)
  then show ?thesis by (simp add: st_bytes_def)
qed

lemma copy_items_result:
  "copy_items lst c \<sigma> = (c + total_length lst, st_bytes c (list_value lst) \<sigma>)"
proof (induction lst arbitrary: c \<sigma>)
  case Nil
  show ?case by (simp add: st_bytes_def)
next
  case (Cons x xs)
  show ?case
    using st_bytes_append [of c "item_or_empty x @ [0]" "list_value xs" \<sigma>]
    by (simp add: Cons.IH list_value_Cons algebra_simps)
qed

lemma text_list_to_property:
  assumes H: "heap_ok \<sigma>" and S: "style \<noteq> XUTF8StringStyle"
    and C: "bw_text_list_to_property sys dpy lst style \<sigma> = ((code, out), \<sigma>')"
  shows "code = XNoMemory \<and> out = None \<and> live \<sigma>' = live \<sigma> \<or>
    (\<exists>p. code = Success \<and> out = Some \<lparr>tp_value = p, tp_encoding = XA_STRING, tp_format = 8,
          tp_nitems = total_length lst - 1\<rparr> \<and> p \<noteq> 0 \<and> live \<sigma> p = None \<and>
        live \<sigma>' = (live \<sigma>)(p \<mapsto> (if lst = [] then 1 else total_length lst + 1)) \<and>
        rd (mem \<sigma>') p (total_length lst + 1) = list_value lst @ [0])"
    and "heap_ok \<sigma>'" "bad_free \<sigma>' = bad_free \<sigma>" "fds \<sigma>' = fds \<sigma>" "bad_close \<sigma>' = bad_close \<sigma>"
proof -
  let ?n = "if total_length lst \<noteq> 0 then total_length lst + 1 else 1"
  obtain p \<sigma>m where m: "malloc ?n \<sigma> = (p, \<sigma>m)" by (metis surj_pair)
  have z: "total_length lst = 0 \<longleftrightarrow> lst = []" by (cases lst) auto
  have hm: "heap_ok \<sigma>m" using malloc_heap_ok [OF H, of ?n] m by simp
  have r: "((code, out), \<sigma>') = (if p = 0 then ((XNoMemory, None), \<sigma>m)
      else ((Success, Some \<lparr>tp_value = p, tp_encoding = XA_STRING, tp_format = 8,
               tp_nitems = total_length lst - 1\<rparr>), st_bytes p (list_value lst @ [0]) \<sigma>m))"
    using C m S st_bytes_append [of p "list_value lst" "[0]" \<sigma>m]
    by (auto simp: bw_text_list_to_property_def Let_def copy_items_result length_list_value split: if_splits)
  show "code = XNoMemory \<and> out = None \<and> live \<sigma>' = live \<sigma> \<or>
    (\<exists>p. code = Success \<and> out = Some \<lparr>tp_value = p, tp_encoding = XA_STRING, tp_format = 8,
          tp_nitems = total_length lst - 1\<rparr> \<and> p \<noteq> 0 \<and> live \<sigma> p = None \<and>
        live \<sigma>' = (live \<sigma>)(p \<mapsto> (if lst = [] then 1 else total_length lst + 1)) \<and>
        rd (mem \<sigma>') p (total_length lst + 1) = list_value lst @ [0])"
  proof (cases "p = 0")
    case True
    then show ?thesis using r m malloc_fail [of ?n \<sigma> \<sigma>m] H by simp
  next
    case False
    show ?thesis using r False malloc_fresh [OF H m False] z by (simp add: length_list_value)
  qed
  show "heap_ok \<sigma>'" using r hm by (simp split: if_splits)
  show "bad_free \<sigma>' = bad_free \<sigma>" "fds \<sigma>' = fds \<sigma>" "bad_close \<sigma>' = bad_close \<sigma>"
    using r malloc_frameD [OF m] by (simp_all split: if_splits)
qed

section \<open>Cutting it up again\<close>

text \<open>A C string in memory.\<close>

definition cstring_at :: "memory \<Rightarrow> nat \<Rightarrow> u8 list \<Rightarrow> bool" where
  "cstring_at m a s \<longleftrightarrow> 0 \<notin> set s \<and> rd m a (length s + 1) = s @ [0]"

lemma count_zeros_rd: "count_zeros m a n = length (filter (\<lambda>b. b = 0) (rd m a n))"
proof (induction n arbitrary: a)
  case (Suc n)
  have "rd m a (Suc n) = m a # rd m (a + 1) n"
    using rd_append [of m a 1 n] by (simp add: rd_def)
  then show ?case using Suc.IH by simp
qed simp

lemma length_items_of:
  "length (items_of v) = length (filter (\<lambda>b. b = 0) v) + (if v \<noteq> [] \<and> last v \<noteq> 0 then 1 else 0)"
proof (induction v rule: items_of.induct)
  case (1 v)
  show ?case
  proof (cases "0 \<in> set v")
    case False
    then show ?thesis
      by (cases "v = []") (auto simp: items_of_last filter_empty_conv last_in_set dest: last_in_set)
  next
    case True
    then obtain s w where v: "v = s @ 0 # w" "0 \<notin> set s" by (meson split_list_first)
    have "tl (dropWhile (\<lambda>b. b \<noteq> 0) v) = w" using v by (subst v(1), subst dropWhile_append2) auto
    then have "length (items_of w) = length (filter (\<lambda>b. b = 0) w) + (if w \<noteq> [] \<and> last w \<noteq> 0 then 1 else 0)"
      using 1 [of] v(1) by simp
    moreover have "filter (\<lambda>b. b = 0) s = []" using v(2) by (auto simp: filter_empty_conv)
    ultimately show ?thesis using v by (auto simp: items_of_terminated)
  qed
qed

lemma cut_loop_result:
  assumes len: "length v = nitems" and bnd: "lst + 8 * (count + 1) \<le> storage"
  shows "rd (mem \<sigma>) storage (nitems + 1) = v @ [0] \<Longrightarrow> i + n = nitems + 1 \<Longrightarrow> start \<le> i \<Longrightarrow>
    start = i \<or> i \<le> nitems \<Longrightarrow> 0 \<notin> set (take (i - start) (drop start v)) \<Longrightarrow>
    count = index + length (items_of (drop start v)) \<Longrightarrow>
    \<sigma>' = cut_loop lst storage nitems count i n index start \<sigma> \<Longrightarrow>
    live \<sigma>' = live \<sigma> \<and> bad_free \<sigma>' = bad_free \<sigma> \<and>
    (\<forall>a. a < lst + 8 * index \<or> lst + 8 * count \<le> a \<longrightarrow> mem \<sigma>' a = mem \<sigma> a) \<and>
    (\<forall>k < length (items_of (drop start v)). \<exists>q. ld 8 (lst + 8 * (index + k)) \<sigma>' = P q \<and>
        cstring_at (mem \<sigma>) q (items_of (drop start v) ! k) \<and>
        storage \<le> q \<and> q + length (items_of (drop start v) ! k) \<le> storage + nitems)"
proof (induction n arbitrary: i index start \<sigma>)
  case 0
  then have "drop start v = []" using len by simp
  then show ?case using 0 by simp
next
  case (Suc n)
  note pr = Suc.prems
  show ?case
  proof (cases "index < count")
    case False
    then have "items_of (drop start v) = []" using pr(6) by simp
    then show ?thesis using pr(7) False by simp
  next
    case True
    then have ne: "drop start v \<noteq> []" using pr(6) by auto
    then have st: "start < nitems" "i \<le> nitems" using len pr(2,4) by auto
    have at: "mem \<sigma> (storage + j) = (v @ [0]) ! j" if "j \<le> nitems" for j
      using arg_cong [OF pr(1), of "\<lambda>bs. bs ! j"] that by simp
    let ?s = "take (i - start) (drop start v)"
    show ?thesis
    proof (cases "i = nitems \<or> mem \<sigma> (storage + i) = 0")
      case False
      then have i: "i < nitems" "v ! i \<noteq> 0" using st at [of i] len by (auto simp: nth_append)
      have "take (Suc i - start) (drop start v) = ?s @ [v ! i]"
        using i(1) pr(3) len by (simp add: Suc_diff_le take_Suc_conv_app_nth)
      then have "0 \<notin> set (take (Suc i - start) (drop start v))" using pr(5) i(2) by simp
      then show ?thesis
        using Suc.IH [OF pr(1), of "Suc i" start index] pr i(1) True False by simp
    next
      case cut: True
      let ?\<sigma> = "store 8 (lst + 8 * index) (P (storage + start)) \<sigma>"
      have items: "items_of (drop start v) = ?s # items_of (drop (Suc i) v)"
      proof (cases "i = nitems")
        case True
        then have "?s = drop start v" using len by simp
        then show ?thesis using True len ne pr(5) items_of_last [of "drop start v"] by simp
      next
        case F: False
        then have "v ! i = 0" "i < nitems" using cut st(2) at [of i] len by (auto simp: nth_append)
        then have "drop start v = ?s @ 0 # drop (Suc i) v"
          using len pr(3) by (metis Cons_nth_drop_Suc append_take_drop_id drop_drop le_add_diff_inverse2)
        then show ?thesis using items_of_terminated [OF pr(5), of "drop (Suc i) v"] by simp
      qed
      have str: "cstring_at (mem \<sigma>) (storage + start) ?s"
      proof -
        have "rd (mem \<sigma>) (storage + start) (length ?s + 1) = ?s @ [0]"
        proof (rule nth_equalityI)
          fix j assume "j < length (rd (mem \<sigma>) (storage + start) (length ?s + 1))"
          then have j: "j < i - start + 1" using st pr(3) len by simp
          have z: "(v @ [0]) ! i = 0" using cut at [OF st(2)] len by (auto simp: nth_append)
          show "rd (mem \<sigma>) (storage + start) (length ?s + 1) ! j = (?s @ [0]) ! j"
            using j at [of "start + j"] st pr(3) len z
            by (cases "j < i - start") (auto simp: nth_append less_Suc_eq add.assoc)
        qed (use st pr(3) len in simp)
        then show ?thesis using pr(5) by (simp add: cstring_at_def)
      qed
      have sep: "lst + 8 * index + 8 \<le> storage" using bnd True by simp
      have rd1: "rd (mem ?\<sigma>) storage (nitems + 1) = v @ [0]"
        using pr(1) sep by (simp add: store_def rd_wr_other)
      have \<sigma>': "\<sigma>' = cut_loop lst storage nitems count (Suc i) n (Suc index) (Suc i) ?\<sigma>"
        using pr(7) True cut by simp
      have cnt: "count = Suc index + length (items_of (drop (Suc i) v))" using pr(6) items by simp
      have IH: "live \<sigma>' = live \<sigma> \<and> bad_free \<sigma>' = bad_free \<sigma> \<and>
        (\<forall>a. a < lst + 8 * Suc index \<or> lst + 8 * count \<le> a \<longrightarrow> mem \<sigma>' a = mem ?\<sigma> a) \<and>
        (\<forall>k < length (items_of (drop (Suc i) v)). \<exists>q. ld 8 (lst + 8 * (Suc index + k)) \<sigma>' = P q \<and>
          cstring_at (mem ?\<sigma>) q (items_of (drop (Suc i) v) ! k) \<and>
          storage \<le> q \<and> q + length (items_of (drop (Suc i) v) ! k) \<le> storage + nitems)"
        using Suc.IH [OF rd1 _ _ _ _ cnt \<sigma>'] pr(2) by simp
      have own: "ld 8 (lst + 8 * index) \<sigma>' = P (storage + start)"
      proof -
        have "rd (mem \<sigma>') (lst + 8 * index) 8 = rd (mem ?\<sigma>) (lst + 8 * index) 8"
          by (rule nth_equalityI) (use IH in auto)
        then have "ld 8 (lst + 8 * index) \<sigma>' = (ld 8 (lst + 8 * index) ?\<sigma> :: u64)"
          by (simp add: ld_def)
        then show ?thesis by simp
      qed
      have unst: "cstring_at (mem \<sigma>) q x" if "cstring_at (mem ?\<sigma>) q x" "storage \<le> q" for q x
        using that sep by (simp add: cstring_at_def store_def rd_wr_other)
      have "\<exists>q. ld 8 (lst + 8 * (index + k)) \<sigma>' = P q \<and>
          cstring_at (mem \<sigma>) q (items_of (drop start v) ! k) \<and>
          storage \<le> q \<and> q + length (items_of (drop start v) ! k) \<le> storage + nitems"
        if k: "k < length (items_of (drop start v))" for k
      proof (cases k)
        case 0
        then show ?thesis using own str items st pr(3) len by auto
      next
        case (Suc j)
        then have "j < length (items_of (drop (Suc i) v))" using k items by simp
        then obtain q where "ld 8 (lst + 8 * (Suc index + j)) \<sigma>' = P q"
          "cstring_at (mem ?\<sigma>) q (items_of (drop (Suc i) v) ! j)"
          "storage \<le> q" "q + length (items_of (drop (Suc i) v) ! j) \<le> storage + nitems" using IH by blast
        then show ?thesis using unst Suc items by auto
      qed
      moreover have "mem \<sigma>' a = mem \<sigma> a" if "a < lst + 8 * index \<or> lst + 8 * count \<le> a" for a
      proof -
        have "mem \<sigma>' a = mem ?\<sigma> a" using IH that by auto
        also have "\<dots> = mem \<sigma> a" using that True by (auto simp: store_def)
        finally show ?thesis .
      qed
      ultimately show ?thesis using IH by simp
    qed
  qed
qed

text \<open>Splitting any value: the list the shim builds from a property's bytes.\<close>

lemma text_property_to_list:
  assumes H: "heap_ok \<sigma>" and v: "rd (mem \<sigma>) (tp_value tp) (tp_nitems tp) = v" "tp_value tp \<noteq> 0"
    and C: "bw_text_property_to_list tp \<sigma> = ((code, out), \<sigma>')"
  shows "code = XNoMemory \<and> out = None \<and> live \<sigma>' = live \<sigma> \<or>
    (\<exists>p. code = Success \<and> out = Some (p, length (items_of v)) \<and>
       (if v = [] then p = 0 \<and> \<sigma>' = \<sigma> else p \<noteq> 0 \<and> live \<sigma> p = None \<and>
          live \<sigma>' = (live \<sigma>)(p \<mapsto> 8 * (length (items_of v) + 1) + length v + 1)) \<and>
       (\<forall>k < length (items_of v). \<exists>q. ld 8 (p + 8 * k) \<sigma>' = P q \<and> cstring_at (mem \<sigma>') q (items_of v ! k)))"
proof (cases "v = []")
  case True
  then have "tp_nitems tp = 0" using v(1) by (metis length_rd list.size(3))
  then show ?thesis using C True by (simp add: bw_text_property_to_list_def)
next
  case False
  let ?a = "tp_value tp" and ?n = "tp_nitems tp" and ?c = "length (items_of v)"
  have lv: "length v = ?n" using v(1) by auto
  with False have n: "?n \<noteq> 0" by (cases v) auto
  have "rd (mem \<sigma>) ?a ?n ! (?n - 1) = last v" using v(1) False lv by (simp add: last_conv_nth)
  then have last: "mem \<sigma> (?a + ?n - 1) = last v" using n by simp
  have c: "count_zeros (mem \<sigma>) ?a ?n + (if mem \<sigma> (?a + ?n - 1) \<noteq> 0 then 1 else 0) = ?c"
    using length_items_of [of v] False unfolding count_zeros_rd v(1) last by simp
  let ?s = "8 * (?c + 1) + ?n + 1"
  obtain p \<sigma>m where m: "malloc ?s \<sigma> = (p, \<sigma>m)" by (metis surj_pair)
  show ?thesis
  proof (cases "p = 0")
    case True
    then have "code = XNoMemory" "out = None" "\<sigma>' = \<sigma>m"
      using C n v(2) m unfolding bw_text_property_to_list_def Let_def c by simp_all
    then show ?thesis using malloc_fail [of ?s \<sigma> \<sigma>m] m True H by simp
  next
    case nz: False
    note fr = malloc_fresh [OF H m nz]
    define storage where "storage = p + 8 * (?c + 1)"
    define \<sigma>3 where "\<sigma>3 = st_bytes storage (v @ [0]) \<sigma>m"
    define \<sigma>4 where "\<sigma>4 = cut_loop p storage ?n ?c 0 (?n + 1) 0 0 \<sigma>3"
    have s3: "st_bytes (storage + ?n) [0] (st_bytes storage (rd (mem \<sigma>m) ?a ?n) \<sigma>m) = \<sigma>3"
      using st_bytes_append [of storage v "[0]" \<sigma>m] by (simp add: \<sigma>3_def fr(3) v(1) lv)
    have "bw_text_property_to_list tp \<sigma> = ((Success, Some (p, ?c)), store 8 (p + 8 * ?c) (0 :: u64) \<sigma>4)"
      unfolding bw_text_property_to_list_def Let_def c m prod.case storage_def [symmetric] s3 \<sigma>4_def [symmetric]
      using n v(2) nz by simp
    then have out: "code = Success" "out = Some (p, ?c)" "\<sigma>' = store 8 (p + 8 * ?c) (0 :: u64) \<sigma>4"
      using C by simp_all
    have r3: "rd (mem \<sigma>3) storage (?n + 1) = v @ [0]" using lv by (simp add: \<sigma>3_def)
    have L: "live \<sigma>4 = live \<sigma>3 \<and> bad_free \<sigma>4 = bad_free \<sigma>3 \<and>
      (\<forall>a. a < p + 8 * 0 \<or> p + 8 * ?c \<le> a \<longrightarrow> mem \<sigma>4 a = mem \<sigma>3 a) \<and>
      (\<forall>k < length (items_of (drop 0 v)). \<exists>q. ld 8 (p + 8 * (0 + k)) \<sigma>4 = P q \<and>
          cstring_at (mem \<sigma>3) q (items_of (drop 0 v) ! k) \<and>
          storage \<le> q \<and> q + length (items_of (drop 0 v) ! k) \<le> storage + ?n)"
      by (rule cut_loop_result [OF lv _ r3 _ _ _ _ _ \<sigma>4_def]) (simp_all add: storage_def)
    have "\<exists>q. ld 8 (p + 8 * k) \<sigma>' = P q \<and> cstring_at (mem \<sigma>') q (items_of v ! k)" if k: "k < ?c" for k
    proof -
      obtain q where q: "ld 8 (p + 8 * k) \<sigma>4 = P q" "cstring_at (mem \<sigma>3) q (items_of v ! k)" "storage \<le> q"
        using L k by auto
      have "rd (mem \<sigma>4) q (length (items_of v ! k) + 1) = rd (mem \<sigma>3) q (length (items_of v ! k) + 1)"
        by (rule nth_equalityI) (use L q(3) in \<open>auto simp: storage_def\<close>)
      then have "cstring_at (mem \<sigma>4) q (items_of v ! k)" using q(2) by (simp add: cstring_at_def)
      then have "cstring_at (mem \<sigma>') q (items_of v ! k)"
        using q(3) by (simp add: cstring_at_def out(3) store_def rd_wr_other storage_def)
      moreover have "ld 8 (p + 8 * k) \<sigma>' = P q" using q(1) k by (simp add: out(3) ld_st_other)
      ultimately show ?thesis by blast
    qed
    then show ?thesis
      using out L fr(1,2) False nz lv by (simp add: \<sigma>3_def storage_def)
  qed
qed



text \<open>XSetClassHint keeps no memory: whatever the host answers, the blocks live after
  the call are those live before it, and nothing is freed twice.\<close>

theorem XSetClassHint_no_leak:
  assumes H: "heap_ok \<sigma>" and C: "XSetClassHint sys dpy w n c \<sigma> = (r, \<sigma>')"
  shows "live \<sigma>' = live \<sigma> \<and> bad_free \<sigma>' = bad_free \<sigma> \<and> heap_ok \<sigma>'"
proof -
  let ?l = "[Some (item_or_empty n), Some (item_or_empty c)]"
  obtain code out \<sigma>1 where t: "bw_text_list_to_property sys dpy ?l XStringStyle \<sigma> = ((code, out), \<sigma>1)"
    by (metis surj_pair)
  have S: "XStringStyle \<noteq> XUTF8StringStyle" by (simp add: XStringStyle_def XUTF8StringStyle_def)
  note T = text_list_to_property [OF H S t]
  show ?thesis
  proof (cases "out")
    case None
    then show ?thesis using C t T by (auto simp: XSetClassHint_def)
  next
    case (Some tp)
    then obtain p where p: "code = Success" "tp_value tp = p" "p \<noteq> 0" "live \<sigma> p = None"
      "live \<sigma>1 = (live \<sigma>)(p \<mapsto> total_length ?l + 1)"
      using T(1) by auto
    let ?tp = "tp\<lparr>tp_nitems := tp_nitems tp + 1\<rparr>"
    let ?q = "sp \<sigma>1 - length (text_prop_bytes ?tp)"
    obtain s \<sigma>2 where b: "BW sys OP_SET_TEXT_PROPERTY [P dpy, w, P ?q, XA_WM_CLASS]
        (st_bytes ?q (text_prop_bytes ?tp) (\<sigma>1\<lparr>sp := ?q\<rparr>)) = (s, \<sigma>2)" by (metis surj_pair)
    have "\<sigma>' = free p (\<sigma>2\<lparr>sp := sp \<sigma>1\<rparr>)"
      using C t Some p(1,2) b by (simp add: XSetClassHint_def with_bytes_def with_local_def Let_def fwd_int_def)
    moreover have "live \<sigma>2 = live \<sigma>1" "bad_free \<sigma>2 = bad_free \<sigma>1" "brk \<sigma>2 = brk \<sigma>1"
      using BW_frame [OF b] by (simp_all add: same_heap_def)
    moreover from this have "heap_ok (\<sigma>2\<lparr>sp := sp \<sigma>1\<rparr>)" using T(2) by (simp add: heap_ok_def)
    ultimately show ?thesis
      using p T(3) free_heap_ok [of "\<sigma>2\<lparr>sp := sp \<sigma>1\<rparr>" p] by (simp add: free_def fun_upd_idem)
  qed
qed

lemma XSetClassHint_no_leak_witness:
  "live (snd (XSetClassHint (\<lambda>_ _ _ m h. (0, m, h)) 8192 1 (Some [97]) (Some [98]) world0)) = live world0"
  using XSetClassHint_no_leak [OF world0_ok(1) surjective_pairing] by blast

end
