(* ===== verification/X11Display.thy ===== *)
theory X11Display
  imports X11Drawing
begin

text \<open>
  Opening and closing a display, and the questions the shim answers from the public fields of
  \<^verbatim>\<open>Display\<close>, \<^verbatim>\<open>Screen\<close>, \<^verbatim>\<open>Depth\<close> and \<^verbatim>\<open>Visual\<close>, all in the arena the host laid
  out (\<^verbatim>\<open>tools/x11-64/X11.c\<close>, sections Display and Error handlers).
\<close>

section \<open>Layout of the public structures\<close>

definition DISPLAY_ARENA_BYTES :: nat where "DISPLAY_ARENA_BYTES = 16384"
definition DISPLAY_ID_OFFSET :: nat where "DISPLAY_ID_OFFSET = 296"
definition DISPLAY_PRIVATE_BYTES :: nat where "DISPLAY_PRIVATE_BYTES = 320"
definition BW_DISPLAY_SERVER_FD_OFFSET :: nat where "BW_DISPLAY_SERVER_FD_OFFSET = DISPLAY_ID_OFFSET + 4"

definition dpy_fd :: nat where "dpy_fd = 16"
definition dpy_proto_major :: nat where "dpy_proto_major = 24"
definition dpy_proto_minor :: nat where "dpy_proto_minor = 28"
definition dpy_vendor :: nat where "dpy_vendor = 32"
definition dpy_byte_order :: nat where "dpy_byte_order = 80"
definition dpy_bitmap_unit :: nat where "dpy_bitmap_unit = 84"
definition dpy_bitmap_pad :: nat where "dpy_bitmap_pad = 88"
definition dpy_bitmap_bit_order :: nat where "dpy_bitmap_bit_order = 92"
definition dpy_nformats :: nat where "dpy_nformats = 96"
definition dpy_pixmap_format :: nat where "dpy_pixmap_format = 104"
definition dpy_release :: nat where "dpy_release = 116"
definition dpy_qlen :: nat where "dpy_qlen = 136"
definition dpy_last_request_read :: nat where "dpy_last_request_read = 144"
definition dpy_request :: nat where "dpy_request = 152"
definition dpy_max_request_size :: nat where "dpy_max_request_size = 192"
definition dpy_display_name :: nat where "dpy_display_name = 216"
definition dpy_default_screen :: nat where "dpy_default_screen = 224"
definition dpy_nscreens :: nat where "dpy_nscreens = 228"
definition dpy_screens :: nat where "dpy_screens = 232"
definition dpy_min_keycode :: nat where "dpy_min_keycode = 256"
definition dpy_max_keycode :: nat where "dpy_max_keycode = 260"

lemmas dpy_offsets = dpy_fd_def dpy_proto_major_def dpy_proto_minor_def dpy_vendor_def
  dpy_byte_order_def dpy_bitmap_unit_def dpy_bitmap_pad_def dpy_bitmap_bit_order_def
  dpy_nformats_def dpy_pixmap_format_def dpy_release_def dpy_qlen_def dpy_last_request_read_def
  dpy_request_def dpy_max_request_size_def dpy_display_name_def dpy_default_screen_def
  dpy_nscreens_def dpy_screens_def dpy_min_keycode_def dpy_max_keycode_def

definition Screen_size :: nat where "Screen_size = 128"
definition scr_display :: nat where "scr_display = 8"
definition scr_root :: nat where "scr_root = 16"
definition scr_width :: nat where "scr_width = 24"
definition scr_height :: nat where "scr_height = 28"
definition scr_mwidth :: nat where "scr_mwidth = 32"
definition scr_mheight :: nat where "scr_mheight = 36"
definition scr_ndepths :: nat where "scr_ndepths = 40"
definition scr_depths :: nat where "scr_depths = 48"
definition scr_root_depth :: nat where "scr_root_depth = 56"
definition scr_root_visual :: nat where "scr_root_visual = 64"
definition scr_default_gc :: nat where "scr_default_gc = 72"
definition scr_cmap :: nat where "scr_cmap = 80"
definition scr_white_pixel :: nat where "scr_white_pixel = 88"
definition scr_black_pixel :: nat where "scr_black_pixel = 96"

lemmas scr_offsets = Screen_size_def scr_display_def scr_root_def scr_width_def scr_height_def
  scr_mwidth_def scr_mheight_def scr_ndepths_def scr_depths_def scr_root_depth_def
  scr_root_visual_def scr_default_gc_def scr_cmap_def scr_white_pixel_def scr_black_pixel_def

section \<open>Open and close\<close>

definition display_server_fd :: "nat \<Rightarrow> nat" where
  "display_server_fd dpy = dpy + BW_DISPLAY_SERVER_FD_OFFSET"

text \<open>Descriptors come back from the kernel as small non-negative ints.\<close>

definition XOpenDisplay :: "'h syscall \<Rightarrow> 'h world \<Rightarrow> nat \<times> 'h world" where
  "XOpenDisplay sys \<sigma> =
     (case socketpair \<sigma> of
        (None, \<sigma>1) \<Rightarrow> (0, bw_trace sys ''XOpenDisplay: socketpair failed'' \<sigma>1)
      | (Some (fd0, fd1), \<sigma>1) \<Rightarrow>
          (case calloc 1 DISPLAY_ARENA_BYTES \<sigma>1 of (arena, \<sigma>2) \<Rightarrow>
             if arena = 0 then (0, close_fd fd1 (close_fd fd0 \<sigma>2))
             else
               let \<sigma>3 = st_bytes arena (replicate DISPLAY_ARENA_BYTES 0) \<sigma>2 in
               (case BW sys OP_OPEN_DISPLAY [P arena, of_nat DISPLAY_ARENA_BYTES,
                       A_int (of_nat fd0), A_int (of_nat fd1)] \<sigma>3 of
                  (result, \<sigma>4) \<Rightarrow>
                    if sint result \<le> 0
                    then (0, free arena (close_fd fd1 (close_fd fd0
                               (bw_trace sys ''XOpenDisplay: bridge refused the display'' \<sigma>4))))
                    else (arena, store 4 (display_server_fd arena) (of_nat fd1 :: c_int) \<sigma>4))))"

text \<open>A descriptor read back from the \<^verbatim>\<open>Display\<close> is a C int; a negative one names no open
  descriptor, and \<^verbatim>\<open>close\<close> of it fails without effect.\<close>

definition close_int :: "c_int \<Rightarrow> 'h world \<Rightarrow> 'h world" where
  "close_int fd \<sigma> = (if sint fd < 0 then \<sigma>\<lparr>bad_close := True\<rparr> else close_fd (unat fd) \<sigma>)"

definition XCloseDisplay :: "'h syscall \<Rightarrow> nat \<Rightarrow> 'h world \<Rightarrow> c_int \<times> 'h world" where
  "XCloseDisplay sys dpy \<sigma> =
     (if dpy = 0 then (0, \<sigma>)
      else
        let server_fd = ld 4 (display_server_fd dpy) \<sigma> :: c_int;
            \<sigma>1 = snd (fwd_void sys OP_CLOSE_DISPLAY [P dpy] \<sigma>);
            \<sigma>2 = close_int (ld 4 (dpy + dpy_fd) \<sigma>1) \<sigma>1;
            \<sigma>3 = (if 0 < sint server_fd then close_int server_fd \<sigma>2 else \<sigma>2)
        in (0, free dpy \<sigma>3))"

section \<open>Questions answered from the Display\<close>

definition XDisplayName :: string where "XDisplayName = '':0''"

definition XDisplayString :: "nat \<Rightarrow> 'h world \<Rightarrow> u64" where "XDisplayString dpy \<sigma> = ld 8 (dpy + dpy_display_name) \<sigma>"
definition XServerVendor :: "nat \<Rightarrow> 'h world \<Rightarrow> u64" where "XServerVendor dpy \<sigma> = ld 8 (dpy + dpy_vendor) \<sigma>"
definition XVendorRelease :: "nat \<Rightarrow> 'h world \<Rightarrow> c_int" where "XVendorRelease dpy \<sigma> = ld 4 (dpy + dpy_release) \<sigma>"
definition XProtocolVersion :: "nat \<Rightarrow> 'h world \<Rightarrow> c_int" where "XProtocolVersion dpy \<sigma> = ld 4 (dpy + dpy_proto_major) \<sigma>"
definition XProtocolRevision :: "nat \<Rightarrow> 'h world \<Rightarrow> c_int" where "XProtocolRevision dpy \<sigma> = ld 4 (dpy + dpy_proto_minor) \<sigma>"
definition XConnectionNumber :: "nat \<Rightarrow> 'h world \<Rightarrow> c_int" where "XConnectionNumber dpy \<sigma> = ld 4 (dpy + dpy_fd) \<sigma>"
definition XDefaultScreen :: "nat \<Rightarrow> 'h world \<Rightarrow> c_int" where "XDefaultScreen dpy \<sigma> = ld 4 (dpy + dpy_default_screen) \<sigma>"
definition XScreenCount :: "nat \<Rightarrow> 'h world \<Rightarrow> c_int" where "XScreenCount dpy \<sigma> = ld 4 (dpy + dpy_nscreens) \<sigma>"

text \<open>\<^verbatim>\<open>&screens[scr]\<close>; a screen number outside the array is undefined in C, the model takes
  the number as unsigned.\<close>

definition XScreenOfDisplay :: "nat \<Rightarrow> c_int \<Rightarrow> 'h world \<Rightarrow> nat" where
  "XScreenOfDisplay dpy scr \<sigma> = unat (ld 8 (dpy + dpy_screens) \<sigma> :: u64) + Screen_size * unat scr"

definition XDefaultScreenOfDisplay :: "nat \<Rightarrow> 'h world \<Rightarrow> nat" where
  "XDefaultScreenOfDisplay dpy \<sigma> = XScreenOfDisplay dpy (XDefaultScreen dpy \<sigma>) \<sigma>"
definition XRootWindow :: "nat \<Rightarrow> c_int \<Rightarrow> 'h world \<Rightarrow> u64" where
  "XRootWindow dpy scr \<sigma> = ld 8 (XScreenOfDisplay dpy scr \<sigma> + scr_root) \<sigma>"
definition XDefaultRootWindow :: "nat \<Rightarrow> 'h world \<Rightarrow> u64" where
  "XDefaultRootWindow dpy \<sigma> = XRootWindow dpy (XDefaultScreen dpy \<sigma>) \<sigma>"
definition XRootWindowOfScreen :: "nat \<Rightarrow> 'h world \<Rightarrow> u64" where "XRootWindowOfScreen screen \<sigma> = ld 8 (screen + scr_root) \<sigma>"
definition XDefaultVisual :: "nat \<Rightarrow> c_int \<Rightarrow> 'h world \<Rightarrow> u64" where
  "XDefaultVisual dpy scr \<sigma> = ld 8 (XScreenOfDisplay dpy scr \<sigma> + scr_root_visual) \<sigma>"
definition XDefaultVisualOfScreen :: "nat \<Rightarrow> 'h world \<Rightarrow> u64" where "XDefaultVisualOfScreen screen \<sigma> = ld 8 (screen + scr_root_visual) \<sigma>"
definition XDefaultDepth :: "nat \<Rightarrow> c_int \<Rightarrow> 'h world \<Rightarrow> c_int" where
  "XDefaultDepth dpy scr \<sigma> = ld 4 (XScreenOfDisplay dpy scr \<sigma> + scr_root_depth) \<sigma>"
definition XDefaultDepthOfScreen :: "nat \<Rightarrow> 'h world \<Rightarrow> c_int" where "XDefaultDepthOfScreen screen \<sigma> = ld 4 (screen + scr_root_depth) \<sigma>"
definition XDefaultColormap :: "nat \<Rightarrow> c_int \<Rightarrow> 'h world \<Rightarrow> u64" where
  "XDefaultColormap dpy scr \<sigma> = ld 8 (XScreenOfDisplay dpy scr \<sigma> + scr_cmap) \<sigma>"
definition XDefaultColormapOfScreen :: "nat \<Rightarrow> 'h world \<Rightarrow> u64" where "XDefaultColormapOfScreen screen \<sigma> = ld 8 (screen + scr_cmap) \<sigma>"
definition XDefaultGC :: "nat \<Rightarrow> c_int \<Rightarrow> 'h world \<Rightarrow> u64" where
  "XDefaultGC dpy scr \<sigma> = ld 8 (XScreenOfDisplay dpy scr \<sigma> + scr_default_gc) \<sigma>"
definition XBlackPixel :: "nat \<Rightarrow> c_int \<Rightarrow> 'h world \<Rightarrow> u64" where
  "XBlackPixel dpy scr \<sigma> = ld 8 (XScreenOfDisplay dpy scr \<sigma> + scr_black_pixel) \<sigma>"
definition XWhitePixel :: "nat \<Rightarrow> c_int \<Rightarrow> 'h world \<Rightarrow> u64" where
  "XWhitePixel dpy scr \<sigma> = ld 8 (XScreenOfDisplay dpy scr \<sigma> + scr_white_pixel) \<sigma>"
definition XDisplayWidth :: "nat \<Rightarrow> c_int \<Rightarrow> 'h world \<Rightarrow> c_int" where
  "XDisplayWidth dpy scr \<sigma> = ld 4 (XScreenOfDisplay dpy scr \<sigma> + scr_width) \<sigma>"
definition XDisplayHeight :: "nat \<Rightarrow> c_int \<Rightarrow> 'h world \<Rightarrow> c_int" where
  "XDisplayHeight dpy scr \<sigma> = ld 4 (XScreenOfDisplay dpy scr \<sigma> + scr_height) \<sigma>"
definition XDisplayWidthMM :: "nat \<Rightarrow> c_int \<Rightarrow> 'h world \<Rightarrow> c_int" where
  "XDisplayWidthMM dpy scr \<sigma> = ld 4 (XScreenOfDisplay dpy scr \<sigma> + scr_mwidth) \<sigma>"
definition XDisplayHeightMM :: "nat \<Rightarrow> c_int \<Rightarrow> 'h world \<Rightarrow> c_int" where
  "XDisplayHeightMM dpy scr \<sigma> = ld 4 (XScreenOfDisplay dpy scr \<sigma> + scr_mheight) \<sigma>"
definition XWidthOfScreen :: "nat \<Rightarrow> 'h world \<Rightarrow> c_int" where "XWidthOfScreen screen \<sigma> = ld 4 (screen + scr_width) \<sigma>"
definition XHeightOfScreen :: "nat \<Rightarrow> 'h world \<Rightarrow> c_int" where "XHeightOfScreen screen \<sigma> = ld 4 (screen + scr_height) \<sigma>"
definition XDisplayOfScreen :: "nat \<Rightarrow> 'h world \<Rightarrow> u64" where "XDisplayOfScreen screen \<sigma> = ld 8 (screen + scr_display) \<sigma>"
definition XBitmapUnit :: "nat \<Rightarrow> 'h world \<Rightarrow> c_int" where "XBitmapUnit dpy \<sigma> = ld 4 (dpy + dpy_bitmap_unit) \<sigma>"
definition XBitmapPad :: "nat \<Rightarrow> 'h world \<Rightarrow> c_int" where "XBitmapPad dpy \<sigma> = ld 4 (dpy + dpy_bitmap_pad) \<sigma>"
definition XBitmapBitOrder :: "nat \<Rightarrow> 'h world \<Rightarrow> c_int" where "XBitmapBitOrder dpy \<sigma> = ld 4 (dpy + dpy_bitmap_bit_order) \<sigma>"
definition XImageByteOrder :: "nat \<Rightarrow> 'h world \<Rightarrow> c_int" where "XImageByteOrder dpy \<sigma> = ld 4 (dpy + dpy_byte_order) \<sigma>"
definition XVisualIDFromVisual :: "nat \<Rightarrow> 'h world \<Rightarrow> u64" where "XVisualIDFromVisual visual \<sigma> = ld 8 (visual + 8) \<sigma>"
definition XNextRequest :: "nat \<Rightarrow> 'h world \<Rightarrow> u64" where "XNextRequest dpy \<sigma> = ld 8 (dpy + dpy_request) \<sigma> + 1"
definition XLastKnownRequestProcessed :: "nat \<Rightarrow> 'h world \<Rightarrow> u64" where
  "XLastKnownRequestProcessed dpy \<sigma> = ld 8 (dpy + dpy_last_request_read) \<sigma>"
definition XQLength :: "nat \<Rightarrow> 'h world \<Rightarrow> c_int" where "XQLength dpy \<sigma> = ld 4 (dpy + dpy_qlen) \<sigma>"
definition XExtendedMaxRequestSize :: u64 where "XExtendedMaxRequestSize = 4 * 1024 * 1024"
definition XMaxRequestSize :: "nat \<Rightarrow> 'h world \<Rightarrow> u64" where
  "XMaxRequestSize dpy \<sigma> = ucast (ld 4 (dpy + dpy_max_request_size) \<sigma> :: u32)"

definition XDisplayKeycodes :: "nat \<Rightarrow> nat \<Rightarrow> nat \<Rightarrow> 'h world \<Rightarrow> c_int \<times> 'h world" where
  "XDisplayKeycodes dpy min_return max_return \<sigma> =
     (let \<sigma>1 = store 4 min_return (ld 4 (dpy + dpy_min_keycode) \<sigma> :: c_int) \<sigma>
      in (1, store 4 max_return (ld 4 (dpy + dpy_max_keycode) \<sigma>1 :: c_int) \<sigma>1))"

section \<open>Frames of the helpers\<close>

lemma with_bytes_fwd_frame:
  assumes "with_bytes bs (\<lambda>p. fwd_void sys op [P p]) \<sigma> = (u, \<sigma>')"
  shows "same_heap \<sigma> \<sigma>'" "same_fds \<sigma> \<sigma>'" "brk \<sigma>' = brk \<sigma>" "oom \<sigma>' = oom \<sigma>" "sp \<sigma>' = sp \<sigma>" "socks \<sigma>' = socks \<sigma>"
proof -
  let ?p = "sp \<sigma> - length bs"
  obtain r \<sigma>1 where b: "BW sys op [P ?p] (st_bytes ?p bs (\<sigma>\<lparr>sp := ?p\<rparr>)) = (r, \<sigma>1)" by fastforce
  then have "\<sigma>' = \<sigma>1\<lparr>sp := sp \<sigma>\<rparr>"
    using assms by (simp add: with_bytes_def with_local_def fwd_void_def)
  then show "same_heap \<sigma> \<sigma>'" "same_fds \<sigma> \<sigma>'" "brk \<sigma>' = brk \<sigma>" "oom \<sigma>' = oom \<sigma>" "sp \<sigma>' = sp \<sigma>" "socks \<sigma>' = socks \<sigma>"
    using BW_frame [OF b] by (simp_all add: same_heap_def same_fds_def)
qed

lemma bw_trace_frame:
  "live (bw_trace sys txt \<sigma>) = live \<sigma>" "bad_free (bw_trace sys txt \<sigma>) = bad_free \<sigma>"
  "fds (bw_trace sys txt \<sigma>) = fds \<sigma>" "bad_close (bw_trace sys txt \<sigma>) = bad_close \<sigma>"
  "brk (bw_trace sys txt \<sigma>) = brk \<sigma>"
proof -
  obtain u \<sigma>' where w: "with_bytes (cstr txt) (\<lambda>p. fwd_void sys OP_TRACE [P p]) \<sigma> = (u, \<sigma>')" by (metis surj_pair)
  then show "live (bw_trace sys txt \<sigma>) = live \<sigma>" "bad_free (bw_trace sys txt \<sigma>) = bad_free \<sigma>"
    "fds (bw_trace sys txt \<sigma>) = fds \<sigma>" "bad_close (bw_trace sys txt \<sigma>) = bad_close \<sigma>"
    "brk (bw_trace sys txt \<sigma>) = brk \<sigma>"
    using with_bytes_fwd_frame [OF w] by (simp_all add: bw_trace_def same_heap_def same_fds_def)
qed

lemma socketpair_cases:
  assumes "socketpair \<sigma> = (r, \<sigma>')"
  obtains q where "r = None" "\<sigma>' = \<sigma>\<lparr>socks := q\<rparr>"
  | a b q where "r = Some (a, b)" "\<sigma>' = \<sigma>\<lparr>socks := q, fds := a # b # fds \<sigma>\<rparr>" "a \<noteq> b"
      "a \<notin> set (fds \<sigma>)" "b \<notin> set (fds \<sigma>)"
proof (cases "socks \<sigma>")
  case Nil
  then show thesis using that(1) [of "socks \<sigma>"] assms by (simp add: socketpair_def)
next
  case (Cons x xs)
  then show thesis using that(1) [of xs] that(2) [of _ _ xs] assms
    by (auto simp: socketpair_def split: option.splits if_splits)
qed

text \<open>C13: XOpenDisplay either returns a display whose arena and two descriptors are the only
  new resources, or returns NULL with the descriptors and the live blocks exactly as before, on
  every path: no socket pair, no memory, or a refusal by the host.  It frees and closes nothing it
  does not own.\<close>

theorem XOpenDisplay_resources:
  assumes H: "heap_ok \<sigma>" and O: "XOpenDisplay sys \<sigma> = (dpy, \<sigma>')"
  shows "bad_free \<sigma>' = bad_free \<sigma> \<and> bad_close \<sigma>' = bad_close \<sigma> \<and>
    (if dpy = 0 then fds \<sigma>' = fds \<sigma> \<and> live \<sigma>' = live \<sigma>
     else live \<sigma> dpy = None \<and> live \<sigma>' = (live \<sigma>)(dpy \<mapsto> DISPLAY_ARENA_BYTES) \<and>
       (\<exists>a b. fds \<sigma>' = a # b # fds \<sigma> \<and> a \<noteq> b \<and> ld 4 (display_server_fd dpy) \<sigma>' = (of_nat b :: c_int)))"
proof -
  obtain r \<sigma>1 where s: "socketpair \<sigma> = (r, \<sigma>1)" by fastforce
  then show ?thesis
  proof (cases rule: socketpair_cases)
    case (1 q)
    then show ?thesis using O s by (auto simp: XOpenDisplay_def bw_trace_frame)
  next
    case (2 a b q)
    have H1: "heap_ok \<sigma>1" using H 2(2) by (simp add: heap_ok_def)
    obtain p \<sigma>m where m: "malloc DISPLAY_ARENA_BYTES \<sigma>1 = (p, \<sigma>m)" by fastforce
    have f1: "fds \<sigma>m = a # b # fds \<sigma>" "bad_free \<sigma>m = bad_free \<sigma>" "bad_close \<sigma>m = bad_close \<sigma>"
      using malloc_frameD [OF m] 2(2) by simp_all
    show ?thesis
    proof (cases "p = 0")
      case True
      then have "\<sigma>m = \<sigma>1\<lparr>oom := tl (oom \<sigma>1)\<rparr>" using malloc_fail m H1 by blast
      moreover have "dpy = 0 \<and> \<sigma>' = close_fd b (close_fd a \<sigma>m)"
        using O s m True 2(1) by (simp add: XOpenDisplay_def calloc_def)
      ultimately show ?thesis using f1 2 by (simp add: close_fd_def)
    next
      case False
      note fr = malloc_fresh [OF H1 m False]
      define \<sigma>3 where "\<sigma>3 = st_bytes p (replicate DISPLAY_ARENA_BYTES 0)
        (st_bytes p (replicate DISPLAY_ARENA_BYTES 0) \<sigma>m)"
      obtain res \<sigma>4 where b: "BW sys OP_OPEN_DISPLAY [P p, of_nat DISPLAY_ARENA_BYTES,
          A_int (of_nat a), A_int (of_nat b)] \<sigma>3 = (res, \<sigma>4)" by fastforce
      have f4: "live \<sigma>4 = (live \<sigma>)(p \<mapsto> DISPLAY_ARENA_BYTES)" "fds \<sigma>4 = a # b # fds \<sigma>"
        "bad_free \<sigma>4 = bad_free \<sigma>" "bad_close \<sigma>4 = bad_close \<sigma>"
        using BW_frame [OF b] fr f1 2(2) by (simp_all add: \<sigma>3_def same_heap_def same_fds_def)
      have lv: "live \<sigma> p = None" using fr(1) 2(2) by simp
      have "(dpy, \<sigma>') = (if sint res \<le> 0
          then (0, free p (close_fd b (close_fd a (bw_trace sys ''XOpenDisplay: bridge refused the display'' \<sigma>4))))
          else (p, store 4 (display_server_fd p) (of_nat b :: c_int) \<sigma>4))"
        using O s m False 2(1) b by (simp add: XOpenDisplay_def calloc_def \<sigma>3_def Let_def)
      then show ?thesis
        using f4 lv False 2(3)
        by (auto simp: close_fd_def bw_trace_frame free_def fun_upd_idem split: if_splits)
    qed
  qed
qed

lemma XOpenDisplay_resources_witness:
  "\<not> bad_close (snd (XOpenDisplay (\<lambda>_ _ _ m h. (0, m, h)) world0)) \<and>
   \<not> bad_free (snd (XOpenDisplay (\<lambda>_ _ _ m h. (0, m, h)) world0))"
  using XOpenDisplay_resources [OF world0_ok(1) surjective_pairing, of "\<lambda>_ _ _ m h. (0, m, h)"]
  by (simp add: world0_def)

end
