(* ===== verification/X11Visuals.thy ===== *)
theory X11Visuals
  imports X11Display
begin

text \<open>
  Visual lookup and pixmap formats (\<^verbatim>\<open>tools/x11-64/X11.c\<close>): \<^verbatim>\<open>XGetVisualInfo\<close> walks the
  screens, depths and visuals of the Display twice, once to count and once to fill a list;
  \<^verbatim>\<open>XMatchVisualInfo\<close> finds the first visual of a depth and class; \<^verbatim>\<open>XListPixmapFormats\<close>
  copies the format table.
\<close>

section \<open>Layout\<close>

definition Depth_size :: nat where "Depth_size = 16"
definition dep_depth :: nat where "dep_depth = 0"
definition dep_nvisuals :: nat where "dep_nvisuals = 4"
definition dep_visuals :: nat where "dep_visuals = 8"

definition Visual_size :: nat where "Visual_size = 56"
definition vis_visualid :: nat where "vis_visualid = 8"
definition vis_class :: nat where "vis_class = 16"
definition vis_red_mask :: nat where "vis_red_mask = 24"
definition vis_green_mask :: nat where "vis_green_mask = 32"
definition vis_blue_mask :: nat where "vis_blue_mask = 40"
definition vis_bits_per_rgb :: nat where "vis_bits_per_rgb = 48"
definition vis_map_entries :: nat where "vis_map_entries = 52"

definition XVisualInfo_size :: nat where "XVisualInfo_size = 64"

lemmas vis_offsets = Depth_size_def dep_depth_def dep_nvisuals_def dep_visuals_def Visual_size_def
  vis_visualid_def vis_class_def vis_red_mask_def vis_green_mask_def vis_blue_mask_def
  vis_bits_per_rgb_def vis_map_entries_def XVisualInfo_size_def

record XVisualInfo =
  vi_visual :: u64
  vi_visualid :: u64
  vi_screen :: c_int
  vi_depth :: c_int
  vi_class :: c_int
  vi_red_mask :: u64
  vi_green_mask :: u64
  vi_blue_mask :: u64
  vi_colormap_size :: c_int
  vi_bits_per_rgb :: c_int

definition read_visual_info :: "nat \<Rightarrow> 'h world \<Rightarrow> XVisualInfo" where
  "read_visual_info p \<sigma> = \<lparr>vi_visual = ld 8 p \<sigma>, vi_visualid = ld 8 (p + 8) \<sigma>,
     vi_screen = ld 4 (p + 16) \<sigma>, vi_depth = ld 4 (p + 20) \<sigma>, vi_class = ld 4 (p + 24) \<sigma>,
     vi_red_mask = ld 8 (p + 32) \<sigma>, vi_green_mask = ld 8 (p + 40) \<sigma>, vi_blue_mask = ld 8 (p + 48) \<sigma>,
     vi_colormap_size = ld 4 (p + 56) \<sigma>, vi_bits_per_rgb = ld 4 (p + 60) \<sigma>\<rparr>"

text \<open>The layout of an \<^verbatim>\<open>XImage\<close>, which both sides read.\<close>

definition XImage_size :: nat where "XImage_size = 136"
definition img_width :: nat where "img_width = 0"
definition img_height :: nat where "img_height = 4"
definition img_xoffset :: nat where "img_xoffset = 8"
definition img_format :: nat where "img_format = 12"
definition img_data :: nat where "img_data = 16"
definition img_byte_order :: nat where "img_byte_order = 24"
definition img_bitmap_unit :: nat where "img_bitmap_unit = 28"
definition img_bitmap_bit_order :: nat where "img_bitmap_bit_order = 32"
definition img_bitmap_pad :: nat where "img_bitmap_pad = 36"
definition img_depth :: nat where "img_depth = 40"
definition img_bytes_per_line :: nat where "img_bytes_per_line = 44"
definition img_bits_per_pixel :: nat where "img_bits_per_pixel = 48"
definition img_red_mask :: nat where "img_red_mask = 56"
definition img_green_mask :: nat where "img_green_mask = 64"
definition img_blue_mask :: nat where "img_blue_mask = 72"
definition img_funcs :: nat where "img_funcs = 88"

lemmas img_offsets = XImage_size_def img_width_def img_height_def img_xoffset_def img_format_def
  img_data_def img_byte_order_def img_bitmap_unit_def img_bitmap_bit_order_def img_bitmap_pad_def
  img_depth_def img_bytes_per_line_def img_bits_per_pixel_def img_red_mask_def img_green_mask_def
  img_blue_mask_def img_funcs_def

section \<open>Matching and filling\<close>

definition mask_bit :: "u64 \<Rightarrow> nat \<Rightarrow> bool" where "mask_bit m k \<longleftrightarrow> bit m k"

text \<open>\<^verbatim>\<open>VisualIDMask = 1\<close> up to \<^verbatim>\<open>VisualBitsPerRGBMask = 0x100\<close>, one bit each.\<close>

definition bw_visual_matches :: "u64 \<Rightarrow> XVisualInfo \<Rightarrow> c_int \<Rightarrow> nat \<Rightarrow> nat \<Rightarrow> 'h world \<Rightarrow> bool" where
  "bw_visual_matches msk tmpl screen depth visual \<sigma> \<longleftrightarrow>
     (if mask_bit msk 0 \<and> vi_visualid tmpl \<noteq> ld 8 (visual + vis_visualid) \<sigma> then False
      else if mask_bit msk 1 \<and> vi_screen tmpl \<noteq> screen then False
      else if mask_bit msk 2 \<and> vi_depth tmpl \<noteq> ld 4 (depth + dep_depth) \<sigma> then False
      else if mask_bit msk 3 \<and> vi_class tmpl \<noteq> ld 4 (visual + vis_class) \<sigma> then False
      else if mask_bit msk 4 \<and> vi_red_mask tmpl \<noteq> ld 8 (visual + vis_red_mask) \<sigma> then False
      else if mask_bit msk 5 \<and> vi_green_mask tmpl \<noteq> ld 8 (visual + vis_green_mask) \<sigma> then False
      else if mask_bit msk 6 \<and> vi_blue_mask tmpl \<noteq> ld 8 (visual + vis_blue_mask) \<sigma> then False
      else if mask_bit msk 7 \<and> vi_colormap_size tmpl \<noteq> ld 4 (visual + vis_map_entries) \<sigma> then False
      else if mask_bit msk 8 \<and> vi_bits_per_rgb tmpl \<noteq> ld 4 (visual + vis_bits_per_rgb) \<sigma> then False
      else True)"

text \<open>The stores in source order; bytes 28 to 31 are padding and keep their value.\<close>

definition bw_fill_visual_info :: "nat \<Rightarrow> c_int \<Rightarrow> nat \<Rightarrow> nat \<Rightarrow> 'h world \<Rightarrow> 'h world" where
  "bw_fill_visual_info info screen depth visual \<sigma>0 =
     (let \<sigma>1 = store 8 info (P visual) \<sigma>0;
          \<sigma>2 = store 8 (info + 8) (ld 8 (visual + vis_visualid) \<sigma>1 :: u64) \<sigma>1;
          \<sigma>3 = store 4 (info + 16) screen \<sigma>2;
          \<sigma>4 = store 4 (info + 20) (ld 4 (depth + dep_depth) \<sigma>3 :: c_int) \<sigma>3;
          \<sigma>5 = store 4 (info + 24) (ld 4 (visual + vis_class) \<sigma>4 :: c_int) \<sigma>4;
          \<sigma>6 = store 8 (info + 32) (ld 8 (visual + vis_red_mask) \<sigma>5 :: u64) \<sigma>5;
          \<sigma>7 = store 8 (info + 40) (ld 8 (visual + vis_green_mask) \<sigma>6 :: u64) \<sigma>6;
          \<sigma>8 = store 8 (info + 48) (ld 8 (visual + vis_blue_mask) \<sigma>7 :: u64) \<sigma>7;
          \<sigma>9 = store 4 (info + 56) (ld 4 (visual + vis_map_entries) \<sigma>8 :: c_int) \<sigma>8
      in store 4 (info + 60) (ld 4 (visual + vis_bits_per_rgb) \<sigma>9 :: c_int) \<sigma>9)"

section \<open>The walks\<close>

text \<open>The addresses the three nested loops visit, in order: screen number, depth, visual.\<close>

definition visuals_of_depth :: "nat \<Rightarrow> 'h world \<Rightarrow> nat list" where
  "visuals_of_depth depth \<sigma> =
     map (\<lambda>v. unat (ld 8 (depth + dep_visuals) \<sigma> :: u64) + Visual_size * v)
         [0..<nat (sint (ld 4 (depth + dep_nvisuals) \<sigma> :: c_int))]"

definition depths_of_screen :: "nat \<Rightarrow> 'h world \<Rightarrow> nat list" where
  "depths_of_screen screen \<sigma> =
     map (\<lambda>d. unat (ld 8 (screen + scr_depths) \<sigma> :: u64) + Depth_size * d)
         [0..<nat (sint (ld 4 (screen + scr_ndepths) \<sigma> :: c_int))]"

definition visuals_of_screen :: "nat \<Rightarrow> 'h world \<Rightarrow> (nat \<times> nat) list" where
  "visuals_of_screen screen \<sigma> =
     concat (map (\<lambda>d. map (\<lambda>v. (d, v)) (visuals_of_depth d \<sigma>)) (depths_of_screen screen \<sigma>))"

definition visuals_of_display :: "nat \<Rightarrow> 'h world \<Rightarrow> (c_int \<times> nat \<times> nat) list" where
  "visuals_of_display dpy \<sigma> =
     concat (map (\<lambda>s. map (\<lambda>(d, v). (of_nat s, d, v)) (visuals_of_screen (XScreenOfDisplay dpy (of_nat s) \<sigma>) \<sigma>))
                 [0..<nat (sint (XScreenCount dpy \<sigma>))])"

text \<open>One pass over the visuals: \<^verbatim>\<open>index\<close> counts the matches, and the second pass fills.\<close>

primrec visual_pass ::
  "bool \<Rightarrow> u64 \<Rightarrow> XVisualInfo \<Rightarrow> nat \<Rightarrow> (c_int \<times> nat \<times> nat) list \<Rightarrow> nat \<Rightarrow> 'h world \<Rightarrow> nat \<times> 'h world" where
  "visual_pass fill msk tmpl lst [] index \<sigma> = (index, \<sigma>)"
| "visual_pass fill msk tmpl lst (x # xs) index \<sigma> =
     (case x of (s, d, v) \<Rightarrow>
        if \<not> bw_visual_matches msk tmpl s d v \<sigma> then visual_pass fill msk tmpl lst xs index \<sigma>
        else visual_pass fill msk tmpl lst xs (Suc index)
               (if fill then bw_fill_visual_info (lst + XVisualInfo_size * index) s d v \<sigma> else \<sigma>))"

definition XGetVisualInfo :: "nat \<Rightarrow> u64 \<Rightarrow> XVisualInfo \<Rightarrow> nat \<Rightarrow> 'h world \<Rightarrow> nat \<times> 'h world" where
  "XGetVisualInfo dpy vinfo_mask vinfo_template nitems_return \<sigma> =
     (case visual_pass False vinfo_mask vinfo_template 0 (visuals_of_display dpy \<sigma>) 0 \<sigma> of
        (count, \<sigma>1) \<Rightarrow>
          if count = 0 then (0, store 4 nitems_return (0 :: c_int) \<sigma>1)
          else case calloc count XVisualInfo_size \<sigma>1 of (lst, \<sigma>2) \<Rightarrow>
            if lst = 0 then (0, store 4 nitems_return (0 :: c_int) \<sigma>2)
            else case visual_pass True vinfo_mask vinfo_template lst (visuals_of_display dpy \<sigma>2) 0 \<sigma>2 of
              (_, \<sigma>3) \<Rightarrow> (lst, store 4 nitems_return (of_nat count :: c_int) \<sigma>3))"

text \<open>The first visual of the first depth record of the wanted depth that has the class.\<close>

definition XMatchVisualInfo :: "nat \<Rightarrow> c_int \<Rightarrow> c_int \<Rightarrow> c_int \<Rightarrow> nat \<Rightarrow> 'h world \<Rightarrow> c_int \<times> 'h world" where
  "XMatchVisualInfo dpy screen depth cls vinfo_return \<sigma> =
     (if sint screen < 0 \<or> sint (XScreenCount dpy \<sigma>) \<le> sint screen then (0, \<sigma>)
      else case find (\<lambda>(d, v). ld 4 (d + dep_depth) \<sigma> = depth \<and> ld 4 (v + vis_class) \<sigma> = cls)
                     (visuals_of_screen (XScreenOfDisplay dpy screen \<sigma>) \<sigma>) of
             None \<Rightarrow> (0, \<sigma>)
           | Some (d, v) \<Rightarrow> (1, bw_fill_visual_info vinfo_return screen d v \<sigma>))"

section \<open>Pixmap formats\<close>

definition ScreenFormat_size :: nat where "ScreenFormat_size = 24"
definition XPixmapFormatValues_size :: nat where "XPixmapFormatValues_size = 12"

primrec copy_formats :: "nat \<Rightarrow> nat \<Rightarrow> nat \<Rightarrow> nat \<Rightarrow> 'h world \<Rightarrow> 'h world" where
  "copy_formats dpy lst i 0 \<sigma> = \<sigma>"
| "copy_formats dpy lst i (Suc n) \<sigma> =
     (let src = unat (ld 8 (dpy + dpy_pixmap_format) \<sigma> :: u64) + ScreenFormat_size * i;
          dst = lst + XPixmapFormatValues_size * i;
          \<sigma>1 = store 4 dst (ld 4 (src + 8) \<sigma> :: c_int) \<sigma>;
          \<sigma>2 = store 4 (dst + 4) (ld 4 (src + 12) \<sigma>1 :: c_int) \<sigma>1;
          \<sigma>3 = store 4 (dst + 8) (ld 4 (src + 16) \<sigma>2 :: c_int) \<sigma>2
      in copy_formats dpy lst (Suc i) n \<sigma>3)"

definition XListPixmapFormats :: "nat \<Rightarrow> nat \<Rightarrow> 'h world \<Rightarrow> nat \<times> 'h world" where
  "XListPixmapFormats dpy count_return \<sigma> =
     (let n = ld 4 (dpy + dpy_nformats) \<sigma> :: c_int in
      if sint n \<le> 0 \<or> (ld 8 (dpy + dpy_pixmap_format) \<sigma> :: u64) = 0
      then (0, store 4 count_return (0 :: c_int) \<sigma>)
      else case calloc (nat (sint n)) XPixmapFormatValues_size \<sigma> of (lst, \<sigma>1) \<Rightarrow>
        if lst = 0 then (0, store 4 count_return (0 :: c_int) \<sigma>1)
        else (lst, store 4 count_return n (copy_formats dpy lst 0 (nat (sint n)) \<sigma>1)))"

section \<open>Reading the Display while writing above it\<close>

text \<open>Two worlds that agree on every address below \<^verbatim>\<open>b\<close>; a block allocated later lies above.\<close>

definition agree_below :: "nat \<Rightarrow> 'h world \<Rightarrow> 'h world \<Rightarrow> bool" where
  "agree_below b \<sigma> \<sigma>' \<longleftrightarrow> (\<forall>a < b. mem \<sigma>' a = mem \<sigma> a)"

lemma agree_below_refl [simp]: "agree_below b \<sigma> \<sigma>" by (simp add: agree_below_def)

lemma agree_below_trans: "agree_below b \<sigma> \<sigma>' \<Longrightarrow> agree_below b \<sigma>' \<sigma>'' \<Longrightarrow> agree_below b \<sigma> \<sigma>''"
  by (simp add: agree_below_def)

lemma agree_below_rd: "agree_below b \<sigma> \<sigma>' \<Longrightarrow> a + n \<le> b \<Longrightarrow> rd (mem \<sigma>') a n = rd (mem \<sigma>) a n"
  by (rule nth_equalityI) (auto simp: agree_below_def)

lemma agree_below_ld: "agree_below b \<sigma> \<sigma>' \<Longrightarrow> a + n \<le> b \<Longrightarrow> ld n a \<sigma>' = ld n a \<sigma>"
  by (simp add: ld_def agree_below_rd)

lemma agree_below_store: "b \<le> a \<Longrightarrow> agree_below b \<sigma> (store n a v \<sigma>)"
  by (simp add: agree_below_def store_def)

lemma agree_below_st_bytes: "b \<le> a \<Longrightarrow> agree_below b \<sigma> (st_bytes a bs \<sigma>)"
  by (simp add: agree_below_def st_bytes_def)

definition visuals_below :: "nat \<Rightarrow> nat \<Rightarrow> 'h world \<Rightarrow> bool" where
  "visuals_below dpy b \<sigma> \<longleftrightarrow> dpy + 296 \<le> b \<and>
     (\<forall>s < nat (sint (XScreenCount dpy \<sigma>)). XScreenOfDisplay dpy (of_nat s) \<sigma> + Screen_size \<le> b \<and>
        (\<forall>d \<in> set (depths_of_screen (XScreenOfDisplay dpy (of_nat s) \<sigma>) \<sigma>). d + Depth_size \<le> b \<and>
           (\<forall>v \<in> set (visuals_of_depth d \<sigma>). v + Visual_size \<le> b)))"

lemma visuals_of_display_agree:
  assumes A: "agree_below b \<sigma> \<sigma>'" and B: "visuals_below dpy b \<sigma>"
  shows "visuals_of_display dpy \<sigma>' = visuals_of_display dpy \<sigma>"
proof -
  have c: "XScreenCount dpy \<sigma>' = XScreenCount dpy \<sigma>"
    "XScreenOfDisplay dpy n \<sigma>' = XScreenOfDisplay dpy n \<sigma>" for n
    using B by (simp_all add: agree_below_ld [OF A] XScreenCount_def XScreenOfDisplay_def visuals_below_def dpy_offsets)
  have v: "visuals_of_screen (XScreenOfDisplay dpy (of_nat s) \<sigma>) \<sigma>' = visuals_of_screen (XScreenOfDisplay dpy (of_nat s) \<sigma>) \<sigma>"
    if s: "s < nat (sint (XScreenCount dpy \<sigma>))" for s
  proof -
    let ?s = "XScreenOfDisplay dpy (of_nat s) \<sigma>"
    have "?s + 128 \<le> b" using B s by (simp add: visuals_below_def Screen_size_def)
    then have "depths_of_screen ?s \<sigma>' = depths_of_screen ?s \<sigma>"
      by (simp add: agree_below_ld [OF A] depths_of_screen_def scr_offsets)
    moreover have "visuals_of_depth d \<sigma>' = visuals_of_depth d \<sigma>" if "d \<in> set (depths_of_screen ?s \<sigma>)" for d
    proof -
      have "d + 16 \<le> b" using B s that by (simp add: visuals_below_def Depth_size_def)
      then show ?thesis by (simp add: agree_below_ld [OF A] visuals_of_depth_def vis_offsets)
    qed
    ultimately show ?thesis by (simp add: visuals_of_screen_def cong: map_cong)
  qed
  show ?thesis unfolding visuals_of_display_def c
    by (rule arg_cong [where f = concat], rule map_cong) (auto simp: v)
qed

lemma visuals_below_elem:
  assumes "visuals_below dpy b \<sigma>" "(s, d, v) \<in> set (visuals_of_display dpy \<sigma>)"
  shows "d + Depth_size \<le> b" "v + Visual_size \<le> b"
  using assms by (auto simp: visuals_of_display_def visuals_of_screen_def visuals_below_def)

lemma matches_agree:
  assumes "agree_below b \<sigma> \<sigma>'" "d + Depth_size \<le> b" "v + Visual_size \<le> b"
  shows "bw_visual_matches m t s d v \<sigma>' = bw_visual_matches m t s d v \<sigma>"
  using assms(2,3) by (simp add: agree_below_ld [OF assms(1)] bw_visual_matches_def vis_offsets)

section \<open>Filling one entry\<close>

text \<open>What the shim means to report about a visual.\<close>

definition visual_info :: "'h world \<Rightarrow> c_int \<times> nat \<times> nat \<Rightarrow> XVisualInfo" where
  "visual_info \<sigma> = (\<lambda>(s, d, v). \<lparr>vi_visual = P v, vi_visualid = ld 8 (v + vis_visualid) \<sigma>,
     vi_screen = s, vi_depth = ld 4 (d + dep_depth) \<sigma>, vi_class = ld 4 (v + vis_class) \<sigma>,
     vi_red_mask = ld 8 (v + vis_red_mask) \<sigma>, vi_green_mask = ld 8 (v + vis_green_mask) \<sigma>,
     vi_blue_mask = ld 8 (v + vis_blue_mask) \<sigma>, vi_colormap_size = ld 4 (v + vis_map_entries) \<sigma>,
     vi_bits_per_rgb = ld 4 (v + vis_bits_per_rgb) \<sigma>\<rparr>)"

lemma fill_reads:
  assumes "d + Depth_size \<le> p" "v + Visual_size \<le> p"
  shows "read_visual_info p (bw_fill_visual_info p s d v \<sigma>) = visual_info \<sigma> (s, d, v)"
  using assms
  by (simp add: read_visual_info_def bw_fill_visual_info_def visual_info_def Let_def ld_st_other vis_offsets)

lemma fill_other:
  "a < p \<or> p + XVisualInfo_size \<le> a \<Longrightarrow> mem (bw_fill_visual_info p s d v \<sigma>) a = mem \<sigma> a"
  by (auto simp: bw_fill_visual_info_def Let_def store_def XVisualInfo_size_def)

lemma fill_frame [world_frame, simp]:
  "live (bw_fill_visual_info p s d v \<sigma>) = live \<sigma>" "bad_free (bw_fill_visual_info p s d v \<sigma>) = bad_free \<sigma>"
  by (simp_all add: bw_fill_visual_info_def Let_def)

lemma read_visual_info_cong:
  assumes "rd (mem \<sigma>') p XVisualInfo_size = rd (mem \<sigma>) p XVisualInfo_size"
  shows "read_visual_info p \<sigma>' = read_visual_info p \<sigma>"
proof -
  have "rd (mem \<sigma>') (p + k) n = rd (mem \<sigma>) (p + k) n" if "k + n \<le> XVisualInfo_size" for k n
    using arg_cong [OF assms, of "\<lambda>bs. take n (drop k bs)"] that by (simp add: drop_rd take_rd)
  from this [of 0 8] this show ?thesis
    by (simp add: read_visual_info_def ld_def XVisualInfo_size_def)
qed

section \<open>The two passes\<close>

lemma count_pass:
  "visual_pass False m t lst xs i \<sigma> =
     (i + length (filter (\<lambda>(s, d, v). bw_visual_matches m t s d v \<sigma>) xs), \<sigma>)"
  by (induction xs arbitrary: i) auto

lemma fill_pass:
  assumes "\<forall>(s, d, v) \<in> set xs. d + Depth_size \<le> b \<and> v + Visual_size \<le> b" "b \<le> lst"
  shows "agree_below b \<sigma> \<sigma>0 \<Longrightarrow> visual_pass True m t lst xs i \<sigma>0 = (n, \<sigma>') \<Longrightarrow>
    (\<forall>a. a < lst + XVisualInfo_size * i \<longrightarrow> mem \<sigma>' a = mem \<sigma>0 a) \<and> live \<sigma>' = live \<sigma>0 \<and> bad_free \<sigma>' = bad_free \<sigma>0 \<and>
    (let hits = filter (\<lambda>(s, d, v). bw_visual_matches m t s d v \<sigma>) xs in
     \<forall>j < length hits. read_visual_info (lst + XVisualInfo_size * (i + j)) \<sigma>' = visual_info \<sigma> (hits ! j))"
  using assms(1)
proof (induction xs arbitrary: i \<sigma>0)
  case (Cons x xs)
  obtain s d v where x: "x = (s, d, v)" by (cases x)
  have le: "d + Depth_size \<le> b" "v + Visual_size \<le> b" using Cons.prems(3) by (auto simp: x)
  have m: "bw_visual_matches m t s d v \<sigma>0 = bw_visual_matches m t s d v \<sigma>"
    using matches_agree [OF Cons.prems(1) le] .
  show ?case
  proof (cases "bw_visual_matches m t s d v \<sigma>")
    case False
    then show ?thesis using Cons.IH [OF Cons.prems(1), of i] Cons.prems(2,3) m by (simp add: x)
  next
    case True
    let ?p = "lst + XVisualInfo_size * i"
    let ?\<sigma>1 = "bw_fill_visual_info ?p s d v \<sigma>0"
    have bp: "b \<le> ?p" using assms(2) by simp
    have A1: "agree_below b \<sigma> ?\<sigma>1"
      using Cons.prems(1) bp by (auto simp: agree_below_def fill_other)
    have call: "visual_pass True m t lst xs (Suc i) ?\<sigma>1 = (n, \<sigma>')"
      using Cons.prems(2) True m by (simp add: x)
    note IH = Cons.IH [OF A1 call] 
    have xs: "\<forall>(s, d, v) \<in> set xs. d + Depth_size \<le> b \<and> v + Visual_size \<le> b" using Cons.prems(3) by simp
    note IH = IH [OF xs]
    have keep: "rd (mem \<sigma>') ?p XVisualInfo_size = rd (mem ?\<sigma>1) ?p XVisualInfo_size"
      by (rule nth_equalityI) (use IH in \<open>auto simp: algebra_simps\<close>)
    have "read_visual_info ?p \<sigma>' = visual_info \<sigma>0 (s, d, v)"
      using read_visual_info_cong [OF keep] fill_reads [of d ?p v s \<sigma>0] le bp by simp
    also have "\<dots> = visual_info \<sigma> (s, d, v)"
      using le by (simp add: visual_info_def agree_below_ld [OF Cons.prems(1)] vis_offsets)
    finally have r0: "read_visual_info ?p \<sigma>' = visual_info \<sigma> (s, d, v)" .
    let ?h = "filter (\<lambda>(s, d, v). bw_visual_matches m t s d v \<sigma>) xs"
    have "read_visual_info (lst + XVisualInfo_size * (i + j)) \<sigma>' = visual_info \<sigma> ((x # ?h) ! j)"
      if "j < Suc (length ?h)" for j
      using r0 IH that by (cases j) (auto simp: x Let_def)
    moreover have "mem \<sigma>' a = mem \<sigma>0 a" if "a < ?p" for a
      using IH fill_other [of a ?p s d v \<sigma>0] that by (simp add: algebra_simps)
    ultimately show ?thesis using IH True by (simp add: x Let_def)
  qed
qed simp

text \<open>C10: XGetVisualInfo reports exactly the visuals that match the template under the
  mask, in the order of the Display, in a fresh block of that many records, and their number; when
  none matches or memory runs out it reports zero and returns NULL.\<close>

theorem XGetVisualInfo_result:
  assumes H: "heap_ok \<sigma>" and B: "visuals_below dpy (brk \<sigma>) \<sigma>"
    and n: "nitems_return + 4 \<le> brk \<sigma>" and X: "XGetVisualInfo dpy m t nitems_return \<sigma> = (lst, \<sigma>')"
  defines "hits \<equiv> filter (\<lambda>(s, d, v). bw_visual_matches m t s d v \<sigma>) (visuals_of_display dpy \<sigma>)"
  shows "if hits = [] \<or> alloc_fails (length hits * XVisualInfo_size) \<sigma>
    then lst = 0 \<and> ld 4 nitems_return \<sigma>' = (0 :: c_int) \<and> live \<sigma>' = live \<sigma>
    else live \<sigma> lst = None \<and> live \<sigma>' = (live \<sigma>)(lst \<mapsto> length hits * XVisualInfo_size) \<and>
      ld 4 nitems_return \<sigma>' = (of_nat (length hits) :: c_int) \<and>
      (\<forall>j < length hits. read_visual_info (lst + XVisualInfo_size * j) \<sigma>' = visual_info \<sigma> (hits ! j))"
proof -
  let ?n = "length hits"
  have p0: "visual_pass False m t 0 (visuals_of_display dpy \<sigma>) 0 \<sigma> = (?n, \<sigma>)"
    by (simp add: count_pass hits_def)
  show ?thesis
  proof (cases "hits = []")
    case True
    then show ?thesis using X p0 by (auto simp: XGetVisualInfo_def)
  next
    case False
    obtain p \<sigma>m where mm: "malloc (?n * XVisualInfo_size) \<sigma> = (p, \<sigma>m)" by (metis surj_pair)
    have p: "p = 0 \<longleftrightarrow> alloc_fails (?n * XVisualInfo_size) \<sigma>"
      using malloc_null [of "?n * XVisualInfo_size" \<sigma>] mm H by (simp add: heap_ok_def)
    show ?thesis
    proof (cases "p = 0")
      case True
      then have "lst = 0" "\<sigma>' = store 4 nitems_return (0 :: c_int) \<sigma>m"
        using X p0 False mm by (simp_all add: XGetVisualInfo_def calloc_def)
      moreover have "live \<sigma>m = live \<sigma>"
        using malloc_fail [of "?n * XVisualInfo_size" \<sigma> \<sigma>m] mm True H by simp
      ultimately show ?thesis using True p by simp
    next
      case nz: False
      note fr = malloc_fresh [OF H mm nz]
      let ?\<sigma>2 = "st_bytes p (replicate (?n * XVisualInfo_size) 0) \<sigma>m"
      have A: "agree_below (brk \<sigma>) \<sigma> ?\<sigma>2"
        using fr by (simp add: agree_below_def st_bytes_def)
      have V: "visuals_of_display dpy ?\<sigma>2 = visuals_of_display dpy \<sigma>"
        using visuals_of_display_agree [OF A B] .
      obtain k \<sigma>3 where v: "visual_pass True m t p (visuals_of_display dpy \<sigma>) 0 ?\<sigma>2 = (k, \<sigma>3)"
        by (metis surj_pair)
      have out: "lst = p" "\<sigma>' = store 4 nitems_return (of_nat ?n :: c_int) \<sigma>3"
        using X p0 False mm nz V v by (simp_all add: XGetVisualInfo_def calloc_def)
      have el: "\<forall>(s, d, v) \<in> set (visuals_of_display dpy \<sigma>). d + Depth_size \<le> brk \<sigma> \<and> v + Visual_size \<le> brk \<sigma>"
        using visuals_below_elem [OF B] by auto
      note F = fill_pass [OF el _ A v]
      have F': "live \<sigma>3 = live ?\<sigma>2"
        "\<And>j. j < ?n \<Longrightarrow> read_visual_info (p + XVisualInfo_size * j) \<sigma>3 = visual_info \<sigma> (hits ! j)"
        using F fr(5) by (simp_all add: hits_def Let_def)
      have "read_visual_info (p + XVisualInfo_size * j) \<sigma>' = read_visual_info (p + XVisualInfo_size * j) \<sigma>3" for j
        by (rule read_visual_info_cong) (use n fr(5) in \<open>simp add: out(2) store_def rd_wr_other\<close>)
      then show ?thesis using out F' fr(1,2) p nz False by simp
    qed
  qed
qed

text \<open>A display with one screen, one depth and two visuals.\<close>

definition visual_world :: "unit world" where
  "visual_world = store 8 (9356 + vis_visualid) (34 :: u64) (store 8 (9300 + vis_visualid) (33 :: u64)
     (store 8 (9200 + dep_visuals) (P 9300) (store 4 (9200 + dep_nvisuals) (2 :: c_int) (store 4 (9200 + dep_depth) (24 :: c_int)
     (store 8 (9000 + scr_depths) (P 9200) (store 4 (9000 + scr_ndepths) (1 :: c_int)
     (store 8 (8192 + dpy_screens) (P 9000) (store 4 (8192 + dpy_nscreens) (1 :: c_int)
       (world0\<lparr>brk := 16384, oom := []\<rparr>)))))))))"

definition visual34 :: XVisualInfo where
  "visual34 = \<lparr>vi_visual = 0, vi_visualid = 34, vi_screen = 0, vi_depth = 0, vi_class = 0, vi_red_mask = 0, vi_green_mask = 0,
     vi_blue_mask = 0, vi_colormap_size = 0, vi_bits_per_rgb = 0\<rparr>"

lemma upt2: "[0..<2] = [0, 1]" by (simp add: upt_rec)

lemma visual_world_list: "visuals_of_display 8192 visual_world = [(0, 9200, 9300), (0, 9200, 9356)]"
  by (simp add: visuals_of_display_def visuals_of_screen_def depths_of_screen_def visuals_of_depth_def
      XScreenCount_def XScreenOfDisplay_def visual_world_def ld_st_other dpy_offsets scr_offsets vis_offsets upt2)

lemma XGetVisualInfo_result_witness:
  "read_visual_info (fst (XGetVisualInfo 8192 1 visual34 4096 visual_world))
     (snd (XGetVisualInfo 8192 1 visual34 4096 visual_world)) = visual_info visual_world (0, 9200, 9356)"
proof -
  have H: "heap_ok visual_world" by (simp add: visual_world_def heap_ok_def world0_def heap_top_def)
  have B: "visuals_below 8192 (brk visual_world) visual_world"
    by (simp add: visuals_below_def depths_of_screen_def visuals_of_depth_def
      XScreenCount_def XScreenOfDisplay_def visual_world_def ld_st_other dpy_offsets scr_offsets vis_offsets)
  have hits: "filter (\<lambda>(s, d, v). bw_visual_matches 1 visual34 s d v visual_world) (visuals_of_display 8192 visual_world) =
      [(0, 9200, 9356)]"
    unfolding visual_world_list
    by (simp add: bw_visual_matches_def mask_bit_def visual34_def visual_world_def ld_st_other vis_offsets
        scr_offsets dpy_offsets)
  have "\<not> alloc_fails (1 * XVisualInfo_size) visual_world"
    by (simp add: alloc_fails_def visual_world_def XVisualInfo_size_def world0_def heap_top_def)
  then show ?thesis
    using XGetVisualInfo_result [OF H B _ surjective_pairing, of 4096 1 visual34, unfolded hits]
    by (simp add: visual_world_def world0_def)
qed

end
