(* ===== verification/X11Image.thy ===== *)
theory X11Image
  imports X11Visuals "HOL-Library.Signed_Division"
begin

text \<open>
  Client-side images (\<^verbatim>\<open>tools/x11-64/X11.c\<close>): the \<^verbatim>\<open>XImage\<close> structure and its data block
  live in guest memory; creating, destroying, reading and writing pixels, cutting out a part and
  adding to every pixel.  The properties say that a pixel written is the pixel read, at every depth
  the shim knows, that no other pixel changes, and what the two loops compute.
\<close>

section \<open>The structure\<close>

text \<open>The entry points an image carries, by their addresses in the process.\<close>

record image_functions =
  fn_create_image :: u64
  fn_destroy_image :: u64
  fn_get_pixel :: u64
  fn_put_pixel :: u64
  fn_sub_image :: u64
  fn_add_pixel :: u64

definition bw_init_image_funcs :: "image_functions \<Rightarrow> nat \<Rightarrow> 'h world \<Rightarrow> 'h world" where
  "bw_init_image_funcs F img =
     store 8 (img + img_funcs + 40) (fn_add_pixel F) \<circ>
     store 8 (img + img_funcs + 32) (fn_sub_image F) \<circ>
     store 8 (img + img_funcs + 24) (fn_put_pixel F) \<circ>
     store 8 (img + img_funcs + 16) (fn_get_pixel F) \<circ>
     store 8 (img + img_funcs + 8) (fn_destroy_image F) \<circ>
     store 8 (img + img_funcs) (fn_create_image F)"

section \<open>Creating and destroying\<close>

text \<open>C's division of \<^verbatim>\<open>int\<close>s truncates.\<close>

definition c_div :: "c_int \<Rightarrow> c_int \<Rightarrow> c_int" where
  "c_div a b = word_of_int (sint a sdiv sint b)"

definition bw_round_up :: "c_int \<Rightarrow> c_int \<Rightarrow> c_int" where
  "bw_round_up v multiple =
     (if sint multiple \<le> 0 then v else c_div (v + multiple - 1) multiple * multiple)"

definition depth_bits :: "u32 \<Rightarrow> c_int" where
  "depth_bits depth = (if depth = 1 then 1 else if depth \<le> 8 then 8 else if depth \<le> 16 then 16 else 32)"

text \<open>The assignments to the fields, in the order of the source.\<close>

definition fill_image ::
  "nat \<Rightarrow> nat \<Rightarrow> u32 \<Rightarrow> c_int \<Rightarrow> c_int \<Rightarrow> u64 \<Rightarrow> u32 \<Rightarrow> u32 \<Rightarrow> c_int \<Rightarrow> c_int \<Rightarrow> nat \<Rightarrow> 'h world \<Rightarrow> 'h world" where
  "fill_image dpy visual depth format offset data width height bitmap_pad bytes_per_line img \<sigma>1 =
     (let bits_per_pixel = depth_bits depth;
          pad = (if bitmap_pad \<noteq> 0 then bitmap_pad else 32);
          \<sigma>2 = store 4 (img + img_width) width \<sigma>1;
          \<sigma>3 = store 4 (img + img_height) height \<sigma>2;
          \<sigma>4 = store 4 (img + img_xoffset) offset \<sigma>3;
          \<sigma>5 = store 4 (img + img_format) format \<sigma>4;
          \<sigma>6 = store 8 (img + img_data) data \<sigma>5;
          \<sigma>7 = store 4 (img + img_byte_order) (ld 4 (dpy + dpy_byte_order) \<sigma>6 :: c_int) \<sigma>6;
          \<sigma>8 = store 4 (img + img_bitmap_unit) (if bits_per_pixel = 1 then 32 else bits_per_pixel) \<sigma>7;
          \<sigma>9 = store 4 (img + img_bitmap_bit_order) (ld 4 (dpy + dpy_bitmap_bit_order) \<sigma>8 :: c_int) \<sigma>8;
          \<sigma>10 = store 4 (img + img_bitmap_pad) pad \<sigma>9;
          \<sigma>11 = store 4 (img + img_depth) depth \<sigma>10;
          \<sigma>12 = store 4 (img + img_bits_per_pixel) bits_per_pixel \<sigma>11;
          bpl = (if bytes_per_line = 0 then c_div (bw_round_up (bits_per_pixel * width) pad) 8
                 else bytes_per_line);
          \<sigma>13 = store 4 (img + img_bytes_per_line) bpl \<sigma>12
      in if visual \<noteq> 0 then
           let \<sigma>a = store 8 (img + img_red_mask) (ld 8 (visual + vis_red_mask) \<sigma>13 :: u64) \<sigma>13;
               \<sigma>b = store 8 (img + img_green_mask) (ld 8 (visual + vis_green_mask) \<sigma>a :: u64) \<sigma>a
           in store 8 (img + img_blue_mask) (ld 8 (visual + vis_blue_mask) \<sigma>b :: u64) \<sigma>b
         else \<sigma>13)"

definition XCreateImage ::
  "image_functions \<Rightarrow> nat \<Rightarrow> nat \<Rightarrow> u32 \<Rightarrow> c_int \<Rightarrow> c_int \<Rightarrow> u64 \<Rightarrow> u32 \<Rightarrow> u32 \<Rightarrow> c_int \<Rightarrow> c_int \<Rightarrow> 'h world \<Rightarrow> nat \<times> 'h world" where
  "XCreateImage F dpy visual depth format offset data width height bitmap_pad bytes_per_line \<sigma> =
     (case calloc 1 XImage_size \<sigma> of (img, \<sigma>1) \<Rightarrow>
        if img = 0 then (0, \<sigma>1)
        else (img, bw_init_image_funcs F img
               (fill_image dpy visual depth format offset data width height bitmap_pad bytes_per_line img \<sigma>1)))"

definition XInitImage :: "image_functions \<Rightarrow> nat \<Rightarrow> 'h world \<Rightarrow> c_int \<times> 'h world" where
  "XInitImage F img \<sigma> = (1, bw_init_image_funcs F img \<sigma>)"

definition bw_destroy_image :: "nat \<Rightarrow> 'h world \<Rightarrow> c_int \<times> 'h world" where
  "bw_destroy_image img \<sigma> =
     (1, if img \<noteq> 0 then free img (free (unat (ld 8 (img + img_data) \<sigma> :: u64)) \<sigma>) else \<sigma>)"

definition XDestroyImage :: "nat \<Rightarrow> 'h world \<Rightarrow> c_int \<times> 'h world" where
  "XDestroyImage img = bw_destroy_image img"

section \<open>Pixels\<close>

text \<open>The guard both pixel routines start with, and the address of a row.\<close>

definition img_fields :: "nat \<Rightarrow> 'h world \<Rightarrow> u64 \<times> c_int \<times> c_int \<times> c_int \<times> c_int" where
  "img_fields img \<sigma> = (ld 8 (img + img_data) \<sigma>, ld 4 (img + img_width) \<sigma>,
     ld 4 (img + img_height) \<sigma>, ld 4 (img + img_bytes_per_line) \<sigma>, ld 4 (img + img_bits_per_pixel) \<sigma>)"

definition outside :: "nat \<Rightarrow> c_int \<Rightarrow> c_int \<Rightarrow> 'h world \<Rightarrow> bool" where
  "outside img x y \<sigma> \<longleftrightarrow>
     (case img_fields img \<sigma> of (data, width, height, bpl, bpp) \<Rightarrow>
        data = 0 \<or> sint x < 0 \<or> sint y < 0 \<or> sint width \<le> sint x \<or> sint height \<le> sint y)"

definition img_row :: "nat \<Rightarrow> c_int \<Rightarrow> 'h world \<Rightarrow> nat" where
  "img_row img y \<sigma> =
     (case img_fields img \<sigma> of (data, width, height, bpl, bpp) \<Rightarrow> unat (data + scast y * scast bpl))"

definition bw_get_pixel :: "nat \<Rightarrow> c_int \<Rightarrow> c_int \<Rightarrow> 'h world \<Rightarrow> u64" where
  "bw_get_pixel img x y \<sigma> =
     (if outside img x y \<sigma> then 0
      else
        let row = img_row img y \<sigma>; i = unat x; bpp = (ld 4 (img + img_bits_per_pixel) \<sigma> :: c_int) in
        if bpp = 32 then ucast (ld 4 (row + i * 4) \<sigma> :: u32)
        else if bpp = 16 then ucast (ld 2 (row + i * 2) \<sigma> :: u16)
        else if bpp = 8 then ucast (mem \<sigma> (row + i))
        else if bpp = 1 then ucast (drop_bit (i mod 8) (mem \<sigma> (row + i div 8)) AND 1)
        else 0)"

definition bw_put_pixel :: "nat \<Rightarrow> c_int \<Rightarrow> c_int \<Rightarrow> u64 \<Rightarrow> 'h world \<Rightarrow> c_int \<times> 'h world" where
  "bw_put_pixel img x y pixel \<sigma> =
     (if outside img x y \<sigma> then (0, \<sigma>)
      else
        let row = img_row img y \<sigma>; i = unat x; bpp = (ld 4 (img + img_bits_per_pixel) \<sigma> :: c_int);
            a = row + i div 8; b = mem \<sigma> a in
        (1, if bpp = 32 then store 4 (row + i * 4) (ucast pixel :: u32) \<sigma>
            else if bpp = 16 then store 2 (row + i * 2) (ucast pixel :: u16) \<sigma>
            else if bpp = 8 then st_bytes (row + i) [ucast pixel] \<sigma>
            else if bpp = 1 then
              (if pixel AND 1 \<noteq> 0 then st_bytes a [b OR push_bit (i mod 8) 1] \<sigma>
               else st_bytes a [b AND NOT (push_bit (i mod 8) 1)] \<sigma>)
            else \<sigma>))"

definition XGetPixel :: "nat \<Rightarrow> c_int \<Rightarrow> c_int \<Rightarrow> 'h world \<Rightarrow> u64" where
  "XGetPixel img x y = bw_get_pixel img x y"
definition XPutPixel :: "nat \<Rightarrow> c_int \<Rightarrow> c_int \<Rightarrow> u64 \<Rightarrow> 'h world \<Rightarrow> c_int \<times> 'h world" where
  "XPutPixel img x y pixel = bw_put_pixel img x y pixel"

text \<open>The loops go row by row; the bounds are read once, the model for images whose data does not overlay
  their own header.\<close>

definition bw_sub_image :: "nat \<Rightarrow> c_int \<Rightarrow> c_int \<Rightarrow> u32 \<Rightarrow> u32 \<Rightarrow> 'h world \<Rightarrow> nat \<times> 'h world" where
  "bw_sub_image img x y width height \<sigma> =
     (case calloc 1 XImage_size \<sigma> of (sub, \<sigma>1) \<Rightarrow>
        if sub = 0 then (0, \<sigma>1)
        else
          let \<sigma>2 = st_bytes sub (rd (mem \<sigma>1) img XImage_size) \<sigma>1;
              \<sigma>3 = store 4 (sub + img_width) width \<sigma>2;
              \<sigma>4 = store 4 (sub + img_height) height \<sigma>3;
              bpl = c_div (bw_round_up (ld 4 (img + img_bits_per_pixel) \<sigma>4 * width)
                            (ld 4 (img + img_bitmap_pad) \<sigma>4)) 8 :: c_int;
              \<sigma>5 = store 4 (sub + img_bytes_per_line) bpl \<sigma>4 in
          case calloc (unat (scast bpl * ucast height + 1 :: u64)) 1 \<sigma>5 of (data, \<sigma>6) \<Rightarrow>
            let \<sigma>7 = store 8 (sub + img_data) (P data) \<sigma>6 in
            if data = 0 then (0, free sub \<sigma>7)
            else (sub, fold (\<lambda>row. fold (\<lambda>column \<sigma>.
                   snd (bw_put_pixel sub (of_nat column) (of_nat row)
                     (bw_get_pixel img (x + of_nat column) (y + of_nat row) \<sigma>) \<sigma>)) [0..<unat width])
                   [0..<unat height] \<sigma>7))"

definition bw_add_pixel :: "nat \<Rightarrow> u64 \<Rightarrow> 'h world \<Rightarrow> c_int \<times> 'h world" where
  "bw_add_pixel img v \<sigma> =
     (let h = nat (sint (ld 4 (img + img_height) \<sigma> :: c_int)); w = nat (sint (ld 4 (img + img_width) \<sigma> :: c_int)) in
      (1, fold (\<lambda>y. fold (\<lambda>x \<sigma>.
            snd (bw_put_pixel img (of_nat x) (of_nat y)
              (bw_get_pixel img (of_nat x) (of_nat y) \<sigma> + v) \<sigma>)) [0..<w]) [0..<h] \<sigma>))"

definition XSubImage :: "nat \<Rightarrow> c_int \<Rightarrow> c_int \<Rightarrow> u32 \<Rightarrow> u32 \<Rightarrow> 'h world \<Rightarrow> nat \<times> 'h world" where
  "XSubImage img x y width height = bw_sub_image img x y width height"
definition XAddPixel :: "nat \<Rightarrow> u64 \<Rightarrow> 'h world \<Rightarrow> c_int \<times> 'h world" where
  "XAddPixel img v = bw_add_pixel img v"


section \<open>Pixels as bytes\<close>

text \<open>What a pixel of a row of \<^verbatim>\<open>B\<close> bits per pixel is, and what writing it does.\<close>

definition pix_get :: "memory \<Rightarrow> nat \<Rightarrow> nat \<Rightarrow> nat \<Rightarrow> u64" where
  "pix_get m row B x =
     (if B = 32 then ucast (le_word (rd m (row + x * 4) 4) :: u32)
      else if B = 16 then ucast (le_word (rd m (row + x * 2) 2) :: u16)
      else if B = 8 then ucast (m (row + x))
      else ucast (drop_bit (x mod 8) (m (row + x div 8)) AND 1))"

definition pix_put :: "nat \<Rightarrow> nat \<Rightarrow> nat \<Rightarrow> u64 \<Rightarrow> memory \<Rightarrow> memory" where
  "pix_put row B x v m =
     (if B = 32 then wr m (row + x * 4) (le_bytes 4 (ucast v :: u32))
      else if B = 16 then wr m (row + x * 2) (le_bytes 2 (ucast v :: u16))
      else if B = 8 then wr m (row + x) [ucast v]
      else wr m (row + x div 8)
        [if v AND 1 \<noteq> 0 then m (row + x div 8) OR push_bit (x mod 8) 1
         else m (row + x div 8) AND NOT (push_bit (x mod 8) 1)])"

definition depth_ok :: "nat \<Rightarrow> bool" where "depth_ok B \<longleftrightarrow> B \<in> {1, 8, 16, 32}"

lemma wr_one [simp]: "wr m a [b] i = (if i = a then b else m i)" by (auto simp: wr_def)

lemma and_1_bit: "(v AND 1 \<noteq> (0 :: 'a::len word)) \<longleftrightarrow> bit v 0"
  by (simp add: and_one_eq odd_iff_mod_2_eq_one [symmetric] bit_0)

lemma pix_get_put_same: "depth_ok B \<Longrightarrow> pix_get (pix_put row B x v m) row B x = take_bit B v"
  unfolding depth_ok_def
proof (elim insertE emptyE)
  assume B: "B = 1"
  show ?thesis
    unfolding B pix_get_def pix_put_def and_1_bit
    by (rule bit_word_eqI) (auto simp: bit_simps less_Suc_eq bit_0)
qed (simp_all add: pix_get_def pix_put_def, (rule bit_word_eqI, auto simp: bit_simps)+)

lemma take_bit_pix_get: "depth_ok B \<Longrightarrow> take_bit B (pix_get m row B x) = pix_get m row B x"
  unfolding depth_ok_def
proof (elim insertE emptyE)
  assume B: "B = 1"
  show ?thesis unfolding B pix_get_def by (cases "bit (m (row + x div 8)) (x mod 8)") (simp_all add: and_one_eq bit_iff_odd_drop_bit mod_2_eq_odd)
qed (unfold pix_get_def, hypsubst, (rule bit_word_eqI, auto simp: bit_simps dest: bit_imp_le_length)+)

lemma pix_put_frame:
  "depth_ok B \<Longrightarrow> (x + 1) * B \<le> 8 * L \<Longrightarrow> i < row \<or> row + L \<le> i \<Longrightarrow> pix_put row B x v m i = m i"
  by (auto simp: depth_ok_def pix_put_def)

lemma pix_get_cong:
  assumes "depth_ok B" "(x + 1) * B \<le> 8 * L" "\<And>i. row \<le> i \<Longrightarrow> i < row + L \<Longrightarrow> m' i = m i"
  shows "pix_get m' row B x = pix_get m row B x"
proof -
  have r: "rd m' a n = rd m a n" if "row \<le> a" "a + n \<le> row + L" for a n
    by (rule nth_equalityI) (use that assms(3) in auto)
  show ?thesis using assms(1,2)
    by (auto simp: depth_ok_def pix_get_def r assms(3))
qed

lemma pix_get_put_same_row:
  assumes "depth_ok B" "x \<noteq> x'"
  shows "pix_get (pix_put row B x v m) row B x' = pix_get m row B x'"
  using assms(1) unfolding depth_ok_def
proof (elim insertE emptyE)
  assume B: "B = 1"
  show ?thesis
  proof (cases "x div 8 = x' div 8")
    case True
    then have ne: "x mod 8 \<noteq> x' mod 8" using assms(2) by (metis div_mult_mod_eq)
    show ?thesis unfolding B pix_get_def pix_put_def and_1_bit
      by (rule bit_word_eqI) (use ne True in \<open>auto simp: bit_simps\<close>)
  qed (simp add: B pix_get_def pix_put_def)
next
  assume B: "B = 32"
  from assms(2) have "row + x' * 4 + 4 \<le> row + x * 4 \<or> row + x * 4 + 4 \<le> row + x' * 4" by linarith
  then show ?thesis unfolding B pix_get_def pix_put_def by (simp add: rd_wr_other)
next
  assume B: "B = 16"
  from assms(2) have "row + x' * 2 + 2 \<le> row + x * 2 \<or> row + x * 2 + 2 \<le> row + x' * 2" by linarith
  then show ?thesis unfolding B pix_get_def pix_put_def by (simp add: rd_wr_other)
qed (use assms(2) in \<open>simp add: pix_get_def pix_put_def\<close>)

lemma pix_get_put_other:
  assumes "depth_ok B" "(x + 1) * B \<le> 8 * L" "(x' + 1) * B \<le> 8 * L" "(x, y) \<noteq> (x', y')"
  shows "pix_get (pix_put (D + y * L) B x v m) (D + y' * L) B x' = pix_get m (D + y' * L) B x'"
proof (cases "y = y'")
  case True
  then show ?thesis using pix_get_put_same_row assms(1,4) by simp
next
  case False
  then have "y' * L + L \<le> y * L \<or> y * L + L \<le> y' * L"
    by (metis add.commute linorder_neqE_nat mult_Suc mult_le_mono1 Suc_leI)
  then show ?thesis
    by (intro pix_get_cong [OF assms(1,3)] pix_put_frame [OF assms(1,2)]) auto
qed

section \<open>A well-formed image\<close>

text \<open>The structure at \<^verbatim>\<open>p\<close> describes \<^verbatim>\<open>H\<close> rows of \<^verbatim>\<open>L\<close> bytes at \<^verbatim>\<open>D\<close>, \<^verbatim>\<open>W\<close> pixels
  of \<^verbatim>\<open>B\<close> bits each, which fit and do not overlay the structure.\<close>

definition img_at :: "nat \<Rightarrow> nat \<Rightarrow> nat \<Rightarrow> nat \<Rightarrow> nat \<Rightarrow> nat \<Rightarrow> 'h world \<Rightarrow> bool" where
  "img_at p D W H L B \<sigma> \<longleftrightarrow>
     img_fields p \<sigma> = (P D, of_nat W, of_nat H, of_nat L, of_nat B) \<and>
     D \<noteq> 0 \<and> W < 2 ^ 31 \<and> H < 2 ^ 31 \<and> L < 2 ^ 31 \<and> depth_ok B \<and> W * B \<le> 8 * L \<and>
     D + H * L \<le> 2 ^ 47 \<and> (p + XImage_size \<le> D \<or> D + H * L \<le> p)"

lemma sint_small [simp]: "n < 2 ^ 31 \<Longrightarrow> sint (of_nat n :: c_int) = int n"
  by (simp add: signed_of_nat signed_take_bit_int_eq_self)


lemma unat_small [simp]: "n < 2 ^ 31 \<Longrightarrow> unat (of_nat n :: c_int) = n"
  by (simp add: unat_of_nat take_bit_nat_eq_self)

lemma len64: "LENGTH(64) = 64" by simp

lemma scast_small: "n < 2 ^ 31 \<Longrightarrow> (scast (of_nat n :: c_int) :: u64) = of_nat n"
  by (metis of_int_of_nat_eq sint_small scast_eq)

lemma img_row_at:
  assumes "img_at p D W H L B \<sigma>" "y < H"
  shows "img_row p (of_nat y) \<sigma> = D + y * L"
proof -
  have yl: "y < 2 ^ 31" "L < 2 ^ 31" using assms by (auto simp: img_at_def)
  have "D + y * L \<le> D + H * L" using assms(2) by simp
  also have "D + H * L \<le> 2 ^ 47" using assms(1) by (simp add: img_at_def)
  also have "(2 :: nat) ^ 47 < 2 ^ 64" by simp
  finally have lt: "D + y * L < 2 ^ 64" .
  have "img_row p (of_nat y) \<sigma> = unat (P D + of_nat y * of_nat L)"
    using assms(1) by (simp add: img_row_def img_at_def scast_small [OF yl(1)] scast_small [OF yl(2)])
  also have "P D + of_nat y * of_nat L = P (D + y * L)" by (simp add: P_def)
  finally show ?thesis using lt by simp
qed

text \<open>The same load, as bytes.\<close>

lemma ld_bytes: "ld 4 (a + b * 4) \<sigma> = le_word (rd (mem \<sigma>) (a + b * 4) 4)"
  "ld 2 (a + b * 2) \<sigma> = le_word (rd (mem \<sigma>) (a + b * 2) 2)"
  by (simp_all add: ld_def)

lemma ld_cong:
  "(\<And>i. a \<le> i \<Longrightarrow> i < a + n \<Longrightarrow> mem \<sigma>' i = mem \<sigma> i) \<Longrightarrow> ld n a \<sigma>' = ld n a \<sigma>"
  unfolding ld_def rd_def by (auto intro!: arg_cong [where f = le_word] map_cong)

lemma inside_at:
  assumes "img_at p D W H L B \<sigma>" "x < W" "y < H"
  shows "\<not> outside p (of_nat x) (of_nat y) \<sigma>"
proof -
  have "P D \<noteq> 0" using assms(1) by (simp add: img_at_def P_eq_0)
  then show ?thesis using assms by (auto simp: outside_def img_at_def)
qed

lemma get_pixel_at:
  assumes "img_at p D W H L B \<sigma>" "x < W" "y < H"
  shows "bw_get_pixel p (of_nat x) (of_nat y) \<sigma> = pix_get (mem \<sigma>) (D + y * L) B x"
proof -
  have f: "(ld 4 (p + img_bits_per_pixel) \<sigma> :: c_int) = of_nat B" "x < 2 ^ 31" "depth_ok B"
    using assms by (auto simp: img_at_def img_fields_def)
  note g = bw_get_pixel_def inside_at [OF assms] img_row_at [OF assms(1,3)] pix_get_def ld_bytes Let_def
  show ?thesis using f(3) unfolding depth_ok_def
    by (elim insertE emptyE) (use f(1,2) in \<open>simp_all add: g\<close>)
qed

lemma put_pixel_at:
  assumes "img_at p D W H L B \<sigma>" "x < W" "y < H"
  shows "bw_put_pixel p (of_nat x) (of_nat y) v \<sigma> = (1, \<sigma>\<lparr>mem := pix_put (D + y * L) B x v (mem \<sigma>)\<rparr>)"
proof -
  have f: "(ld 4 (p + img_bits_per_pixel) \<sigma> :: c_int) = of_nat B" "x < 2 ^ 31" "depth_ok B"
    using assms by (auto simp: img_at_def img_fields_def)
  note g = bw_put_pixel_def inside_at [OF assms] img_row_at [OF assms(1,3)] pix_put_def store_def
    st_bytes_def Let_def
  show ?thesis using f(3) unfolding depth_ok_def
    by (elim insertE emptyE) (use f(1,2) in \<open>simp_all add: g\<close>)
qed

text \<open>Writing a pixel stays inside the data block, so the structure survives.\<close>

lemma put_pixel_frame:
  assumes "img_at p D W H L B \<sigma>" "x < W" "y < H" "i < D \<or> D + H * L \<le> i"
  shows "pix_put (D + y * L) B x v m i = m i"
proof (rule pix_put_frame)
  show "depth_ok B" using assms(1) by (simp add: img_at_def)
  have "(x + 1) * B \<le> W * B" using assms(2) by (intro mult_le_mono1) simp
  then show "(x + 1) * B \<le> 8 * L" using assms(1) by (simp add: img_at_def)
  have "y * L + L \<le> H * L" using assms(3) by (metis add.commute mult_Suc mult_le_mono1 Suc_leI)
  then show "i < D + y * L \<or> D + y * L + L \<le> i" using assms(4) by linarith
qed

lemma img_fields_cong:
  "(\<And>i. p \<le> i \<Longrightarrow> i < p + XImage_size \<Longrightarrow> mem \<sigma>' i = mem \<sigma> i) \<Longrightarrow> img_fields p \<sigma>' = img_fields p \<sigma>"
  unfolding img_fields_def img_offsets by (intro arg_cong2 [where f = Pair] refl ld_cong) auto

lemma img_at_cong:
  assumes "\<And>i. p \<le> i \<Longrightarrow> i < p + XImage_size \<Longrightarrow> mem \<sigma>' i = mem \<sigma> i"
  shows "img_at p D W H L B \<sigma>' = img_at p D W H L B \<sigma>"
proof -
  have "img_fields p \<sigma>' = img_fields p \<sigma>" by (rule img_fields_cong) (rule assms)
  then show ?thesis by (simp add: img_at_def)
qed

lemma img_at_put:
  assumes "img_at p D W H L B \<sigma>" "x < W" "y < H"
  shows "img_at p D W H L B (\<sigma>\<lparr>mem := pix_put (D + y * L) B x v (mem \<sigma>)\<rparr>)"
proof -
  have "p + XImage_size \<le> D \<or> D + H * L \<le> p" using assms(1) by (simp add: img_at_def)
  then have "pix_put (D + y * L) B x v (mem \<sigma>) i = mem \<sigma> i" if "p \<le> i" "i < p + XImage_size" for i
    using that by (intro put_pixel_frame [OF assms]) auto
  then have "img_at p D W H L B (\<sigma>\<lparr>mem := pix_put (D + y * L) B x v (mem \<sigma>)\<rparr>) = img_at p D W H L B \<sigma>"
    by (intro img_at_cong) simp
  then show ?thesis using assms(1) by (rule iffD2)
qed


section \<open>Loops that write every pixel once\<close>

text \<open>A pass over a list of positions that writes at each a value computed from the world.\<close>

definition put_pass :: "nat \<Rightarrow> (nat \<Rightarrow> nat \<Rightarrow> 'h world \<Rightarrow> u64) \<Rightarrow> (nat \<times> nat) list \<Rightarrow> 'h world \<Rightarrow> 'h world" where
  "put_pass p f = fold (\<lambda>(x, y) \<sigma>. snd (bw_put_pixel p (of_nat x) (of_nat y) (f x y \<sigma>) \<sigma>))"

definition positions :: "nat \<Rightarrow> nat \<Rightarrow> (nat \<times> nat) list" where
  "positions w h = concat (map (\<lambda>y. map (\<lambda>x. (x, y)) [0..<w]) [0..<h])"

lemma fold_rows:
  "fold (\<lambda>y. fold (\<lambda>x. g x y) xs) ys \<sigma> =
   fold (\<lambda>(x, y). g x y) (concat (map (\<lambda>y. map (\<lambda>x. (x, y)) xs) ys)) \<sigma>"
  by (induction ys arbitrary: \<sigma>) (simp_all add: fold_map comp_def)

lemma set_positions: "set (positions w h) = {0..<w} \<times> {0..<h}"
  by (auto simp: positions_def)

lemma distinct_positions: "distinct (positions w h)"
  unfolding positions_def by (induction h) (auto simp: distinct_map inj_on_def)

text \<open>What such a pass does, when the value at each position depends only on what the pass has not
  written yet.\<close>

lemma put_pass_result:
  assumes "img_at p D W H L B \<sigma>" "distinct ps" "set ps \<subseteq> {0..<W} \<times> {0..<H}"
    and "\<And>x y \<tau>. (x, y) \<in> set ps \<Longrightarrow> img_at p D W H L B \<tau> \<Longrightarrow>
      (\<And>i. i < D \<or> D + H * L \<le> i \<Longrightarrow> mem \<tau> i = mem \<sigma> i) \<Longrightarrow>
      pix_get (mem \<tau>) (D + y * L) B x = pix_get (mem \<sigma>) (D + y * L) B x \<Longrightarrow> f x y \<tau> = v x y"
  defines "\<sigma>' \<equiv> put_pass p f ps \<sigma>"
  shows "(\<exists>m. \<sigma>' = \<sigma>\<lparr>mem := m\<rparr>) \<and> img_at p D W H L B \<sigma>' \<and>
    (\<forall>i. i < D \<or> D + H * L \<le> i \<longrightarrow> mem \<sigma>' i = mem \<sigma> i) \<and>
    (\<forall>x y. x < W \<longrightarrow> y < H \<longrightarrow> pix_get (mem \<sigma>') (D + y * L) B x =
       (if (x, y) \<in> set ps then take_bit B (v x y) else pix_get (mem \<sigma>) (D + y * L) B x))"
  unfolding \<sigma>'_def using assms(1-4)
proof (induction ps arbitrary: \<sigma>)
  case (Cons q ps)
  obtain x y where q: "q = (x, y)" by (metis surj_pair)
  have xy: "x < W" "y < H" using Cons.prems(3) by (auto simp: q)
  let ?\<tau> = "\<sigma>\<lparr>mem := pix_put (D + y * L) B x (v x y) (mem \<sigma>)\<rparr>"
  have fv: "f x y \<sigma> = v x y" using Cons.prems(1) by (intro Cons.prems(4)) (auto simp: q)
  have step: "put_pass p f (q # ps) \<sigma> = put_pass p f ps ?\<tau>"
    by (simp add: put_pass_def q put_pixel_at [OF Cons.prems(1) xy] fv)
  have at: "img_at p D W H L B ?\<tau>" using img_at_put [OF Cons.prems(1) xy] .
  have out: "mem ?\<tau> i = mem \<sigma> i" if "i < D \<or> D + H * L \<le> i" for i
    using put_pixel_frame [OF Cons.prems(1) xy that] by simp
  have B: "depth_ok B" using Cons.prems(1) by (simp add: img_at_def)
  have fit: "(a + 1) * B \<le> 8 * L" if "a < W" for a
  proof -
    have "(a + 1) * B \<le> W * B" using that by (intro mult_le_mono1) simp
    then show ?thesis using Cons.prems(1) by (simp add: img_at_def)
  qed
  have pix: "pix_get (mem ?\<tau>) (D + b * L) B a =
      (if (a, b) = (x, y) then take_bit B (v x y) else pix_get (mem \<sigma>) (D + b * L) B a)" if "a < W" for a b
    using pix_get_put_same [OF B] pix_get_put_other [OF B fit [OF xy(1)] fit [OF that], of y b] by auto
  have v: "f a b \<tau> = v a b"
    if "(a, b) \<in> set ps" "img_at p D W H L B \<tau>"
      "\<And>i. i < D \<or> D + H * L \<le> i \<Longrightarrow> mem \<tau> i = mem ?\<tau> i"
      "pix_get (mem \<tau>) (D + b * L) B a = pix_get (mem ?\<tau>) (D + b * L) B a" for a b \<tau>
  proof (rule Cons.prems(4))
    have ne: "(a, b) \<noteq> (x, y)" and a: "a < W" using Cons.prems(2,3) that(1) by (auto simp: q)
    show "pix_get (mem \<tau>) (D + b * L) B a = pix_get (mem \<sigma>) (D + b * L) B a"
      using that(4) unfolding pix [OF a] if_not_P [OF ne] .
  qed (use that out in auto)
  have IH: "(\<exists>m. put_pass p f ps ?\<tau> = ?\<tau>\<lparr>mem := m\<rparr>) \<and> img_at p D W H L B (put_pass p f ps ?\<tau>) \<and>
    (\<forall>i. i < D \<or> D + H * L \<le> i \<longrightarrow> mem (put_pass p f ps ?\<tau>) i = mem ?\<tau> i) \<and>
    (\<forall>x y. x < W \<longrightarrow> y < H \<longrightarrow> pix_get (mem (put_pass p f ps ?\<tau>)) (D + y * L) B x =
       (if (x, y) \<in> set ps then take_bit B (v x y) else pix_get (mem ?\<tau>) (D + y * L) B x))"
    using Cons.prems(2,3) by (intro Cons.IH at v) auto
  have notin: "(x, y) \<notin> set ps" using Cons.prems(2) by (simp add: q)
  show ?case
  proof (intro conjI allI impI)
    show "\<exists>m. put_pass p f (q # ps) \<sigma> = \<sigma>\<lparr>mem := m\<rparr>" using IH unfolding step by auto
    show "img_at p D W H L B (put_pass p f (q # ps) \<sigma>)" using IH unfolding step by simp
    show "mem (put_pass p f (q # ps) \<sigma>) i = mem \<sigma> i" if "i < D \<or> D + H * L \<le> i" for i
      using IH out that unfolding step by metis
    show "pix_get (mem (put_pass p f (q # ps) \<sigma>)) (D + b * L) B a =
       (if (a, b) \<in> set (q # ps) then take_bit B (v a b) else pix_get (mem \<sigma>) (D + b * L) B a)"
      if "a < W" "b < H" for a b
    proof -
      have l: "pix_get (mem (put_pass p f ps ?\<tau>)) (D + b * L) B a =
        (if (a, b) \<in> set ps then take_bit B (v a b) else pix_get (mem ?\<tau>) (D + b * L) B a)"
        using IH that by blast
      show ?thesis unfolding step l pix [OF that(1), of b] using notin by (auto simp: q)
    qed
  qed
next
  case Nil
  have "\<exists>m. \<sigma> = \<sigma>\<lparr>mem := m\<rparr>" by (rule exI [of _ "mem \<sigma>"]) simp
  then show ?case using Nil.prems(1) by (simp add: put_pass_def)
qed


section \<open>Sizes\<close>

lemma c_div_nat:
  assumes "a < 2 ^ 31" "b < 2 ^ 31"
  shows "c_div (of_nat a) (of_nat b) = of_nat (a div b)"
proof -
  have "sgn (int b) * (int a div int b) = int (a div b)" by (cases "b = 0") (simp_all add: zdiv_int sgn_if)
  then have "int a sdiv int b = int (a div b)"
    by (cases "a = 0") (simp_all add: signed_divide_int_def sgn_if zdiv_int)
  then show ?thesis using assms by (simp add: c_div_def)
qed

lemma bw_round_up_nat:
  assumes "n + m \<le> 2 ^ 31" "0 < m"
  shows "bw_round_up (of_nat n) (of_nat m) = of_nat ((n + m - 1) div m * m)"
proof (cases "m = 2 ^ 31")
  case True
  then have "n = 0" using assms by simp
  then show ?thesis using True by (simp add: bw_round_up_def)
next
  case False
  then have b: "m < 2 ^ 31" "n + m - 1 < 2 ^ 31" using assms by linarith+
  have "(of_nat n + of_nat m - 1 :: c_int) = of_nat (n + m - 1)" using assms(2) by (simp add: of_nat_diff)
  then have "c_div (of_nat n + of_nat m - 1) (of_nat m) = of_nat ((n + m - 1) div m)"
    using c_div_nat [OF b(2,1)] by simp
  then show ?thesis using b(1) assms(2) by (simp add: bw_round_up_def)
qed

text \<open>The bytes of a row padded to \<^verbatim>\<open>pad\<close> bits hold its pixels.\<close>

definition line_bytes :: "nat \<Rightarrow> nat \<Rightarrow> nat" where
  "line_bytes bits pad = (bits + pad - 1) div pad * pad div 8"

definition pad_ok :: "nat \<Rightarrow> bool" where "pad_ok pad \<longleftrightarrow> pad \<in> {8, 16, 32}"

lemma line_bytes_enough:
  assumes "pad_ok pad"
  shows "bits \<le> 8 * line_bytes bits pad" "8 * line_bytes bits pad \<le> bits + pad"
  using assms unfolding pad_ok_def line_bytes_def by (elim insertE emptyE; simp; linarith)+

lemma line_bytes_code:
  assumes "pad_ok pad" "bits + pad < 2 ^ 31"
  shows "c_div (bw_round_up (of_nat bits) (of_nat pad)) 8 = of_nat (line_bytes bits pad)"
proof -
  let ?r = "(bits + pad - 1) div pad * pad"
  have "?r \<le> bits + pad - 1" by simp
  then have r: "?r < 2 ^ 31" using assms(2) by linarith
  have "0 < pad" using assms(1) by (auto simp: pad_ok_def)
  then have "bw_round_up (of_nat bits) (of_nat pad) = of_nat ?r" using assms(2) by (intro bw_round_up_nat) auto
  then show ?thesis using c_div_nat [OF r, of 8] by (simp add: line_bytes_def)
qed

section \<open>Properties\<close>

text \<open>C7: writing a pixel of a well-formed image, at any of the depths 1, 8, 16 and 32, succeeds; reading it
  back gives the low bits of the value, every other pixel reads as before, and nothing outside the
  image's data block changes.\<close>

theorem XPutPixel_XGetPixel:
  assumes "img_at p D W H L B \<sigma>" "x < W" "y < H" "XPutPixel p (of_nat x) (of_nat y) v \<sigma> = (r, \<sigma>')"
  shows "r = 1 \<and> XGetPixel p (of_nat x) (of_nat y) \<sigma>' = take_bit B v \<and>
    (\<forall>x' y'. x' < W \<and> y' < H \<and> (x', y') \<noteq> (x, y) \<longrightarrow>
       XGetPixel p (of_nat x') (of_nat y') \<sigma>' = XGetPixel p (of_nat x') (of_nat y') \<sigma>) \<and>
    (\<forall>i. i < D \<or> D + H * L \<le> i \<longrightarrow> mem \<sigma>' i = mem \<sigma> i)"
proof -
  have e: "r = 1" "\<sigma>' = \<sigma>\<lparr>mem := pix_put (D + y * L) B x v (mem \<sigma>)\<rparr>"
    using put_pixel_at [OF assms(1-3), of v] assms(4) by (simp_all add: XPutPixel_def)
  have at: "img_at p D W H L B \<sigma>'" unfolding e by (rule img_at_put [OF assms(1-3)])
  have B: "depth_ok B" using assms(1) by (simp add: img_at_def)
  have fit: "(a + 1) * B \<le> 8 * L" if "a < W" for a
  proof -
    have "(a + 1) * B \<le> W * B" using that by (intro mult_le_mono1) simp
    then show ?thesis using assms(1) by (simp add: img_at_def)
  qed
  show ?thesis
  proof (intro conjI allI impI)
    show "r = 1" by (rule e)
    show "XGetPixel p (of_nat x) (of_nat y) \<sigma>' = take_bit B v"
      unfolding XGetPixel_def get_pixel_at [OF at assms(2,3)] by (simp add: e pix_get_put_same [OF B])
    show "XGetPixel p (of_nat x') (of_nat y') \<sigma>' = XGetPixel p (of_nat x') (of_nat y') \<sigma>"
      if "x' < W \<and> y' < H \<and> (x', y') \<noteq> (x, y)" for x' y'
    proof -
      from that have n: "(x, y) \<noteq> (x', y')" "x' < W" "y' < H" by auto
      show ?thesis using pix_get_put_other [OF B fit [OF assms(2)] fit [OF n(2)] n(1)]
        by (simp add: XGetPixel_def get_pixel_at [OF at n(2,3)] get_pixel_at [OF assms(1) n(2,3)])
           (simp add: e)
    qed
    show "mem \<sigma>' i = mem \<sigma> i" if "i < D \<or> D + H * L \<le> i" for i
      using put_pixel_frame [OF assms(1-3) that] by (simp add: e)
  qed
qed

text \<open>Adding to an image adds to every pixel exactly once, modulo the depth, and changes nothing
  outside the data block.\<close>

theorem XAddPixel_result:
  assumes "img_at p D W H L B \<sigma>" "XAddPixel p v \<sigma> = (r, \<sigma>')"
  shows "r = 1 \<and>
    (\<forall>x y. x < W \<and> y < H \<longrightarrow> XGetPixel p (of_nat x) (of_nat y) \<sigma>' =
        take_bit B (XGetPixel p (of_nat x) (of_nat y) \<sigma> + v)) \<and>
    (\<forall>i. i < D \<or> D + H * L \<le> i \<longrightarrow> mem \<sigma>' i = mem \<sigma> i)"
proof -
  let ?f = "\<lambda>x y \<sigma>. bw_get_pixel p (of_nat x) (of_nat y) \<sigma> + v"
  let ?v = "\<lambda>x y. pix_get (mem \<sigma>) (D + y * L) B x + v"
  have wh: "nat (sint (ld 4 (p + img_height) \<sigma> :: c_int)) = H" "nat (sint (ld 4 (p + img_width) \<sigma> :: c_int)) = W"
    using assms(1) by (auto simp: img_at_def img_fields_def)
  have s: "r = 1" "\<sigma>' = put_pass p ?f (positions W H) \<sigma>"
    using assms(2) unfolding XAddPixel_def bw_add_pixel_def wh fold_rows put_pass_def positions_def Let_def
    by simp_all
  have "(\<exists>m. \<sigma>' = \<sigma>\<lparr>mem := m\<rparr>) \<and> img_at p D W H L B \<sigma>' \<and>
    (\<forall>i. i < D \<or> D + H * L \<le> i \<longrightarrow> mem \<sigma>' i = mem \<sigma> i) \<and>
    (\<forall>x y. x < W \<longrightarrow> y < H \<longrightarrow> pix_get (mem \<sigma>') (D + y * L) B x =
       (if (x, y) \<in> set (positions W H) then take_bit B (?v x y) else pix_get (mem \<sigma>) (D + y * L) B x))"
    unfolding s(2)
    by (rule put_pass_result [OF assms(1) distinct_positions])
       (auto simp: set_positions get_pixel_at)
  then show ?thesis using s(1) assms(1) by (auto simp: XGetPixel_def get_pixel_at set_positions)
qed


lemma calloc_result:
  assumes "calloc k n \<sigma> = (p, \<sigma>')" "heap_ok \<sigma>"
  shows "heap_ok \<sigma>'" "bad_free \<sigma>' = bad_free \<sigma>"
    "p = 0 \<longleftrightarrow> alloc_fails (k * n) \<sigma>" "p = 0 \<Longrightarrow> live \<sigma>' = live \<sigma> \<and> mem \<sigma>' = mem \<sigma> \<and> brk \<sigma>' = brk \<sigma>"
    "p \<noteq> 0 \<Longrightarrow> live \<sigma> p = None \<and> live \<sigma>' = (live \<sigma>)(p \<mapsto> k * n) \<and> p = brk \<sigma> \<and> p + k * n < heap_top \<and>
       brk \<sigma>' = p + k * n + 16 \<and> mem \<sigma>' = wr (mem \<sigma>) p (replicate (k * n) 0)"
proof -
  obtain q \<sigma>1 where m: "malloc (k * n) \<sigma> = (q, \<sigma>1)" by (metis surj_pair)
  have c: "p = q" "\<sigma>' = (if q = 0 then \<sigma>1 else st_bytes q (replicate (k * n) 0) \<sigma>1)"
    using assms(1) m by (auto simp: calloc_def split: if_splits)
  show "heap_ok \<sigma>'" using calloc_heap_ok [OF assms(2), of k n] assms(1) by simp
  show "bad_free \<sigma>' = bad_free \<sigma>" using malloc_frameD [OF m] c by simp
  have "brk \<sigma> \<noteq> 0" using assms(2) by (simp add: heap_ok_def)
  then show "p = 0 \<longleftrightarrow> alloc_fails (k * n) \<sigma>" using malloc_null [of "k * n" \<sigma>] m c by simp
  show "p = 0 \<Longrightarrow> live \<sigma>' = live \<sigma> \<and> mem \<sigma>' = mem \<sigma> \<and> brk \<sigma>' = brk \<sigma>"
    using malloc_fail [of "k * n" \<sigma> \<sigma>1] m c assms(2) by simp
  show "p \<noteq> 0 \<Longrightarrow> live \<sigma> p = None \<and> live \<sigma>' = (live \<sigma>)(p \<mapsto> k * n) \<and> p = brk \<sigma> \<and> p + k * n < heap_top \<and>
       brk \<sigma>' = p + k * n + 16 \<and> mem \<sigma>' = wr (mem \<sigma>) p (replicate (k * n) 0)"
    using malloc_fresh [OF assms(2) m] m c by (auto simp: malloc_def st_bytes_def split: if_splits)
qed

lemma mem_store_below: "i < a \<Longrightarrow> mem (store n a v \<sigma>) i = mem \<sigma> i"
  by (simp add: store_def)

lemma fill_image_fields:
  "img_fields q (fill_image dpy visual depth format offset data width height bitmap_pad bytes_per_line q \<sigma>) =
     (data, width, height,
      if bytes_per_line = 0
      then c_div (bw_round_up (depth_bits depth * width) (if bitmap_pad \<noteq> 0 then bitmap_pad else 32)) 8
      else bytes_per_line, depth_bits depth)"
  "live (fill_image dpy visual depth format offset data width height bitmap_pad bytes_per_line q \<sigma>) = live \<sigma>"
  "bad_free (fill_image dpy visual depth format offset data width height bitmap_pad bytes_per_line q \<sigma>) = bad_free \<sigma>"
  "i < q \<Longrightarrow> mem (fill_image dpy visual depth format offset data width height bitmap_pad bytes_per_line q \<sigma>) i = mem \<sigma> i"
  by (cases "visual = 0"; simp add: fill_image_def img_fields_def Let_def ld_st_other img_offsets mem_store_below)+

lemma init_funcs_fields:
  "img_fields q (bw_init_image_funcs F q \<sigma>) = img_fields q \<sigma>"
  "live (bw_init_image_funcs F q \<sigma>) = live \<sigma>"
  "bad_free (bw_init_image_funcs F q \<sigma>) = bad_free \<sigma>"
  "i < q \<Longrightarrow> mem (bw_init_image_funcs F q \<sigma>) i = mem \<sigma> i"
  by (simp_all add: bw_init_image_funcs_def img_fields_def ld_st_other img_offsets mem_store_below)

text \<open>An image created without an explicit row size and with a pad of 8, 16 or 32 bits is well-formed
  over the caller's data block: rows are the pixels' bits padded up. When the allocation fails the
  result is null and no block is left.\<close>

theorem XCreateImage_result:
  assumes H: "heap_ok \<sigma>" and pad: "pad_ok pad"
    and n: "W * unat (depth_bits depth) + pad < 2 ^ 31" "W < 2 ^ 31" "H < 2 ^ 31"
    and L: "L = line_bytes (W * unat (depth_bits depth)) pad"
    and D: "D \<noteq> 0" "D + H * L \<le> brk \<sigma>"
    and call: "XCreateImage F dpy visual depth format offset (P D) (of_nat W) (of_nat H) (of_nat pad) 0 \<sigma> = (img, \<sigma>')"
  shows "if alloc_fails XImage_size \<sigma> then img = 0 \<and> live \<sigma>' = live \<sigma>
    else img \<noteq> 0 \<and> live \<sigma>' = (live \<sigma>)(img \<mapsto> XImage_size) \<and>
      img_at img D W H L (unat (depth_bits depth)) \<sigma>' \<and>
      (\<forall>i < brk \<sigma>. mem \<sigma>' i = mem \<sigma> i)"
proof -
  obtain q \<sigma>1 where c: "calloc 1 XImage_size \<sigma> = (q, \<sigma>1)" by (metis surj_pair)
  note f = calloc_result [OF c H]
  show ?thesis
  proof (cases "q = 0")
    case True
    then show ?thesis using call c f by (simp add: XCreateImage_def)
  next
    case False
    let ?B = "unat (depth_bits depth)"
    have B: "depth_ok ?B" by (simp add: depth_bits_def depth_ok_def)
    have B': "depth_bits depth = of_nat ?B" by simp
    have pad0: "(of_nat pad :: c_int) \<noteq> 0" using pad by (auto simp: pad_ok_def)
    have bpl: "c_div (bw_round_up (depth_bits depth * of_nat W) (of_nat pad)) 8 = of_nat L"
      using line_bytes_code [OF pad n(1)] by (subst B') (simp only: L mult.commute of_nat_mult)
    have "8 * L \<le> W * ?B + pad" unfolding L by (rule line_bytes_enough(2) [OF pad])
    then have Ls: "L < 2 ^ 31" using n(1) by linarith
    have e: "img = q" "\<sigma>' = bw_init_image_funcs F q (fill_image dpy visual depth format offset (P D) (of_nat W)
        (of_nat H) (of_nat pad) 0 q \<sigma>1)"
      using call False unfolding XCreateImage_def c by auto
    have fields: "img_fields q \<sigma>' = (P D, of_nat W, of_nat H, of_nat L, depth_bits depth)"
      unfolding e init_funcs_fields fill_image_fields if_P [OF refl] if_P [OF pad0] bpl by (rule refl)
    have w: "W * ?B \<le> 8 * L" unfolding L by (rule line_bytes_enough(1) [OF pad])
    have q: "D + H * L \<le> q" "q < heap_top" using f(5) False D(2) by auto
    then have "D + H * L \<le> 2 ^ 47" by (simp add: heap_top_def)
    then have at: "img_at q D W H L ?B \<sigma>'"
      using n Ls B D(1) q(1) w fields by (simp add: img_at_def)
    have "mem \<sigma>' i = mem \<sigma> i" if "i < brk \<sigma>" for i
    proof -
      have "i < q" using that f(5) False by simp
      then have "mem \<sigma>' i = mem \<sigma>1 i" unfolding e(2) by (simp only: init_funcs_fields fill_image_fields)
      then show ?thesis using \<open>i < q\<close> f(5) False by simp
    qed
    moreover have "live \<sigma>' = live \<sigma>1" unfolding e(2) by (simp only: init_funcs_fields fill_image_fields)
    ultimately show ?thesis using at f(3,5) False e(1) by simp
  qed
qed


text \<open>C8: cutting a rectangle that lies inside a well-formed image yields a new image of exactly that
  size whose pixels are those of the rectangle, in two fresh blocks, with the source untouched; if
  either allocation fails the result is null and no block is left behind.\<close>

theorem XSubImage_result:
  assumes H0: "heap_ok \<sigma>" and at: "img_at p D W H L B \<sigma>"
    and below: "p + XImage_size \<le> brk \<sigma>" "D + H * L \<le> brk \<sigma>"
    and pad: "ld 4 (p + img_bitmap_pad) \<sigma> = (of_nat pad :: c_int)" "pad_ok pad"
    and rect: "x0 + w \<le> W" "y0 + h \<le> H" and n: "w * B + pad < 2 ^ 31"
    and L': "L' = line_bytes (w * B) pad"
    and call: "XSubImage p (of_nat x0) (of_nat y0) (of_nat w) (of_nat h) \<sigma> = (sub, \<sigma>')"
  shows "(if alloc_fails XImage_size \<sigma> \<or> alloc_fails (L' * h + 1) (snd (calloc 1 XImage_size \<sigma>))
    then sub = 0 \<and> live \<sigma>' = live \<sigma>
    else sub \<noteq> 0 \<and> ( \<exists>D'. live \<sigma>' = (live \<sigma>)(sub \<mapsto> XImage_size, D' \<mapsto> L' * h + 1) \<and>
      live \<sigma> sub = None \<and> live \<sigma> D' = None \<and> sub \<noteq> D' \<and>
      img_at sub D' w h L' B \<sigma>' \<and>
      (\<forall>x y. x < w \<and> y < h \<longrightarrow>
         XGetPixel sub (of_nat x) (of_nat y) \<sigma>' = XGetPixel p (of_nat (x0 + x)) (of_nat (y0 + y)) \<sigma>))) \<and>
    (\<forall>i < brk \<sigma>. mem \<sigma>' i = mem \<sigma> i)"
proof -
  obtain q \<sigma>1 where c1: "calloc 1 XImage_size \<sigma> = (q, \<sigma>1)" by (metis surj_pair)
  note f1 = calloc_result [OF c1 H0]
  have B: "depth_ok B" "W < 2 ^ 31" "H < 2 ^ 31" using at by (simp_all add: img_at_def)
  have wh: "w < 2 ^ 31" "h < 2 ^ 31" using rect B by linarith+
  have fl: "img_fields p \<sigma> = (P D, of_nat W, of_nat H, of_nat L, of_nat B)" using at by (simp add: img_at_def)
  show ?thesis
  proof (cases "q = 0")
    case True
    then show ?thesis using call c1 f1(3,4) by (auto simp: XSubImage_def bw_sub_image_def)
  next
    case False
    have q: "q = brk \<sigma>" "live \<sigma> q = None" "live \<sigma>1 = (live \<sigma>)(q \<mapsto> XImage_size)" "brk \<sigma>1 = q + XImage_size + 16"
      "mem \<sigma>1 = wr (mem \<sigma>) q (replicate XImage_size 0)" using f1(5) False by auto
    define \<sigma>4 where "\<sigma>4 = store 4 (q + img_height) (of_nat h :: c_int) (store 4 (q + img_width) (of_nat w :: c_int)
      (st_bytes q (rd (mem \<sigma>1) p XImage_size) \<sigma>1))"
    define \<sigma>5 where "\<sigma>5 = store 4 (q + img_bytes_per_line) (of_nat L' :: c_int) \<sigma>4"
    have low: "mem \<sigma>5 i = mem \<sigma> i" if "i < q" for i
      using that by (simp add: \<sigma>5_def \<sigma>4_def mem_store_below st_bytes_def q(5))
    have low4: "mem \<sigma>4 i = mem \<sigma> i" if "i < q" for i
      using that by (simp add: \<sigma>4_def mem_store_below st_bytes_def q(5))
    have src: "ld k (p + off) \<sigma>4 = ld k (p + off) \<sigma>" if "off + k \<le> XImage_size" for k off
      by (rule ld_cong) (use low4 that below q(1) in auto)
    have B4: "(ld 4 (p + img_bits_per_pixel) \<sigma> :: c_int) = of_nat B" using fl by (simp add: img_fields_def)
    have bpl: "c_div (bw_round_up (ld 4 (p + img_bits_per_pixel) \<sigma>4 * of_nat w) (ld 4 (p + img_bitmap_pad) \<sigma>4)) 8
        = (of_nat L' :: c_int)"
      using line_bytes_code [OF pad(2) n] by (simp add: src img_offsets B4 [unfolded img_offsets] pad(1) [unfolded img_offsets] L' mult.commute)
    have L's: "8 * L' \<le> w * B + pad" "w * B \<le> 8 * L'" unfolding L' by (rule line_bytes_enough [OF pad(2)])+
    have "L' < 2 ^ 31" using L's(1) n by linarith
    have "L' * h \<le> 2 ^ 31 * 2 ^ 31" using \<open>L' < 2 ^ 31\<close> wh(2) by (intro mult_le_mono) simp_all
    then have small: "L' * h + 1 < 2 ^ 64" by simp
    have size: "unat (scast (of_nat L' :: c_int) * ucast (of_nat h :: c_int) + 1 :: u64) = L' * h + 1"
    proof -
      have "(ucast (of_nat h :: c_int) :: u64) = of_nat h" using wh(2) by (simp add: unsigned_of_nat take_bit_nat_eq_self)
      then have "scast (of_nat L' :: c_int) * ucast (of_nat h :: c_int) + 1 = (of_nat (L' * h + 1) :: u64)"
        by (simp add: scast_small [OF \<open>L' < 2 ^ 31\<close>])
      then show ?thesis using small by (simp only: unat_of_nat take_bit_eq_mod mod_less len64)
    qed
    have ok5: "heap_ok \<sigma>5" using f1(1) by (simp add: \<sigma>5_def \<sigma>4_def)
    obtain D' \<sigma>6 where c2: "calloc (L' * h + 1) 1 \<sigma>5 = (D', \<sigma>6)" by (metis surj_pair)
    note f2 = calloc_result [OF c2 ok5]
    define \<sigma>7 where "\<sigma>7 = store 8 (q + img_data) (P D') \<sigma>6"
    have body: "(sub, \<sigma>') = (if D' = 0 then (0, free q \<sigma>7)
            else (q, put_pass q (\<lambda>column row \<sigma>. bw_get_pixel p (of_nat x0 + of_nat column) (of_nat y0 + of_nat row) \<sigma>)
                   (positions w h) \<sigma>7))"
      using call False
      unfolding XSubImage_def bw_sub_image_def c1 prod.case Let_def \<sigma>4_def [symmetric] bpl \<sigma>5_def [symmetric]
        size c2 \<sigma>7_def [symmetric] fold_rows put_pass_def positions_def unat_small [OF wh(1)] unat_small [OF wh(2)]
      by simp
    have l5: "live \<sigma>5 = (live \<sigma>)(q \<mapsto> XImage_size)" "brk \<sigma>5 = q + XImage_size + 16"
      by (simp_all add: \<sigma>5_def \<sigma>4_def q)
    have "alloc_fails n \<sigma>5 = alloc_fails n \<sigma>1" for n by (simp add: alloc_fails_def \<sigma>5_def \<sigma>4_def)
    then have fails: "alloc_fails XImage_size \<sigma> \<or> alloc_fails (L' * h + 1) (snd (calloc 1 XImage_size \<sigma>)) \<longleftrightarrow> D' = 0"
      using f1(3) f2(3) False c1 by simp
    show ?thesis
    proof (cases "D' = 0")
      case True
      then have "live \<sigma>7 = (live \<sigma>)(q \<mapsto> XImage_size)" "mem \<sigma>6 = mem \<sigma>5" using f2(4) l5 by (simp_all add: \<sigma>7_def)
      then have "live (free q \<sigma>7) = live \<sigma>" using q(2) False by (auto simp: free_def)
      moreover have "mem (free q \<sigma>7) i = mem \<sigma> i" if "i < brk \<sigma>" for i
        using that low \<open>mem \<sigma>6 = mem \<sigma>5\<close> q(1) by (simp add: \<sigma>7_def mem_store_below)
      ultimately show ?thesis unfolding fails using body True by simp
    next
      case D': False
      let ?f = "\<lambda>x y \<sigma>. bw_get_pixel p (of_nat x0 + of_nat x) (of_nat y0 + of_nat y) \<sigma>"
      let ?v = "\<lambda>x y. pix_get (mem \<sigma>) (D + (y0 + y) * L) B (x0 + x)"
      have d: "live \<sigma>5 D' = None" "live \<sigma>6 = (live \<sigma>5)(D' \<mapsto> L' * h + 1)" "D' = q + XImage_size + 16"
        "D' + (L' * h + 1) < heap_top" "mem \<sigma>6 = wr (mem \<sigma>5) D' (replicate (L' * h + 1) 0)"
        using f2(5) D' l5(2) by auto
      have m7: "mem \<sigma>7 i = mem \<sigma> i" if "i < q" for i
        using that d(3) low by (simp add: \<sigma>7_def mem_store_below d(5))
      have ld6: "ld k (q + off) \<sigma>6 = ld k (q + off) \<sigma>5" if "off + k \<le> XImage_size" for k off
        by (rule ld_cong) (use that d(3,5) in auto)
      have bpp: "ld 4 (q + img_bits_per_pixel) \<sigma>5 = (of_nat B :: c_int)"
      proof -
        have "rd (mem \<sigma>1) p XImage_size = rd (mem \<sigma>) p XImage_size"
          unfolding q(5) by (rule rd_wr_other) (use below q(1) in auto)
        then have "ld 4 (q + img_bits_per_pixel) \<sigma>5 = (ld 4 (p + img_bits_per_pixel) \<sigma> :: c_int)"
          by (simp add: \<sigma>5_def \<sigma>4_def ld_st_other ld_st_bytes_inside img_offsets drop_rd take_rd)
             (simp add: ld_def)
        then show ?thesis by (simp add: B4)
      qed
      have "img_fields q \<sigma>7 = (P D', of_nat w, of_nat h, of_nat L', of_nat B)"
        by (simp add: img_fields_def \<sigma>7_def ld_st_other img_offsets ld6 bpp [unfolded img_offsets])
           (simp add: ld6 [of 0 4, simplified img_offsets add_0_right, simplified] \<sigma>5_def \<sigma>4_def ld_st_other img_offsets)
      moreover have "D' + h * L' \<le> 2 ^ 47" using d(4) by (simp add: heap_top_def mult.commute)
      ultimately have at7: "img_at q D' w h L' B \<sigma>7"
        using D' B(1) wh \<open>L' < 2 ^ 31\<close> L's(2) d(3) by (simp add: img_at_def)
      have fv: "?f x y \<tau> = ?v x y"
        if "(x, y) \<in> set (positions w h)" "\<And>i. i < D' \<or> D' + h * L' \<le> i \<Longrightarrow> mem \<tau> i = mem \<sigma>7 i" for x y \<tau>
      proof -
        have m: "mem \<tau> i = mem \<sigma> i" if "i < q" for i using \<open>\<And>i. _ \<Longrightarrow> mem \<tau> i = mem \<sigma>7 i\<close> m7 that d(3) by simp
        have "img_at p D W H L B \<tau> = img_at p D W H L B \<sigma>"
          by (rule img_at_cong) (use m below q(1) in auto)
        then have at\<tau>: "img_at p D W H L B \<tau>" using at by simp
        have xy: "x0 + x < W" "y0 + y < H" using that(1) rect by (auto simp: set_positions)
        have "(x0 + x + 1) * B \<le> W * B" using xy(1) by (intro mult_le_mono1) simp
        also have "W * B \<le> 8 * L" using at by (simp add: img_at_def)
        finally have fit: "(x0 + x + 1) * B \<le> 8 * L" .
        have "(y0 + y) * L + L \<le> H * L" using xy(2) by (metis add.commute mult_Suc mult_le_mono1 Suc_leI)
        then have row: "D + (y0 + y) * L + L \<le> q" using below(2) q(1) by linarith
        have "?f x y \<tau> = pix_get (mem \<tau>) (D + (y0 + y) * L) B (x0 + x)"
          using get_pixel_at [OF at\<tau> xy] by simp
        also have "\<dots> = ?v x y" by (rule pix_get_cong [OF B(1) fit]) (use m row in auto)
        finally show ?thesis .
      qed
      let ?\<sigma>' = "put_pass q ?f (positions w h) \<sigma>7"
      have "(\<exists>m. ?\<sigma>' = \<sigma>7\<lparr>mem := m\<rparr>) \<and> img_at q D' w h L' B ?\<sigma>' \<and>
        (\<forall>i. i < D' \<or> D' + h * L' \<le> i \<longrightarrow> mem ?\<sigma>' i = mem \<sigma>7 i) \<and>
        (\<forall>x y. x < w \<longrightarrow> y < h \<longrightarrow> pix_get (mem ?\<sigma>') (D' + y * L') B x =
          (if (x, y) \<in> set (positions w h) then take_bit B (?v x y) else pix_get (mem \<sigma>7) (D' + y * L') B x))"
        by (rule put_pass_result [OF at7 distinct_positions]) (auto simp: set_positions intro!: fv)
      moreover have "sub = q" "\<sigma>' = ?\<sigma>'" using body D' by simp_all
      ultimately have r: "\<exists>m. \<sigma>' = \<sigma>7\<lparr>mem := m\<rparr>" "img_at q D' w h L' B \<sigma>'"
        "\<And>i. i < D' \<Longrightarrow> mem \<sigma>' i = mem \<sigma>7 i"
        "\<And>x y. x < w \<Longrightarrow> y < h \<Longrightarrow> pix_get (mem \<sigma>') (D' + y * L') B x = take_bit B (?v x y)"
        and sub: "sub = q" by (auto simp: set_positions)
      have "live \<sigma>' = (live \<sigma>)(q \<mapsto> XImage_size, D' \<mapsto> L' * h + 1)"
        using r(1) d(2) l5(1) by (auto simp: \<sigma>7_def)
      moreover have "live \<sigma> D' = None" "q \<noteq> D'" using d(1) l5(1) d(3) by (auto simp: img_offsets)
      moreover have "XGetPixel q (of_nat x) (of_nat y) \<sigma>' = XGetPixel p (of_nat (x0 + x)) (of_nat (y0 + y)) \<sigma>"
        if "x < w \<and> y < h" for x y
      proof -
        have xy: "x0 + x < W" "y0 + y < H" using that rect by auto
        have "XGetPixel q (of_nat x) (of_nat y) \<sigma>' = take_bit B (?v x y)"
          unfolding XGetPixel_def using get_pixel_at [OF r(2)] r(4) that by simp
        also have "\<dots> = ?v x y" by (rule take_bit_pix_get [OF B(1)])
        also have "\<dots> = XGetPixel p (of_nat (x0 + x)) (of_nat (y0 + y)) \<sigma>"
          unfolding XGetPixel_def using get_pixel_at [OF at xy] by simp
        finally show ?thesis .
      qed
      moreover have "mem \<sigma>' i = mem \<sigma> i" if "i < brk \<sigma>" for i
        using r(3) m7 that q(1) d(3) by simp
      ultimately show ?thesis unfolding fails if_not_P [OF D'] using r(2) q(2) False sub by blast
    qed
  qed
qed


section \<open>A concrete image\<close>

text \<open>Three by two pixels of eight bits, in a process whose next allocation succeeds and the one after fails.\<close>

definition image_functions0 :: image_functions where
  "image_functions0 = \<lparr>fn_create_image = 1, fn_destroy_image = 2, fn_get_pixel = 3, fn_put_pixel = 4, fn_sub_image = 5, fn_add_pixel = 6\<rparr>"

definition image_world :: "unit world" where
  "image_world = store 8 (8192 + img_data) (P 12288) (store 4 (8192 + img_bits_per_pixel) (8 :: c_int)
     (store 4 (8192 + img_bytes_per_line) (4 :: c_int) (store 4 (8192 + img_bitmap_pad) (32 :: c_int)
     (store 4 (8192 + img_height) (2 :: c_int) (store 4 (8192 + img_width) (3 :: c_int)
       (world0\<lparr>brk := 16384, oom := []\<rparr>))))))"

lemma image_world_at: "img_at 8192 12288 3 2 4 8 image_world"
  "heap_ok image_world" "ld 4 (8192 + img_bitmap_pad) image_world = (32 :: c_int)" "brk image_world = 16384"
  by (simp_all add: img_at_def img_fields_def image_world_def img_offsets ld_st_other depth_ok_def
      heap_ok_def world0_def heap_top_def)

lemma XPutPixel_XGetPixel_witness:
  "XGetPixel 8192 2 1 (snd (XPutPixel 8192 2 1 0x1FF image_world)) = 0xFF"
  using XPutPixel_XGetPixel [OF image_world_at(1) _ _ surjective_pairing, where x = 2 and y = 1 and v = "0x1FF"]
  by simp

lemma XAddPixel_result_witness:
  "XGetPixel 8192 2 1 (snd (XAddPixel 8192 7 image_world)) =
     take_bit 8 (XGetPixel 8192 2 1 image_world + 7)"
  using XAddPixel_result [OF image_world_at(1) surjective_pairing, where v = 7, THEN conjunct2, THEN conjunct1,
      rule_format, of 2 1] by simp

lemma XCreateImage_result_witness:
  "img_at (fst (XCreateImage image_functions0 4096 0 24 2 0 (P 8192) 3 2 32 0 image_world)) 8192 3 2 12 32
     (snd (XCreateImage image_functions0 4096 0 24 2 0 (P 8192) 3 2 32 0 image_world))"
proof -
  have "\<not> alloc_fails XImage_size image_world"
    by (simp add: alloc_fails_def image_world_def world0_def XImage_size_def heap_top_def)
  then show ?thesis
    using XCreateImage_result [OF image_world_at(2) _ _ _ _ refl _ _ surjective_pairing, where pad = 32 and W = 3 and H = 2 and D = 8192
        and F = image_functions0 and dpy = 4096 and visual = 0 and depth = 24 and format = 2 and offset = 0]
    by (simp add: pad_ok_def depth_bits_def line_bytes_def image_world_at(4))
qed

lemma XSubImage_result_witness:
  "XGetPixel (fst (XSubImage 8192 1 0 2 2 image_world)) 1 1 (snd (XSubImage 8192 1 0 2 2 image_world)) =
     XGetPixel 8192 2 1 image_world"
proof -
  have "\<not> alloc_fails XImage_size image_world"
    "\<not> alloc_fails 9 (snd (calloc 1 XImage_size image_world))"
    by (simp_all add: alloc_fails_def image_world_def world0_def XImage_size_def heap_top_def calloc_def malloc_def)
  then have "\<forall>x y. x < 2 \<and> y < 2 \<longrightarrow>
      XGetPixel (fst (XSubImage 8192 1 0 2 2 image_world)) (of_nat x) (of_nat y) (snd (XSubImage 8192 1 0 2 2 image_world)) =
      XGetPixel 8192 (of_nat (1 + x)) (of_nat (0 + y)) image_world"
    using XSubImage_result [OF image_world_at(2,1) _ _ _ _ _ _ _ refl surjective_pairing, where ?x0.0 = 1 and ?y0.0 = 0
        and w = 2 and h = 2 and pad = 32]
    by (auto simp: pad_ok_def line_bytes_def image_world_at(3,4) XImage_size_def)
  from this [rule_format, of 1 1] show ?thesis by simp
qed

end
