(* ===== verification/X11Events.thy ===== *)
theory X11Events
  imports X11Display
begin

text \<open>
  The guest's side of the event queue (\<^verbatim>\<open>tools/x11-64/X11.c\<close>, section Events): the queue lives
  in the host; the shim scans it under the host's lock, runs a predicate on a copy of each event,
  removes the first that matches and always gives the lock back.
\<close>

section \<open>Event masks\<close>

text \<open>The event types of \<^verbatim>\<open>X.h\<close>.\<close>

definition KeyPress :: c_int where "KeyPress = 2"
definition KeyRelease :: c_int where "KeyRelease = 3"
definition ButtonPress :: c_int where "ButtonPress = 4"
definition ButtonRelease :: c_int where "ButtonRelease = 5"
definition MotionNotify :: c_int where "MotionNotify = 6"
definition EnterNotify :: c_int where "EnterNotify = 7"
definition LeaveNotify :: c_int where "LeaveNotify = 8"
definition FocusIn :: c_int where "FocusIn = 9"
definition FocusOut :: c_int where "FocusOut = 10"
definition KeymapNotify :: c_int where "KeymapNotify = 11"
definition Expose :: c_int where "Expose = 12"
definition GraphicsExpose :: c_int where "GraphicsExpose = 13"
definition NoExpose :: c_int where "NoExpose = 14"
definition VisibilityNotify :: c_int where "VisibilityNotify = 15"
definition CreateNotify :: c_int where "CreateNotify = 16"
definition DestroyNotify :: c_int where "DestroyNotify = 17"
definition UnmapNotify :: c_int where "UnmapNotify = 18"
definition MapNotify :: c_int where "MapNotify = 19"
definition MapRequest :: c_int where "MapRequest = 20"
definition ReparentNotify :: c_int where "ReparentNotify = 21"
definition ConfigureNotify :: c_int where "ConfigureNotify = 22"
definition ConfigureRequest :: c_int where "ConfigureRequest = 23"
definition GravityNotify :: c_int where "GravityNotify = 24"
definition ResizeRequest :: c_int where "ResizeRequest = 25"
definition CirculateNotify :: c_int where "CirculateNotify = 26"
definition CirculateRequest :: c_int where "CirculateRequest = 27"
definition PropertyNotify :: c_int where "PropertyNotify = 28"
definition SelectionClear :: c_int where "SelectionClear = 29"
definition SelectionRequest :: c_int where "SelectionRequest = 30"
definition SelectionNotify :: c_int where "SelectionNotify = 31"
definition ColormapNotify :: c_int where "ColormapNotify = 32"
definition ClientMessage :: c_int where "ClientMessage = 33"
definition MappingNotify :: c_int where "MappingNotify = 34"
definition GenericEvent :: c_int where "GenericEvent = 35"

lemmas event_type_defs = KeyPress_def KeyRelease_def ButtonPress_def ButtonRelease_def MotionNotify_def
  EnterNotify_def LeaveNotify_def FocusIn_def FocusOut_def KeymapNotify_def Expose_def GraphicsExpose_def
  NoExpose_def VisibilityNotify_def CreateNotify_def DestroyNotify_def UnmapNotify_def MapNotify_def
  MapRequest_def ReparentNotify_def ConfigureNotify_def ConfigureRequest_def GravityNotify_def
  ResizeRequest_def CirculateNotify_def CirculateRequest_def PropertyNotify_def SelectionClear_def
  SelectionRequest_def SelectionNotify_def ColormapNotify_def ClientMessage_def MappingNotify_def
  GenericEvent_def

text \<open>The input masks, by bit.\<close>

definition KeyPressMask :: u64 where "KeyPressMask = 0x1"
definition KeyReleaseMask :: u64 where "KeyReleaseMask = 0x2"
definition ButtonPressMask :: u64 where "ButtonPressMask = 0x4"
definition ButtonReleaseMask :: u64 where "ButtonReleaseMask = 0x8"
definition EnterWindowMask :: u64 where "EnterWindowMask = 0x10"
definition LeaveWindowMask :: u64 where "LeaveWindowMask = 0x20"
definition PointerMotionMask :: u64 where "PointerMotionMask = 0x40"
definition PointerMotionHintMask :: u64 where "PointerMotionHintMask = 0x80"
definition Button1MotionMask :: u64 where "Button1MotionMask = 0x100"
definition Button2MotionMask :: u64 where "Button2MotionMask = 0x200"
definition Button3MotionMask :: u64 where "Button3MotionMask = 0x400"
definition Button4MotionMask :: u64 where "Button4MotionMask = 0x800"
definition Button5MotionMask :: u64 where "Button5MotionMask = 0x1000"
definition ButtonMotionMask :: u64 where "ButtonMotionMask = 0x2000"
definition KeymapStateMask :: u64 where "KeymapStateMask = 0x4000"
definition ExposureMask :: u64 where "ExposureMask = 0x8000"
definition VisibilityChangeMask :: u64 where "VisibilityChangeMask = 0x10000"
definition StructureNotifyMask :: u64 where "StructureNotifyMask = 0x20000"
definition ResizeRedirectMask :: u64 where "ResizeRedirectMask = 0x40000"
definition SubstructureNotifyMask :: u64 where "SubstructureNotifyMask = 0x80000"
definition SubstructureRedirectMask :: u64 where "SubstructureRedirectMask = 0x100000"
definition FocusChangeMask :: u64 where "FocusChangeMask = 0x200000"
definition PropertyChangeMask :: u64 where "PropertyChangeMask = 0x400000"
definition ColormapChangeMask :: u64 where "ColormapChangeMask = 0x800000"

lemmas event_mask_defs = KeyPressMask_def KeyReleaseMask_def ButtonPressMask_def ButtonReleaseMask_def
  EnterWindowMask_def LeaveWindowMask_def PointerMotionMask_def PointerMotionHintMask_def
  Button1MotionMask_def Button2MotionMask_def Button3MotionMask_def Button4MotionMask_def
  Button5MotionMask_def ButtonMotionMask_def KeymapStateMask_def ExposureMask_def
  VisibilityChangeMask_def StructureNotifyMask_def ResizeRedirectMask_def SubstructureNotifyMask_def
  SubstructureRedirectMask_def FocusChangeMask_def PropertyChangeMask_def ColormapChangeMask_def

definition bw_event_mask_for_type :: "c_int \<Rightarrow> u64" where
  "bw_event_mask_for_type type =
     (if type = KeyPress then KeyPressMask
      else if type = KeyRelease then KeyReleaseMask
      else if type = ButtonPress then ButtonPressMask
      else if type = ButtonRelease then ButtonReleaseMask
      else if type = MotionNotify then
        PointerMotionMask OR PointerMotionHintMask OR ButtonMotionMask OR Button1MotionMask OR
        Button2MotionMask OR Button3MotionMask OR Button4MotionMask OR Button5MotionMask
      else if type = EnterNotify then EnterWindowMask
      else if type = LeaveNotify then LeaveWindowMask
      else if type = FocusIn \<or> type = FocusOut then FocusChangeMask
      else if type = KeymapNotify then KeymapStateMask
      else if type = Expose \<or> type = GraphicsExpose \<or> type = NoExpose then ExposureMask
      else if type = VisibilityNotify then VisibilityChangeMask
      else if type = CreateNotify then SubstructureNotifyMask
      else if type = DestroyNotify \<or> type = UnmapNotify \<or> type = MapNotify \<or> type = ReparentNotify \<or>
              type = ConfigureNotify \<or> type = GravityNotify \<or> type = CirculateNotify
        then StructureNotifyMask OR SubstructureNotifyMask
      else if type = MapRequest \<or> type = ConfigureRequest \<or> type = CirculateRequest
        then SubstructureRedirectMask
      else if type = ResizeRequest then ResizeRedirectMask
      else if type = PropertyNotify then PropertyChangeMask
      else if type = ColormapNotify then ColormapChangeMask
      else 0)"

section \<open>Scanning\<close>

definition ev_type :: "nat \<Rightarrow> 'h world \<Rightarrow> c_int" where "ev_type e \<sigma> = ld 4 e \<sigma>"
definition ev_window :: "nat \<Rightarrow> 'h world \<Rightarrow> u64" where "ev_window e \<sigma> = ld 8 (e + 32) \<sigma>"

text \<open>A predicate gets the address of the event copy; the application's may have effects.\<close>

type_synonym 'h event_predicate = "nat \<Rightarrow> 'h world \<Rightarrow> bool \<times> 'h world"

text \<open>One turn of the loop: \<^verbatim>\<open>None\<close> to go on, \<^verbatim>\<open>Some False\<close> when the host has no such
  event (\<^verbatim>\<open>break\<close>), \<^verbatim>\<open>Some True\<close> when the event matched and was taken.\<close>

definition scan_one ::
  "'h syscall \<Rightarrow> nat \<Rightarrow> nat \<Rightarrow> 'h event_predicate \<Rightarrow> nat \<Rightarrow> 'h world \<Rightarrow> bool option \<times> 'h world" where
  "scan_one sys dpy event_return predicate i =
     with_bytes (replicate XEvent_size 0) (\<lambda>event \<sigma>.
       case BW sys OP_GET_EVENT [P dpy, of_nat i, P event] \<sigma> of (r, \<sigma>1) \<Rightarrow>
         if r \<noteq> 1 then (Some False, \<sigma>1)
         else case predicate event \<sigma>1 of (hit, \<sigma>2) \<Rightarrow>
           if \<not> hit then (None, \<sigma>2)
           else
             let \<sigma>3 = st_bytes event_return (rd (mem \<sigma>2) event XEvent_size) \<sigma>2;
                 \<sigma>4 = snd (BW sys OP_REMOVE_EVENT [P dpy, of_nat i] \<sigma>3)
             in (Some True, \<sigma>4))"

text \<open>The loop over the queue positions that are left; both ways out unlock.\<close>

primrec scan_loop ::
  "'h syscall \<Rightarrow> nat \<Rightarrow> nat \<Rightarrow> 'h event_predicate \<Rightarrow> nat \<Rightarrow> nat \<Rightarrow> 'h world \<Rightarrow> bool \<times> 'h world" where
  "scan_loop sys dpy event_return predicate i 0 \<sigma> =
     (False, snd (BW sys OP_UNLOCK_EVENTS [P dpy] \<sigma>))"
| "scan_loop sys dpy event_return predicate i (Suc n) \<sigma> =
     (case scan_one sys dpy event_return predicate i \<sigma> of
        (None, \<sigma>1) \<Rightarrow> scan_loop sys dpy event_return predicate (Suc i) n \<sigma>1
      | (Some found, \<sigma>1) \<Rightarrow> (found, snd (BW sys OP_UNLOCK_EVENTS [P dpy] \<sigma>1)))"

definition bw_scan_events ::
  "'h syscall \<Rightarrow> nat \<Rightarrow> nat \<Rightarrow> 'h event_predicate \<Rightarrow> 'h world \<Rightarrow> bool \<times> 'h world" where
  "bw_scan_events sys dpy event_return predicate \<sigma> =
     (case BW sys OP_LOCK_EVENTS [P dpy] \<sigma> of (count, \<sigma>1) \<Rightarrow>
        if sint count < 0 then (False, \<sigma>1)
        else scan_loop sys dpy event_return predicate 0 (nat (sint count)) \<sigma>1)"

section \<open>Predicates\<close>

definition bw_any_event :: "'h event_predicate" where
  "bw_any_event event \<sigma> = (True, \<sigma>)"

record bw_window_mask =
  f_window :: u64
  f_mask :: u64
  f_type :: c_int
  f_match_window :: bool
  f_match_type :: bool

definition bw_window_mask_predicate :: "bw_window_mask \<Rightarrow> 'h event_predicate" where
  "bw_window_mask_predicate f event \<sigma> =
     ((if f_match_window f \<and> ev_window event \<sigma> \<noteq> f_window f then False
       else if f_match_type f then ev_type event \<sigma> = f_type f
       else bw_event_mask_for_type (ev_type event \<sigma>) AND f_mask f \<noteq> 0), \<sigma>)"

section \<open>The Xlib entry points\<close>

text \<open>\<^verbatim>\<open>bw_wait_for_events\<close> polls the connection for at most 50 ms.  While the process sleeps the
  rest of the system moves on; the parameter is what that does to the world.\<close>

type_synonym 'h waiting = "nat \<Rightarrow> 'h world \<Rightarrow> 'h world"

definition bw_wait_for_events :: "'h waiting \<Rightarrow> nat \<Rightarrow> 'h world \<Rightarrow> 'h world" where
  "bw_wait_for_events poll dpy \<sigma> = poll (unat (XConnectionNumber dpy \<sigma>)) \<sigma>"

definition XCheckIfEvent ::
  "'h syscall \<Rightarrow> nat \<Rightarrow> nat \<Rightarrow> 'h event_predicate \<Rightarrow> 'h world \<Rightarrow> bool \<times> 'h world" where
  "XCheckIfEvent sys dpy event_return predicate = bw_scan_events sys dpy event_return predicate"

text \<open>The waiting loops may run forever; not returning is \<^verbatim>\<open>None\<close>.\<close>

partial_function (option) wait_loop ::
  "'h waiting \<Rightarrow> nat \<Rightarrow> ('h world \<Rightarrow> bool \<times> 'h world) \<Rightarrow> 'h world \<Rightarrow> 'h world option" where
  "wait_loop poll dpy scan \<sigma> =
     (case scan \<sigma> of (found, \<sigma>1) \<Rightarrow>
        if found then Some \<sigma>1 else wait_loop poll dpy scan (bw_wait_for_events poll dpy \<sigma>1))"

definition XIfEvent ::
  "'h syscall \<Rightarrow> 'h waiting \<Rightarrow> nat \<Rightarrow> nat \<Rightarrow> 'h event_predicate \<Rightarrow> 'h world \<Rightarrow> (c_int \<times> 'h world) option" where
  "XIfEvent sys poll dpy event_return predicate \<sigma> =
     map_option (\<lambda>\<sigma>'. (0, \<sigma>')) (wait_loop poll dpy (bw_scan_events sys dpy event_return predicate) \<sigma>)"

definition XNextEvent ::
  "'h syscall \<Rightarrow> 'h waiting \<Rightarrow> nat \<Rightarrow> nat \<Rightarrow> 'h world \<Rightarrow> (c_int \<times> 'h world) option" where
  "XNextEvent sys poll dpy event_return = XIfEvent sys poll dpy event_return bw_any_event"

definition XPending :: "'h syscall \<Rightarrow> nat \<Rightarrow> 'h world \<Rightarrow> c_int \<times> 'h world" where
  "XPending sys dpy \<sigma> =
     (case BW sys OP_LOCK_EVENTS [P dpy] \<sigma> of (count, \<sigma>1) \<Rightarrow>
        case BW sys OP_UNLOCK_EVENTS [P dpy] \<sigma>1 of (_, \<sigma>2) \<Rightarrow>
          (if 0 < sint count then to_int count else 0, \<sigma>2))"

definition XEventsQueued :: "'h syscall \<Rightarrow> nat \<Rightarrow> c_int \<Rightarrow> 'h world \<Rightarrow> c_int \<times> 'h world" where
  "XEventsQueued sys dpy mode = XPending sys dpy"

definition window_filter :: "u64 \<Rightarrow> u64 \<Rightarrow> bw_window_mask" where
  "window_filter w m = \<lparr>f_window = w, f_mask = m, f_type = 0, f_match_window = True, f_match_type = False\<rparr>"
definition mask_filter :: "u64 \<Rightarrow> bw_window_mask" where
  "mask_filter m = \<lparr>f_window = 0, f_mask = m, f_type = 0, f_match_window = False, f_match_type = False\<rparr>"
definition type_filter :: "c_int \<Rightarrow> bw_window_mask" where
  "type_filter t = \<lparr>f_window = 0, f_mask = 0, f_type = t, f_match_window = False, f_match_type = True\<rparr>"

definition XWindowEvent ::
  "'h syscall \<Rightarrow> 'h waiting \<Rightarrow> nat \<Rightarrow> u64 \<Rightarrow> u64 \<Rightarrow> nat \<Rightarrow> 'h world \<Rightarrow> (c_int \<times> 'h world) option" where
  "XWindowEvent sys poll dpy w event_mask event_return \<sigma> =
     map_option (\<lambda>\<sigma>'. (0, \<sigma>'))
       (wait_loop poll dpy (bw_scan_events sys dpy event_return (bw_window_mask_predicate (window_filter w event_mask))) \<sigma>)"

definition XCheckWindowEvent :: "'h syscall \<Rightarrow> nat \<Rightarrow> u64 \<Rightarrow> u64 \<Rightarrow> nat \<Rightarrow> 'h world \<Rightarrow> bool \<times> 'h world" where
  "XCheckWindowEvent sys dpy w event_mask event_return =
     bw_scan_events sys dpy event_return (bw_window_mask_predicate (window_filter w event_mask))"

definition XCheckMaskEvent :: "'h syscall \<Rightarrow> nat \<Rightarrow> u64 \<Rightarrow> nat \<Rightarrow> 'h world \<Rightarrow> bool \<times> 'h world" where
  "XCheckMaskEvent sys dpy event_mask event_return =
     bw_scan_events sys dpy event_return (bw_window_mask_predicate (mask_filter event_mask))"

definition XMaskEvent ::
  "'h syscall \<Rightarrow> 'h waiting \<Rightarrow> nat \<Rightarrow> u64 \<Rightarrow> nat \<Rightarrow> 'h world \<Rightarrow> (c_int \<times> 'h world) option" where
  "XMaskEvent sys poll dpy event_mask event_return \<sigma> =
     map_option (\<lambda>\<sigma>'. (0, \<sigma>')) (wait_loop poll dpy (XCheckMaskEvent sys dpy event_mask event_return) \<sigma>)"

definition XCheckTypedEvent :: "'h syscall \<Rightarrow> nat \<Rightarrow> c_int \<Rightarrow> nat \<Rightarrow> 'h world \<Rightarrow> bool \<times> 'h world" where
  "XCheckTypedEvent sys dpy event_type event_return =
     bw_scan_events sys dpy event_return (bw_window_mask_predicate (type_filter event_type))"

definition XCheckTypedWindowEvent :: "'h syscall \<Rightarrow> nat \<Rightarrow> u64 \<Rightarrow> c_int \<Rightarrow> nat \<Rightarrow> 'h world \<Rightarrow> c_int \<times> 'h world" where
  "XCheckTypedWindowEvent sys dpy w event_type event_return =
     fwd_true sys OP_CHECK_TYPED_WINDOW_EVENT [P dpy, w, A_int event_type, P event_return]"

definition XFilterEvent :: bool where "XFilterEvent = False"

definition XSendEvent :: "'h syscall \<Rightarrow> nat \<Rightarrow> u64 \<Rightarrow> c_int \<Rightarrow> u64 \<Rightarrow> nat \<Rightarrow> 'h world \<Rightarrow> c_int \<times> 'h world" where
  "XSendEvent sys dpy w propagate event_mask event_send =
     fwd_true sys OP_SEND_EVENT [P dpy, w, A_int propagate, event_mask, P event_send]"

definition XPutBackEvent :: "'h syscall \<Rightarrow> nat \<Rightarrow> nat \<Rightarrow> 'h world \<Rightarrow> c_int \<times> 'h world" where
  "XPutBackEvent sys dpy event = fwd_int sys OP_PUT_BACK_EVENT [P dpy, P event]"

definition XGetEventData :: bool where "XGetEventData = False"

section \<open>The contract of the event operations\<close>

text \<open>Memory below the heap's top and from a stack pointer up is as it was.\<close>

definition quiet :: "nat \<Rightarrow> memory \<Rightarrow> memory \<Rightarrow> bool" where
  "quiet p m m' \<longleftrightarrow> (\<forall>i. i < heap_top \<or> p \<le> i \<longrightarrow> m' i = m i)"

lemma quiet_refl [simp]: "quiet p m m" by (simp add: quiet_def)

lemma quiet_trans: "quiet p m m' \<Longrightarrow> quiet p m' m'' \<Longrightarrow> quiet p m m''" by (simp add: quiet_def)

lemma quiet_mono: "quiet p m m' \<Longrightarrow> p \<le> q \<Longrightarrow> quiet q m m'" by (auto simp: quiet_def)

text \<open>
  What the scanning functions rely on. \<^verbatim>\<open>queue\<close> is the events of the display as the guest sees
  them, \<^verbatim>\<open>own\<close> the addresses whose contents the host trusts (they lie in the heap),
  \<^verbatim>\<open>ready\<close> that the display is one the host knows. Every operation keeps the guest's memory
  outside the unused stack as it was, apart from the buffer it fills.
\<close>

locale event_server =
  fixes sys :: "'h syscall" and dpy :: nat and own :: "nat set"
    and ready :: "memory \<Rightarrow> 'h \<Rightarrow> bool" and queue :: "'h \<Rightarrow> u8 list list" and locked :: "'h \<Rightarrow> bool"
  assumes own_heap: "ready m h \<Longrightarrow> i \<in> own \<Longrightarrow> i < heap_top"
    and ready_own: "ready m h \<Longrightarrow> (\<And>i. i \<in> own \<Longrightarrow> m' i = m i) \<Longrightarrow> ready m' h"
    and event_bytes: "ready m h \<Longrightarrow> e \<in> set (queue h) \<Longrightarrow> length e = XEvent_size"
    and queue_length: "ready m h \<Longrightarrow> length (queue h) < 2 ^ 31"
    and lock: "ready (mem \<sigma>) (server \<sigma>) \<Longrightarrow> stack_ok \<sigma> \<Longrightarrow> \<not> locked (server \<sigma>) \<Longrightarrow>
      \<exists>m h. BW sys OP_LOCK_EVENTS [P dpy] \<sigma> = (of_nat (length (queue (server \<sigma>))), \<sigma>\<lparr>mem := m, server := h\<rparr>) \<and>
        quiet (sp \<sigma>) (mem \<sigma>) m \<and> ready m h \<and> locked h \<and> queue h = queue (server \<sigma>)"
    and get: "ready (mem \<sigma>) (server \<sigma>) \<Longrightarrow> stack_ok \<sigma> \<Longrightarrow> locked (server \<sigma>) \<Longrightarrow>
      k < length (queue (server \<sigma>)) \<Longrightarrow> sp \<sigma> \<le> p \<Longrightarrow> p + XEvent_size \<le> stack_top \<Longrightarrow>
      \<exists>m. BW sys OP_GET_EVENT [P dpy, of_nat k, P p] \<sigma> = (1, \<sigma>\<lparr>mem := m\<rparr>) \<and>
        rd m p XEvent_size = queue (server \<sigma>) ! k \<and>
        (\<forall>i. i < heap_top \<or> sp \<sigma> \<le> i \<longrightarrow> i < p \<or> p + XEvent_size \<le> i \<longrightarrow> m i = mem \<sigma> i)"
    and remove: "ready (mem \<sigma>) (server \<sigma>) \<Longrightarrow> stack_ok \<sigma> \<Longrightarrow> locked (server \<sigma>) \<Longrightarrow>
      k < length (queue (server \<sigma>)) \<Longrightarrow>
      \<exists>m h r. BW sys OP_REMOVE_EVENT [P dpy, of_nat k] \<sigma> = (r, \<sigma>\<lparr>mem := m, server := h\<rparr>) \<and>
        quiet (sp \<sigma>) (mem \<sigma>) m \<and> ready m h \<and> locked h \<and>
        queue h = take k (queue (server \<sigma>)) @ drop (Suc k) (queue (server \<sigma>))"
    and unlock: "ready (mem \<sigma>) (server \<sigma>) \<Longrightarrow> stack_ok \<sigma> \<Longrightarrow>
      \<exists>m h r. BW sys OP_UNLOCK_EVENTS [P dpy] \<sigma> = (r, \<sigma>\<lparr>mem := m, server := h\<rparr>) \<and>
        quiet (sp \<sigma>) (mem \<sigma>) m \<and> ready m h \<and> \<not> locked h \<and> queue h = queue (server \<sigma>)"

text \<open>A predicate that only looks at the bytes of the event.\<close>

definition looks_at :: "(u8 list \<Rightarrow> bool) \<Rightarrow> 'h event_predicate \<Rightarrow> bool" where
  "looks_at test predicate \<longleftrightarrow> (\<forall>e \<sigma>. predicate e \<sigma> = (test (rd (mem \<sigma>) e XEvent_size), \<sigma>))"

text \<open>Where the application may want its copy: in the heap, away from what the host trusts, or in the
  part of the stack that is in use.\<close>

definition buffer_ok :: "nat set \<Rightarrow> nat \<Rightarrow> nat \<Rightarrow> bool" where
  "buffer_ok own s r \<longleftrightarrow>
     (r + XEvent_size \<le> heap_top \<and> (\<forall>i \<in> own. i < r \<or> r + XEvent_size \<le> i)) \<or> s \<le> r"

primrec first_match :: "('e \<Rightarrow> bool) \<Rightarrow> 'e list \<Rightarrow> nat option" where
  "first_match test [] = None"
| "first_match test (e # q) = (if test e then Some 0 else map_option Suc (first_match test q))"

lemma first_match_Some:
  "first_match test q = Some k \<Longrightarrow> k < length q \<and> test (q ! k) \<and> (\<forall>j < k. \<not> test (q ! j))"
  by (induction q arbitrary: k) (auto simp: less_Suc_eq_0_disj split: if_splits)

lemma first_match_None: "first_match test q = None \<longleftrightarrow> (\<forall>e \<in> set q. \<not> test e)"
  by (induction q) auto

text \<open>The application's buffer holds the event, everything else in use is as it was.\<close>

definition delivered :: "nat \<Rightarrow> u8 list \<Rightarrow> nat \<Rightarrow> memory \<Rightarrow> memory \<Rightarrow> bool" where
  "delivered r e s m m' \<longleftrightarrow> rd m' r XEvent_size = e \<and>
     (\<forall>i. (i < heap_top \<or> s \<le> i) \<and> (i < r \<or> r + XEvent_size \<le> i) \<longrightarrow> m' i = m i)"

definition stack_deep :: "'h world \<Rightarrow> bool" where
  "stack_deep \<sigma> \<longleftrightarrow> heap_top + 8192 \<le> sp \<sigma> \<and> sp \<sigma> \<le> stack_top"

lemma stack_deep_ok: "stack_deep \<sigma> \<Longrightarrow> stack_ok \<sigma>" by (simp add: stack_deep_def stack_ok_def)

context event_server
begin

lemma fetch:
  assumes R: "ready (mem \<sigma>) (server \<sigma>)" and L: "locked (server \<sigma>)" and S: "stack_deep \<sigma>"
    and k: "k < length (queue (server \<sigma>))"
  defines "p \<equiv> sp \<sigma> - XEvent_size"
  defines "\<sigma>a \<equiv> st_bytes p (replicate XEvent_size 0) (\<sigma>\<lparr>sp := p\<rparr>)"
  obtains m where "BW sys OP_GET_EVENT [P dpy, of_nat k, P p] \<sigma>a = (1, \<sigma>a\<lparr>mem := m\<rparr>)"
    "rd m p XEvent_size = queue (server \<sigma>) ! k"
    "\<And>i. i < heap_top \<or> p \<le> i \<Longrightarrow> i < p \<or> p + XEvent_size \<le> i \<Longrightarrow> m i = mem \<sigma> i"
proof -
  have p: "heap_top + 4096 \<le> p" "p + XEvent_size = sp \<sigma>" "sp \<sigma> \<le> stack_top"
    using S by (auto simp: stack_deep_def XEvent_size_def p_def)
  have Ra: "ready (mem \<sigma>a) (server \<sigma>a)"
    using ready_own [OF R, of "mem \<sigma>a"] own_heap [OF R] p(1) by (fastforce simp: \<sigma>a_def st_bytes_def)
  have Sa: "stack_ok \<sigma>a" "sp \<sigma>a = p" "server \<sigma>a = server \<sigma>" using p by (simp_all add: \<sigma>a_def stack_ok_def)
  have "\<exists>m. BW sys OP_GET_EVENT [P dpy, of_nat k, P p] \<sigma>a = (1, \<sigma>a\<lparr>mem := m\<rparr>) \<and>
        rd m p XEvent_size = queue (server \<sigma>a) ! k \<and>
        (\<forall>i. i < heap_top \<or> sp \<sigma>a \<le> i \<longrightarrow> i < p \<or> p + XEvent_size \<le> i \<longrightarrow> m i = mem \<sigma>a i)"
    by (rule get [OF Ra Sa(1)]) (use L k p Sa in simp_all)
  then obtain m where m: "BW sys OP_GET_EVENT [P dpy, of_nat k, P p] \<sigma>a = (1, \<sigma>a\<lparr>mem := m\<rparr>)"
    "rd m p XEvent_size = queue (server \<sigma>) ! k"
    "\<And>i. i < heap_top \<or> p \<le> i \<Longrightarrow> i < p \<or> p + XEvent_size \<le> i \<Longrightarrow> m i = mem \<sigma>a i"
    unfolding Sa by blast
  show thesis
    by (rule that [OF m(1,2)]) (simp add: m(3), auto simp: \<sigma>a_def st_bytes_def)
qed

lemma scan_one_miss:
  assumes R: "ready (mem \<sigma>) (server \<sigma>)" and L: "locked (server \<sigma>)" and S: "stack_deep \<sigma>"
    and k: "k < length (queue (server \<sigma>))" and test: "looks_at test predicate" "\<not> test (queue (server \<sigma>) ! k)"
  shows "\<exists>m. scan_one sys dpy r predicate k \<sigma> = (None, \<sigma>\<lparr>mem := m\<rparr>) \<and> quiet (sp \<sigma>) (mem \<sigma>) m"
proof -
  let ?p = "sp \<sigma> - XEvent_size"
  define \<sigma>a where "\<sigma>a = st_bytes ?p (replicate XEvent_size 0) (\<sigma>\<lparr>sp := ?p\<rparr>)"
  have p: "heap_top + 4096 \<le> ?p" "?p + XEvent_size = sp \<sigma>" "sp \<sigma> \<le> stack_top"
    using S by (auto simp: stack_deep_def XEvent_size_def)
  obtain m where g: "BW sys OP_GET_EVENT [P dpy, of_nat k, P ?p] \<sigma>a = (1, \<sigma>a\<lparr>mem := m\<rparr>)"
    and e: "rd m ?p XEvent_size = queue (server \<sigma>) ! k"
    and q: "\<And>i. i < heap_top \<or> ?p \<le> i \<Longrightarrow> i < ?p \<or> ?p + XEvent_size \<le> i \<Longrightarrow> m i = mem \<sigma> i"
    by (rule fetch [OF R L S k, folded \<sigma>a_def]) (rule that)
  have keep: "m i = mem \<sigma> i" if "i < heap_top \<or> sp \<sigma> \<le> i" for i
  proof (rule q)
    show "i < heap_top \<or> ?p \<le> i" "i < ?p \<or> ?p + XEvent_size \<le> i" using that p by linarith+
  qed
  have t: "predicate ?p (\<sigma>a\<lparr>mem := m\<rparr>) = (False, \<sigma>a\<lparr>mem := m\<rparr>)"
    using test e by (simp add: looks_at_def)
  have "scan_one sys dpy r predicate k \<sigma> = (None, (\<sigma>a\<lparr>mem := m\<rparr>)\<lparr>sp := sp \<sigma>\<rparr>)"
    using g t by (simp add: scan_one_def with_bytes_def with_local_def \<sigma>a_def Let_def)
  moreover have "(\<sigma>a\<lparr>mem := m\<rparr>)\<lparr>sp := sp \<sigma>\<rparr> = \<sigma>\<lparr>mem := m\<rparr>" by (simp add: \<sigma>a_def st_bytes_def)
  moreover have "quiet (sp \<sigma>) (mem \<sigma>) m"
    using keep by (simp add: quiet_def)
  ultimately show ?thesis by auto
qed

lemma scan_one_hit:
  assumes R: "ready (mem \<sigma>) (server \<sigma>)" and L: "locked (server \<sigma>)" and S: "stack_deep \<sigma>"
    and k: "k < length (queue (server \<sigma>))" and test: "looks_at test predicate" "test (queue (server \<sigma>) ! k)"
    and r: "buffer_ok own (sp \<sigma>) r"
  shows "\<exists>m h. scan_one sys dpy r predicate k \<sigma> = (Some True, \<sigma>\<lparr>mem := m, server := h\<rparr>) \<and>
    delivered r (queue (server \<sigma>) ! k) (sp \<sigma>) (mem \<sigma>) m \<and> ready m h \<and> locked h \<and>
    queue h = take k (queue (server \<sigma>)) @ drop (Suc k) (queue (server \<sigma>))"
proof -
  let ?p = "sp \<sigma> - XEvent_size" and ?e = "queue (server \<sigma>) ! k"
  define \<sigma>a where "\<sigma>a = st_bytes ?p (replicate XEvent_size 0) (\<sigma>\<lparr>sp := ?p\<rparr>)"
  have p: "heap_top + 4096 \<le> ?p" "?p + XEvent_size = sp \<sigma>" "sp \<sigma> \<le> stack_top"
    using S by (auto simp: stack_deep_def XEvent_size_def)
  obtain m where g: "BW sys OP_GET_EVENT [P dpy, of_nat k, P ?p] \<sigma>a = (1, \<sigma>a\<lparr>mem := m\<rparr>)"
    and e: "rd m ?p XEvent_size = ?e"
    and q: "\<And>i. i < heap_top \<or> ?p \<le> i \<Longrightarrow> i < ?p \<or> ?p + XEvent_size \<le> i \<Longrightarrow> m i = mem \<sigma> i"
    by (rule fetch [OF R L S k, folded \<sigma>a_def]) (rule that)
  have len: "length ?e = XEvent_size" using event_bytes [OF R] k by simp
  have keep: "m i = mem \<sigma> i" if "i < heap_top \<or> sp \<sigma> \<le> i" for i
  proof (rule q)
    show "i < heap_top \<or> ?p \<le> i" "i < ?p \<or> ?p + XEvent_size \<le> i" using that p by linarith+
  qed
  have t: "predicate ?p (\<sigma>a\<lparr>mem := m\<rparr>) = (True, \<sigma>a\<lparr>mem := m\<rparr>)"
    using test e by (simp add: looks_at_def)
  define \<sigma>b where "\<sigma>b = st_bytes r ?e (\<sigma>a\<lparr>mem := m\<rparr>)"
  have own: "mem \<sigma>b i = mem \<sigma> i" if "i \<in> own" for i
  proof -
    have "i < heap_top" by (rule own_heap [OF R that])
    moreover from this have "i < r \<or> r + XEvent_size \<le> i" using r that p by (auto simp: buffer_ok_def)
    ultimately show ?thesis using q [of i] p(1) len by (simp add: \<sigma>b_def \<sigma>a_def st_bytes_def)
  qed
  have Rb: "ready (mem \<sigma>b) (server \<sigma>b)"
    using ready_own [OF R, of "mem \<sigma>b"] own by (simp add: \<sigma>b_def \<sigma>a_def)
  have Sb: "stack_ok \<sigma>b" "sp \<sigma>b = ?p" "server \<sigma>b = server \<sigma>" using p by (simp_all add: \<sigma>b_def \<sigma>a_def stack_ok_def)
  obtain m' h x where rem: "BW sys OP_REMOVE_EVENT [P dpy, of_nat k] \<sigma>b = (x, \<sigma>b\<lparr>mem := m', server := h\<rparr>)"
    and q': "quiet ?p (mem \<sigma>b) m'" and R': "ready m' h" "locked h"
    "queue h = take k (queue (server \<sigma>)) @ drop (Suc k) (queue (server \<sigma>))"
    using remove [OF Rb Sb(1), of k] L k Sb by auto
  have "scan_one sys dpy r predicate k \<sigma> = (Some True, (\<sigma>b\<lparr>mem := m', server := h\<rparr>)\<lparr>sp := sp \<sigma>\<rparr>)"
    using g t e rem by (simp add: scan_one_def with_bytes_def with_local_def \<sigma>a_def [symmetric] \<sigma>b_def Let_def)
  moreover have "(\<sigma>b\<lparr>mem := m', server := h\<rparr>)\<lparr>sp := sp \<sigma>\<rparr> = \<sigma>\<lparr>mem := m', server := h\<rparr>"
    by (simp add: \<sigma>b_def \<sigma>a_def st_bytes_def)
  moreover have "delivered r ?e (sp \<sigma>) (mem \<sigma>) m'"
    unfolding delivered_def
  proof (intro conjI allI impI)
    have "m' i = mem \<sigma>b i" if "r \<le> i" "i < r + XEvent_size" for i
      using q' that r p by (auto simp: quiet_def buffer_ok_def)
    then have "rd m' r XEvent_size = rd (mem \<sigma>b) r XEvent_size" by (intro nth_equalityI) auto
    then show "rd m' r XEvent_size = ?e" using len by (simp add: \<sigma>b_def)
    show "m' i = mem \<sigma> i" if "(i < heap_top \<or> sp \<sigma> \<le> i) \<and> (i < r \<or> r + XEvent_size \<le> i)" for i
    proof -
      have "m' i = mem \<sigma>b i" using q' that p by (auto simp: quiet_def)
      also have "\<dots> = m i" using that len by (simp add: \<sigma>b_def st_bytes_def)
      also have "\<dots> = mem \<sigma> i" using keep that by simp
      finally show ?thesis .
    qed
  qed
  ultimately show ?thesis using R' by auto
qed

lemma ready_quiet: "ready m h \<Longrightarrow> quiet s m m' \<Longrightarrow> ready m' h"
  by (frule ready_own) (auto simp: quiet_def own_heap)

lemma delivered_quiet:
  assumes "delivered r e s m m'" "quiet s m' m''" "buffer_ok own s r"
  shows "delivered r e s m m''"
proof -
  have "rd m'' r XEvent_size = rd m' r XEvent_size"
    by (rule nth_equalityI) (use assms(2,3) in \<open>auto simp: quiet_def buffer_ok_def\<close>)
  then show ?thesis using assms(1,2) unfolding delivered_def quiet_def by auto
qed

lemma quiet_delivered:
  "quiet s m m' \<Longrightarrow> delivered r e s m' m'' \<Longrightarrow> delivered r e s m m''"
  unfolding delivered_def quiet_def by auto

text \<open>What a scan comes to, from position \<^verbatim>\<open>k\<close> on with the queue locked.\<close>

definition scan_post :: "(u8 list \<Rightarrow> bool) \<Rightarrow> nat \<Rightarrow> nat \<Rightarrow> 'h world \<Rightarrow> bool \<times> 'h world \<Rightarrow> bool" where
  "scan_post test r k \<sigma> res \<longleftrightarrow>
     (\<exists>m h. snd res = \<sigma>\<lparr>mem := m, server := h\<rparr> \<and> ready m h \<and> \<not> locked h \<and>
       (case first_match test (drop k (queue (server \<sigma>))) of
          None \<Rightarrow> \<not> fst res \<and> queue h = queue (server \<sigma>) \<and> quiet (sp \<sigma>) (mem \<sigma>) m
        | Some j \<Rightarrow> fst res \<and>
            queue h = take (k + j) (queue (server \<sigma>)) @ drop (Suc (k + j)) (queue (server \<sigma>)) \<and>
            delivered r (queue (server \<sigma>) ! (k + j)) (sp \<sigma>) (mem \<sigma>) m))"

lemma scan_post_quiet:
  assumes "scan_post test r k \<tau> res" "\<tau> = \<sigma>\<lparr>mem := mm, server := hh\<rparr>" "queue hh = queue (server \<sigma>)"
    "quiet (sp \<sigma>) (mem \<sigma>) mm"
  shows "scan_post test r k \<sigma> res"
  using assms unfolding scan_post_def
  by (fastforce split: option.splits intro: quiet_trans quiet_delivered)

lemma scan_loop_post:
  assumes "ready (mem \<sigma>) (server \<sigma>)" "locked (server \<sigma>)" "stack_deep \<sigma>" "k + n = length (queue (server \<sigma>))"
    and test: "looks_at test predicate" and r: "buffer_ok own (sp \<sigma>) r"
  shows "scan_post test r k \<sigma> (scan_loop sys dpy r predicate k n \<sigma>)"
  using assms(1-4) r
proof (induction n arbitrary: k \<sigma>)
  case 0
  obtain m h x where u: "BW sys OP_UNLOCK_EVENTS [P dpy] \<sigma> = (x, \<sigma>\<lparr>mem := m, server := h\<rparr>)"
    and q: "quiet (sp \<sigma>) (mem \<sigma>) m" "ready m h" "\<not> locked h" "queue h = queue (server \<sigma>)"
    using unlock [OF 0(1) stack_deep_ok [OF 0(3)]] by blast
  then show ?case using 0(4) by (auto simp: scan_post_def)
next
  case (Suc n)
  let ?q = "queue (server \<sigma>)"
  have k: "k < length ?q" using Suc.prems(4) by simp
  then have d: "drop k ?q = ?q ! k # drop (Suc k) ?q" by (simp add: Cons_nth_drop_Suc)
  show ?case
  proof (cases "test (?q ! k)")
    case False
    obtain m where s: "scan_one sys dpy r predicate k \<sigma> = (None, \<sigma>\<lparr>mem := m\<rparr>)" and q: "quiet (sp \<sigma>) (mem \<sigma>) m"
      using scan_one_miss [OF Suc.prems(1-3) k test False] by blast
    let ?\<tau> = "\<sigma>\<lparr>mem := m\<rparr>"
    have "scan_post test r (Suc k) ?\<tau> (scan_loop sys dpy r predicate (Suc k) n ?\<tau>)"
      using Suc.prems ready_quiet [OF Suc.prems(1) q] by (intro Suc.IH) (simp_all add: stack_deep_def)
    then have "scan_post test r (Suc k) \<sigma> (scan_loop sys dpy r predicate (Suc k) n ?\<tau>)"
      by (rule scan_post_quiet [where hh = "server \<sigma>" and mm = m]) (simp_all add: q)
    then obtain mm hh where e: "snd (scan_loop sys dpy r predicate (Suc k) n ?\<tau>) = \<sigma>\<lparr>mem := mm, server := hh\<rparr>"
      and f: "ready mm hh" "\<not> locked hh"
        "case first_match test (drop (Suc k) ?q) of
          None \<Rightarrow> \<not> fst (scan_loop sys dpy r predicate (Suc k) n ?\<tau>) \<and> queue hh = ?q \<and> quiet (sp \<sigma>) (mem \<sigma>) mm
        | Some j \<Rightarrow> fst (scan_loop sys dpy r predicate (Suc k) n ?\<tau>) \<and>
            queue hh = take (Suc k + j) ?q @ drop (Suc (Suc k + j)) ?q \<and>
            delivered r (?q ! (Suc k + j)) (sp \<sigma>) (mem \<sigma>) mm"
      unfolding scan_post_def by blast
    have "scan_loop sys dpy r predicate k (Suc n) \<sigma> = scan_loop sys dpy r predicate (Suc k) n ?\<tau>" by (simp add: s)
    then show ?thesis unfolding scan_post_def
      by (intro exI [of _ mm] exI [of _ hh]) (use False e f in \<open>simp add: d split: option.splits\<close>)
  next
    case True
    obtain m h where s: "scan_one sys dpy r predicate k \<sigma> = (Some True, \<sigma>\<lparr>mem := m, server := h\<rparr>)"
      and q: "delivered r (?q ! k) (sp \<sigma>) (mem \<sigma>) m" "ready m h" "locked h" "queue h = take k ?q @ drop (Suc k) ?q"
      using scan_one_hit [OF Suc.prems(1-3) k test True Suc.prems(5)] by blast
    let ?\<tau> = "\<sigma>\<lparr>mem := m, server := h\<rparr>"
    have "stack_ok ?\<tau>" using Suc.prems(3) by (simp add: stack_deep_def stack_ok_def)
    then obtain m' h' x where u: "BW sys OP_UNLOCK_EVENTS [P dpy] ?\<tau> = (x, ?\<tau>\<lparr>mem := m', server := h'\<rparr>)"
      and q': "quiet (sp \<sigma>) m m'" "ready m' h'" "\<not> locked h'" "queue h' = queue h"
      using unlock [of ?\<tau>] q(2) by auto
    have "delivered r (?q ! k) (sp \<sigma>) (mem \<sigma>) m'" by (rule delivered_quiet [OF q(1) q'(1) Suc.prems(5)])
    then show ?thesis using True q q' by (auto simp: scan_post_def s d u)
  qed
qed

lemma bw_scan_events_post:
  assumes R: "ready (mem \<sigma>) (server \<sigma>)" and L: "\<not> locked (server \<sigma>)" and S: "stack_deep \<sigma>"
    and test: "looks_at test predicate" and r: "buffer_ok own (sp \<sigma>) r"
  shows "scan_post test r 0 \<sigma> (bw_scan_events sys dpy r predicate \<sigma>)"
proof -
  obtain m h where l: "BW sys OP_LOCK_EVENTS [P dpy] \<sigma> = (of_nat (length (queue (server \<sigma>))), \<sigma>\<lparr>mem := m, server := h\<rparr>)"
    and q: "quiet (sp \<sigma>) (mem \<sigma>) m" "ready m h" "locked h" "queue h = queue (server \<sigma>)"
    using lock [OF R stack_deep_ok [OF S] L] by blast
  have n: "sint (of_nat (length (queue (server \<sigma>))) :: s64) = int (length (queue (server \<sigma>)))"
    using queue_length [OF R] by (intro sint_nat64) simp
  let ?\<tau> = "\<sigma>\<lparr>mem := m, server := h\<rparr>"
  have "scan_post test r 0 ?\<tau> (scan_loop sys dpy r predicate 0 (length (queue (server \<sigma>))) ?\<tau>)"
    using q S r by (intro scan_loop_post test) (simp_all add: stack_deep_def)
  then have "scan_post test r 0 \<sigma> (scan_loop sys dpy r predicate 0 (length (queue (server \<sigma>))) ?\<tau>)"
    by (rule scan_post_quiet [where hh = h and mm = m]) (simp_all add: q)
  then show ?thesis by (simp add: bw_scan_events_def l n)
qed

text \<open>A waiting loop returns as soon as the queue holds a match: the environment \<^verbatim>\<open>g\<close> (what happens
  to the server while the process sleeps) brings one after \<^verbatim>\<open>n\<close> waits.\<close>

lemma wait_loop_returns:
  assumes "ready (mem \<sigma>) (server \<sigma>)" "\<not> locked (server \<sigma>)" "stack_deep \<sigma>"
    and test: "looks_at test predicate" and r: "buffer_ok own (sp \<sigma>) r"
    and poll: "\<And>fd \<tau>. poll fd \<tau> = \<tau>\<lparr>server := g (server \<tau>)\<rparr>"
    and g: "\<And>m h. ready m h \<Longrightarrow> ready m (g h)" "\<And>h. locked (g h) = locked h" "\<And>h. queue (g h) = G (queue h)"
    and arrives: "first_match test ((G ^^ n) (queue (server \<sigma>))) \<noteq> None"
  shows "\<exists>m h e. wait_loop poll dpy (bw_scan_events sys dpy r predicate) \<sigma> = Some (\<sigma>\<lparr>mem := m, server := h\<rparr>) \<and>
    test e \<and> delivered r e (sp \<sigma>) (mem \<sigma>) m \<and> ready m h \<and> \<not> locked h"
  using assms(1-3) r arrives
proof (induction n arbitrary: \<sigma>)
  case (0 \<sigma>)
  let ?res = "bw_scan_events sys dpy r predicate \<sigma>"
  have P: "scan_post test r 0 \<sigma> ?res" using bw_scan_events_post [OF 0(1-3) test 0(4)] .
  obtain j where j: "first_match test (queue (server \<sigma>)) = Some j" using 0(5) by auto
  with P obtain m h where p: "snd ?res = \<sigma>\<lparr>mem := m, server := h\<rparr>" "ready m h" "\<not> locked h" "fst ?res"
    "delivered r (queue (server \<sigma>) ! j) (sp \<sigma>) (mem \<sigma>) m"
    unfolding scan_post_def by auto
  then have "?res = (True, \<sigma>\<lparr>mem := m, server := h\<rparr>)" by (metis prod.collapse)
  then have "wait_loop poll dpy (bw_scan_events sys dpy r predicate) \<sigma> = Some (\<sigma>\<lparr>mem := m, server := h\<rparr>)"
    by (subst wait_loop.simps) simp
  then show ?case using p first_match_Some [OF j] by blast
next
  case (Suc n \<sigma>)
  let ?res = "bw_scan_events sys dpy r predicate \<sigma>"
  have P: "scan_post test r 0 \<sigma> ?res" using bw_scan_events_post [OF Suc.prems(1-3) test Suc.prems(4)] .
  show ?case
  proof (cases "first_match test (queue (server \<sigma>))")
    case (Some j)
    with P obtain m h where p: "snd ?res = \<sigma>\<lparr>mem := m, server := h\<rparr>" "ready m h" "\<not> locked h" "fst ?res"
      "delivered r (queue (server \<sigma>) ! j) (sp \<sigma>) (mem \<sigma>) m"
      unfolding scan_post_def by auto
    then have "?res = (True, \<sigma>\<lparr>mem := m, server := h\<rparr>)" by (metis prod.collapse)
    then have "wait_loop poll dpy (bw_scan_events sys dpy r predicate) \<sigma> = Some (\<sigma>\<lparr>mem := m, server := h\<rparr>)"
      by (subst wait_loop.simps) simp
    then show ?thesis using p first_match_Some [OF Some] by blast
  next
    case None
    with P obtain m h where p: "snd ?res = \<sigma>\<lparr>mem := m, server := h\<rparr>" "ready m h" "\<not> locked h" "\<not> fst ?res"
      "queue h = queue (server \<sigma>)" "quiet (sp \<sigma>) (mem \<sigma>) m"
      unfolding scan_post_def by auto
    then have res: "?res = (False, \<sigma>\<lparr>mem := m, server := h\<rparr>)" by (metis prod.collapse)
    let ?\<tau> = "\<sigma>\<lparr>mem := m, server := g h\<rparr>"
    have "wait_loop poll dpy (bw_scan_events sys dpy r predicate) \<sigma> = wait_loop poll dpy (bw_scan_events sys dpy r predicate) ?\<tau>"
      by (subst wait_loop.simps) (simp add: res bw_wait_for_events_def poll)
    moreover have "(G ^^ n) (queue (g h)) = (G ^^ Suc n) (queue (server \<sigma>))"
      by (simp add: g(3) p(5) funpow_swap1)
    then have "\<exists>m' h' e. wait_loop poll dpy (bw_scan_events sys dpy r predicate) ?\<tau> = Some (?\<tau>\<lparr>mem := m', server := h'\<rparr>) \<and>
      test e \<and> delivered r e (sp ?\<tau>) (mem ?\<tau>) m' \<and> ready m' h' \<and> \<not> locked h'"
      using Suc.prems p g by (intro Suc.IH) (simp_all add: stack_deep_def)
    then obtain m' h' e where w: "wait_loop poll dpy (bw_scan_events sys dpy r predicate) ?\<tau> = Some (\<sigma>\<lparr>mem := m', server := h'\<rparr>)"
      and e: "test e" "delivered r e (sp \<sigma>) m m'" "ready m' h'" "\<not> locked h'" by auto
    ultimately show ?thesis using quiet_delivered [OF p(6) e(2)] by (metis (no_types))
  qed
qed

lemma XPending_counts:
  assumes R: "ready (mem \<sigma>) (server \<sigma>)" and L: "\<not> locked (server \<sigma>)" and S: "stack_deep \<sigma>"
  shows "\<exists>m h. XPending sys dpy \<sigma> = (of_nat (length (queue (server \<sigma>))), \<sigma>\<lparr>mem := m, server := h\<rparr>) \<and>
    quiet (sp \<sigma>) (mem \<sigma>) m \<and> ready m h \<and> \<not> locked h \<and> queue h = queue (server \<sigma>)"
proof -
  let ?n = "length (queue (server \<sigma>))"
  obtain m h where l: "BW sys OP_LOCK_EVENTS [P dpy] \<sigma> = (of_nat ?n, \<sigma>\<lparr>mem := m, server := h\<rparr>)"
    and q: "quiet (sp \<sigma>) (mem \<sigma>) m" "ready m h" "locked h" "queue h = queue (server \<sigma>)"
    using lock [OF R stack_deep_ok [OF S] L] by blast
  have "stack_ok (\<sigma>\<lparr>mem := m, server := h\<rparr>)" using stack_deep_ok [OF S] by (simp add: stack_ok_def)
  then obtain m' h' x where u: "BW sys OP_UNLOCK_EVENTS [P dpy] (\<sigma>\<lparr>mem := m, server := h\<rparr>) =
      (x, \<sigma>\<lparr>mem := m', server := h'\<rparr>)"
    and q': "quiet (sp \<sigma>) m m'" "ready m' h'" "\<not> locked h'" "queue h' = queue h"
    using unlock [of "\<sigma>\<lparr>mem := m, server := h\<rparr>"] q(2) by auto
  have n: "?n < 2 ^ 31" using queue_length [OF R] .
  have i: "sint (of_nat ?n :: s64) = int ?n" using n by (intro sint_nat64) simp
  have "to_int (of_nat ?n) = (of_nat ?n :: c_int)" by (simp add: to_int_def ucast_of_nat_down)
  then have "XPending sys dpy \<sigma> = (of_nat ?n, \<sigma>\<lparr>mem := m', server := h'\<rparr>)"
    by (simp add: XPending_def l u i)
  moreover have "quiet (sp \<sigma>) (mem \<sigma>) m'" using quiet_trans [OF q(1) q'(1)] .
  moreover have "queue h' = queue (server \<sigma>)" using q(4) q'(4) by simp
  ultimately show ?thesis using q'(2,3) by blast
qed

end

end
