(* ===== verification/HostEvents.thy ===== *)
theory HostEvents
  imports X11Events
begin

text \<open>
  Events on the host (\<^verbatim>\<open>source/x11/x11bridge64.cpp\<close>, event conversion): the server keeps every
  event in the IA-32 layout of \<^verbatim>\<open>source/x11/x11.h\<close>, twenty-four 32-bit words;
  \<^verbatim>\<open>writeEvent64\<close> lays one out for an x86-64 guest and \<^verbatim>\<open>readEvent64\<close> takes back the events
  a guest hands over.
\<close>

section \<open>Events as the server stores them\<close>

text \<open>Word 0 is the type, 1 the serial, 2 \<^verbatim>\<open>send_event\<close>, 3 the display and 4 the window; the
  words after that are the fields of the type's structure in order.\<close>

type_synonym xevent = "u32 list"

text \<open>The ways a field is written: \<^verbatim>\<open>P32\<close> and \<^verbatim>\<open>P64\<close> put a word (zero-extended), \<^verbatim>\<open>S64\<close> a
  sign-extended word, \<^verbatim>\<open>P8\<close> its low byte and \<^verbatim>\<open>PW\<close> a run of words as bytes; the numbers
  are the offset in the guest's structure and the word it comes from.\<close>

datatype event_put = P32 nat nat | P64 nat nat | S64 nat nat | P8 nat nat | PW nat nat nat

definition put_field :: "xevent \<Rightarrow> event_put \<Rightarrow> memory \<Rightarrow> memory" where
  "put_field ev f out = (case f of
       P32 off i \<Rightarrow> wr out off (le_bytes 4 (ev ! i))
     | P64 off i \<Rightarrow> wr out off (le_bytes 8 (ucast (ev ! i) :: u64))
     | S64 off i \<Rightarrow> wr out off (le_bytes 8 (scast (ev ! i) :: u64))
     | P8 off i \<Rightarrow> wr out off [ucast (ev ! i)]
     | PW off i n \<Rightarrow> wr out off (concat (map (le_bytes 4) (take n (drop i ev)))))"

text \<open>The fields of each type, in the order of the source's switch.\<close>

definition event_fields :: "xevent \<Rightarrow> event_put list" where
  "event_fields ev =
     (let type = ev ! 0 in
      if type = KeyPress \<or> type = KeyRelease \<or> type = ButtonPress \<or> type = ButtonRelease then
        [P64 32 4, P64 40 5, P64 48 6, P64 56 7, P32 64 8, P32 68 9, P32 72 10, P32 76 11, P32 80 12, P32 84 13, P32 88 14]
      else if type = MotionNotify then
        [P64 32 4, P64 40 5, P64 48 6, P64 56 7, P32 64 8, P32 68 9, P32 72 10, P32 76 11, P32 80 12, P8 84 13, P32 88 14]
      else if type = EnterNotify \<or> type = LeaveNotify then
        [P64 32 4, P64 40 5, P64 48 6, P64 56 7, P32 64 8, P32 68 9, P32 72 10, P32 76 11, P32 80 12, P32 84 13, P32 88 14, P32 92 15, P32 96 16]
      else if type = FocusIn \<or> type = FocusOut then
        [P64 32 4, P32 40 5, P32 44 6]
      else if type = KeymapNotify then
        [P64 32 4, PW 40 5 8]
      else if type = Expose then
        [P64 32 4, P32 40 5, P32 44 6, P32 48 7, P32 52 8, P32 56 9]
      else if type = GraphicsExpose then
        [P64 32 4, P32 40 5, P32 44 6, P32 48 7, P32 52 8, P32 56 9, P32 60 10, P32 64 11]
      else if type = NoExpose then
        [P64 32 4, P32 40 5, P32 44 6]
      else if type = VisibilityNotify then
        [P64 32 4, P32 40 5]
      else if type = CreateNotify then
        [P64 32 4, P64 40 5, P32 48 6, P32 52 7, P32 56 8, P32 60 9, P32 64 10, P32 68 11]
      else if type = DestroyNotify then
        [P64 32 4, P64 40 5]
      else if type = UnmapNotify \<or> type = MapNotify \<or> type = CirculateNotify \<or> type = CirculateRequest then
        [P64 32 4, P64 40 5, P32 48 6]
      else if type = MapRequest then
        [P64 32 4, P64 40 5]
      else if type = ReparentNotify then
        [P64 32 4, P64 40 5, P64 48 6, P32 56 7, P32 60 8, P32 64 9]
      else if type = ConfigureNotify then
        [P64 32 4, P64 40 5, P32 48 6, P32 52 7, P32 56 8, P32 60 9, P32 64 10, P64 72 11, P32 80 12]
      else if type = ConfigureRequest then
        [P64 32 4, P64 40 5, P32 48 6, P32 52 7, P32 56 8, P32 60 9, P32 64 10, P64 72 11, P32 80 12, P64 88 13]
      else if type = GravityNotify then
        [P64 32 4, P64 40 5, P32 48 6, P32 52 7]
      else if type = ResizeRequest then
        [P64 32 4, P32 40 5, P32 44 6]
      else if type = PropertyNotify then
        [P64 32 4, P64 40 5, P64 48 6, P32 56 7]
      else if type = SelectionClear then
        [P64 32 4, P64 40 5, P64 48 6]
      else if type = SelectionRequest then
        [P64 32 4, P64 40 5, P64 48 6, P64 56 7, P64 64 8, P64 72 9]
      else if type = SelectionNotify then
        [P64 32 4, P64 40 5, P64 48 6, P64 56 7, P64 64 8]
      else if type = ColormapNotify then
        [P64 32 4, P64 40 5, P32 48 6, P32 52 7]
      else if type = MappingNotify then
        [P64 32 4, P32 40 5, P32 44 6, P32 48 7]
      else if type = GenericEvent then
        [P32 32 4, P32 36 5, P32 40 6]
      else if type = ClientMessage then
        [P64 32 4, P64 40 5, P32 48 6] @
        (if ev ! 6 = 32 then [S64 56 7, S64 64 8, S64 72 9, S64 80 10, S64 88 11] else [PW 56 7 5])
      else [P64 32 4])"

definition writeEvent64 :: "xevent \<Rightarrow> u64 \<Rightarrow> u8 list" where
  "writeEvent64 ev display =
     (let out0 = (\<lambda>_. 0);
          out1 = wr out0 0 (le_bytes 4 (ev ! 0));
          out2 = wr out1 8 (le_bytes 8 (ucast (ev ! 1) :: u64));
          out3 = wr out2 16 (le_bytes 4 (ev ! 2));
          out4 = wr out3 24 (le_bytes 8 display)
      in rd (fold (put_field ev) (event_fields ev) out4) 0 XEvent_size)"

text \<open>Reading back: \<^verbatim>\<open>G32\<close> a 32-bit field, \<^verbatim>\<open>G64\<close> the low half of a 64-bit one, \<^verbatim>\<open>GW\<close> bytes;
  the numbers are the word it goes to and the offset it comes from.\<close>

datatype event_get = G32 nat nat | G64 nat nat | GW nat nat nat

definition get_field :: "u8 list \<Rightarrow> event_get \<Rightarrow> xevent \<Rightarrow> xevent" where
  "get_field raw f ev = (case f of
       G32 i off \<Rightarrow> ev[i := le_word (take 4 (drop off raw))]
     | G64 i off \<Rightarrow> ev[i := ucast (le_word (take 8 (drop off raw)) :: u64)]
     | GW i off n \<Rightarrow> take i ev @ map (\<lambda>k. le_word (take 4 (drop (off + 4 * k) raw))) [0..<n] @ drop (i + n) ev)"

definition read_fields :: "c_int \<Rightarrow> u8 list \<Rightarrow> event_get list" where
  "read_fields type raw =
     (if type = ClientMessage then
        [G64 4 32, G64 5 40, G32 6 48] @
        (if (le_word (take 4 (drop 48 raw)) :: u32) = 32
         then [G64 7 56, G64 8 64, G64 9 72, G64 10 80, G64 11 88] else [GW 7 56 5])
      else if type = ConfigureNotify then
        [G64 4 32, G64 5 40, G32 6 48, G32 7 52, G32 8 56, G32 9 60, G32 10 64, G64 11 72, G32 12 80]
      else if type = Expose then
        [G64 4 32, G32 5 40, G32 6 44, G32 7 48, G32 8 52, G32 9 56]
      else if type = PropertyNotify then
        [G64 4 32, G64 5 40, G64 6 48, G32 7 56]
      else if type = SelectionNotify then
        [G64 4 32, G64 5 40, G64 6 48, G64 7 56, G64 8 64]
      else [G64 4 32])"

definition readEvent64 :: "u8 list \<Rightarrow> xevent" where
  "readEvent64 raw =
     (let ev0 = replicate 24 0;
          type = le_word (take 4 (drop 0 raw)) :: u32;
          ev1 = ev0[0 := type];
          ev2 = ev1[1 := ucast (le_word (take 8 (drop 8 raw)) :: u64)];
          ev3 = ev2[2 := le_word (take 4 (drop 16 raw))]
      in fold (get_field raw) (read_fields type raw) ev3)"

text \<open>Words of the structure of the types \<^verbatim>\<open>readEvent64\<close> reads in full.\<close>

definition event_words :: "c_int \<Rightarrow> nat" where
  "event_words type =
     (if type = ClientMessage then 12 else if type = ConfigureNotify then 13
      else if type = Expose then 10 else if type = PropertyNotify then 8
      else if type = SelectionNotify then 9 else 5)"

lemma take_drop_rd: "off + n \<le> N \<Longrightarrow> take n (drop off (rd m 0 N)) = rd m off n"
  by (simp add: drop_rd take_rd)

lemma zeros24: "replicate 24 (0 :: u32) =
    [0, 0, 0, 0, 0, 0, 0, 0, 0, 0, 0, 0, 0, 0, 0, 0, 0, 0, 0, 0, 0, 0, 0, 0]"
  by (simp add: eval_nat_numeral)

lemmas event_read_simps = take_drop_rd take_rd XEvent_size_def rd_wr_other writeEvent64_def readEvent64_def
  event_fields_def read_fields_def put_field_def get_field_def le_word_le_bytes_ucast Let_def zeros24
  event_type_defs

lemma ucast_ucast_u32 [simp]: "ucast (ucast (x :: u32) :: u64) = x"
  by (rule bit_word_eqI) (simp add: bit_simps)

lemma ucast_scast_u32 [simp]: "ucast (scast (x :: u32) :: u64) = x"
  by (rule bit_word_eqI) (auto simp: bit_simps)

lemma read_write_Expose:
  "ev ! 0 = Expose \<Longrightarrow> readEvent64 (writeEvent64 ev d) =
     [ev ! 0, ev ! 1, ev ! 2, 0, ev ! 4, ev ! 5, ev ! 6, ev ! 7, ev ! 8, ev ! 9, 0, 0, 0, 0, 0, 0, 0, 0, 0, 0, 0, 0, 0, 0]"
  by (simp add: event_read_simps)

lemma read_write_ConfigureNotify:
  "ev ! 0 = ConfigureNotify \<Longrightarrow> readEvent64 (writeEvent64 ev d) =
     [ev ! 0, ev ! 1, ev ! 2, 0, ev ! 4, ev ! 5, ev ! 6, ev ! 7, ev ! 8, ev ! 9, ev ! 10, ev ! 11, ev ! 12, 0, 0, 0, 0, 0, 0, 0, 0, 0, 0, 0]"
  by (simp add: event_read_simps)

lemma read_write_PropertyNotify:
  "ev ! 0 = PropertyNotify \<Longrightarrow> readEvent64 (writeEvent64 ev d) =
     [ev ! 0, ev ! 1, ev ! 2, 0, ev ! 4, ev ! 5, ev ! 6, ev ! 7, 0, 0, 0, 0, 0, 0, 0, 0, 0, 0, 0, 0, 0, 0, 0, 0]"
  by (simp add: event_read_simps)

lemma read_write_SelectionNotify:
  "ev ! 0 = SelectionNotify \<Longrightarrow> readEvent64 (writeEvent64 ev d) =
     [ev ! 0, ev ! 1, ev ! 2, 0, ev ! 4, ev ! 5, ev ! 6, ev ! 7, ev ! 8, 0, 0, 0, 0, 0, 0, 0, 0, 0, 0, 0, 0, 0, 0, 0]"
  by (simp add: event_read_simps)

lemma read_write_ClientMessage32:
  "ev ! 0 = ClientMessage \<Longrightarrow> ev ! 6 = 32 \<Longrightarrow> readEvent64 (writeEvent64 ev d) =
     [ev ! 0, ev ! 1, ev ! 2, 0, ev ! 4, ev ! 5, ev ! 6, ev ! 7, ev ! 8, ev ! 9, ev ! 10, ev ! 11, 0, 0, 0, 0, 0, 0, 0, 0, 0, 0, 0, 0]"
  by (simp add: event_read_simps)

lemma five_words:
  assumes "length ev = 24"
  shows "take 5 (drop 7 ev) = [ev ! 7, ev ! 8, ev ! 9, ev ! 10, ev ! 11]"
  by (rule nth_equalityI) (use assms in \<open>auto simp: less_Suc_eq numeral_eq_Suc\<close>)

lemma upt5: "[0..<5] = [0, 1, 2, 3, 4]" by (simp add: upt_rec)

lemma read_write_ClientMessage8:
  "ev ! 0 = ClientMessage \<Longrightarrow> length ev = 24 \<Longrightarrow> ev ! 6 \<noteq> 32 \<Longrightarrow> readEvent64 (writeEvent64 ev d) =
     [ev ! 0, ev ! 1, ev ! 2, 0, ev ! 4, ev ! 5, ev ! 6, ev ! 7, ev ! 8, ev ! 9, ev ! 10, ev ! 11, 0, 0, 0, 0, 0, 0, 0, 0, 0, 0, 0, 0]"
  by (simp add: event_read_simps five_words upt5 rd_wr_inside)

text \<open>Every other type keeps only the common prefix: the fields of key, button, motion and crossing
  events do not survive.\<close>

lemma read_write_input:
  "ev ! 0 \<in> {KeyPress, KeyRelease, ButtonPress, ButtonRelease, MotionNotify, EnterNotify, LeaveNotify} \<Longrightarrow>
   readEvent64 (writeEvent64 ev d) =
     [ev ! 0, ev ! 1, ev ! 2, 0, ev ! 4, 0, 0, 0, 0, 0, 0, 0, 0, 0, 0, 0, 0, 0, 0, 0, 0, 0, 0, 0]"
  by (elim insertE emptyE; simp add: event_read_simps)

section \<open>Properties\<close>

text \<open>C11: an event of one of the types a client hands back by design (client messages, configure,
  expose, property and selection notifications) survives the trip to the guest's layout and back in
  every field except the display pointer.\<close>

theorem event_roundtrip:
  assumes "length ev = 24" "ev ! 0 \<in> {ClientMessage, ConfigureNotify, Expose, PropertyNotify, SelectionNotify}"
    and "i < event_words (ev ! 0)" "i \<noteq> 3"
  shows "readEvent64 (writeEvent64 ev d) ! i = ev ! i"
proof -
  have "i < 13" using assms(3) by (auto simp: event_words_def split: if_splits)
  moreover have "[0..<13] = [0, 1, 2, 3, 4, 5, 6, 7, 8, 9, 10, 11, 12]" by (simp add: upt_rec)
  ultimately have i: "i \<in> set [0, 1, 2, 3, 4, 5, 6, 7, 8, 9, 10, 11, 12]"
    by (metis atLeastLessThan_iff set_upt zero_le)
  from assms(2) consider "ev ! 0 = ClientMessage" "ev ! 6 = 32" | "ev ! 0 = ClientMessage" "ev ! 6 \<noteq> 32"
    | "ev ! 0 = ConfigureNotify" | "ev ! 0 = Expose" | "ev ! 0 = PropertyNotify" | "ev ! 0 = SelectionNotify"
    by blast
  then show ?thesis
  proof cases
    case 1
    then show ?thesis using i assms(3,4) unfolding read_write_ClientMessage32 [OF 1]
      by (auto simp: event_words_def)
  next
    case 2
    then show ?thesis using i assms(3,4) unfolding read_write_ClientMessage8 [OF 2(1) assms(1) 2(2)]
      by (auto simp: event_words_def)
  next
    case 3
    then show ?thesis using i assms(3,4) unfolding read_write_ConfigureNotify [OF 3]
      by (auto simp: event_words_def event_type_defs)
  next
    case 4
    then show ?thesis using i assms(3,4) unfolding read_write_Expose [OF 4]
      by (auto simp: event_words_def event_type_defs)
  next
    case 5
    then show ?thesis using i assms(3,4) unfolding read_write_PropertyNotify [OF 5]
      by (auto simp: event_words_def event_type_defs)
  next
    case 6
    then show ?thesis using i assms(3,4) unfolding read_write_SelectionNotify [OF 6]
      by (auto simp: event_words_def event_type_defs)
  qed
qed

theorem event_roundtrip_witness:
  "readEvent64 (writeEvent64 ([12, 5, 0, 9, 77] @ replicate 19 3) 4096) ! 4 = 77"
  using event_roundtrip [of "[12, 5, 0, 9, 77] @ replicate 19 3" 4 4096]
  by (simp add: event_type_defs event_words_def)

text \<open>A key, button, motion or crossing event handed back through the same conversion comes
  back with its type, serial, send flag and window only: every field after the window (the key code,
  the position, the modifiers, the time) is zero.\<close>

theorem put_back_loses_input_fields:
  assumes "ev ! 0 \<in> {KeyPress, KeyRelease, ButtonPress, ButtonRelease, MotionNotify, EnterNotify, LeaveNotify}"
    and "5 \<le> i" "i < 24"
  shows "readEvent64 (writeEvent64 ev d) ! i = 0"
proof -
  have "[5..<24] = [5, 6, 7, 8, 9, 10, 11, 12, 13, 14, 15, 16, 17, 18, 19, 20, 21, 22, 23]"
    by (simp add: upt_rec)
  then have "i \<in> set [5, 6, 7, 8, 9, 10, 11, 12, 13, 14, 15, 16, 17, 18, 19, 20, 21, 22, 23]"
    using assms(2,3) by (metis atLeastLessThan_iff set_upt)
  then show ?thesis unfolding read_write_input [OF assms(1)] by auto
qed

theorem put_back_loses_input_fields_witness:
  "readEvent64 (writeEvent64 ([2, 5, 0, 9, 77] @ replicate 19 38) 4096) ! 13 = 0 \<and>
   ([2, 5, 0, 9, 77] @ replicate 19 38 :: xevent) ! 13 = 38"
  using put_back_loses_input_fields [of "[2, 5, 0, 9, 77] @ replicate 19 38" 13 4096]
  by (simp add: event_type_defs nth_append)

end
