(* ===== verification/HostSurface.thy ===== *)
theory HostSurface
  imports Prelude "HOL-Library.Signed_Division"
begin

text \<open>
  The pixels of a drawable (\<^verbatim>\<open>source/x11/xdrawable.cpp\<close>) and the graphics context
  (\<^verbatim>\<open>source/x11/xgc.cpp\<close>): raster operations, lines, rectangles, transfers.  The host's buffer is
  a memory of its own with a size; an access outside it, which in the code touches other memory of the
  host, sets \<^verbatim>\<open>s_wild\<close> and has no other effect.  Pointer arithmetic follows the C types: products of
  32-bit unsigned values wrap before they are added to a pointer, signed ones are sign extended.
\<close>

section \<open>The graphics context\<close>

record XGCValues =
  g_function :: c_int
  g_plane_mask :: u32
  g_foreground :: u32
  g_background :: u32
  g_line_width :: c_int
  g_line_style :: c_int
  g_cap_style :: c_int
  g_join_style :: c_int
  g_fill_style :: c_int
  g_fill_rule :: c_int
  g_arc_mode :: c_int
  g_tile :: u32
  g_stipple :: u32
  g_ts_x_origin :: c_int
  g_ts_y_origin :: c_int
  g_font :: u32
  g_subwindow_mode :: c_int
  g_graphics_exposures :: c_int
  g_clip_x_origin :: c_int
  g_clip_y_origin :: c_int
  g_clip_mask :: u32
  g_dash_offset :: c_int
  g_dashes :: u8

record XRectangle =
  r_x :: "16 word"
  r_y :: "16 word"
  r_width :: "16 word"
  r_height :: "16 word"

record XGC =
  gc_drawable :: u32
  gc_values :: XGCValues
  clip_rects :: "XRectangle list"

definition GXclear :: c_int where "GXclear = 0"
definition GXand :: c_int where "GXand = 1"
definition GXandReverse :: c_int where "GXandReverse = 2"
definition GXcopy :: c_int where "GXcopy = 3"
definition GXandInverted :: c_int where "GXandInverted = 4"
definition GXnoop :: c_int where "GXnoop = 5"
definition GXxor :: c_int where "GXxor = 6"
definition GXor :: c_int where "GXor = 7"
definition GXnor :: c_int where "GXnor = 8"
definition GXequiv :: c_int where "GXequiv = 9"
definition GXinvert :: c_int where "GXinvert = 10"
definition GXorReverse :: c_int where "GXorReverse = 11"
definition GXcopyInverted :: c_int where "GXcopyInverted = 12"
definition GXorInverted :: c_int where "GXorInverted = 13"
definition GXnand :: c_int where "GXnand = 14"
definition GXset :: c_int where "GXset = 15"

lemmas GX_defs = GXclear_def GXand_def GXandReverse_def GXcopy_def GXandInverted_def GXnoop_def GXxor_def GXor_def
  GXnor_def GXequiv_def GXinvert_def GXorReverse_def GXcopyInverted_def GXorInverted_def GXnand_def GXset_def

definition FillSolid :: c_int where "FillSolid = 0"
definition FillTiled :: c_int where "FillTiled = 1"
definition FillStippled :: c_int where "FillStippled = 2"
definition FillOpaqueStippled :: c_int where "FillOpaqueStippled = 3"

text \<open>The values of a fresh context: copy, all planes, solid fill, no clipping.\<close>

definition default_values :: XGCValues where
  "default_values = \<lparr>g_function = GXcopy, g_plane_mask = 0xFFFFFFFF, g_foreground = 0, g_background = 0,
     g_line_width = 0, g_line_style = 0, g_cap_style = 1, g_join_style = 0, g_fill_style = FillSolid, g_fill_rule = 0,
     g_arc_mode = 1, g_tile = 0, g_stipple = 0, g_ts_x_origin = 0, g_ts_y_origin = 0, g_font = 0,
     g_subwindow_mode = 0, g_graphics_exposures = 1, g_clip_x_origin = 0, g_clip_y_origin = 0, g_clip_mask = 0,
     g_dash_offset = 0, g_dashes = 4\<rparr>"

definition updateValues :: "u32 \<Rightarrow> XGCValues \<Rightarrow> XGCValues \<Rightarrow> XGCValues" where
  "updateValues m new v =
     (let has = (\<lambda>k. bit m k) in
      \<lparr>g_function = (if has 0 then g_function new else g_function v),
       g_plane_mask = (if has 1 then g_plane_mask new else g_plane_mask v),
       g_foreground = (if has 2 then g_foreground new else g_foreground v),
       g_background = (if has 3 then g_background new else g_background v),
       g_line_width = (if has 4 then g_line_width new else g_line_width v),
       g_line_style = (if has 5 then g_line_style new else g_line_style v),
       g_cap_style = (if has 6 then g_cap_style new else g_cap_style v),
       g_join_style = (if has 7 then g_join_style new else g_join_style v),
       g_fill_style = (if has 8 then g_fill_style new else g_fill_style v),
       g_fill_rule = (if has 9 then g_fill_rule new else g_fill_rule v),
       g_arc_mode = (if has 22 then g_arc_mode new else g_arc_mode v),
       g_tile = (if has 10 then g_tile new else g_tile v),
       g_stipple = (if has 11 then g_stipple new else g_stipple v),
       g_ts_x_origin = (if has 12 then g_ts_x_origin new else g_ts_x_origin v),
       g_ts_y_origin = (if has 13 then g_ts_y_origin new else g_ts_y_origin v),
       g_font = (if has 14 then g_font new else g_font v),
       g_subwindow_mode = (if has 15 then g_subwindow_mode new else g_subwindow_mode v),
       g_graphics_exposures = (if has 16 then g_graphics_exposures new else g_graphics_exposures v),
       g_clip_x_origin = (if has 17 then g_clip_x_origin new else g_clip_x_origin v),
       g_clip_y_origin = (if has 18 then g_clip_y_origin new else g_clip_y_origin v),
       g_clip_mask = (if has 19 then g_clip_mask new else g_clip_mask v),
       g_dash_offset = (if has 20 then g_dash_offset new else g_dash_offset v),
       g_dashes = (if has 21 then g_dashes new else g_dashes v)\<rparr>)"

section \<open>Raster operations\<close>

definition x11ApplyRasterOperation :: "u32 \<Rightarrow> u32 \<Rightarrow> c_int \<Rightarrow> u32 \<Rightarrow> u32" where
  "x11ApplyRasterOperation source destination function planeMask =
     (let result =
        (if function = GXclear then 0
         else if function = GXand then source AND destination
         else if function = GXandReverse then source AND NOT destination
         else if function = GXcopy then source
         else if function = GXandInverted then NOT source AND destination
         else if function = GXnoop then destination
         else if function = GXxor then source XOR destination
         else if function = GXor then source OR destination
         else if function = GXnor then NOT (source OR destination)
         else if function = GXequiv then NOT (source XOR destination)
         else if function = GXinvert then NOT destination
         else if function = GXorReverse then source OR NOT destination
         else if function = GXcopyInverted then NOT source
         else if function = GXorInverted then NOT source OR destination
         else if function = GXnand then NOT (source AND destination)
         else if function = GXset then 0xFFFFFFFF
         else destination)
      in (destination AND NOT planeMask) OR (result AND planeMask))"

section \<open>The buffer\<close>

text \<open>\<^verbatim>\<open>s_dirty\<close> is the box a window has still to show: left, top, right, bottom.  Only windows keep one.\<close>

type_synonym dirty_box = "(c_int \<times> c_int \<times> c_int \<times> c_int) option"

record surface =
  s_w :: u32
  s_h :: u32
  s_bpp :: c_int
  s_pitch :: u32
  s_size :: nat
  s_data :: memory
  s_wild :: bool
  s_isWindow :: bool
  s_dirty :: dirty_box

definition calculateBytesPerLine :: "u32 \<Rightarrow> u32 \<Rightarrow> u32" where
  "calculateBytesPerLine bitsPerPixel width = (width * bitsPerPixel div 8 + 3) div 4 * 4"

text \<open>The size is a 32-bit product; nothing is allocated when it is zero.\<close>

definition buffer_size :: "u32 \<Rightarrow> u32 \<Rightarrow> u32 \<Rightarrow> nat" where
  "buffer_size bpp width height = unat (height * calculateBytesPerLine bpp width)"

text \<open>What the drawable of a server is made of: \<^verbatim>\<open>data\<close> and its size.\<close>

record xbuffer =
  b_size :: nat
  b_data :: memory

definition poke :: "int \<Rightarrow> u8 list \<Rightarrow> surface \<Rightarrow> surface" where
  "poke a bs s = (if 0 \<le> a \<and> a + int (length bs) \<le> int (s_size s) then s\<lparr>s_data := wr (s_data s) (nat a) bs\<rparr>
                  else s\<lparr>s_wild := True\<rparr>)"

definition peek :: "int \<Rightarrow> nat \<Rightarrow> surface \<Rightarrow> u8 list option" where
  "peek a n s = (if 0 \<le> a \<and> a + int n \<le> int (s_size s) then Some (rd (s_data s) (nat a) n) else None)"

text \<open>A window remembers the smallest box around what has changed.\<close>

definition smax :: "c_int \<Rightarrow> c_int \<Rightarrow> c_int" where "smax a b = (if a <s b then b else a)"
definition smin :: "c_int \<Rightarrow> c_int \<Rightarrow> c_int" where "smin a b = (if b <s a then b else a)"

definition extend_dirty :: "u32 \<Rightarrow> u32 \<Rightarrow> c_int \<Rightarrow> c_int \<Rightarrow> u32 \<Rightarrow> u32 \<Rightarrow> dirty_box \<Rightarrow> dirty_box" where
  "extend_dirty w h x y width height box =
     (if width = 0 \<or> height = 0 then box
      else
        let l = smax 0 x; t = smax 0 y; r = smin w (x + width); b = smin h (y + height) in
        if r \<le>s l \<or> b \<le>s t then box
        else Some (case box of
               None \<Rightarrow> (l, t, r, b)
             | Some (l', t', r', b') \<Rightarrow> (smin l' l, smin t' t, smax r' r, smax b' b)))"

definition setDirtyRect :: "c_int \<Rightarrow> c_int \<Rightarrow> u32 \<Rightarrow> u32 \<Rightarrow> surface \<Rightarrow> surface" where
  "setDirtyRect x y width height s =
     (if s_isWindow s then s\<lparr>s_dirty := extend_dirty (s_w s) (s_h s) x y width height (s_dirty s)\<rparr> else s)"

section \<open>Clipping\<close>

text \<open>What is left of an extent that starts at \<^verbatim>\<open>d\<close>; the width is compared unsigned, the height signed.\<close>

definition clip_width :: "u32 \<Rightarrow> c_int \<Rightarrow> u32 \<Rightarrow> u32 option" where
  "clip_width w d n = (if w < d + n then if w <s d then None else Some (w - d) else Some n)"

definition clip_height :: "u32 \<Rightarrow> c_int \<Rightarrow> u32 \<Rightarrow> u32 option" where
  "clip_height h d n = (if h <s d + n then if h <s d then None else Some (h - d) else Some n)"

text \<open>The byte offset of a pixel in its row, with C's division.\<close>

definition column :: "c_int \<Rightarrow> c_int \<Rightarrow> int" where "column bpp x = sint (bpp * x + 7) sdiv 8"

section \<open>Transfers\<close>

definition Success64 :: s64 where "Success64 = 0"
definition BadValue :: s64 where "BadValue = 2"
definition BadMatch :: s64 where "BadMatch = 8"
definition BadImplementation64 :: s64 where "BadImplementation64 = 17"

text \<open>\<^verbatim>\<open>n\<close> rows are left; the source is a buffer the bridge has copied out of the guest.\<close>

primrec put_rows :: "nat \<Rightarrow> u8 list \<Rightarrow> nat \<Rightarrow> nat \<Rightarrow> nat \<Rightarrow> int \<Rightarrow> surface \<Rightarrow> s64 option \<times> surface" where
  "put_rows 0 src stride line off dst s = (None, s)"
| "put_rows (Suc n) src stride line off dst s =
     (if length src < off + line then (Some BadValue, s)
      else put_rows n src stride line (off + stride) (dst + int (unat (s_pitch s))) (poke dst (take line (drop off src)) s))"

definition copyHostImageData ::
  "XGCValues option \<Rightarrow> u8 list \<Rightarrow> u32 \<Rightarrow> c_int \<Rightarrow> c_int \<Rightarrow> c_int \<Rightarrow> c_int \<Rightarrow> c_int \<Rightarrow> u32 \<Rightarrow> u32 \<Rightarrow> surface \<Rightarrow> s64 \<times> surface" where
  "copyHostImageData gc src bytes_per_line bits_per_pixel src_x src_y dst_x dst_y width height s =
     (if bits_per_pixel \<noteq> s_bpp s then (BadMatch, s)
      else if src = [] \<or> src_x <s 0 \<or> src_y <s 0 \<or> dst_x <s 0 \<or> dst_y <s 0 then (BadValue, s)
      else (case clip_width (s_w s) dst_x width of
         None \<Rightarrow> (Success64, s)
       | Some width' \<Rightarrow> (case clip_height (s_h s) dst_y height of
            None \<Rightarrow> (Success64, s)
          | Some height' \<Rightarrow>
              let copyPerLine = (bits_per_pixel * width' + 7) div 8;
                  srcOffset = unat bytes_per_line * unat src_y + unat (scast (bits_per_pixel * src_x + 7) :: u64) div 8;
                  dst = int (unat (s_pitch s * dst_y)) + column bits_per_pixel dst_x;
                  rasterFunction = (case gc of None \<Rightarrow> GXcopy | Some v \<Rightarrow> g_function v);
                  planeMask = (case gc of None \<Rightarrow> 0xFFFFFFFF | Some v \<Rightarrow> g_plane_mask v) in
              if rasterFunction \<noteq> GXcopy \<or> planeMask \<noteq> 0xFFFFFFFF then (BadImplementation64, s)
              else (case put_rows (unat height') src (unat bytes_per_line) (unat copyPerLine) srcOffset dst s of
                 (Some e, s1) \<Rightarrow> (e, s1)
               | (None, s1) \<Rightarrow> (Success64, setDirtyRect dst_x dst_y width' height' s1)))))"

text \<open>Between drawables.  The source is looked up again for every row: it may be the destination, which is then
  read as it is being written.  It is not clipped.\<close>

primrec copy_rows :: "nat \<Rightarrow> (surface \<Rightarrow> surface) \<Rightarrow> nat \<Rightarrow> int \<Rightarrow> int \<Rightarrow> surface \<Rightarrow> surface" where
  "copy_rows 0 from line src dst s = s"
| "copy_rows (Suc n) from line src dst s =
     copy_rows n from line (src + int (unat (s_pitch (from s)))) (dst + int (unat (s_pitch s)))
       (case peek src line (from s) of None \<Rightarrow> s\<lparr>s_wild := True\<rparr> | Some bs \<Rightarrow> poke dst bs s)"

definition copy_surface ::
  "(surface \<Rightarrow> surface) \<Rightarrow> c_int \<Rightarrow> c_int \<Rightarrow> u32 \<Rightarrow> u32 \<Rightarrow> c_int \<Rightarrow> c_int \<Rightarrow> surface \<Rightarrow> s64 \<times> surface" where
  "copy_surface from srcX srcY width height dstX dstY s =
     (if s_bpp (from s) \<noteq> s_bpp s then (BadMatch, s)
      else (case clip_width (s_w s) dstX width of
         None \<Rightarrow> (Success64, s)
       | Some width' \<Rightarrow> (case clip_height (s_h s) dstY height of
            None \<Rightarrow> (Success64, s)
          | Some height' \<Rightarrow>
              let copyPerLine = (s_bpp s * width' + 7) div 8;
                  src = int (unat (s_pitch (from s) * srcY)) + column (s_bpp (from s)) srcX;
                  dst = int (unat (s_pitch s * dstY)) + column (s_bpp s) dstX in
              (Success64, setDirtyRect dstX dstY width' height' (copy_rows (unat height') from (unat copyPerLine) src dst s)))))"

text \<open>The 32-bit lane reads its image in the guest's 32-bit memory, one row at a time.\<close>

definition rd32 :: "(u32 \<Rightarrow> u8) \<Rightarrow> u32 \<Rightarrow> nat \<Rightarrow> u8 list" where
  "rd32 guest a n = map (\<lambda>k. guest (a + of_nat k)) [0..<n]"

definition blend_pixel :: "(u32 \<Rightarrow> u8) \<Rightarrow> c_int \<Rightarrow> u32 \<Rightarrow> u32 \<Rightarrow> int \<Rightarrow> nat \<Rightarrow> surface \<Rightarrow> surface" where
  "blend_pixel guest function planeMask src dst x s =
     (case peek (dst + 4 * int x) 4 s of
        None \<Rightarrow> s\<lparr>s_wild := True\<rparr>
      | Some old \<Rightarrow> poke (dst + 4 * int x)
          (le_bytes 4 (x11ApplyRasterOperation (le_word (rd32 guest (src + of_nat x * 4) 4)) (le_word old) function planeMask)) s)"

definition blend_byte :: "(u32 \<Rightarrow> u8) \<Rightarrow> c_int \<Rightarrow> u32 \<Rightarrow> u32 \<Rightarrow> int \<Rightarrow> nat \<Rightarrow> nat \<Rightarrow> nat \<Rightarrow> surface \<Rightarrow> surface" where
  "blend_byte guest function planeMask src dst bytesPerPixel x byte s =
     (case peek (dst + int (x * bytesPerPixel + byte)) 1 s of
        None \<Rightarrow> s\<lparr>s_wild := True\<rparr>
      | Some old \<Rightarrow>
          let sourceByte = guest (src + of_nat (x * bytesPerPixel) + of_nat byte);
              maskByte = ucast (drop_bit (8 * byte) planeMask) :: u8 in
          poke (dst + int (x * bytesPerPixel + byte))
            [ucast (x11ApplyRasterOperation (ucast sourceByte) (ucast (old ! 0)) function (ucast maskByte))] s)"

definition blend_bytes :: "(u32 \<Rightarrow> u8) \<Rightarrow> c_int \<Rightarrow> u32 \<Rightarrow> u32 \<Rightarrow> int \<Rightarrow> nat \<Rightarrow> nat \<Rightarrow> surface \<Rightarrow> surface" where
  "blend_bytes guest function planeMask src dst bytesPerPixel x s =
     fold (\<lambda>byte. blend_byte guest function planeMask src dst bytesPerPixel x byte) [0..<bytesPerPixel] s"

text \<open>\<^verbatim>\<open>row\<close> transfers one row from a guest address to an offset of the buffer.\<close>

primrec image_rows ::
  "nat \<Rightarrow> (u32 \<Rightarrow> u32 \<Rightarrow> bool) \<Rightarrow> (u32 \<Rightarrow> int \<Rightarrow> surface \<Rightarrow> surface) \<Rightarrow> u32 \<Rightarrow> u32 \<Rightarrow> u32 \<Rightarrow> int \<Rightarrow> surface \<Rightarrow> s64 option \<times> surface" where
  "image_rows 0 canRead row stride line src dst s = (None, s)"
| "image_rows (Suc n) canRead row stride line src dst s =
     (if \<not> canRead src line then (Some BadValue, s)
      else image_rows n canRead row stride line (src + stride) (dst + int (unat (s_pitch s))) (row src dst s))"

definition copyImageData ::
  "(u32 \<Rightarrow> u8) \<Rightarrow> (u32 \<Rightarrow> u32 \<Rightarrow> bool) \<Rightarrow> XGCValues option \<Rightarrow> u32 \<Rightarrow> u32 \<Rightarrow> c_int \<Rightarrow> c_int \<Rightarrow> c_int \<Rightarrow> c_int \<Rightarrow> c_int \<Rightarrow> u32 \<Rightarrow> u32 \<Rightarrow>
     surface \<Rightarrow> s64 \<times> surface" where
  "copyImageData guest canRead gc data bytes_per_line bits_per_pixel src_x src_y dst_x dst_y width height s =
     (if bits_per_pixel \<noteq> s_bpp s then (BadMatch, s)
      else (case clip_width (s_w s) dst_x width of
         None \<Rightarrow> (Success64, s)
       | Some width' \<Rightarrow> (case clip_height (s_h s) dst_y height of
            None \<Rightarrow> (Success64, s)
          | Some height' \<Rightarrow>
              let copyPerLine = (bits_per_pixel * width' + 7) div 8;
                  src = data + bytes_per_line * src_y + of_int (column bits_per_pixel src_x);
                  dst = int (unat (s_pitch s * dst_y)) + column bits_per_pixel dst_x;
                  rasterFunction = (case gc of None \<Rightarrow> GXcopy | Some v \<Rightarrow> g_function v);
                  planeMask = (case gc of None \<Rightarrow> 0xFFFFFFFF | Some v \<Rightarrow> g_plane_mask v);
                  bytesPerPixel = unat (bits_per_pixel div 8);
                  row = (if rasterFunction = GXcopy \<and> planeMask = 0xFFFFFFFF
                         then (\<lambda>src dst. poke dst (rd32 guest src (unat copyPerLine)))
                         else if bits_per_pixel = 32
                         then (\<lambda>src dst. fold (blend_pixel guest rasterFunction planeMask src dst) [0..<unat width'])
                         else (\<lambda>src dst. fold (blend_bytes guest rasterFunction planeMask src dst bytesPerPixel) [0..<unat width']))
              in
              if \<not> (rasterFunction = GXcopy \<and> planeMask = 0xFFFFFFFF) \<and> bits_per_pixel \<noteq> 32 \<and>
                 (bytesPerPixel = 0 \<or> bits_per_pixel mod 8 \<noteq> 0) then (BadMatch, s)
              else (case image_rows (unat height') canRead row bytes_per_line copyPerLine src dst s of
                 (Some e, s1) \<Rightarrow> (e, s1)
               | (None, s1) \<Rightarrow> (Success64, setDirtyRect dst_x dst_y width' height' s1)))))"

section \<open>Lines\<close>

definition store_pixel :: "int \<Rightarrow> u32 \<Rightarrow> surface \<Rightarrow> surface" where
  "store_pixel k color = poke (4 * k) (le_bytes 4 color)"

text \<open>\<^verbatim>\<open>n\<close> pixels from pixel \<^verbatim>\<open>k\<close> of the buffer, \<^verbatim>\<open>step\<close> apart.\<close>

primrec pixel_run :: "nat \<Rightarrow> int \<Rightarrow> int \<Rightarrow> u32 \<Rightarrow> surface \<Rightarrow> surface" where
  "pixel_run 0 k step color s = s"
| "pixel_run (Suc n) k step color s = pixel_run n (k + step) step color (store_pixel k color s)"

text \<open>The result is \<^verbatim>\<open>None\<close> when the host panics.\<close>

definition drawLine :: "XGCValues \<Rightarrow> c_int \<Rightarrow> c_int \<Rightarrow> c_int \<Rightarrow> c_int \<Rightarrow> surface \<Rightarrow> (s64 \<times> surface) option" where
  "drawLine gc x1 y1 x2 y2 s =
     (let rowPixels = s_pitch s div 4 in
      if x1 = x2 then
        if s_w s \<le>s x1 then Some (Success64, s)
        else if s_bpp s = 32 then
          Some (Success64, pixel_run (nat (min (sint y2) (sint (s_h s)) - sint y1))
             (int (unat (rowPixels * y1)) + sint x1) (int (unat rowPixels)) (g_foreground gc) s)
        else None
      else if y1 = y2 then
        if s_h s \<le>s y1 then Some (Success64, s)
        else if s_bpp s = 32 then
          Some (Success64, pixel_run (nat (min (sint x2) (sint (s_w s)) - sint x1)) (int (unat (rowPixels * y1))) 1 0xFF00 s)
        else Some (Success64, s)
      else Some (Success64, s))"

definition drawRectangle :: "XGCValues \<Rightarrow> c_int \<Rightarrow> c_int \<Rightarrow> u32 \<Rightarrow> u32 \<Rightarrow> surface \<Rightarrow> (s64 \<times> surface) option" where
  "drawRectangle gc x y width height s =
     (case drawLine gc x y (x + width) y s of
        None \<Rightarrow> None
      | Some (_, s1) \<Rightarrow> (case drawLine gc (x + width) (y + 1) (x + width) (y + height) s1 of
           None \<Rightarrow> None
         | Some (_, s2) \<Rightarrow> (case drawLine gc x (y + 1) x (y + height) s2 of
              None \<Rightarrow> None
            | Some (_, s3) \<Rightarrow> (case drawLine gc (x + 1) (y + height) (x + width - 1) (y + height) s3 of
                 None \<Rightarrow> None
               | Some (_, s4) \<Rightarrow> Some (Success64, s4)))))"

section \<open>Rectangles\<close>

text \<open>A stipple holds a pattern when some pixel of it is set; the search reads pixel after pixel until it
  finds one.  A row is addressed in bytes and read in pixels.\<close>

definition stipple_pixel :: "surface \<Rightarrow> nat \<Rightarrow> nat \<Rightarrow> u32 option" where
  "stipple_pixel st sx sy = map_option le_word (peek (int (unat (s_pitch st) * sy + 4 * sx)) 4 st)"

primrec find_pixel :: "surface \<Rightarrow> (nat \<times> nat) list \<Rightarrow> bool option" where
  "find_pixel st [] = Some False"
| "find_pixel st (p # ps) = (case stipple_pixel st (fst p) (snd p) of
       None \<Rightarrow> None
     | Some v \<Rightarrow> if v \<noteq> 0 then Some True else find_pixel st ps)"

definition all_pixels :: "surface \<Rightarrow> (nat \<times> nat) list" where
  "all_pixels st = concat (map (\<lambda>sy. map (\<lambda>sx. (sx, sy)) [0..<unat (s_w st)]) [0..<unat (s_h st)])"

definition patternReadable :: "c_int \<Rightarrow> surface option \<Rightarrow> bool option" where
  "patternReadable style st = (case st of
       None \<Rightarrow> Some False
     | Some t \<Rightarrow>
         if (style = FillStippled \<or> style = FillOpaqueStippled) \<and> 0 < s_size t \<and> s_w t \<noteq> 0 \<and> s_h t \<noteq> 0 \<and> s_bpp t = 32
         then find_pixel t (all_pixels t) else Some False)"

text \<open>The remainders are C's, made positive.\<close>

definition stipple_at :: "c_int \<Rightarrow> nat \<Rightarrow> c_int \<Rightarrow> u32 \<Rightarrow> nat" where
  "stipple_at x dx origin extent =
     nat (((sint x + int dx - sint origin) smod int (unat extent) + int (unat extent)) smod int (unat extent))"

text \<open>\<^verbatim>\<open>base\<close> is the pixel the row starts at in the buffer; \<^verbatim>\<open>st\<close> looks the stipple up, if the fill is patterned.\<close>

definition fill_pixel ::
  "XGCValues \<Rightarrow> (surface \<Rightarrow> surface option) \<Rightarrow> c_int \<Rightarrow> c_int \<Rightarrow> int \<Rightarrow> nat \<Rightarrow> nat \<Rightarrow> surface \<Rightarrow> surface" where
  "fill_pixel gc st x y base dy dx s =
     (let k = base + int (unat (x + of_nat dx)) in
      case st s of
        None \<Rightarrow> store_pixel k (g_foreground gc) s
      | Some t \<Rightarrow>
          (case stipple_pixel t (stipple_at x dx (g_ts_x_origin gc) (s_w t)) (stipple_at y dy (g_ts_y_origin gc) (s_h t)) of
             None \<Rightarrow> s\<lparr>s_wild := True\<rparr>
           | Some v \<Rightarrow>
               if v \<noteq> 0 then store_pixel k (g_foreground gc) s
               else if g_fill_style gc = FillOpaqueStippled then store_pixel k (g_background gc) s
               else s))"

primrec fill_rows ::
  "nat \<Rightarrow> XGCValues \<Rightarrow> (surface \<Rightarrow> surface option) \<Rightarrow> c_int \<Rightarrow> c_int \<Rightarrow> nat \<Rightarrow> int \<Rightarrow> nat \<Rightarrow> surface \<Rightarrow> surface" where
  "fill_rows 0 gc st x y width base dy s = s"
| "fill_rows (Suc n) gc st x y width base dy s =
     fill_rows n gc st x y width (base + int (unat (s_pitch s div 4))) (Suc dy)
       (fold (fill_pixel gc st x y base dy) [0..<width] s)"

definition fillRectangle ::
  "XGCValues \<Rightarrow> (surface \<Rightarrow> surface option) \<Rightarrow> c_int \<Rightarrow> c_int \<Rightarrow> u32 \<Rightarrow> u32 \<Rightarrow> surface \<Rightarrow> (s64 \<times> surface) option" where
  "fillRectangle gc stipple x y width height s =
     (if g_tile gc \<noteq> 0 then None
      else
        let width' = (if s_w s - x < width then s_w s - x else width);
            height' = (if s_h s - y < height then s_h s - y else height);
            patterned = g_fill_style gc \<noteq> FillSolid;
            named = (\<lambda>s. if g_stipple gc = 0 then None else stipple s);
            readable = (if patterned then patternReadable (g_fill_style gc) (named s) else Some True) in
        (case readable of
           None \<Rightarrow> Some (Success64, s\<lparr>s_wild := True\<rparr>)
         | Some False \<Rightarrow> Some (Success64, s)
         | Some True \<Rightarrow>
             Some (Success64, setDirtyRect x y width' height'
               (if s_bpp s = 32
                then fill_rows (unat height') gc (if patterned then named else (\<lambda>_. None)) x y (unat width')
                       (int (unat (s_pitch s div 4 * y))) 0 s
                else s))))"

end
