(* ===== verification/HostState.thy ===== *)
theory HostState
  imports HostEvents X11Visuals HostSurface
begin

text \<open>
  The state of the host's X server (\<^verbatim>\<open>source/x11\<close>): displays with their event queues, windows
  and their properties, the pointer and the focus; and the ways a change of it is reported to the
  clients: the queue operations of \<^verbatim>\<open>displaydata.cpp\<close>, \<^verbatim>\<open>iterateEventMask\<close> of \<^verbatim>\<open>xserver.cpp\<close>, and the
  property operations of \<^verbatim>\<open>xwindow.cpp\<close>.
\<close>

section \<open>State\<close>

text \<open>\<^verbatim>\<open>wakeBytes\<close> counts the bytes waiting in the client's wake-up socket.\<close>

record display_data =
  displayAddress64 :: u64
  d_root :: u32
  clientFd :: u32
  serverFd :: u32
  eventQueue :: "xevent list"
  eventQueueIsLocked :: bool
  wakeBytes :: nat
  perWindowEventMask :: "u32 \<Rightarrow> u32 option"
  requestCounter :: u32

record xproperty =
  p_type :: u32
  p_format :: u32
  p_value :: "u8 list"

record xvisual =
  v_visualid :: u32
  v_class :: u32
  v_red_mask :: u32
  v_green_mask :: u32
  v_blue_mask :: u32
  v_bits_per_rgb :: u32
  v_map_entries :: u32

record window_attributes =
  a_background_pixmap :: u32
  a_background_pixel :: u32
  a_border_pixmap :: u32
  a_border_pixel :: u32
  a_bit_gravity :: u32
  a_win_gravity :: u32
  a_backing_store :: u32
  a_backing_planes :: u32
  a_backing_pixel :: u32
  a_save_under :: u32
  a_event_mask :: u32
  a_do_not_propagate_mask :: u32
  a_override_redirect :: u32
  a_colormap :: u32
  a_cursor :: u32

text \<open>A window object.  Objects are reached through shared pointers and outlive their entry in the
  server's table; \<^verbatim>\<open>w_listed\<close> says the entry is there.  \<^verbatim>\<open>w_children\<close> is the stacking order, bottom
  first.  Its pixels are in the server's table of buffers.\<close>

record xwindow =
  w_displayId :: u32
  w_listed :: bool
  w_parent :: "u32 option"
  w_children :: "u32 list"
  w_transients :: "u32 list"
  w_transientCached :: "u32 option"
  w_left :: c_int
  w_top :: c_int
  w_width :: u32
  w_height :: u32
  w_border :: u32
  w_class :: u32
  w_depth :: u32
  w_visual :: "u32 option"
  w_mapped :: bool
  w_hasBackgroundPixel :: bool
  w_backgroundFilled :: bool
  w_dirty :: dirty_box
  w_attrs :: window_attributes
  w_colorMap :: "u32 option"
  w_properties :: "u32 \<Rightarrow> xproperty option"

text \<open>A cell of a colormap; \<^verbatim>\<open>cc_uses\<close> holds the displays that have allocated it.\<close>

record color_cell =
  cc_r :: u8
  cc_g :: u8
  cc_b :: u8
  cc_flags :: u8
  cc_uses :: "u32 list"

record xcolormap =
  cm_colors :: "color_cell list"
  cm_dirty :: bool
  cm_nativePixels :: "u32 list"

record xdrawable =
  dr_width :: u32
  dr_height :: u32
  dr_depth :: u32
  dr_visual :: "u32 option"

text \<open>\<^verbatim>\<open>displayOrder\<close> is the order in which the table of displays iterates.  The clock, the mouse position
  and the modifier state are what the native back end reports; so is the text on the clipboard.  The keyboard
  is that of \<^verbatim>\<open>XKeyboard\<close>, by its lookups.  \<^verbatim>\<open>stuck\<close> is set where the code would not return: a
  walk up a cyclic chain of parents, a null dereference or a \<^verbatim>\<open>kpanic\<close>.\<close>

record xserver =
  displays :: "u32 \<Rightarrow> display_data option"
  displayOrder :: "u32 list"
  nextId :: u32
  atoms :: "u32 \<Rightarrow> u8 list option"
  reverseAtoms :: "u8 list \<Rightarrow> u32 option"
  nextAtomID :: u32
  windows :: "u32 \<Rightarrow> xwindow option"
  pixmaps :: "u32 \<Rightarrow> xdrawable option"
  buffers :: "u32 \<Rightarrow> xbuffer"
  gcs :: "u32 \<Rightarrow> XGC option"
  wild :: bool
  root :: u32
  pointerWindow :: u32
  mouseX :: c_int
  mouseY :: c_int
  nativeModifiers :: u32
  inputFocus :: "u32 option"
  inputFocusIsPointerRoot :: bool
  inputFocusRevertTo :: u32
  isGrabbed :: bool
  grabbedId :: u32
  grabbedConfinedId :: u32
  grabbedDisplayId :: u32
  grabbedMask :: u32
  grabbedTime :: u32
  isLocked :: bool
  selectionOwner :: u32
  selectionWindow :: "u32 option"
  clipboard :: "u8 list"
  sdlLastSelection :: "u8 list"
  eventTime :: u32
  visuals :: "(u32 \<times> xvisual) list"
  colorMaps :: "u32 \<Rightarrow> xcolormap option"
  defaultColorMap :: u32
  screenWidth :: u32
  screenHeight :: u32
  screenRate :: u32
  randrModes :: "(u32 \<times> u32 \<times> u32) list option"
  randrRequest :: "u32 \<times> u32 \<times> u32"
  minKeycode :: c_int
  maxKeycode :: c_int
  keycodeToKeysym :: "u32 \<Rightarrow> u32 \<Rightarrow> u32"
  keysymName :: "u32 \<Rightarrow> u8 list option"
  keysymToKeycode :: "u32 \<Rightarrow> u32"
  traceBudget :: u32
  translateKeysym :: "u32 \<Rightarrow> u32 \<Rightarrow> nat \<Rightarrow> nat \<times> u32 \<times> u8 list"
  modifiers :: "u8 list"
  stuck :: bool

definition mark_stuck :: "xserver \<Rightarrow> xserver" where "mark_stuck h = h\<lparr>stuck := True\<rparr>"

section \<open>The event queue of a display\<close>

text \<open>A motion event still waiting at the back, for the same window, is replaced; otherwise the event
  is queued and, when the client's socket is not already readable, one byte wakes it.\<close>

definition putEvent :: "xevent \<Rightarrow> bool \<Rightarrow> display_data \<Rightarrow> display_data" where
  "putEvent ev inFront d =
     (if \<not> inFront \<and> ev ! 0 = MotionNotify \<and> eventQueue d \<noteq> [] \<and>
         last (eventQueue d) ! 0 = MotionNotify \<and> last (eventQueue d) ! 4 = ev ! 4
      then d\<lparr>eventQueue := butlast (eventQueue d) @ [ev]\<rparr>
      else d\<lparr>eventQueue := (if inFront then ev # eventQueue d else eventQueue d @ [ev]),
             wakeBytes := (if wakeBytes d = 0 then 1 else wakeBytes d)\<rparr>)"

definition getEvent :: "nat \<Rightarrow> display_data \<Rightarrow> xevent option" where
  "getEvent index d = (if length (eventQueue d) \<le> index then None else Some (eventQueue d ! index))"

text \<open>Removing the last event drains the wake-up socket.\<close>

definition removeEvent :: "nat \<Rightarrow> display_data \<Rightarrow> display_data" where
  "removeEvent index d =
     (if length (eventQueue d) \<le> index then d
      else
        let q = take index (eventQueue d) @ drop (Suc index) (eventQueue d) in
        d\<lparr>eventQueue := q, wakeBytes := (if q = [] then 0 else wakeBytes d)\<rparr>)"

primrec find_event :: "u32 \<Rightarrow> c_int \<Rightarrow> nat \<Rightarrow> xevent list \<Rightarrow> nat option" where
  "find_event w type i [] = None"
| "find_event w type i (e # es) = (if e ! 0 = type \<and> e ! 4 = w then Some i else find_event w type (Suc i) es)"

definition findAndRemoveEvent :: "u32 \<Rightarrow> c_int \<Rightarrow> display_data \<Rightarrow> xevent option \<times> display_data" where
  "findAndRemoveEvent w type d =
     (case find_event w type 0 (eventQueue d) of
        None \<Rightarrow> (None, d)
      | Some i \<Rightarrow> (Some (eventQueue d ! i), removeEvent i d))"

text \<open>The single-threaded build: a second lock waits for the condition and reports no events.\<close>

definition lockEvents :: "display_data \<Rightarrow> nat \<times> display_data" where
  "lockEvents d =
     (if eventQueueIsLocked d then (0, d)
      else (length (eventQueue d), d\<lparr>eventQueueIsLocked := True\<rparr>))"

definition unlockEvents :: "display_data \<Rightarrow> display_data" where
  "unlockEvents d = d\<lparr>eventQueueIsLocked := False\<rparr>"

definition set_display :: "u32 \<Rightarrow> display_data \<Rightarrow> xserver \<Rightarrow> xserver" where
  "set_display i d h = h\<lparr>displays := (displays h)(i \<mapsto> d)\<rparr>"

section \<open>Windows by id\<close>

definition getWindow :: "u32 \<Rightarrow> xserver \<Rightarrow> xwindow option" where
  "getWindow i h = (case windows h i of None \<Rightarrow> None | Some w \<Rightarrow> if w_listed w then Some w else None)"

text \<open>An update through a pointer to the object.\<close>

definition upd_window :: "u32 \<Rightarrow> (xwindow \<Rightarrow> xwindow) \<Rightarrow> xserver \<Rightarrow> xserver" where
  "upd_window i f h = h\<lparr>windows := (\<lambda>j. if j = i then map_option f (windows h j) else windows h j)\<rparr>"

definition parent_of :: "u32 \<Rightarrow> xserver \<Rightarrow> u32 option" where
  "parent_of i h = (case windows h i of None \<Rightarrow> None | Some w \<Rightarrow> w_parent w)"

section \<open>Notification\<close>

definition getEventMask :: "u32 \<Rightarrow> display_data \<Rightarrow> u32" where
  "getEventMask w d = (case perWindowEventMask d w of None \<Rightarrow> 0 | Some m \<Rightarrow> m)"

definition setEventMask :: "u32 \<Rightarrow> u32 \<Rightarrow> display_data \<Rightarrow> display_data" where
  "setEventMask w m d = d\<lparr>perWindowEventMask := (perWindowEventMask d)(w \<mapsto> m)\<rparr>"

definition getNextEventSerial :: "display_data \<Rightarrow> u32 \<times> display_data" where
  "getNextEventSerial d = (requestCounter d + 1, d\<lparr>requestCounter := requestCounter d + 1\<rparr>)"

definition upd_display :: "u32 \<Rightarrow> (display_data \<Rightarrow> display_data) \<Rightarrow> xserver \<Rightarrow> xserver" where
  "upd_display i f h = (case displays h i of None \<Rightarrow> h | Some d \<Rightarrow> set_display i (f d) h)"

text \<open>\<^verbatim>\<open>iterateEventMask\<close>: the keys are collected first; a display is visited when it still exists and
  selected one of the events of the mask on the window.\<close>

definition iterateEventMask :: "u32 \<Rightarrow> u32 \<Rightarrow> (u32 \<Rightarrow> xserver \<Rightarrow> xserver) \<Rightarrow> xserver \<Rightarrow> xserver" where
  "iterateEventMask w m f h = fold (\<lambda>i h. case displays h i of
       None \<Rightarrow> h
     | Some d \<Rightarrow> if getEventMask w d AND m \<noteq> 0 then f i h else h) (displayOrder h) h"

text \<open>An event with the next serial of the display, at the back of its queue; the words after those given
  are zero.\<close>

definition event_words_of :: "u32 list \<Rightarrow> xevent" where
  "event_words_of ws = ws @ replicate (24 - length ws) 0"

definition queue_event :: "(display_data \<Rightarrow> u32 \<Rightarrow> u32 list) \<Rightarrow> display_data \<Rightarrow> display_data" where
  "queue_event mk d = (case getNextEventSerial d of (serial, d') \<Rightarrow> putEvent (event_words_of (mk d serial)) False d')"

definition notify :: "u32 \<Rightarrow> u32 \<Rightarrow> (display_data \<Rightarrow> u32 \<Rightarrow> u32 list) \<Rightarrow> xserver \<Rightarrow> xserver" where
  "notify w m mk = iterateEventMask w m (\<lambda>i. upd_display i (queue_event mk))"

section \<open>Properties\<close>

definition PropertyNewValue :: u32 where "PropertyNewValue = 0"
definition PropertyDelete :: u32 where "PropertyDelete = 1"

text \<open>The words of the event: type, serial, \<^verbatim>\<open>send_event\<close>, display (0 for a 64-bit display), window,
  atom, time and state.\<close>

definition property_notify :: "u32 \<Rightarrow> u32 \<Rightarrow> u32 \<Rightarrow> xserver \<Rightarrow> xserver" where
  "property_notify w atom state h =
     notify w (ucast PropertyChangeMask) (\<lambda>d serial. [PropertyNotify, serial, 0, 0, w, atom, eventTime h, state]) h"

definition getProperty :: "u32 \<Rightarrow> u32 \<Rightarrow> xserver \<Rightarrow> xproperty option" where
  "getProperty w atom h = (case windows h w of None \<Rightarrow> None | Some win \<Rightarrow> w_properties win atom)"

text \<open>Deleting a property tells every display that watches the window; deleting one that is not there
  tells nobody.\<close>

definition deleteProperty :: "u32 \<Rightarrow> u32 \<Rightarrow> xserver \<Rightarrow> xserver" where
  "deleteProperty w atom h =
     (let h1 = upd_window w (\<lambda>win. win\<lparr>w_properties := (w_properties win)(atom := None)\<rparr>) h in
      case getProperty w atom h of None \<Rightarrow> h1 | Some _ \<Rightarrow> property_notify w atom PropertyDelete h1)"

text \<open>Storing one tells them too; the text a client exports through the selection window goes to the
  native clipboard and the property is deleted again.\<close>

definition EXPORT_CLIPBOARD :: u32 where "EXPORT_CLIPBOARD = 112"

definition setProperty :: "u32 \<Rightarrow> u32 \<Rightarrow> u32 \<Rightarrow> u32 \<Rightarrow> u8 list \<Rightarrow> xserver \<Rightarrow> xserver" where
  "setProperty w atom type format bs h =
     (let h1 = property_notify w atom PropertyNewValue (upd_window w (\<lambda>win. win\<lparr>w_properties :=
                 (w_properties win)(atom \<mapsto> \<lparr>p_type = type, p_format = format, p_value = bs\<rparr>)\<rparr>) h) in
      if selectionWindow h1 = Some w \<and> atom = EXPORT_CLIPBOARD then deleteProperty w atom h1 else h1)"

end
