(* ===== verification/HostPointer.thy ===== *)
theory HostPointer
  imports HostState
begin

text \<open>
  Where the pointer is (\<^verbatim>\<open>source/x11/xserver.cpp\<close> and \<^verbatim>\<open>xwindow.cpp\<close>): walks up the parents of a window,
  the window under a point, the crossing events a move of the pointer sends, pointer grabs and the
  input focus.  A walk has fuel for as many windows as ids were ever given out, which is enough for
  every chain without a cycle; running out means the code's loop would not end.
\<close>

section \<open>Walks up the tree\<close>

text \<open>The walk from a window towards the root that stops in front of a window the loop's test accepts;
  the second component is where it stopped.\<close>

primrec walk_up :: "nat \<Rightarrow> (u32 \<Rightarrow> bool) \<Rightarrow> u32 option \<Rightarrow> xserver \<Rightarrow> (u32 list \<times> u32 option) option" where
  "walk_up 0 stop w h = (case w of
       None \<Rightarrow> Some ([], None)
     | Some i \<Rightarrow> if stop i then Some ([], Some i) else None)"
| "walk_up (Suc n) stop w h = (case w of
       None \<Rightarrow> Some ([], None)
     | Some i \<Rightarrow> if stop i then Some ([], Some i)
                 else map_option (\<lambda>(xs, e). (i # xs, e)) (walk_up n stop (parent_of i h) h))"

definition walk :: "(u32 \<Rightarrow> bool) \<Rightarrow> u32 option \<Rightarrow> xserver \<Rightarrow> (u32 list \<times> u32 option) option" where
  "walk stop w h = walk_up (unat (nextId h)) stop w h"

definition getAncestorTree :: "u32 \<Rightarrow> xserver \<Rightarrow> u32 list option" where
  "getAncestorTree w h = map_option fst (walk (\<lambda>_. False) (Some w) h)"

definition left_of :: "u32 \<Rightarrow> xserver \<Rightarrow> c_int" where
  "left_of i h = (case windows h i of None \<Rightarrow> 0 | Some w \<Rightarrow> w_left w)"
definition top_of :: "u32 \<Rightarrow> xserver \<Rightarrow> c_int" where
  "top_of i h = (case windows h i of None \<Rightarrow> 0 | Some w \<Rightarrow> w_top w)"
definition mapped_at :: "u32 \<Rightarrow> xserver \<Rightarrow> bool" where
  "mapped_at i h = (case windows h i of None \<Rightarrow> False | Some w \<Rightarrow> w_mapped w)"

definition windowToScreen :: "u32 \<Rightarrow> c_int \<times> c_int \<Rightarrow> xserver \<Rightarrow> (c_int \<times> c_int) option" where
  "windowToScreen w p h = map_option
     (\<lambda>ws. fold (\<lambda>i (x, y). (x + left_of i h, y + top_of i h)) ws p) (getAncestorTree w h)"

definition screenToWindow :: "u32 \<Rightarrow> c_int \<times> c_int \<Rightarrow> xserver \<Rightarrow> (c_int \<times> c_int) option" where
  "screenToWindow w p h = map_option
     (\<lambda>ws. fold (\<lambda>i (x, y). (x - left_of i h, y - top_of i h)) ws p) (getAncestorTree w h)"

definition isThisAndAncestorsMapped :: "u32 \<Rightarrow> xserver \<Rightarrow> bool option" where
  "isThisAndAncestorsMapped w h =
     map_option (\<lambda>(_, e). e = None) (walk (\<lambda>i. \<not> mapped_at i h) (Some w) h)"

definition doesThisOrAncestorHaveFocus :: "u32 \<Rightarrow> xserver \<Rightarrow> bool option" where
  "doesThisOrAncestorHaveFocus w h = (case inputFocus h of
       None \<Rightarrow> Some False
     | Some f \<Rightarrow> map_option (\<lambda>(_, e). e \<noteq> None) (walk (\<lambda>i. i = f) (Some w) h))"

text \<open>The last position at which the two chains, both counted from the window upwards, have the same
  window.\<close>

definition getLeastCommonAncestor :: "u32 \<Rightarrow> u32 \<Rightarrow> xserver \<Rightarrow> u32 option" where
  "getLeastCommonAncestor this wnd h =
     (if parent_of wnd h = Some this then Some this
      else if parent_of this h = Some wnd then Some wnd
      else if wnd = this then Some wnd
      else case (getAncestorTree this h, getAncestorTree wnd h) of
        (Some tree1, Some tree2) \<Rightarrow>
          Some (fold (\<lambda>(a, b) r. if a = b then a else r) (zip tree1 tree2) (root h))
      | _ \<Rightarrow> None)"

section \<open>The window under a point\<close>

definition isTransient :: "u32 \<Rightarrow> xserver \<Rightarrow> bool option" where
  "isTransient w h = (case windows h w of
       None \<Rightarrow> Some False
     | Some win \<Rightarrow>
         (case w_transientCached win of
            None \<Rightarrow> Some False
          | Some t \<Rightarrow> if getWindow t h = None then Some False else isThisAndAncestorsMapped t h))"

text \<open>The children the walk visits, from front to back: the mapped transients, then the mapped children;
  the flag marks those that are skipped when they are shown as transients of another window.\<close>

definition children_front_to_back :: "u32 \<Rightarrow> xserver \<Rightarrow> (u32 \<times> bool) list" where
  "children_front_to_back w h = (case windows h w of
       None \<Rightarrow> []
     | Some win \<Rightarrow> filter (\<lambda>(c, _). mapped_at c h)
         (map (\<lambda>c. (c, False)) (rev (w_transients win)) @ map (\<lambda>c. (c, True)) (rev (w_children win))))"

definition in_child :: "u32 \<Rightarrow> c_int \<times> c_int \<Rightarrow> xserver \<Rightarrow> bool" where
  "in_child c p h = (case windows h c of
       None \<Rightarrow> False
     | Some w \<Rightarrow> sint (w_left w) \<le> sint (fst p) \<and> sint (fst p) < sint (w_left w + w_width w) \<and>
         sint (w_top w) \<le> sint (snd p) \<and> sint (snd p) < sint (w_top w + w_height w))"

text \<open>What the visit of one child does: None when it does not return, otherwise the window found, if any.\<close>

definition visit_child :: "(u32 \<Rightarrow> u32 option) \<Rightarrow> c_int \<times> c_int \<Rightarrow> xserver \<Rightarrow> u32 \<Rightarrow> u32 option option" where
  "visit_child rec p h c =
     (case (case parent_of c h of None \<Rightarrow> None | Some q \<Rightarrow> screenToWindow q p h) of
        None \<Rightarrow> None
      | Some local \<Rightarrow>
          (case rec c of
             None \<Rightarrow> None
           | Some found \<Rightarrow>
               if in_child c local h then Some (Some found)
               else (case isTransient found h of
                  None \<Rightarrow> None
                | Some True \<Rightarrow> Some (Some found)
                | Some False \<Rightarrow> map_option (\<lambda>t. if t then Some c else None) (isTransient c h))))"

primrec scan_children :: "(u32 \<Rightarrow> u32 option) \<Rightarrow> c_int \<times> c_int \<Rightarrow> xserver \<Rightarrow> (u32 \<times> bool) list \<Rightarrow> u32 option option" where
  "scan_children rec p h [] = Some None"
| "scan_children rec p h (x # xs) =
     (case (if snd x then isTransient (fst x) h else Some False) of
        None \<Rightarrow> None
      | Some True \<Rightarrow> scan_children rec p h xs
      | Some False \<Rightarrow>
          (case visit_child rec p h (fst x) of
             Some None \<Rightarrow> scan_children rec p h xs
           | r \<Rightarrow> r))"

primrec from_point :: "nat \<Rightarrow> c_int \<times> c_int \<Rightarrow> xserver \<Rightarrow> u32 \<Rightarrow> u32 option" where
  "from_point 0 p h w = None"
| "from_point (Suc n) p h w =
     (case scan_children (from_point n p h) p h (children_front_to_back w h) of
        None \<Rightarrow> None
      | Some None \<Rightarrow> Some w
      | Some (Some r) \<Rightarrow> Some r)"

definition getWindowFromPoint :: "u32 \<Rightarrow> c_int \<times> c_int \<Rightarrow> xserver \<Rightarrow> u32 option" where
  "getWindowFromPoint w p h = from_point (Suc (unat (nextId h))) p h w"

section \<open>Crossing events\<close>

definition getInputModifiers :: "xserver \<Rightarrow> u32" where
  "getInputModifiers h = fold (\<lambda>(native, m) r. if nativeModifiers h AND native \<noteq> 0 then r OR m else r)
     [(0x01, 0x100), (0x02, 0x200), (0x04, 0x400), (0x08, 0x800), (0x10, 0x1000), (0x20, 0x01),
      (0x40, 0x02), (0x80, 0x04), (0x100, 0x08), (0x200, 0x10), (0x400, 0x20)] 0"

definition NotifyNormal :: u32 where "NotifyNormal = 0"
definition NotifyGrab :: u32 where "NotifyGrab = 1"
definition NotifyUngrab :: u32 where "NotifyUngrab = 2"

definition NotifyAncestor :: u32 where "NotifyAncestor = 0"
definition NotifyVirtual :: u32 where "NotifyVirtual = 1"
definition NotifyInferior :: u32 where "NotifyInferior = 2"
definition NotifyNonlinear :: u32 where "NotifyNonlinear = 3"
definition NotifyNonlinearVirtual :: u32 where "NotifyNonlinearVirtual = 4"

definition crossingNotify :: "bool \<Rightarrow> u32 \<Rightarrow> c_int \<times> c_int \<Rightarrow> u32 \<Rightarrow> u32 \<Rightarrow> u32 \<Rightarrow> xserver \<Rightarrow> xserver" where
  "crossingNotify inside w p mode detail i h =
     (case (screenToWindow w p h, doesThisOrAncestorHaveFocus w h) of
        (Some (x, y), Some focus) \<Rightarrow>
          upd_display i (queue_event (\<lambda>d serial. [if inside then EnterNotify else LeaveNotify, serial, 0, 0, w,
            d_root d, 0, eventTime h, x, y, fst p, snd p, mode, detail, 1, of_bool focus, getInputModifiers h])) h
      | _ \<Rightarrow> mark_stuck h)"

definition leave :: "u32 \<Rightarrow> c_int \<times> c_int \<Rightarrow> u32 \<Rightarrow> u32 \<Rightarrow> xserver \<Rightarrow> xserver" where
  "leave w p mode detail = iterateEventMask w (ucast LeaveWindowMask) (crossingNotify False w p mode detail)"

definition enter :: "u32 \<Rightarrow> c_int \<times> c_int \<Rightarrow> u32 \<Rightarrow> u32 \<Rightarrow> xserver \<Rightarrow> xserver" where
  "enter w p mode detail = iterateEventMask w (ucast EnterWindowMask) (crossingNotify True w p mode detail)"

text \<open>The windows strictly between a window and one above it, from the bottom.\<close>

definition between :: "u32 \<Rightarrow> u32 \<Rightarrow> xserver \<Rightarrow> u32 list option" where
  "between w stop h = map_option fst (walk (\<lambda>i. i = stop) (parent_of w h) h)"

definition pointerMovedParentToChild :: "u32 \<Rightarrow> u32 \<Rightarrow> c_int \<times> c_int \<Rightarrow> u32 \<Rightarrow> xserver \<Rightarrow> xserver" where
  "pointerMovedParentToChild from dest p mode h =
     (let h1 = leave from p mode NotifyAncestor h in
      case between dest from h1 of
        None \<Rightarrow> mark_stuck h1
      | Some ws \<Rightarrow>
          enter dest p mode NotifyInferior
            (fold (\<lambda>w. leave w p mode NotifyVirtual) (rev ws) h1))"

definition pointerMovedChildToParent :: "u32 \<Rightarrow> u32 \<Rightarrow> c_int \<times> c_int \<Rightarrow> u32 \<Rightarrow> xserver \<Rightarrow> xserver" where
  "pointerMovedChildToParent from dest p mode h =
     (let h1 = leave from p mode NotifyInferior h in
      case between from dest h1 of
        None \<Rightarrow> mark_stuck h1
      | Some ws \<Rightarrow>
          enter dest p mode NotifyInferior
            (fold (\<lambda>w. enter w p mode NotifyVirtual) ws h1))"

definition pointerMovedBetweenSiblings :: "u32 \<Rightarrow> u32 \<Rightarrow> u32 \<Rightarrow> c_int \<times> c_int \<Rightarrow> u32 \<Rightarrow> xserver \<Rightarrow> xserver" where
  "pointerMovedBetweenSiblings from dest commonAncestor p mode h =
     (let h1 = leave from p mode NotifyNonlinear h in
      case between from commonAncestor h1 of
        None \<Rightarrow> mark_stuck h1
      | Some up \<Rightarrow>
          let h2 = fold (\<lambda>w. leave w p mode NotifyNonlinearVirtual) up h1 in
          (case between dest commonAncestor h2 of
             None \<Rightarrow> mark_stuck h2
           | Some down \<Rightarrow>
               enter dest p mode NotifyNonlinear
                 (fold (\<lambda>w. enter w p mode NotifyNonlinearVirtual) (rev down) h2)))"

definition pointerMoved :: "u32 \<Rightarrow> u32 \<Rightarrow> c_int \<times> c_int \<Rightarrow> u32 \<Rightarrow> xserver \<Rightarrow> xserver" where
  "pointerMoved from dest p mode h =
     (case getLeastCommonAncestor from dest h of
        None \<Rightarrow> mark_stuck h
      | Some commonAncestor \<Rightarrow>
          if commonAncestor = from then pointerMovedParentToChild from dest p mode h
          else if commonAncestor = dest then pointerMovedChildToParent from dest p mode h
          else pointerMovedBetweenSiblings from dest commonAncestor p mode h)"

text \<open>What mapping and unmapping do afterwards: the window under the pointer may be another one.\<close>

definition refresh_pointer :: "xserver \<Rightarrow> xserver" where
  "refresh_pointer h =
     (let p = (mouseX h, mouseY h) in
      case getWindowFromPoint (root h) p h of
        None \<Rightarrow> mark_stuck h
      | Some wnd \<Rightarrow>
          if wnd = pointerWindow h then h
          else (pointerMoved (pointerWindow h) wnd p NotifyNormal h)\<lparr>pointerWindow := wnd\<rparr>)"

section \<open>Grabs and focus\<close>

definition ungrabPointer :: "xserver \<Rightarrow> xserver" where
  "ungrabPointer h =
     (if grabbedId h = 0 then h
      else
        let prev = (if getWindow (grabbedId h) h = None then None else Some (grabbedId h));
            h1 = h\<lparr>grabbedId := 0, grabbedDisplayId := 0, grabbedConfinedId := 0, isGrabbed := False\<rparr>;
            p = (mouseX h, mouseY h) in
        (case getWindowFromPoint (root h1) p h1 of
           None \<Rightarrow> mark_stuck h1
         | Some wnd \<Rightarrow>
             let h2 = h1\<lparr>pointerWindow := wnd\<rparr> in
             (case prev of None \<Rightarrow> h2 | Some w \<Rightarrow> pointerMoved w wnd p NotifyUngrab h2)))"

definition grabPointer :: "u32 \<Rightarrow> u32 \<Rightarrow> u32 option \<Rightarrow> u32 \<Rightarrow> u32 \<Rightarrow> xserver \<Rightarrow> xserver" where
  "grabPointer i grabbed confined m time h =
     (let h1 = h\<lparr>grabbedId := grabbed,
                 grabbedConfinedId := (case confined of None \<Rightarrow> grabbedConfinedId h | Some c \<Rightarrow> c),
                 grabbedMask := m, grabbedTime := (if time = 0 then eventTime h else time),
                 grabbedDisplayId := i, isGrabbed := True\<rparr> in
      if pointerWindow h1 = grabbed then h1
      else (pointerMoved (pointerWindow h1) grabbed (mouseX h1, mouseY h1) NotifyGrab h1)\<lparr>pointerWindow := grabbed\<rparr>)"

definition NotifyDetailNone :: u32 where "NotifyDetailNone = 7"

definition focusNotify :: "u32 \<Rightarrow> bool \<Rightarrow> xserver \<Rightarrow> xserver" where
  "focusNotify w isIn = notify w (ucast FocusChangeMask)
     (\<lambda>d serial. [if isIn then FocusIn else FocusOut, serial, 0, 0, w, NotifyNormal, NotifyDetailNone])"

definition PointerRoot :: u32 where "PointerRoot = 1"

definition setInputFocus :: "u32 \<Rightarrow> u32 \<Rightarrow> xserver \<Rightarrow> xserver" where
  "setInputFocus window revertTo h =
     (let h1 = h\<lparr>inputFocusRevertTo := revertTo, inputFocusIsPointerRoot := (window = PointerRoot)\<rparr>;
          w = (if window = PointerRoot then Some (root h1)
               else if getWindow window h1 = None then None else Some window) in
      if inputFocus h1 = w then h1
      else
        let h2 = (case inputFocus h1 of None \<Rightarrow> h1 | Some f \<Rightarrow> focusNotify f False h1);
            h3 = h2\<lparr>inputFocus := w\<rparr> in
        (case w of None \<Rightarrow> h3 | Some f \<Rightarrow> focusNotify f True h3))"

end
