(* ===== verification/HostServer.thy ===== *)
theory HostServer
  imports HostPointer
begin

text \<open>
  The host's operations on its X server that answer about displays, queues, atoms, properties, the
  window tree, selections and the keyboard (\<^verbatim>\<open>source/x11/x11bridge64.cpp\<close>).  A handler takes the
  call and the server and returns the status with both updated.  Diagnostics are not modelled.
\<close>

section \<open>Displays\<close>

text \<open>\<^verbatim>\<open>displayFor\<close>: the id in the private tail of the guest's Display must name a display that was
  opened at that very address.\<close>

definition displayFor :: "u64 \<Rightarrow> hcall \<Rightarrow> xserver \<Rightarrow> (u32 \<times> display_data) option \<times> hcall" where
  "displayFor a c h =
     (if a = 0 then (None, c)
      else case h_read32 (a + of_nat DISPLAY_ID_OFFSET) c of
        (None, c1) \<Rightarrow> (None, c1)
      | (Some i, c1) \<Rightarrow>
          (case displays h i of
             None \<Rightarrow> (None, c1)
           | Some d \<Rightarrow> if displayAddress64 d \<noteq> a then (None, c1) else (Some (i, d), c1)))"

definition require_display :: "(u32 \<Rightarrow> display_data \<Rightarrow> xserver handler) \<Rightarrow> xserver handler" where
  "require_display f c h =
     (case displayFor (arg c 0) c h of
        (None, c1) \<Rightarrow> (E_DISPLAY, c1, h)
      | (Some (i, d), c1) \<Rightarrow> f i d c1 h)"

definition registerDisplay64 :: "u64 \<Rightarrow> u32 \<Rightarrow> u32 \<Rightarrow> xserver \<Rightarrow> u32 \<times> xserver" where
  "registerDisplay64 a cfd sfd h =
     (let i = nextId h + 1 in
      (i, h\<lparr>nextId := i, displayOrder := displayOrder h @ [i], displays := (displays h)(i \<mapsto>
            \<lparr>displayAddress64 = a, d_root = root h, clientFd = cfd, serverFd = sfd, eventQueue = [],
             eventQueueIsLocked = False, wakeBytes = 0, perWindowEventMask = (\<lambda>_. None),
             requestCounter = 0\<rparr>)\<rparr>))"

text \<open>A display that goes away releases the pointer first.\<close>

definition unregisterDisplay64 :: "u32 \<Rightarrow> xserver \<Rightarrow> xserver" where
  "unregisterDisplay64 i h =
     (let h1 = (if grabbedDisplayId h = i then ungrabPointer h else h) in
      h1\<lparr>displays := (displays h1)(i := None), displayOrder := remove1 i (displayOrder h1)\<rparr>)"

definition op_CLOSE_DISPLAY :: "xserver handler" where
  "op_CLOSE_DISPLAY = require_args 1 (require_display (\<lambda>i d c h. (0, c, unregisterDisplay64 i h)))"

section \<open>Event operations\<close>

definition op_LOCK_EVENTS :: "xserver handler" where
  "op_LOCK_EVENTS = require_args 1 (require_display (\<lambda>i d c h.
     case lockEvents d of (n, d') \<Rightarrow> (of_nat n, c, set_display i d' h)))"

text \<open>The index is truncated to 32 bits.\<close>

definition op_GET_EVENT :: "xserver handler" where
  "op_GET_EVENT = require_args 3 (require_display (\<lambda>i d c h.
     case getEvent (unat (uarg c 1)) d of
       None \<Rightarrow> (0, c, h)
     | Some ev \<Rightarrow>
         (case h_write (arg c 2) (writeEvent64 ev (displayAddress64 d)) c of
            (ok, c1) \<Rightarrow> (if ok then 1 else E_FAULT, c1, h))))"

definition op_REMOVE_EVENT :: "xserver handler" where
  "op_REMOVE_EVENT = require_args 2 (require_display (\<lambda>i d c h.
     (0, c, set_display i (removeEvent (unat (uarg c 1)) d) h)))"

definition op_UNLOCK_EVENTS :: "xserver handler" where
  "op_UNLOCK_EVENTS = require_args 1 (require_display (\<lambda>i d c h.
     (0, c, set_display i (unlockEvents d) h)))"

definition op_CHECK_TYPED_WINDOW_EVENT :: "xserver handler" where
  "op_CHECK_TYPED_WINDOW_EVENT = require_args 4 (require_display (\<lambda>i d c h.
     case getWindow (uarg c 1) h of
       None \<Rightarrow> (0, c, h)
     | Some _ \<Rightarrow>
         (case findAndRemoveEvent (uarg c 1) (iarg c 2) d of
            (None, d') \<Rightarrow> (0, c, h)
          | (Some ev, d') \<Rightarrow>
              (case h_write (arg c 3) (writeEvent64 ev (displayAddress64 d)) c of
                 (ok, c1) \<Rightarrow> (if ok then 1 else E_FAULT, c1, set_display i d' h)))))"

text \<open>The display word of the event is the 32-bit display address, which a 64-bit display keeps at
  zero; the event goes to the front of the queue.\<close>

definition op_PUT_BACK_EVENT :: "xserver handler" where
  "op_PUT_BACK_EVENT = require_args 2 (require_display (\<lambda>i d c h.
     case h_read (arg c 1) XEvent_size c of
       (None, c1) \<Rightarrow> (E_FAULT, c1, h)
     | (Some raw, c1) \<Rightarrow>
         (0, c1, set_display i (putEvent ((readEvent64 raw)[3 := 0]) True d) h)))"

definition op_SELECT_INPUT :: "xserver handler" where
  "op_SELECT_INPUT = require_args 3 (require_display (\<lambda>i d c h.
     case getWindow (uarg c 1) h of
       None \<Rightarrow> (3, c, h)
     | Some _ \<Rightarrow> (0, c, set_display i (setEventMask (uarg c 1) (uarg c 2) d) h)))"

section \<open>Strings from the guest\<close>

text \<open>\<^verbatim>\<open>readString\<close>: chunks of at most 256 bytes that stop at page ends, up to the limit; \<^verbatim>\<open>fuel\<close>
  bounds the number of chunks, and a chunk is at least one byte.\<close>

primrec read_chunks :: "nat \<Rightarrow> nat \<Rightarrow> u64 \<Rightarrow> u8 list \<Rightarrow> hcall \<Rightarrow> u8 list \<times> hcall" where
  "read_chunks 0 limit a acc c = (acc, c)"
| "read_chunks (Suc fuel) limit a acc c =
     (if limit \<le> length acc then (acc, c)
      else
        let pageRemaining = 4096 - unat a mod 4096;
            n = min pageRemaining 256 in
        case h_read a n c of
          (None, c1) \<Rightarrow> ([], c1)
        | (Some chunk, c1) \<Rightarrow>
            if 0 \<in> set chunk then (acc @ takeWhile (\<lambda>b. b \<noteq> 0) chunk, c1)
            else read_chunks fuel limit (a + of_nat n) (acc @ chunk) c1)"

definition readString :: "u64 \<Rightarrow> nat \<Rightarrow> hcall \<Rightarrow> u8 list \<times> hcall" where
  "readString a limit c = (if a = 0 then ([], c) else read_chunks limit limit a [] c)"

section \<open>Atoms\<close>

definition internAtom :: "u8 list \<Rightarrow> bool \<Rightarrow> xserver \<Rightarrow> u32 \<times> xserver" where
  "internAtom name onlyIfExists h =
     (case reverseAtoms h name of
        Some a \<Rightarrow> (a, h)
      | None \<Rightarrow>
          if onlyIfExists then (0, h)
          else let a = nextAtomID h + 1 in
            (a, h\<lparr>nextAtomID := a, atoms := (atoms h)(a \<mapsto> name), reverseAtoms := (reverseAtoms h)(name \<mapsto> a)\<rparr>))"

definition op_INTERN_ATOM :: "xserver handler" where
  "op_INTERN_ATOM = require_args 3 (\<lambda>c h.
     case readString (arg c 1) 65536 c of (name, c1) \<Rightarrow>
       if c_faulted c1 then (E_FAULT, c1, h)
       else case internAtom name (arg c1 2 \<noteq> 0) h of (a, h') \<Rightarrow> (ucast a, c1, h'))"

primrec intern_atoms :: "nat \<Rightarrow> u64 \<Rightarrow> u64 \<Rightarrow> bool \<Rightarrow> hcall \<Rightarrow> xserver \<Rightarrow> s64 \<times> hcall \<times> xserver" where
  "intern_atoms 0 names out onlyIfExists c h = (1, c, h)"
| "intern_atoms (Suc n) names out onlyIfExists c h =
     (case h_read64 names c of
        (None, c1) \<Rightarrow> (E_FAULT, c1, h)
      | (Some nameAddress, c1) \<Rightarrow>
          (case readString nameAddress 65536 c1 of (name, c2) \<Rightarrow>
             if c_faulted c2 then (E_FAULT, c2, h)
             else case internAtom name onlyIfExists h of (a, h') \<Rightarrow>
               (case h_write64 out (ucast a) c2 of
                  (False, c3) \<Rightarrow> (E_FAULT, c3, h')
                | (True, c3) \<Rightarrow> intern_atoms n (names + 8) (out + 8) onlyIfExists c3 h')))"

definition op_INTERN_ATOMS :: "xserver handler" where
  "op_INTERN_ATOMS = require_args 5 (\<lambda>c h.
     if 4096 < unat (arg c 2) then (E_ARGS, c, h)
     else intern_atoms (unat (arg c 2)) (arg c 1) (arg c 4) (arg c 3 \<noteq> 0) c h)"

text \<open>A sized result followed by a status.\<close>

definition sized_then :: "nat \<Rightarrow> u8 list \<Rightarrow> s64 \<Rightarrow> xserver handler" where
  "sized_then slot bs s c h =
     (case sizedResult slot bs c of (Inl e, c1) \<Rightarrow> (e, c1, h) | (Inr _, c1) \<Rightarrow> (s, c1, h))"

definition op_GET_ATOM_NAME :: "xserver handler" where
  "op_GET_ATOM_NAME = require_args 4 (\<lambda>c h.
     case atoms h (uarg c 1) of
       None \<Rightarrow> (0, c, h)
     | Some name \<Rightarrow> sized_then 2 (name @ [0]) (of_nat (length name + 1)) c h)"

section \<open>Keyboard tables\<close>

definition op_GET_KEYBOARD_MAPPING :: "xserver handler" where
  "op_GET_KEYBOARD_MAPPING = require_args 5 (\<lambda>c h.
     let first = arg c 1; count = arg c 2 in
     if count = 0 \<or> 256 < unat count \<or> (scast (maxKeycode h) :: u64) < first + count - 1 then (2, c, h)
     else sized_then 3
       (concat (map (\<lambda>i. concat (map (\<lambda>j. le_bytes 8 (ucast (keycodeToKeysym h (ucast (first + of_nat i)) (of_nat j)) :: u64)) [0..<6]))
                    [0..<unat count])) 6 c h)"

definition op_KEYSYM_TO_STRING :: "xserver handler" where
  "op_KEYSYM_TO_STRING = require_args 3 (\<lambda>c h.
     case keysymName h (uarg c 0) of
       None \<Rightarrow> (0, c, h)
     | Some name \<Rightarrow> sized_then 1 (name @ [0]) (of_nat (length name + 1)) c h)"

definition op_GET_MODIFIER_MAPPING :: "xserver handler" where
  "op_GET_MODIFIER_MAPPING = require_args 2 (\<lambda>c h.
     case h_write (arg c 1) (take 8 (modifiers h)) c of (ok, c1) \<Rightarrow> (if ok then 1 else E_FAULT, c1, h))"

section \<open>The window tree and selections\<close>

definition op_QUERY_TREE :: "xserver handler" where
  "op_QUERY_TREE = require_args 6 (\<lambda>c h.
     case getWindow (uarg c 1) h of
       None \<Rightarrow> (0, c, h)
     | Some w \<Rightarrow>
         let ids = w_children w; bytes = concat (map (\<lambda>i. le_bytes 8 (ucast i :: u64)) ids) in
         (case h_write64 (arg c 2) (ucast (root h)) c of
            (False, c1) \<Rightarrow> (E_FAULT, c1, h)
          | (True, c1) \<Rightarrow>
              (case h_write64 (arg c1 3) (case w_parent w of None \<Rightarrow> 0 | Some p \<Rightarrow> ucast p) c1 of
                 (False, c2) \<Rightarrow> (E_FAULT, c2, h)
               | (True, c2) \<Rightarrow>
                   if ids \<noteq> [] then
                     (case sizedResult 4 bytes c2 of
                        (Inl e, c3) \<Rightarrow> (e, c3, h)
                      | (Inr _, c3) \<Rightarrow> (of_nat (length ids), setArg 5 (of_nat (length bytes)) c3, h))
                   else (0, setArg 5 0 c2, h))))"

definition op_SET_SELECTION_OWNER :: "xserver handler" where
  "op_SET_SELECTION_OWNER = require_args 4 (\<lambda>c h. (0, c, h\<lparr>selectionOwner := uarg c 2\<rparr>))"

definition op_GET_SELECTION_OWNER :: "xserver handler" where
  "op_GET_SELECTION_OWNER c h = (ucast (selectionOwner h), c, h)"

section \<open>Window properties\<close>

definition words64 :: "u8 list \<Rightarrow> nat \<Rightarrow> u64 list" where
  "words64 bs n = map (\<lambda>i. le_word (take 8 (drop (8 * i) bs))) [0..<n]"

definition words32 :: "u8 list \<Rightarrow> nat \<Rightarrow> u32 list" where
  "words32 bs n = map (\<lambda>i. le_word (take 4 (drop (4 * i) bs))) [0..<n]"

text \<open>Format 32 takes longs from a 64-bit client and keeps their low words.\<close>

definition op_CHANGE_PROPERTY :: "xserver handler" where
  "op_CHANGE_PROPERTY = require_args 8 (\<lambda>c h.
     let w = uarg c 1; property = uarg c 2; type = uarg c 3; format = uarg c 4; mode = uarg c 5;
         dataAddress = arg c 6; nelements = arg c 7 in
     case getWindow w h of
       None \<Rightarrow> (3, c, h)
     | Some _ \<Rightarrow>
         if atoms h property = None \<or> atoms h type = None then (5, c, h)
         else if format \<noteq> 8 \<and> format \<noteq> 16 \<and> format \<noteq> 32 then (2, c, h)
         else if mode \<noteq> 0 then (17, c, h)
         else if 1024 * 1024 < unat nelements then (2, c, h)
         else
           let n = unat nelements in
           (case h_read dataAddress (if format = 32 then n * 8 else n * (unat format div 8)) c of
              (None, c1) \<Rightarrow> (E_FAULT, c1, h)
            | (Some raw, c1) \<Rightarrow>
                let bytes = (if format = 32
                             then concat (map (\<lambda>x. le_bytes 4 (ucast x :: u32)) (words64 raw n)) else raw)
                in (0, c1, setProperty w property type format bytes h)))"

definition op_DELETE_PROPERTY :: "xserver handler" where
  "op_DELETE_PROPERTY = require_args 3 (\<lambda>c h.
     case getWindow (uarg c 1) h of
       None \<Rightarrow> (3, c, h)
     | Some _ \<Rightarrow> if atoms h (uarg c 2) = None then (5, c, h)
                 else (0, c, deleteProperty (uarg c 1) (uarg c 2) h))"

text \<open>Writes in sequence, stopping at the first fault.\<close>

primrec h_writes :: "(u64 \<times> u8 list) list \<Rightarrow> hcall \<Rightarrow> bool \<times> hcall" where
  "h_writes [] c = (True, c)"
| "h_writes (x # xs) c = (case h_write (fst x) (snd x) c of (False, c1) \<Rightarrow> (False, c1) | (True, c1) \<Rightarrow> h_writes xs c1)"

definition op_GET_WINDOW_PROPERTY :: "xserver handler" where
  "op_GET_WINDOW_PROPERTY = require_args 13 (\<lambda>c h.
     let w = uarg c 1; property = uarg c 2; longOffset = arg c 3 * 4; longLength = arg c 4 * 4;
         remove = (arg c 5 \<noteq> 0); reqType = uarg c 6;
         put64 = (\<lambda>i v. (arg c i, le_bytes 8 (v :: u64))); put32 = (\<lambda>i v. (arg c i, le_bytes 4 (v :: u32))) in
     case h_writes [put64 7 0, put32 8 0, put64 9 0, put64 10 0] c of
       (False, c1) \<Rightarrow> (E_FAULT, c1, h)
     | (True, c1) \<Rightarrow>
         (case getWindow w h of
            None \<Rightarrow> (3, c1, h)
          | Some win \<Rightarrow>
              if atoms h property = None then (5, c1, h)
              else if reqType \<noteq> 0 \<and> atoms h reqType = None then (5, c1, h)
              else case w_properties win property of
                None \<Rightarrow> (0, setArg 12 0 c1, h)
              | Some prop \<Rightarrow>
                  let len = length (p_value prop) in
                  if len < unat longOffset then (2, c1, h)
                  else case h_writes [put64 7 (ucast (p_type prop)), put32 8 (p_format prop)] c1 of
                    (False, c2) \<Rightarrow> (E_FAULT, c2, h)
                  | (True, c2) \<Rightarrow>
                      if reqType \<noteq> 0 \<and> reqType \<noteq> p_type prop then
                        (case h_writes [put64 10 (of_nat len)] (setArg 12 0 c2) of
                           (ok, c3) \<Rightarrow> (if ok then 0 else E_FAULT, c3, h))
                      else
                        let off = unat longOffset;
                            toCopy = min (unat longLength) (len - off);
                            items = toCopy div 4;
                            chunk = take toCopy (drop off (p_value prop));
                            bytes = (if p_format prop = 32
                                     then concat (map (\<lambda>x. le_bytes 8 (scast x :: u64)) (words32 (drop off (p_value prop)) items))
                                          @ replicate 8 0
                                     else chunk @ [0]);
                            nitems = (if p_format prop = 32 then items else toCopy * 8 div unat (p_format prop)) in
                        (case sizedResult 11 bytes c2 of
                           (Inl e, c3) \<Rightarrow> (e, c3, h)
                         | (Inr _, c3) \<Rightarrow>
                             (case h_writes [put64 9 (of_nat nitems), put64 10 (of_nat (len - off - toCopy))] c3 of
                                (False, c4) \<Rightarrow> (E_FAULT, c4, h)
                              | (True, c4) \<Rightarrow>
                                  (0, c4, if remove \<and> len - off - toCopy = 0
                                          then deleteProperty w property h else h)))))"

end
