(* ===== verification/HostWindows.thy ===== *)
theory HostWindows
  imports HostPointer HostServer
begin

text \<open>
  Windows on the host (\<^verbatim>\<open>source/x11/xwindow.cpp\<close>, \<^verbatim>\<open>xserver.cpp\<close> and the window handlers of
  \<^verbatim>\<open>x11bridge64.cpp\<close>): creation and destruction, mapping, geometry and stacking, attributes,
  reparenting, coordinates, focus and grabs, with the events each of them sends and the background they
  paint.  The native window and the one-window full-screen mode are not modelled.
\<close>

section \<open>The pixels of a window\<close>

text \<open>The bits per pixel of a visual; without a visual the buffer is laid out for 32.\<close>

definition visual_bits :: "u32 option \<Rightarrow> xserver \<Rightarrow> c_int option" where
  "visual_bits v h = (case v of
       None \<Rightarrow> None
     | Some i \<Rightarrow> map_option (\<lambda>(d, x). v_bits_per_rgb x) (List.find (\<lambda>(d, x). v_visualid x = i) (visuals h)))"

definition new_buffer :: "u32 option \<Rightarrow> u32 \<Rightarrow> u32 \<Rightarrow> xserver \<Rightarrow> xbuffer" where
  "new_buffer v width height h =
     \<lparr>b_size = buffer_size (case visual_bits v h of None \<Rightarrow> 32 | Some b \<Rightarrow> b) width height, b_data = (\<lambda>_. 0)\<rparr>"

definition set_buffer :: "u32 \<Rightarrow> xbuffer \<Rightarrow> xserver \<Rightarrow> xserver" where
  "set_buffer i b h = h\<lparr>buffers := (buffers h)(i := b)\<rparr>"

text \<open>A new size is a new buffer of zeros.\<close>

definition setSize :: "u32 \<Rightarrow> u32 \<Rightarrow> u32 \<Rightarrow> xserver \<Rightarrow> xserver" where
  "setSize i width height h =
     set_buffer i (new_buffer (case windows h i of None \<Rightarrow> None | Some w \<Rightarrow> w_visual w) width height h)
       (upd_window i (\<lambda>w. w\<lparr>w_width := width, w_height := height\<rparr>) h)"

text \<open>A drawable as a surface; there is none when it has no visual.\<close>

definition make_surface :: "u32 \<Rightarrow> u32 \<Rightarrow> u32 \<Rightarrow> u32 option \<Rightarrow> bool \<Rightarrow> dirty_box \<Rightarrow> xserver \<Rightarrow> surface option" where
  "make_surface i width height v win dirty h = (case visual_bits v h of
       None \<Rightarrow> None
     | Some bpp \<Rightarrow> Some \<lparr>s_w = width, s_h = height, s_bpp = bpp, s_pitch = calculateBytesPerLine bpp width,
         s_size = b_size (buffers h i), s_data = b_data (buffers h i), s_wild = False, s_isWindow = win, s_dirty = dirty\<rparr>)"

definition window_surface :: "u32 \<Rightarrow> xserver \<Rightarrow> surface option" where
  "window_surface i h = (case windows h i of
       None \<Rightarrow> None
     | Some w \<Rightarrow> make_surface i (w_width w) (w_height w) (w_visual w) True (w_dirty w) h)"

text \<open>What an operation on a surface leaves behind.\<close>

definition put_surface :: "u32 \<Rightarrow> surface \<Rightarrow> xserver \<Rightarrow> xserver" where
  "put_surface i s h =
     (let h1 = set_buffer i \<lparr>b_size = s_size s, b_data = s_data s\<rparr> (h\<lparr>wild := (wild h \<or> s_wild s)\<rparr>) in
      if s_isWindow s then upd_window i (\<lambda>w. w\<lparr>w_dirty := s_dirty s\<rparr>) h1 else h1)"

definition setDirty :: "u32 \<Rightarrow> xserver \<Rightarrow> xserver" where
  "setDirty i = upd_window i (\<lambda>w. w\<lparr>w_dirty := extend_dirty (w_width w) (w_height w) 0 0 (w_width w) (w_height w) (w_dirty w)\<rparr>)"

definition X11_ROOT_BACKGROUND_PIXEL :: u32 where "X11_ROOT_BACKGROUND_PIXEL = 0x003A6EA5"

text \<open>A window without a background of its own takes the root's, and only when it sits on the root; the
  recursion of the code goes one step up.\<close>

definition own_background :: "xwindow \<Rightarrow> u32 option" where
  "own_background w =
     (if w_hasBackgroundPixel w then Some (a_background_pixel (w_attrs w))
      else if w_parent w = None then Some X11_ROOT_BACKGROUND_PIXEL else None)"

definition backgroundFillPixel :: "u32 \<Rightarrow> xserver \<Rightarrow> u32" where
  "backgroundFillPixel i h = (case windows h i of
       None \<Rightarrow> 0
     | Some w \<Rightarrow>
         (case own_background w of
            Some c \<Rightarrow> c
          | None \<Rightarrow>
              (case Option.bind (w_parent w) (windows h) of
                 None \<Rightarrow> 0
               | Some p \<Rightarrow> if w_parent p = None then (case own_background p of None \<Rightarrow> 0 | Some c \<Rightarrow> c) else 0)))"

definition fill_surface :: "u32 \<Rightarrow> surface \<Rightarrow> surface" where
  "fill_surface c s = fold (\<lambda>(x, y). poke (int (unat (s_pitch s) * y + 4 * x)) (le_bytes 4 c)) (all_pixels s) s"

definition fillWithBackground :: "u32 \<Rightarrow> xserver \<Rightarrow> xserver" where
  "fillWithBackground i h = (case windows h i of
       None \<Rightarrow> h
     | Some w \<Rightarrow>
         if w_backgroundFilled w \<or> w_class w \<noteq> InputOutput then h
         else
           let h1 = upd_window i (\<lambda>w. w\<lparr>w_backgroundFilled := True\<rparr>) h; c = backgroundFillPixel i h in
           if c = 0 then h1
           else (case window_surface i h1 of
              None \<Rightarrow> h1
            | Some s \<Rightarrow>
                if 0 < s_size s \<and> s_bpp s = 32
                then put_surface i (setDirtyRect 0 0 (s_w s) (s_h s) (fill_surface c s)) h1
                else h1))"

text \<open>After a change of size the background is painted again.\<close>

definition resize_window :: "u32 \<Rightarrow> u32 \<Rightarrow> u32 \<Rightarrow> xserver \<Rightarrow> xserver" where
  "resize_window i width height h =
     fillWithBackground i (upd_window i (\<lambda>w. w\<lparr>w_backgroundFilled := False\<rparr>) (setSize i width height h))"

section \<open>Parents and children\<close>

definition addToParent :: "u32 \<Rightarrow> u32 \<Rightarrow> xserver \<Rightarrow> xserver" where
  "addToParent i p = upd_window p (\<lambda>w. w\<lparr>w_children := w_children w @ [i]\<rparr>)"

definition removeFromParent :: "u32 \<Rightarrow> u32 \<Rightarrow> xserver \<Rightarrow> xserver" where
  "removeFromParent i p = upd_window p (\<lambda>w. w\<lparr>w_children := remove1 i (w_children w)\<rparr>)"

text \<open>The events about a window go to those who watch its parent's substructure and then to those who
  watch the window itself; \<^verbatim>\<open>mk\<close> builds the words after the display word from the window the event is
  reported on.\<close>

definition tell_parent :: "u32 option \<Rightarrow> c_int \<Rightarrow> (u32 \<Rightarrow> u32 list) \<Rightarrow> xserver \<Rightarrow> xserver" where
  "tell_parent p type mk h = (case p of
       None \<Rightarrow> h
     | Some q \<Rightarrow> notify q (ucast SubstructureNotifyMask) (\<lambda>d serial. [type, serial, 0, 0, q] @ mk q) h)"

definition tell_self :: "u32 \<Rightarrow> c_int \<Rightarrow> (u32 \<Rightarrow> u32 list) \<Rightarrow> xserver \<Rightarrow> xserver" where
  "tell_self i type mk = notify i (ucast StructureNotifyMask) (\<lambda>d serial. [type, serial, 0, 0, i] @ mk i)"

section \<open>Attributes\<close>

definition CWBackPixmap :: u32 where "CWBackPixmap = 0x1"
definition CWBorderPixmap :: u32 where "CWBorderPixmap = 0x4"
definition CWBitGravity :: u32 where "CWBitGravity = 0x10"
definition CWWinGravity :: u32 where "CWWinGravity = 0x20"
definition CWBackingStore :: u32 where "CWBackingStore = 0x40"
definition CWBackingPlanes :: u32 where "CWBackingPlanes = 0x80"
definition CWBackingPixel :: u32 where "CWBackingPixel = 0x100"
definition CWOverrideRedirect :: u32 where "CWOverrideRedirect = 0x200"
definition CWSaveUnder :: u32 where "CWSaveUnder = 0x400"
definition CWEventMask :: u32 where "CWEventMask = 0x800"
definition CWDontPropagate :: u32 where "CWDontPropagate = 0x1000"
definition CWColormap :: u32 where "CWColormap = 0x2000"
definition CWCursor :: u32 where "CWCursor = 0x4000"

text \<open>The values a window starts with.\<close>

definition default_attributes :: window_attributes where
  "default_attributes = \<lparr>a_background_pixmap = 0, a_background_pixel = 0, a_border_pixmap = 0, a_border_pixel = 0,
     a_bit_gravity = 0, a_win_gravity = 1, a_backing_store = 0, a_backing_planes = 0xFFFFFFFF, a_backing_pixel = 0,
     a_save_under = 0, a_event_mask = 0, a_do_not_propagate_mask = 0, a_override_redirect = 0,
     a_colormap = 0, a_cursor = 0\<rparr>"

definition copyWithMask :: "window_attributes \<Rightarrow> u32 \<Rightarrow> window_attributes \<Rightarrow> window_attributes" where
  "copyWithMask new m old =
     (let pick = (\<lambda>bit f. if m AND bit \<noteq> 0 then f new else f old :: u32) in
      \<lparr>a_background_pixmap = pick CWBackPixmap a_background_pixmap,
       a_background_pixel = pick (ucast CWBackPixel) a_background_pixel,
       a_border_pixmap = pick CWBorderPixmap a_border_pixmap,
       a_border_pixel = pick (ucast CWBorderPixel) a_border_pixel,
       a_bit_gravity = pick CWBitGravity a_bit_gravity,
       a_win_gravity = pick CWWinGravity a_win_gravity,
       a_backing_store = pick CWBackingStore a_backing_store,
       a_backing_planes = pick CWBackingPlanes a_backing_planes,
       a_backing_pixel = pick CWBackingPixel a_backing_pixel,
       a_save_under = pick CWSaveUnder a_save_under,
       a_event_mask = pick CWEventMask a_event_mask,
       a_do_not_propagate_mask = pick CWDontPropagate a_do_not_propagate_mask,
       a_override_redirect = pick CWOverrideRedirect a_override_redirect,
       a_colormap = pick CWColormap a_colormap,
       a_cursor = pick CWCursor a_cursor\<rparr>)"

definition BadAccess :: s64 where "BadAccess = 10"

text \<open>Button presses, redirected substructure and redirected resizes go to one client only.\<close>

definition exclusive_mask :: u32 where
  "exclusive_mask = ucast ButtonPressMask OR ucast SubstructureRedirectMask OR ucast ResizeRedirectMask"

definition other_selects :: "u32 \<Rightarrow> u32 \<Rightarrow> xserver \<Rightarrow> bool" where
  "other_selects i w h \<longleftrightarrow> list_ex (\<lambda>j. j \<noteq> i \<and> (case displays h j of
       None \<Rightarrow> False | Some d \<Rightarrow> getEventMask w d AND exclusive_mask \<noteq> 0)) (displayOrder h)"

definition setAttributes :: "u32 \<Rightarrow> u32 \<Rightarrow> window_attributes \<Rightarrow> u32 \<Rightarrow> xserver \<Rightarrow> s64 \<times> xserver" where
  "setAttributes i w a m h =
     (if m AND CWEventMask \<noteq> 0 \<and> a_event_mask a AND exclusive_mask \<noteq> 0 \<and> other_selects i w h then (BadAccess, h)
      else
        let h1 = (if m AND CWEventMask \<noteq> 0 then upd_display i (setEventMask w (a_event_mask a)) h else h) in
        (0, upd_window w (\<lambda>win. win\<lparr>
            w_colorMap := (if m AND CWColormap \<noteq> 0
                           then map_option (\<lambda>_. a_colormap a) (colorMaps h1 (a_colormap a))
                           else w_colorMap win),
            w_hasBackgroundPixel := (m AND ucast CWBackPixel \<noteq> 0 \<or> w_hasBackgroundPixel win),
            w_attrs := copyWithMask a m (w_attrs win)\<rparr>) h1))"

section \<open>Creation and destruction\<close>

text \<open>The constructor; the child takes border and colormap from its parent.\<close>

definition new_window ::
  "u32 \<Rightarrow> u32 \<Rightarrow> u32 \<Rightarrow> u32 \<Rightarrow> u32 \<Rightarrow> c_int \<Rightarrow> c_int \<Rightarrow> u32 \<Rightarrow> u32 \<Rightarrow> u32 option \<Rightarrow> xserver \<Rightarrow> xwindow" where
  "new_window displayId parent width height depth x y cls border visual h =
     \<lparr>w_displayId = displayId, w_listed = True, w_parent = Some parent, w_children = [], w_transients = [],
      w_transientCached = None, w_left = x, w_top = y, w_width = width, w_height = height, w_border = border,
      w_class = cls, w_depth = depth, w_visual = visual, w_mapped = False, w_hasBackgroundPixel = False,
      w_backgroundFilled = False, w_dirty = None,
      w_attrs = (case windows h parent of
          None \<Rightarrow> default_attributes
        | Some p \<Rightarrow> default_attributes\<lparr>a_border_pixmap := a_border_pixmap (w_attrs p), a_colormap := a_colormap (w_attrs p)\<rparr>),
      w_colorMap = (case windows h parent of None \<Rightarrow> None | Some p \<Rightarrow> w_colorMap p),
      w_properties = (\<lambda>_. None)\<rparr>"

definition onCreate :: "u32 \<Rightarrow> xserver \<Rightarrow> xserver" where
  "onCreate i h = (case windows h i of
       None \<Rightarrow> h
     | Some w \<Rightarrow>
         (case w_parent w of
            None \<Rightarrow> h
          | Some p \<Rightarrow> tell_parent (Some p) CreateNotify
              (\<lambda>q. [i, w_left w, w_top w, w_width w, w_height w, w_border w]) (addToParent i p h)))"

definition createNewWindow ::
  "u32 \<Rightarrow> u32 \<Rightarrow> u32 \<Rightarrow> u32 \<Rightarrow> u32 \<Rightarrow> c_int \<Rightarrow> c_int \<Rightarrow> u32 \<Rightarrow> u32 \<Rightarrow> u32 option \<Rightarrow> xserver \<Rightarrow> u32 \<times> xserver" where
  "createNewWindow displayId parent width height depth x y cls border visual h =
     (let i = nextId h + 1 in
      (i, onCreate i (h\<lparr>nextId := i, buffers := (buffers h)(i := new_buffer visual width height h), windows := (windows h)(i \<mapsto>
            new_window displayId parent width height depth x y cls border visual h)\<rparr>)))"

definition XA_WM_TRANSIENT_FOR :: u32 where "XA_WM_TRANSIENT_FOR = 68"
definition XA_WINDOW :: u32 where "XA_WINDOW = 33"

text \<open>The first word of the property; a value of fewer than four bytes is read as if zeros followed.\<close>

definition WM_TRANSIENT_FOR :: "u32 \<Rightarrow> xserver \<Rightarrow> u32" where
  "WM_TRANSIENT_FOR w h = (case getProperty w XA_WM_TRANSIENT_FOR h of
       None \<Rightarrow> 0 | Some p \<Rightarrow> if p_value p = [] then 0 else le_word (take 4 (p_value p)))"

definition drop_transient :: "u32 \<Rightarrow> u32 \<Rightarrow> xserver \<Rightarrow> xserver" where
  "drop_transient w t h = (if t \<noteq> 0 \<and> getWindow t h \<noteq> None
     then upd_window t (\<lambda>win. win\<lparr>w_transients := remove1 w (w_transients win)\<rparr>) h else h)"

definition setTransient :: "u32 \<Rightarrow> u32 \<Rightarrow> xserver \<Rightarrow> xserver" where
  "setTransient w t h =
     (let prev = WM_TRANSIENT_FOR w h in
      if prev = t then h
      else
        let h1 = setProperty w XA_WM_TRANSIENT_FOR XA_WINDOW 32 (le_bytes 4 t) (drop_transient w prev h);
            known = t \<noteq> 0 \<and> getWindow t h1 \<noteq> None;
            h2 = (if known then upd_window t (\<lambda>win. win\<lparr>w_transients := w_transients win @ [w]\<rparr>) h1 else h1) in
        upd_window w (\<lambda>win. win\<lparr>w_transientCached := (if known then Some t else None)\<rparr>) h2)"

definition onDestroy :: "u32 \<Rightarrow> xserver \<Rightarrow> xserver" where
  "onDestroy w h =
     (let h1 = drop_transient w (WM_TRANSIENT_FOR w h) h in
      case parent_of w h1 of
        None \<Rightarrow> h1
      | Some p \<Rightarrow>
          tell_self w DestroyNotify (\<lambda>q. [w])
            (tell_parent (Some p) DestroyNotify (\<lambda>q. [w]) (removeFromParent w p h1)))"

definition BadWindow :: s64 where "BadWindow = 3"

definition destroyWindow :: "u32 \<Rightarrow> xserver \<Rightarrow> s64 \<times> xserver" where
  "destroyWindow w h =
     (if getWindow w h = None then (BadWindow, h)
      else
        let h1 = upd_window w (\<lambda>win. win\<lparr>w_listed := False\<rparr>) (onDestroy w h) in
        (0, if w = grabbedId h1 then ungrabPointer h1 else h1))"

section \<open>Mapping\<close>

definition WM_STATE :: u32 where "WM_STATE = 105"
definition WithdrawnState :: u32 where "WithdrawnState = 0"
definition NormalState :: u32 where "NormalState = 1"
definition InputOnly :: u32 where "InputOnly = 2"

definition setWmState :: "u32 \<Rightarrow> u32 \<Rightarrow> xserver \<Rightarrow> xserver" where
  "setWmState w state = setProperty w WM_STATE WM_STATE 32 (le_bytes 4 state @ le_bytes 4 (0 :: u32))"

definition class_of :: "u32 \<Rightarrow> xserver \<Rightarrow> u32" where
  "class_of i h = (case windows h i of None \<Rightarrow> 0 | Some w \<Rightarrow> w_class w)"
definition width_of :: "u32 \<Rightarrow> xserver \<Rightarrow> u32" where
  "width_of i h = (case windows h i of None \<Rightarrow> 0 | Some w \<Rightarrow> w_width w)"
definition height_of :: "u32 \<Rightarrow> xserver \<Rightarrow> u32" where
  "height_of i h = (case windows h i of None \<Rightarrow> 0 | Some w \<Rightarrow> w_height w)"
definition children_of :: "u32 \<Rightarrow> xserver \<Rightarrow> u32 list" where
  "children_of i h = (case windows h i of None \<Rightarrow> [] | Some w \<Rightarrow> w_children w)"
definition override_of :: "u32 \<Rightarrow> xserver \<Rightarrow> u32" where
  "override_of i h = (case windows h i of None \<Rightarrow> 0 | Some w \<Rightarrow> a_override_redirect (w_attrs w))"

text \<open>An Expose event to a display, and then one for every mapped descendant to every display that wants
  it; \<^verbatim>\<open>fuel\<close> bounds the depth of the tree.\<close>

primrec exposeNofity :: "nat \<Rightarrow> u32 \<Rightarrow> c_int \<Rightarrow> c_int \<Rightarrow> c_int \<Rightarrow> c_int \<Rightarrow> c_int \<Rightarrow> u32 \<Rightarrow> xserver \<Rightarrow> xserver" where
  "exposeNofity 0 w x y width height count i h = mark_stuck h"
| "exposeNofity (Suc n) w x y width height count i h =
     fold (\<lambda>c h. if mapped_at c h \<and> class_of c h = InputOutput
                 then iterateEventMask c (ucast ExposureMask)
                        (exposeNofity n c 0 0 (width_of c h) (height_of c h) 0) h
                 else h)
       (children_of w h)
       (upd_display i (queue_event (\<lambda>d serial. [Expose, serial, 0, 0, w, x, y, width, height, count])) h)"

definition expose_on :: "u32 \<Rightarrow> u32 \<Rightarrow> xserver \<Rightarrow> xserver" where
  "expose_on target w h = iterateEventMask target (ucast ExposureMask)
     (exposeNofity (Suc (unat (nextId h))) w 0 0 (width_of target h) (height_of target h) 0) h"

definition mapWindow :: "u32 \<Rightarrow> xserver \<Rightarrow> xserver" where
  "mapWindow i h =
     (if mapped_at i h then h
      else
        let h1 = setWmState i NormalState (setDirty i (upd_window i (\<lambda>w. w\<lparr>w_mapped := True\<rparr>) h));
            words = (\<lambda>q. [i, override_of i h]);
            h2 = fillWithBackground i (tell_self i MapNotify words (tell_parent (parent_of i h) MapNotify words h1));
            h3 = (if class_of i h = InputOutput then expose_on i i h2 else h2) in
        if isThisAndAncestorsMapped i h3 = None then mark_stuck h3 else h3)"

text \<open>The expose after an unmap is told about the unmapped window itself, to those who watch its parent.\<close>

definition unmapWindow :: "u32 \<Rightarrow> xserver \<Rightarrow> xserver" where
  "unmapWindow i h =
     (if \<not> mapped_at i h then h
      else if isThisAndAncestorsMapped i h = None then mark_stuck h
      else
        let h0 = setWmState i WithdrawnState (upd_window i (\<lambda>w. w\<lparr>w_mapped := False\<rparr>) h);
            h1 = (if parent_of i h = None then h0 else setDirty i h0);
            words = (\<lambda>q. [i, override_of i h]);
            h2 = tell_self i UnmapNotify words (tell_parent (parent_of i h) UnmapNotify words h1) in
        (case parent_of i h of
           None \<Rightarrow> h2
         | Some p \<Rightarrow> if class_of i h = InputOutput then expose_on p i h2 else h2))"

text \<open>What a client asks for: afterwards another window may be under the pointer.\<close>

definition server_mapWindow :: "u32 \<Rightarrow> xserver \<Rightarrow> xserver" where
  "server_mapWindow i h = refresh_pointer (mapWindow i h)"

definition server_unmapWindow :: "u32 \<Rightarrow> xserver \<Rightarrow> xserver" where
  "server_unmapWindow i h = refresh_pointer (unmapWindow i (if grabbedId h = i then ungrabPointer h else h))"

section \<open>Geometry and stacking\<close>

definition previousSibling :: "u32 \<Rightarrow> xserver \<Rightarrow> u32 option" where
  "previousSibling i h = (case parent_of i h of
       None \<Rightarrow> None
     | Some p \<Rightarrow>
         let below = takeWhile (\<lambda>c. c \<noteq> i) (children_of p h) in
         if i \<in> set (children_of p h) \<and> below \<noteq> [] then Some (last below) else None)"

definition configureNotify :: "u32 \<Rightarrow> xserver \<Rightarrow> xserver" where
  "configureNotify i h = (case windows h i of
       None \<Rightarrow> h
     | Some w \<Rightarrow>
         let above = (case previousSibling i h of None \<Rightarrow> 0 | Some s \<Rightarrow> s);
             words = (\<lambda>q. [i, w_left w, w_top w, w_width w, w_height w, w_border w, above,
                           a_override_redirect (w_attrs w)]) in
         tell_self i ConfigureNotify words (tell_parent (w_parent w) ConfigureNotify words h))"

definition moveResize :: "u32 \<Rightarrow> c_int \<Rightarrow> c_int \<Rightarrow> u32 \<Rightarrow> u32 \<Rightarrow> xserver \<Rightarrow> xserver" where
  "moveResize i x y width height h =
     (if left_of i h = x \<and> top_of i h = y \<and> width_of i h = width \<and> height_of i h = height then h
      else configureNotify i
        (if width \<noteq> width_of i h \<or> height \<noteq> height_of i h
         then resize_window i width height h else h))"

record window_changes =
  ch_x :: c_int
  ch_y :: c_int
  ch_width :: c_int
  ch_height :: c_int
  ch_border_width :: c_int
  ch_sibling :: u32
  ch_stack_mode :: c_int

definition CWBorderWidth :: u32 where "CWBorderWidth = 16"
definition CWSibling :: u32 where "CWSibling = 32"

definition raise_window :: "u32 \<Rightarrow> u32 \<Rightarrow> xserver \<Rightarrow> xserver" where
  "raise_window i p = upd_window p (\<lambda>w.
     if i \<in> set (w_children w) then w\<lparr>w_children := remove1 i (w_children w) @ [i]\<rparr> else w)"

text \<open>The stack mode is not looked at.  A sibling is a panic.\<close>

definition configure :: "u32 \<Rightarrow> u32 \<Rightarrow> window_changes \<Rightarrow> xserver \<Rightarrow> xserver" where
  "configure i m ch h =
     (let has = (\<lambda>b. m AND b \<noteq> 0);
          h1 = upd_window i (\<lambda>w. w\<lparr>
                 w_left := (if has CWX then ch_x ch else w_left w),
                 w_top := (if has CWY then ch_y ch else w_top w),
                 w_border := (if has CWBorderWidth then ch_border_width ch else w_border w)\<rparr>) h in
      if has CWSibling then mark_stuck h1
      else
        let h2 = (if has CWStackMode then (case parent_of i h1 of None \<Rightarrow> h1 | Some p \<Rightarrow> raise_window i p h1) else h1);
            width = (if has CWWidth then ch_width ch else width_of i h);
            height = (if has CWHeight then ch_height ch else height_of i h);
            h3 = (if width \<noteq> width_of i h \<or> height \<noteq> height_of i h then resize_window i width height h2 else h2);
            h4 = configureNotify i h3 in
        if class_of i h = InputOutput \<and> mapped_at i h then expose_on i i h4 else h4)"

section \<open>Reparenting\<close>

text \<open>The root has no parent to leave: a null dereference.\<close>

definition reparentWindow :: "u32 \<Rightarrow> u32 \<Rightarrow> c_int \<Rightarrow> c_int \<Rightarrow> xserver \<Rightarrow> s64 \<times> xserver" where
  "reparentWindow i p x y h =
     (if class_of p h = InputOnly \<and> class_of i h \<noteq> InputOnly then (BadMatch, h)
      else
        let remap = mapped_at i h;
            h1 = (if remap then unmapWindow i h else h) in
        (case parent_of i h1 of
           None \<Rightarrow> (0, mark_stuck h1)
         | Some old \<Rightarrow>
             let h2 = addToParent i p (upd_window i (\<lambda>w. w\<lparr>w_parent := Some p, w_left := x, w_top := y\<rparr>)
                        (removeFromParent i old h1));
                 words = (\<lambda>q. [i, p, x, y, override_of i h]);
                 h3 = tell_self i ReparentNotify words (tell_parent (Some p) ReparentNotify words h2) in
             (0, if remap then mapWindow i h3 else h3)))"

end
