(* ===== verification/HostWindowCalls.thy ===== *)
theory HostWindowCalls
  imports HostWindows
begin

text \<open>
  The handlers of the window operations (\<^verbatim>\<open>source/x11/x11bridge64.cpp\<close>): structures are read from
  and written to guest memory in the x86-64 layout, arguments are narrowed to the 32-bit ids of the
  server, and the work is that of \<^verbatim>\<open>HostWindows\<close> and \<^verbatim>\<open>HostPointer\<close>.
\<close>

section \<open>Structures\<close>

definition get32 :: "u8 list \<Rightarrow> nat \<Rightarrow> u32" where "get32 raw off = le_word (take 4 (drop off raw))"
definition get64 :: "u8 list \<Rightarrow> nat \<Rightarrow> u64" where "get64 raw off = le_word (take 8 (drop off raw))"

definition attributes_at :: "u8 list \<Rightarrow> window_attributes" where
  "attributes_at raw =
     \<lparr>a_background_pixmap = ucast (get64 raw 0), a_background_pixel = ucast (get64 raw swa_background_pixel),
      a_border_pixmap = ucast (get64 raw 16), a_border_pixel = ucast (get64 raw swa_border_pixel),
      a_bit_gravity = get32 raw 32, a_win_gravity = get32 raw 36, a_backing_store = get32 raw 40,
      a_backing_planes = ucast (get64 raw 48), a_backing_pixel = ucast (get64 raw 56),
      a_save_under = get32 raw 64, a_event_mask = ucast (get64 raw 72),
      a_do_not_propagate_mask = ucast (get64 raw 80), a_override_redirect = get32 raw 88,
      a_colormap = ucast (get64 raw 96), a_cursor = ucast (get64 raw 104)\<rparr>"

definition readSetWindowAttributes :: "u64 \<Rightarrow> hcall \<Rightarrow> window_attributes option \<times> hcall" where
  "readSetWindowAttributes a c =
     (case h_read a XSetWindowAttributes_size c of (raw, c1) \<Rightarrow> (map_option attributes_at raw, c1))"

definition changes_at :: "u8 list \<Rightarrow> window_changes" where
  "changes_at raw =
     \<lparr>ch_x = get32 raw wc_x, ch_y = get32 raw wc_y, ch_width = get32 raw wc_width, ch_height = get32 raw wc_height,
      ch_border_width = get32 raw 16, ch_sibling = ucast (get64 raw 24), ch_stack_mode = get32 raw wc_stack_mode\<rparr>"

definition readWindowChanges :: "u64 \<Rightarrow> hcall \<Rightarrow> window_changes option \<times> hcall" where
  "readWindowChanges a c =
     (case h_read a XWindowChanges_size c of (raw, c1) \<Rightarrow> (map_option changes_at raw, c1))"

section \<open>Addresses in the client's copy of the display\<close>

text \<open>\<^verbatim>\<open>Inl\<close> is a value to return at once, \<^verbatim>\<open>Inr\<close> goes on.\<close>

primrec scan_visuals :: "nat \<Rightarrow> u64 \<Rightarrow> u32 \<Rightarrow> hcall \<Rightarrow> (u64 + unit) \<times> hcall" where
  "scan_visuals 0 a visualid c = (Inr (), c)"
| "scan_visuals (Suc n) a visualid c =
     (case h_read64 (a + of_nat vis_visualid) c of
        (None, c1) \<Rightarrow> (Inl 0, c1)
      | (Some i, c1) \<Rightarrow> if ucast i = visualid then (Inl a, c1)
                        else scan_visuals n (a + of_nat Visual_size) visualid c1)"

primrec scan_depths :: "nat \<Rightarrow> u64 \<Rightarrow> u32 \<Rightarrow> hcall \<Rightarrow> (u64 + unit) \<times> hcall" where
  "scan_depths 0 a visualid c = (Inr (), c)"
| "scan_depths (Suc n) a visualid c =
     (case h_read32 (a + of_nat dep_nvisuals) c of
        (None, c1) \<Rightarrow> (Inl 0, c1)
      | (Some nvisuals, c1) \<Rightarrow>
          (case h_read64 (a + of_nat dep_visuals) c1 of
             (None, c2) \<Rightarrow> (Inl 0, c2)
           | (Some vs, c2) \<Rightarrow>
               if 256 < unat nvisuals then (Inl 0, c2)
               else (case scan_visuals (unat nvisuals) vs visualid c2 of
                  (Inl r, c3) \<Rightarrow> (Inl r, c3)
                | (Inr _, c3) \<Rightarrow> scan_depths n (a + of_nat Depth_size) visualid c3)))"

definition visualAddressFor :: "u64 \<Rightarrow> u32 \<Rightarrow> hcall \<Rightarrow> u64 \<times> hcall" where
  "visualAddressFor display visualid c =
     (case h_read64 (display + of_nat dpy_screens) c of
        (None, c1) \<Rightarrow> (0, c1)
      | (Some screen, c1) \<Rightarrow>
          if screen = 0 then (0, c1)
          else (case h_read32 (screen + of_nat scr_ndepths) c1 of
             (None, c2) \<Rightarrow> (0, c2)
           | (Some ndepths, c2) \<Rightarrow>
               (case h_read64 (screen + of_nat scr_depths) c2 of
                  (None, c3) \<Rightarrow> (0, c3)
                | (Some depths, c3) \<Rightarrow>
                    if 64 < unat ndepths then (0, c3)
                    else (case scan_depths (unat ndepths) depths visualid c3 of
                       (Inl r, c4) \<Rightarrow> (r, c4) | (Inr _, c4) \<Rightarrow> (0, c4)))))"

definition screenAddressFor :: "u64 \<Rightarrow> hcall \<Rightarrow> u64 \<times> hcall" where
  "screenAddressFor display c =
     (case h_read64 (display + of_nat dpy_screens) c of (None, c1) \<Rightarrow> (0, c1) | (Some a, c1) \<Rightarrow> (a, c1))"

section \<open>Creation, destruction, mapping\<close>

definition getVisual :: "u32 \<Rightarrow> xserver \<Rightarrow> xvisual option" where
  "getVisual i h = map_option snd (find (\<lambda>(d, v). v_visualid v = i) (visuals h))"

text \<open>The visual of a new window: the parent's, or the one whose id the guest's structure holds.\<close>

definition visual_arg :: "u64 \<Rightarrow> u32 \<Rightarrow> hcall \<Rightarrow> xserver \<Rightarrow> (s64 + u32 option) \<times> hcall" where
  "visual_arg a parent c h =
     (if a = 0 then (Inr (case windows h parent of None \<Rightarrow> None | Some p \<Rightarrow> w_visual p), c)
      else case h_read64 (a + of_nat vis_visualid) c of
        (None, c1) \<Rightarrow> (Inl E_FAULT, c1)
      | (Some i, c1) \<Rightarrow> if getVisual (ucast i) h = None then (Inl BadMatch, c1) else (Inr (Some (ucast i)), c1))"

definition attributes_arg :: "u64 \<Rightarrow> u64 \<Rightarrow> hcall \<Rightarrow> (s64 + window_attributes option) \<times> hcall" where
  "attributes_arg a valuemask c =
     (if a = 0 \<or> valuemask = 0 then (Inr None, c)
      else case readSetWindowAttributes a c of
        (None, c1) \<Rightarrow> (Inl E_FAULT, c1)
      | (Some attributes, c1) \<Rightarrow> (Inr (Some attributes), c1))"

definition depth_of :: "u32 \<Rightarrow> xserver \<Rightarrow> u32" where
  "depth_of i h = (case windows h i of None \<Rightarrow> 0 | Some w \<Rightarrow> w_depth w)"

definition op_CREATE_WINDOW :: "xserver handler" where
  "op_CREATE_WINDOW = require_args 12 (require_display (\<lambda>i d c h.
     let parent = uarg c 1 in
     if getWindow parent h = None then (BadWindow, c, h)
     else case visual_arg (arg c 9) parent c h of
       (Inl e, c1) \<Rightarrow> (e, c1, h)
     | (Inr visual, c1) \<Rightarrow>
         let depth = (if uarg c 7 = 0 then depth_of parent h else uarg c 7);
             cls = (if uarg c 8 = 0 then class_of parent h else uarg c 8) in
         (case attributes_arg (arg c 11) (arg c 10) c1 of
            (Inl e, c2) \<Rightarrow> (e, c2, h)
          | (Inr attributes, c2) \<Rightarrow>
              (case createNewWindow i parent (uarg c 4) (uarg c 5) depth (iarg c 2) (iarg c 3) cls (uarg c 6) visual h of
                 (w, h1) \<Rightarrow>
                   (ucast w, c2, case attributes of None \<Rightarrow> h1
                      | Some a \<Rightarrow> snd (setAttributes i w a (uarg c 10) h1))))))"

definition op_DESTROY_WINDOW :: "xserver handler" where
  "op_DESTROY_WINDOW = require_args 2 (\<lambda>c h.
     if getWindow (uarg c 1) h = None then (BadWindow, c, h)
     else case destroyWindow (uarg c 1) h of (r, h1) \<Rightarrow> (r, c, h1))"

definition with_window :: "nat \<Rightarrow> s64 \<Rightarrow> (u32 \<Rightarrow> xserver handler) \<Rightarrow> xserver handler" where
  "with_window slot e f c h = (if getWindow (uarg c slot) h = None then (e, c, h) else f (uarg c slot) c h)"

definition op_MAP_WINDOW :: "xserver handler" where
  "op_MAP_WINDOW = require_args 2 (require_display (\<lambda>i d.
     with_window 1 BadWindow (\<lambda>w c h. (0, c, server_mapWindow w h))))"

definition op_UNMAP_WINDOW :: "xserver handler" where
  "op_UNMAP_WINDOW = require_args 2 (require_display (\<lambda>i d.
     with_window 1 BadWindow (\<lambda>w c h. (0, c, server_unmapWindow w h))))"

definition op_WITHDRAW_WINDOW :: "xserver handler" where
  "op_WITHDRAW_WINDOW = require_args 2 (with_window 1 BadWindow (\<lambda>w c h. (0, c, unmapWindow w h)))"

definition op_ICONIFY_WINDOW :: "xserver handler" where "op_ICONIFY_WINDOW c h = (1, c, h)"

section \<open>Geometry, attributes, reparenting\<close>

definition op_MOVE_RESIZE_WINDOW :: "xserver handler" where
  "op_MOVE_RESIZE_WINDOW = require_args 6 (with_window 1 BadWindow (\<lambda>w c h.
     (0, c, moveResize w (iarg c 2) (iarg c 3) (uarg c 4) (uarg c 5) h)))"

definition op_CONFIGURE_WINDOW :: "xserver handler" where
  "op_CONFIGURE_WINDOW = require_args 4 (with_window 1 BadWindow (\<lambda>w c h.
     case readWindowChanges (arg c 3) c of
       (None, c1) \<Rightarrow> (E_FAULT, c1, h)
     | (Some ch, c1) \<Rightarrow> (0, c1, configure w (uarg c 2) ch h)))"

definition op_CHANGE_WINDOW_ATTRIBUTES :: "xserver handler" where
  "op_CHANGE_WINDOW_ATTRIBUTES = require_args 4 (require_display (\<lambda>i d.
     with_window 1 BadWindow (\<lambda>w c h.
       case readSetWindowAttributes (arg c 3) c of
         (None, c1) \<Rightarrow> (E_FAULT, c1, h)
       | (Some a, c1) \<Rightarrow> (case setAttributes i w a (uarg c 2) h of (r, h1) \<Rightarrow> (r, c1, h1)))))"

definition XWindowAttributes_size :: nat where "XWindowAttributes_size = 136"

text \<open>0 unmapped, 1 mapped below an unmapped ancestor, 2 viewable.\<close>

definition map_state :: "u32 \<Rightarrow> xserver \<Rightarrow> u32" where
  "map_state i h = (if mapped_at i h then if isThisAndAncestorsMapped i h = Some True then 2 else 1 else 0)"

definition attributes_raw :: "u32 \<Rightarrow> xwindow \<Rightarrow> u32 \<Rightarrow> u64 \<Rightarrow> u64 \<Rightarrow> xserver \<Rightarrow> u8 list" where
  "attributes_raw i w eventMask visual screen h =
     (let a = w_attrs w; b4 = (\<lambda>x :: u32. le_bytes 4 x); b8 = (\<lambda>x :: u32. le_bytes 8 (ucast x :: u64)) in
      rd (fold (\<lambda>(off, bs) m. wr m off bs)
        [(0, b4 (w_left w)), (4, b4 (w_top w)), (8, b4 (w_width w)), (12, b4 (w_height w)), (16, b4 (w_border w)),
         (20, b4 (w_depth w)), (24, le_bytes 8 visual), (32, b8 (root h)), (40, b4 (w_class w)),
         (44, b4 (a_bit_gravity a)), (48, b4 (a_win_gravity a)), (52, b4 (a_backing_store a)),
         (56, b8 (a_backing_planes a)), (64, b8 (a_backing_pixel a)), (72, b4 (a_save_under a)),
         (80, b8 (case w_colorMap w of None \<Rightarrow> defaultColorMap h | Some m \<Rightarrow> m)), (88, b4 1),
         (92, b4 (map_state i h)), (96, b8 eventMask), (104, b8 eventMask),
         (112, le_bytes 8 (scast (a_do_not_propagate_mask a) :: u64)), (120, b4 (a_override_redirect a)),
         (128, le_bytes 8 screen)] (\<lambda>_. 0)) 0 XWindowAttributes_size)"

definition op_GET_WINDOW_ATTRIBUTES :: "xserver handler" where
  "op_GET_WINDOW_ATTRIBUTES = require_args 3 (require_display (\<lambda>i d c h.
     case getWindow (uarg c 1) h of
       None \<Rightarrow> (BadWindow, c, h)
     | Some w \<Rightarrow>
         if w_mapped w \<and> isThisAndAncestorsMapped (uarg c 1) h = None then (0, c, mark_stuck h)
         else (case (case w_visual w of None \<Rightarrow> (0, c) | Some v \<Rightarrow> visualAddressFor (arg c 0) v c) of
            (visual, c1) \<Rightarrow>
              (case screenAddressFor (arg c 0) c1 of
                 (screen, c2) \<Rightarrow>
                   (case h_write (arg c 2) (attributes_raw (uarg c 1) w (getEventMask (uarg c 1) d) visual screen h) c2 of
                      (ok, c3) \<Rightarrow> (if ok then 1 else E_FAULT, c3, h))))))"

definition op_REPARENT_WINDOW :: "xserver handler" where
  "op_REPARENT_WINDOW = require_args 5 (\<lambda>c h.
     if getWindow (uarg c 1) h = None \<or> getWindow (uarg c 2) h = None then (BadWindow, c, h)
     else case reparentWindow (uarg c 1) (uarg c 2) (iarg c 3) (iarg c 4) h of (r, h1) \<Rightarrow> (r, c, h1))"

section \<open>Coordinates\<close>

definition put32 :: "u64 \<Rightarrow> u32 \<Rightarrow> u64 \<times> u8 list" where "put32 a v = (a, le_bytes 4 v)"
definition put64 :: "u64 \<Rightarrow> u64 \<Rightarrow> u64 \<times> u8 list" where "put64 a v = (a, le_bytes 8 v)"

definition op_TRANSLATE_COORDINATES :: "xserver handler" where
  "op_TRANSLATE_COORDINATES = require_args 8 (\<lambda>c h.
     let src = uarg c 1; dest = uarg c 2 in
     if getWindow src h = None \<or> getWindow dest h = None then (0, c, h)
     else case windowToScreen src (iarg c 3, iarg c 4) h of
       None \<Rightarrow> (0, c, mark_stuck h)
     | Some p \<Rightarrow>
         (case (getWindowFromPoint (root h) p h, screenToWindow dest p h) of
            (Some child, Some (x, y)) \<Rightarrow>
              (case h_writes ([put32 (arg c 5) x, put32 (arg c 6) y] @
                       (if arg c 7 = 0 then [] else [put64 (arg c 7) (ucast child)])) c of
                 (ok, c1) \<Rightarrow> (if ok then 1 else E_FAULT, c1, h))
          | _ \<Rightarrow> (0, c, mark_stuck h)))"

text \<open>A drawable is a pixmap or a window; the pixel buffers of OpenGL are not modelled.\<close>

definition getDrawable :: "u32 \<Rightarrow> xserver \<Rightarrow> xdrawable option" where
  "getDrawable i h = (case pixmaps h i of
       Some p \<Rightarrow> Some p
     | None \<Rightarrow> map_option (\<lambda>w. \<lparr>dr_width = w_width w, dr_height = w_height w, dr_depth = w_depth w,
                 dr_visual = w_visual w\<rparr>) (getWindow i h))"

definition op_GET_GEOMETRY :: "xserver handler" where
  "op_GET_GEOMETRY = require_args 9 (\<lambda>c h.
     case getDrawable (uarg c 1) h of
       None \<Rightarrow> (0, c, h)
     | Some d \<Rightarrow>
         let w = getWindow (uarg c 1) h; field = (\<lambda>f. case w of None \<Rightarrow> 0 | Some win \<Rightarrow> f win) in
         (case h_writes [put64 (arg c 2) (ucast (root h)), put32 (arg c 3) (field w_left), put32 (arg c 4) (field w_top),
                 put32 (arg c 5) (dr_width d), put32 (arg c 6) (dr_height d), put32 (arg c 7) (field w_border),
                 put32 (arg c 8) (dr_depth d)] c of
            (ok, c1) \<Rightarrow> (if ok then 1 else E_FAULT, c1, h)))"

definition createNewPixmap :: "u32 \<Rightarrow> u32 \<Rightarrow> u32 \<Rightarrow> u32 option \<Rightarrow> xserver \<Rightarrow> u32 \<times> xserver" where
  "createNewPixmap width height depth visual h =
     (let i = nextId h + 1 in
      (i, h\<lparr>nextId := i, buffers := (buffers h)(i := new_buffer visual width height h), pixmaps := (pixmaps h)(i \<mapsto>
            \<lparr>dr_width = width, dr_height = height, dr_depth = depth, dr_visual = visual\<rparr>)\<rparr>))"

definition op_CREATE_PIXMAP :: "xserver handler" where
  "op_CREATE_PIXMAP = require_args 5 (\<lambda>c h.
     case getDrawable (uarg c 1) h of
       None \<Rightarrow> (0, c, h)
     | Some d \<Rightarrow> (case createNewPixmap (uarg c 2) (uarg c 3) (uarg c 4) (dr_visual d) h of
         (i, h1) \<Rightarrow> (ucast i, c, h1)))"

definition BadPixmap :: s64 where "BadPixmap = 4"

definition removePixmap :: "u32 \<Rightarrow> xserver \<Rightarrow> s64 \<times> xserver" where
  "removePixmap i h =
     (if pixmaps h i = None then (BadPixmap, h) else (0, h\<lparr>pixmaps := (pixmaps h)(i := None)\<rparr>))"

definition op_FREE_PIXMAP :: "xserver handler" where
  "op_FREE_PIXMAP = require_args 2 (\<lambda>c h. case removePixmap (uarg c 1) h of (r, h1) \<Rightarrow> (r, c, h1))"

section \<open>Focus, transients, grabs\<close>

definition op_SET_INPUT_FOCUS :: "xserver handler" where
  "op_SET_INPUT_FOCUS = require_args 4 (require_display (\<lambda>i d c h.
     let focus = uarg c 1 in
     if focus \<noteq> PointerRoot \<and> focus \<noteq> 0 \<and> getWindow focus h = None then (BadWindow, c, h)
     else (0, c, setInputFocus focus (uarg c 2) h)))"

definition op_GET_INPUT_FOCUS :: "xserver handler" where
  "op_GET_INPUT_FOCUS = require_args 3 (\<lambda>c h.
     let focus = (if inputFocusIsPointerRoot h then PointerRoot
                  else case inputFocus h of None \<Rightarrow> 0 | Some f \<Rightarrow> f) in
     case h_writes [put64 (arg c 1) (ucast focus), put32 (arg c 2) (inputFocusRevertTo h)] c of
       (ok, c1) \<Rightarrow> (if ok then 0 else E_FAULT, c1, h))"

definition op_SET_TRANSIENT_FOR_HINT :: "xserver handler" where
  "op_SET_TRANSIENT_FOR_HINT = require_args 3 (with_window 1 BadWindow (\<lambda>w c h.
     (0, c, setTransient w (uarg c 2) h)))"

definition GrabNotViewable :: s64 where "GrabNotViewable = 3"

definition op_GRAB_POINTER :: "xserver handler" where
  "op_GRAB_POINTER = require_args 9 (require_display (\<lambda>i d.
     with_window 1 BadWindow (\<lambda>w c h.
       if \<not> mapped_at w h then (GrabNotViewable, c, h)
       else if arg c 6 \<noteq> 0 \<and> getWindow (uarg c 6) h = None then (BadWindow, c, h)
       else (0, c, grabPointer i w (if arg c 6 = 0 then None else Some (uarg c 6)) (uarg c 3) (uarg c 8) h))))"

definition op_UNGRAB_POINTER :: "xserver handler" where
  "op_UNGRAB_POINTER = require_args 2 (\<lambda>c h. (0, c, ungrabPointer h))"

definition op_QUERY_POINTER :: "xserver handler" where
  "op_QUERY_POINTER = require_args 9 (\<lambda>c h.
     let w = uarg c 1; p = (mouseX h, mouseY h) in
     if getWindow w h = None then (0, c, h)
     else case (getWindowFromPoint (root h) p h, screenToWindow w p h) of
       (Some child, Some (x, y)) \<Rightarrow>
         (case h_writes [put64 (arg c 2) (ucast (root h)), put64 (arg c 3) (ucast child), put32 (arg c 4) (mouseX h),
                 put32 (arg c 5) (mouseY h), put32 (arg c 6) x, put32 (arg c 7) y,
                 put32 (arg c 8) (getInputModifiers h)] c of
            (ok, c1) \<Rightarrow> (if ok then 1 else E_FAULT, c1, h))
     | _ \<Rightarrow> (0, c, mark_stuck h))"

section \<open>Server locks\<close>

text \<open>The single-threaded build.\<close>

definition op_GRAB_SERVER :: "xserver handler" where "op_GRAB_SERVER c h = (0, c, h\<lparr>isLocked := True\<rparr>)"
definition op_UNGRAB_SERVER :: "xserver handler" where "op_UNGRAB_SERVER c h = (0, c, h\<lparr>isLocked := False\<rparr>)"

end
