(* ===== verification/HostRandr.thy ===== *)
theory HostRandr
  imports HostWindowCalls
begin

text \<open>
  Display modes on the host: the standard mode list of \<^verbatim>\<open>source/x11/xrandr.cpp\<close>, the policy and the
  two operations of \<^verbatim>\<open>source/x11/x11bridge64.cpp\<close> that serve it, and the change of the screen size in
  \<^verbatim>\<open>source/x11/xserver.cpp\<close>.
\<close>

section \<open>The standard mode list\<close>

type_synonym mode = "u32 \<times> u32 \<times> u32"

definition XRR_MODE_RATE_PRIMARY :: u32 where "XRR_MODE_RATE_PRIMARY = 60"
definition XRR_MODE_RATE_HIGH :: u32 where "XRR_MODE_RATE_HIGH = 120"

definition kStandardModeSizes :: "(u32 \<times> u32) list" where
  "kStandardModeSizes = [(640, 480), (800, 600), (1024, 768), (1280, 720), (1280, 800), (1366, 768),
     (1600, 900), (1920, 1080)]"

text \<open>The sizes in the order they are collected: the desktop first, then each standard size that is not
  yet there and still fits.\<close>

definition add_size :: "nat \<Rightarrow> u32 \<times> u32 \<Rightarrow> (u32 \<times> u32) list \<Rightarrow> (u32 \<times> u32) list" where
  "add_size maxSizes s sizes = (if s \<notin> set sizes \<and> length sizes < maxSizes then sizes @ [s] else sizes)"

definition mode_sizes :: "u32 \<Rightarrow> u32 \<Rightarrow> (u32 \<times> u32) list" where
  "mode_sizes desktopCx desktopCy =
     fold (add_size (length kStandardModeSizes + 1)) kStandardModeSizes
       (if desktopCx \<noteq> 0 \<and> desktopCy \<noteq> 0 then [(desktopCx, desktopCy)] else [])"

definition mode_rates :: "u32 \<Rightarrow> u32 list" where
  "mode_rates currentRate = [XRR_MODE_RATE_PRIMARY, XRR_MODE_RATE_HIGH] @
     (if currentRate \<noteq> 0 \<and> currentRate \<noteq> XRR_MODE_RATE_PRIMARY \<and> currentRate \<noteq> XRR_MODE_RATE_HIGH
      then [currentRate] else [])"

text \<open>The two bubble sorts: pass \<^verbatim>\<open>i\<close> compares neighbours up to the part already in place and exchanges
  those out of order.\<close>

definition exchange :: "('a \<Rightarrow> 'a \<Rightarrow> bool) \<Rightarrow> nat \<Rightarrow> 'a list \<Rightarrow> 'a list" where
  "exchange gt j xs = (if gt (xs ! j) (xs ! Suc j) then xs[j := xs ! Suc j, Suc j := xs ! j] else xs)"

definition bubble_pass :: "('a \<Rightarrow> 'a \<Rightarrow> bool) \<Rightarrow> nat \<Rightarrow> 'a list \<Rightarrow> 'a list" where
  "bubble_pass gt i xs = fold (exchange gt) [0..<length xs - i - 1] xs"

definition bubble :: "('a \<Rightarrow> 'a \<Rightarrow> bool) \<Rightarrow> 'a list \<Rightarrow> 'a list" where
  "bubble gt xs = fold (bubble_pass gt) [0..<length xs - 1] xs"

definition size_after :: "u32 \<times> u32 \<Rightarrow> u32 \<times> u32 \<Rightarrow> bool" where
  "size_after s t \<longleftrightarrow> fst t < fst s \<or> (fst s = fst t \<and> snd t < snd s)"

definition rate_after :: "u32 \<Rightarrow> u32 \<Rightarrow> bool" where "rate_after r s \<longleftrightarrow> s < r"

text \<open>The entries written to a caller's array of \<^verbatim>\<open>maxOut\<close> entries; their number is the result.\<close>

definition XrrStandardModeList :: "u32 \<Rightarrow> u32 \<Rightarrow> u32 \<Rightarrow> nat \<Rightarrow> mode list" where
  "XrrStandardModeList desktopCx desktopCy currentRate maxOut =
     (let sizes = bubble size_after (mode_sizes desktopCx desktopCy);
          rates = bubble rate_after (mode_rates currentRate)
      in take maxOut (concat (map (\<lambda>(w, h). map (\<lambda>r. (w, h, r)) rates) sizes)))"

section \<open>The host's policy\<close>

definition RANDR_STATE_VERSION :: u32 where "RANDR_STATE_VERSION = 1"
definition RANDR_MAX_MODES :: nat where "RANDR_MAX_MODES = 64"
definition RANDR_MODE_CURRENT :: u32 where "RANDR_MODE_CURRENT = 1"
definition RANDR_MODE_PREFERRED :: u32 where "RANDR_MODE_PREFERRED = 2"
definition RANDR_NO_MODE :: u32 where "RANDR_NO_MODE = 0xFFFFFFFF"
definition RRSetConfigSuccess :: s64 where "RRSetConfigSuccess = 0"
definition RRSetConfigFailed :: s64 where "RRSetConfigFailed = 3"

text \<open>Built once, from the size and rate of the screen at the time, and kept.\<close>

definition randrModeList :: "xserver \<Rightarrow> mode list \<times> xserver" where
  "randrModeList h = (case randrModes h of
       Some modes \<Rightarrow> (modes, h)
     | None \<Rightarrow>
         let modes = XrrStandardModeList (screenWidth h) (screenHeight h) (screenRate h) RANDR_MAX_MODES
         in (modes, h\<lparr>randrModes := Some modes\<rparr>))"

definition randrCurrentRate :: "u32 \<Rightarrow> u32 \<Rightarrow> xserver \<Rightarrow> u32" where
  "randrCurrentRate width height h =
     (case randrRequest h of (rw, rh, rr) \<Rightarrow>
        if rr \<noteq> 0 \<and> rw = width \<and> rh = height then rr
        else if screenRate h \<noteq> 0 then screenRate h else XRR_MODE_RATE_PRIMARY)"

text \<open>The first index whose entry has the property.\<close>

primrec index_where :: "('a \<Rightarrow> bool) \<Rightarrow> nat \<Rightarrow> 'a list \<Rightarrow> nat option" where
  "index_where Q i [] = None"
| "index_where Q i (x # xs) = (if Q x then Some i else index_where Q (Suc i) xs)"

definition randrCurrentModeIndex :: "mode list \<Rightarrow> u32 \<Rightarrow> u32 \<Rightarrow> u32 \<Rightarrow> u32" where
  "randrCurrentModeIndex entries width height rate =
     (if entries = [] then RANDR_NO_MODE
      else case index_where (\<lambda>(w, h, r). w = width \<and> h = height \<and> r = rate) 0 entries of
        Some i \<Rightarrow> of_nat i
      | None \<Rightarrow> (case index_where (\<lambda>(w, h, r). w = width \<and> h = height) 0 entries of
          Some i \<Rightarrow> of_nat i
        | None \<Rightarrow> 0))"

text \<open>\<^verbatim>\<open>(U32)(width * 0.2646)\<close>: for every 32-bit width the double product truncates to this number.\<close>

definition screen_mm :: "u32 \<Rightarrow> u32" where "screen_mm w = of_nat (unat w * 1323 div 5000)"

definition mode_flags :: "nat \<Rightarrow> u32 \<Rightarrow> u32 \<Rightarrow> u32 \<Rightarrow> mode \<Rightarrow> u32" where
  "mode_flags i current width height m =
     (case m of (w, h, r) \<Rightarrow>
        (if of_nat i = current then RANDR_MODE_CURRENT else 0) OR
        (if w = width \<and> h = height \<and> r = XRR_MODE_RATE_PRIMARY then RANDR_MODE_PREFERRED else 0))"

text \<open>The structure and the records that follow it, as words of 32 bits.\<close>

definition randr_header :: "nat \<Rightarrow> u32 \<Rightarrow> u32 \<Rightarrow> u32 \<Rightarrow> u32 \<Rightarrow> u32 list" where
  "randr_header count width height rate current =
     [RANDR_STATE_VERSION, of_nat count, width, height, rate, current, screen_mm width, screen_mm height,
      320, 200, 8192, 8192]"

definition randr_record :: "u32 \<Rightarrow> u32 \<Rightarrow> u32 \<Rightarrow> nat \<times> mode \<Rightarrow> u32 list" where
  "randr_record current width height x =
     (case x of (i, w, h, r) \<Rightarrow> [w, h, r, mode_flags i current width height (w, h, r)])"

definition words32_bytes :: "u32 list \<Rightarrow> u8 list" where
  "words32_bytes ws = concat (map (le_bytes 4) ws)"

definition randr_bytes :: "mode list \<Rightarrow> u32 \<Rightarrow> u32 \<Rightarrow> u32 \<Rightarrow> u8 list" where
  "randr_bytes entries width height rate =
     (let current = randrCurrentModeIndex entries width height rate in
      words32_bytes (randr_header (length entries) width height rate current @
        concat (map (randr_record current width height) (enumerate 0 entries))))"

definition op_RANDR_GET_STATE :: "xserver handler" where
  "op_RANDR_GET_STATE = require_args 3 (require_display (\<lambda>i d c h.
     case randrModeList h of (entries, h1) \<Rightarrow>
       let width = screenWidth h1; height = screenHeight h1 in
       (case sizedResult 1 (randr_bytes entries width height (randrCurrentRate width height h1)) c of
          (Inl e, c1) \<Rightarrow> (e, c1, h1)
        | (Inr _, c1) \<Rightarrow> (of_nat (length entries), c1, h1))))"

section \<open>Changing the screen\<close>

text \<open>The client's own copy of the screen: not through \<^verbatim>\<open>Call::write\<close>, so an unmapped page is not a
  fault of the call.\<close>

definition probed :: "u64 \<Rightarrow> nat \<Rightarrow> bool \<Rightarrow> hcall \<Rightarrow> bool" where
  "probed a n wrt c = x11Bridge64RangeAccessible (c_probe c) a (of_nat n) wrt"

definition put_guest32 :: "u64 \<Rightarrow> u32 \<Rightarrow> hcall \<Rightarrow> hcall" where
  "put_guest32 a v c = c\<lparr>c_mem := wr (c_mem c) (unat a) (le_bytes 4 v)\<rparr>"

definition x11Bridge64UpdateScreenSize :: "u64 \<Rightarrow> u32 \<Rightarrow> u32 \<Rightarrow> hcall \<Rightarrow> bool \<times> hcall" where
  "x11Bridge64UpdateScreenSize displayAddress width height c =
     (if displayAddress = 0 then (False, c)
      else if \<not> probed (displayAddress + of_nat dpy_screens) 8 False c then (False, c)
      else
        let screen = le_word (rd (c_mem c) (unat (displayAddress + of_nat dpy_screens)) 8) :: u64 in
        if screen = 0 \<or> \<not> probed screen Screen_size True c then (False, c)
        else (True, put_guest32 (screen + of_nat scr_mheight) (screen_mm height)
                   (put_guest32 (screen + of_nat scr_mwidth) (screen_mm width)
                   (put_guest32 (screen + of_nat scr_height) height
                   (put_guest32 (screen + of_nat scr_width) width c)))))"

text \<open>Every display of the process the development follows.\<close>

definition updateDisplayScreenSize :: "u32 \<Rightarrow> u32 \<Rightarrow> xserver \<Rightarrow> hcall \<Rightarrow> hcall" where
  "updateDisplayScreenSize width height h c = fold (\<lambda>i c. case displays h i of
       None \<Rightarrow> c
     | Some d \<Rightarrow> snd (x11Bridge64UpdateScreenSize (displayAddress64 d) width height c)) (displayOrder h) c"

text \<open>\<^verbatim>\<open>"_GTK_WORKAREAS_D0"\<close>.\<close>

definition GTK_WORKAREAS :: "u8 list" where
  "GTK_WORKAREAS = [95, 71, 84, 75, 95, 87, 79, 82, 75, 65, 82, 69, 65, 83, 95, 68, 48]"

definition XA_CARDINAL :: u32 where "XA_CARDINAL = 6"

definition changeScreen :: "u32 \<Rightarrow> u32 \<Rightarrow> hcall \<Rightarrow> xserver \<Rightarrow> hcall \<times> xserver" where
  "changeScreen width height c h =
     (let h1 = h\<lparr>screenWidth := width, screenHeight := height\<rparr>;
          h2 = moveResize (root h1) 0 0 width height h1;
          c1 = updateDisplayScreenSize width height h2 c in
      case internAtom GTK_WORKAREAS False h2 of (a, h3) \<Rightarrow>
        (c1, setProperty (root h3) a XA_CARDINAL 32 (words32_bytes [0, 0, width, height]) h3))"

definition op_RANDR_SET_MODE :: "xserver handler" where
  "op_RANDR_SET_MODE = require_args 4 (require_display (\<lambda>i d c h.
     let width = uarg c 1; height = uarg c 2; rate = uarg c 3 in
     case randrModeList h of (entries, h1) \<Rightarrow>
       if width = 0 \<or> height = 0 \<or> (\<forall>m \<in> set entries. \<not> (fst m = width \<and> fst (snd m) = height))
       then (RRSetConfigFailed, c, h1)
       else
         let h2 = h1\<lparr>randrRequest := (width, height, rate)\<rparr> in
         if width \<noteq> screenWidth h1 \<or> height \<noteq> screenHeight h1
         then (case changeScreen width height c h2 of (c1, h3) \<Rightarrow> (RRSetConfigSuccess, c1, h3))
         else (RRSetConfigSuccess, c, h2)))"

end
