(* ===== verification/HostOpen.thy ===== *)
theory HostOpen
  imports HostRandr
begin

text \<open>
  Opening a display on the host (\<^verbatim>\<open>op_OPEN_DISPLAY\<close> of \<^verbatim>\<open>source/x11/x11bridge64.cpp\<close>): the pixmap
  formats of \<^verbatim>\<open>source/x11/xpixmapformats.cpp\<close>, and the arena the host lays out for the client:
  Display, Screen, depths, visuals, formats and strings in one block, every pointer an absolute guest
  address.  The host's buffer is a memory of its own, indexed from zero.
\<close>

section \<open>Pixmap formats\<close>

record XPixmapFormatEntry =
  f_depth :: u32
  f_bitsPerPixel :: u32
  f_scanlinePad :: u32

definition SCANLINE_PAD :: u32 where "SCANLINE_PAD = 32"

definition NON_VISUAL_FORMATS :: "XPixmapFormatEntry list" where
  "NON_VISUAL_FORMATS = [\<lparr>f_depth = 1, f_bitsPerPixel = 1, f_scanlinePad = SCANLINE_PAD\<rparr>,
     \<lparr>f_depth = 4, f_bitsPerPixel = 8, f_scanlinePad = SCANLINE_PAD\<rparr>]"

definition add_format :: "XPixmapFormatEntry \<Rightarrow> XPixmapFormatEntry list \<Rightarrow> XPixmapFormatEntry list" where
  "add_format f formats = (if \<exists>e \<in> set formats. f_depth e = f_depth f then formats else formats @ [f])"

text \<open>\<^verbatim>\<open>std::sort\<close> by depth; the depths are distinct, so the order of equal elements does not matter.\<close>

definition xBuildPixmapFormats :: "XPixmapFormatEntry list \<Rightarrow> XPixmapFormatEntry list" where
  "xBuildPixmapFormats visualFormats =
     sort_key f_depth (fold add_format NON_VISUAL_FORMATS (fold add_format visualFormats []))"

section \<open>Depths\<close>

text \<open>Visuals that follow each other with the same depth share an entry.\<close>

definition add_visual :: "u32 \<times> xvisual \<Rightarrow> (u32 \<times> xvisual list) list \<Rightarrow> (u32 \<times> xvisual list) list" where
  "add_visual x groups =
     (if groups = [] \<or> fst (last groups) \<noteq> fst x then groups @ [(fst x, [snd x])]
      else butlast groups @ [(fst (last groups), snd (last groups) @ [snd x])])"

definition depthVisuals :: "(u32 \<times> xvisual) list \<Rightarrow> (u32 \<times> xvisual list) list" where
  "depthVisuals vs = fold add_visual vs []"

definition visual_formats :: "(u32 \<times> xvisual list) list \<Rightarrow> XPixmapFormatEntry list" where
  "visual_formats groups =
     map (\<lambda>(d, vs). \<lparr>f_depth = d, f_bitsPerPixel = v_bits_per_rgb (hd vs), f_scanlinePad = 32\<rparr>)
         (filter (\<lambda>(d, vs). vs \<noteq> []) groups)"

section \<open>The arena\<close>

definition bput32 :: "nat \<Rightarrow> u32 \<Rightarrow> memory \<Rightarrow> memory" where "bput32 off v b = wr b off (le_bytes 4 v)"
definition bput64 :: "nat \<Rightarrow> u64 \<Rightarrow> memory \<Rightarrow> memory" where "bput64 off v b = wr b off (le_bytes 8 v)"

definition sf_depth :: nat where "sf_depth = 8"
definition sf_bits_per_pixel :: nat where "sf_bits_per_pixel = 12"
definition sf_scanline_pad :: nat where "sf_scanline_pad = 16"

definition scr_max_maps :: nat where "scr_max_maps = 104"
definition scr_min_maps :: nat where "scr_min_maps = 108"
definition scr_backing_store :: nat where "scr_backing_store = 112"
definition scr_save_unders :: nat where "scr_save_unders = 116"
definition scr_root_input_mask :: nat where "scr_root_input_mask = 120"

definition put_visual :: "nat \<Rightarrow> xvisual \<Rightarrow> memory \<Rightarrow> memory" where
  "put_visual a v b =
     (let b1 = bput64 a 0 b;
          b2 = bput64 (a + vis_visualid) (ucast (v_visualid v)) b1;
          b3 = bput32 (a + vis_class) (v_class v) b2;
          b4 = bput64 (a + vis_red_mask) (ucast (v_red_mask v)) b3;
          b5 = bput64 (a + vis_green_mask) (ucast (v_green_mask v)) b4;
          b6 = bput64 (a + vis_blue_mask) (ucast (v_blue_mask v)) b5;
          b7 = bput32 (a + vis_bits_per_rgb) (v_bits_per_rgb v) b6
      in bput32 (a + vis_map_entries) (v_map_entries v) b7)"

primrec put_visuals :: "nat \<Rightarrow> xvisual list \<Rightarrow> memory \<Rightarrow> memory" where
  "put_visuals a [] b = b"
| "put_visuals a (v # vs) b = put_visuals (a + Visual_size) vs (put_visual a v b)"

primrec put_depths :: "u64 \<Rightarrow> nat \<Rightarrow> nat \<Rightarrow> (u32 \<times> xvisual list) list \<Rightarrow> memory \<Rightarrow> memory" where
  "put_depths arena a cursor [] b = b"
| "put_depths arena a cursor (g # gs) b =
     (case g of (d, vs) \<Rightarrow>
        let b1 = bput32 (a + dep_depth) d b;
            b2 = bput32 (a + dep_nvisuals) (of_nat (length vs)) b1;
            b3 = bput64 (a + dep_visuals) (arena + of_nat cursor) b2
        in put_depths arena (a + Depth_size) (cursor + Visual_size * length vs) gs (put_visuals cursor vs b3))"

primrec put_formats :: "nat \<Rightarrow> XPixmapFormatEntry list \<Rightarrow> memory \<Rightarrow> memory" where
  "put_formats a [] b = b"
| "put_formats a (f # fs) b =
     put_formats (a + ScreenFormat_size) fs
       (bput32 (a + sf_scanline_pad) (f_scanlinePad f)
         (bput32 (a + sf_bits_per_pixel) (f_bitsPerPixel f)
           (bput32 (a + sf_depth) (f_depth f) (bput64 a 0 b))))"

text \<open>\<^verbatim>\<open>"Boxedwine.org"\<close> and \<^verbatim>\<open>":0"\<close>, with their terminators.\<close>

definition vendor_string :: "u8 list" where
  "vendor_string = [66, 111, 120, 101, 100, 119, 105, 110, 101, 46, 111, 114, 103, 0]"
definition display_string :: "u8 list" where "display_string = [58, 48, 0]"

record arena_layout =
  al_screen :: nat
  al_depths :: nat
  al_visuals :: nat
  al_formats :: nat
  al_vendor :: nat
  al_name :: nat
  al_end :: nat

definition arena_layout_of :: "(u32 \<times> xvisual list) list \<Rightarrow> XPixmapFormatEntry list \<Rightarrow> arena_layout" where
  "arena_layout_of groups formats =
     (let screenOffset = DISPLAY_PRIVATE_BYTES;
          depthsOffset = screenOffset + Screen_size;
          visualsOffset = depthsOffset + length groups * Depth_size;
          visualTotal = sum_list (map (\<lambda>(d, vs). length vs) groups);
          formatsOffset = visualsOffset + visualTotal * Visual_size;
          vendorOffset = formatsOffset + length formats * ScreenFormat_size;
          nameOffset = vendorOffset + length vendor_string
      in \<lparr>al_screen = screenOffset, al_depths = depthsOffset, al_visuals = visualsOffset, al_formats = formatsOffset,
          al_vendor = vendorOffset, al_name = nameOffset, al_end = nameOffset + length display_string\<rparr>)"

definition put_screen ::
  "xserver \<Rightarrow> u64 \<Rightarrow> arena_layout \<Rightarrow> nat \<Rightarrow> u32 \<Rightarrow> u64 \<Rightarrow> memory \<Rightarrow> memory" where
  "put_screen h arena l ndepths rootDepth rootVisual b =
     (let s = al_screen l;
          b1 = bput64 (s + scr_display) arena b;
          b2 = bput64 (s + scr_root) (ucast (root h)) b1;
          b3 = bput32 (s + scr_height) (screenHeight h) (bput32 (s + scr_width) (screenWidth h) b2);
          b4 = bput32 (s + scr_mheight) (screen_mm (screenHeight h)) (bput32 (s + scr_mwidth) (screen_mm (screenWidth h)) b3);
          b5 = bput32 (s + scr_ndepths) (of_nat ndepths) b4;
          b6 = bput64 (s + scr_depths) (arena + of_nat (al_depths l)) b5;
          b7 = bput32 (s + scr_root_depth) rootDepth b6;
          b8 = bput64 (s + scr_root_visual) rootVisual b7;
          b9 = bput64 (s + scr_default_gc) 0 b8;
          b10 = bput64 (s + scr_cmap) (ucast (defaultColorMap h)) b9;
          b11 = bput64 (s + scr_white_pixel) 0xFFFFFF b10;
          b12 = bput64 (s + scr_black_pixel) 0 b11;
          b13 = bput32 (s + scr_min_maps) 1 (bput32 (s + scr_max_maps) 1 b12);
          b14 = bput32 (s + scr_save_unders) 0 (bput32 (s + scr_backing_store) 0 b13)
      in bput64 (s + scr_root_input_mask) 0 b14)"

definition LSBFirst :: u32 where "LSBFirst = 0"

definition put_display ::
  "xserver \<Rightarrow> u64 \<Rightarrow> arena_layout \<Rightarrow> nat \<Rightarrow> u32 \<Rightarrow> u32 \<Rightarrow> memory \<Rightarrow> memory" where
  "put_display h arena l nformats cfd displayId b =
     (let b1 = bput32 dpy_fd cfd b;
          b2 = bput32 dpy_proto_minor 4 (bput32 dpy_proto_major 11 b1);
          b3 = bput64 dpy_vendor (arena + of_nat (al_vendor l)) b2;
          b4 = bput32 dpy_byte_order LSBFirst b3;
          b5 = bput32 dpy_bitmap_pad 32 (bput32 dpy_bitmap_unit 32 b4);
          b6 = bput32 dpy_bitmap_bit_order LSBFirst b5;
          b7 = bput32 dpy_nformats (of_nat nformats) b6;
          b8 = bput64 dpy_pixmap_format (arena + of_nat (al_formats l)) b7;
          b9 = bput64 dpy_request 1 (bput32 dpy_release 1 b8);
          b10 = bput32 dpy_max_request_size 65535 b9;
          b11 = bput64 dpy_display_name (arena + of_nat (al_name l)) b10;
          b12 = bput32 dpy_nscreens 1 (bput32 dpy_default_screen 0 b11);
          b13 = bput64 dpy_screens (arena + of_nat (al_screen l)) b12;
          b14 = bput32 dpy_max_keycode (maxKeycode h) (bput32 dpy_min_keycode (minKeycode h) b13)
      in bput32 DISPLAY_ID_OFFSET displayId b14)"

section \<open>The operation\<close>

text \<open>The strings, depths, visuals, formats and the screen.\<close>

definition arena_tables ::
  "xserver \<Rightarrow> u64 \<Rightarrow> (u32 \<times> xvisual list) list \<Rightarrow> XPixmapFormatEntry list \<Rightarrow> arena_layout \<Rightarrow> memory" where
  "arena_tables h arena groups formats l =
     (let rootDepth = (case groups of [] \<Rightarrow> 0 | g # _ \<Rightarrow> fst g);
          rootVisual = (case groups of [] \<Rightarrow> 0 | _ \<Rightarrow> arena + of_nat (al_visuals l));
          b1 = wr (wr (\<lambda>_. 0) (al_vendor l) vendor_string) (al_name l) display_string;
          b2 = put_depths arena (al_depths l) (al_visuals l) groups b1;
          b3 = put_formats (al_formats l) formats b2
      in put_screen h arena l (length groups) rootDepth rootVisual b3)"

definition op_OPEN_DISPLAY :: "xserver handler" where
  "op_OPEN_DISPLAY = require_args 4 (\<lambda>c h.
     let arena = arg c 0; arenaBytes = arg c 1; cfd = uarg c 2; sfd = uarg c 3 in
     if unat arenaBytes < DISPLAY_ARENA_BYTES \<or> \<not> x11Bridge64RangeAccessible (c_probe c) arena arenaBytes True
     then (E_FAULT, c, h)
     else
       let groups = depthVisuals (visuals h);
           formats = xBuildPixmapFormats (visual_formats groups);
           l = arena_layout_of groups formats in
       if DISPLAY_ARENA_BYTES < al_end l then (0, c, h)
       else (case registerDisplay64 arena cfd sfd h of (i, h1) \<Rightarrow>
         let bytes = rd (put_display h arena l (length formats) cfd i (arena_tables h arena groups formats l))
                        0 DISPLAY_ARENA_BYTES in
         (case h_write arena bytes c of
            (False, c1) \<Rightarrow> (E_FAULT, c1, unregisterDisplay64 i h1)
          | (True, c1) \<Rightarrow> (ucast i, c1, h1))))"

text \<open>Requests are executed as they arrive: there is nothing to wait for and nothing to send.\<close>

definition op_INIT_THREADS :: "xserver handler" where "op_INIT_THREADS c h = (1, c, h)"
definition op_SYNC :: "xserver handler" where "op_SYNC c h = (0, c, h)"
definition op_FLUSH :: "xserver handler" where "op_FLUSH c h = (0, c, h)"

end
