(* ===== verification/HostDrawing.thy ===== *)
theory HostDrawing
  imports HostWindowCalls
begin

text \<open>
  Graphics contexts and drawing on the host (the handlers of \<^verbatim>\<open>source/x11/x11bridge64.cpp\<close> over
  \<^verbatim>\<open>source/x11/xgc.cpp\<close> and \<^verbatim>\<open>xdrawable.cpp\<close>): a request names a drawable and a context, the operation of
  \<^verbatim>\<open>HostSurface\<close> runs on the drawable's buffer, and what it leaves behind goes back to the server.
\<close>

section \<open>Graphics contexts\<close>

definition gcv_function :: nat where "gcv_function = 0"
definition gcv_plane_mask :: nat where "gcv_plane_mask = 8"
definition gcv_foreground :: nat where "gcv_foreground = 16"
definition gcv_background :: nat where "gcv_background = 24"
definition gcv_line_width :: nat where "gcv_line_width = 32"
definition gcv_line_style :: nat where "gcv_line_style = 36"
definition gcv_cap_style :: nat where "gcv_cap_style = 40"
definition gcv_join_style :: nat where "gcv_join_style = 44"
definition gcv_fill_style :: nat where "gcv_fill_style = 48"
definition gcv_fill_rule :: nat where "gcv_fill_rule = 52"
definition gcv_arc_mode :: nat where "gcv_arc_mode = 56"
definition gcv_tile :: nat where "gcv_tile = 64"
definition gcv_stipple :: nat where "gcv_stipple = 72"
definition gcv_ts_x_origin :: nat where "gcv_ts_x_origin = 80"
definition gcv_ts_y_origin :: nat where "gcv_ts_y_origin = 84"
definition gcv_font :: nat where "gcv_font = 88"
definition gcv_subwindow_mode :: nat where "gcv_subwindow_mode = 96"
definition gcv_graphics_exposures :: nat where "gcv_graphics_exposures = 100"
definition gcv_clip_x_origin :: nat where "gcv_clip_x_origin = 104"
definition gcv_clip_y_origin :: nat where "gcv_clip_y_origin = 108"
definition gcv_clip_mask :: nat where "gcv_clip_mask = 112"
definition gcv_dash_offset :: nat where "gcv_dash_offset = 120"
definition gcv_dashes :: nat where "gcv_dashes = 124"
definition XGCValues_size :: nat where "XGCValues_size = 128"

lemmas gcv_offsets = gcv_function_def gcv_plane_mask_def gcv_foreground_def gcv_background_def
  gcv_line_width_def gcv_line_style_def gcv_cap_style_def gcv_join_style_def gcv_fill_style_def
  gcv_fill_rule_def gcv_arc_mode_def gcv_tile_def gcv_stipple_def gcv_ts_x_origin_def gcv_ts_y_origin_def
  gcv_font_def gcv_subwindow_mode_def gcv_graphics_exposures_def gcv_clip_x_origin_def gcv_clip_y_origin_def
  gcv_clip_mask_def gcv_dash_offset_def gcv_dashes_def XGCValues_size_def

definition gc_values_at :: "u8 list \<Rightarrow> XGCValues" where
  "gc_values_at raw =
     \<lparr>g_function = get32 raw gcv_function, g_plane_mask = ucast (get64 raw gcv_plane_mask), g_foreground = ucast (get64 raw gcv_foreground),
      g_background = ucast (get64 raw gcv_background), g_line_width = get32 raw gcv_line_width, g_line_style = get32 raw gcv_line_style,
      g_cap_style = get32 raw gcv_cap_style, g_join_style = get32 raw gcv_join_style, g_fill_style = get32 raw gcv_fill_style,
      g_fill_rule = get32 raw gcv_fill_rule, g_arc_mode = get32 raw gcv_arc_mode, g_tile = ucast (get64 raw gcv_tile),
      g_stipple = ucast (get64 raw gcv_stipple), g_ts_x_origin = get32 raw gcv_ts_x_origin, g_ts_y_origin = get32 raw gcv_ts_y_origin,
      g_font = ucast (get64 raw gcv_font), g_subwindow_mode = get32 raw gcv_subwindow_mode, g_graphics_exposures = get32 raw gcv_graphics_exposures,
      g_clip_x_origin = get32 raw gcv_clip_x_origin, g_clip_y_origin = get32 raw gcv_clip_y_origin, g_clip_mask = ucast (get64 raw gcv_clip_mask),
      g_dash_offset = get32 raw gcv_dash_offset, g_dashes = raw ! gcv_dashes\<rparr>"

definition readGCValues :: "u64 \<Rightarrow> hcall \<Rightarrow> XGCValues option \<times> hcall" where
  "readGCValues a c = (case h_read a XGCValues_size c of (raw, c1) \<Rightarrow> (map_option gc_values_at raw, c1))"

definition BadDrawable :: s64 where "BadDrawable = 9"
definition BadGC :: s64 where "BadGC = 13"

definition createGC :: "u32 \<Rightarrow> xserver \<Rightarrow> u32 \<times> xserver" where
  "createGC drawable h =
     (let i = nextId h + 1 in
      (i, h\<lparr>nextId := i, gcs := (gcs h)(i \<mapsto> \<lparr>gc_drawable = drawable, gc_values = default_values, clip_rects = []\<rparr>)\<rparr>))"

definition removeGC :: "u32 \<Rightarrow> xserver \<Rightarrow> xserver" where
  "removeGC i h = h\<lparr>gcs := (gcs h)(i := None)\<rparr>"

definition upd_gc :: "u32 \<Rightarrow> (XGC \<Rightarrow> XGC) \<Rightarrow> xserver \<Rightarrow> xserver" where
  "upd_gc i f h = h\<lparr>gcs := (gcs h)(i := map_option f (gcs h i))\<rparr>"

definition set_gc_values :: "u32 \<Rightarrow> (XGCValues \<Rightarrow> XGCValues) \<Rightarrow> xserver \<Rightarrow> xserver" where
  "set_gc_values i f = upd_gc i (\<lambda>g. g\<lparr>gc_values := f (gc_values g)\<rparr>)"

definition op_CREATE_GC :: "xserver handler" where
  "op_CREATE_GC = require_args 4 (\<lambda>c h.
     if getDrawable (uarg c 1) h = None then (0, c, h)
     else (case createGC (uarg c 1) h of
       (i, h1) \<Rightarrow>
         if uarg c 2 \<noteq> 0 \<and> arg c 3 \<noteq> 0
         then (case readGCValues (arg c 3) c of
             (None, c1) \<Rightarrow> (E_FAULT, c1, removeGC i h1)
           | (Some v, c1) \<Rightarrow> (ucast i, c1, set_gc_values i (updateValues (uarg c 2) v) h1))
         else (ucast i, c, h1)))"

definition op_FREE_GC :: "xserver handler" where
  "op_FREE_GC = require_args 2 (\<lambda>c h.
     if gcs h (uarg c 1) = None then (BadGC, c, h) else (Success64, c, removeGC (uarg c 1) h))"

definition op_CHANGE_GC :: "xserver handler" where
  "op_CHANGE_GC = require_args 4 (\<lambda>c h.
     if gcs h (uarg c 1) = None then (BadGC, c, h)
     else (case readGCValues (arg c 3) c of
         (None, c1) \<Rightarrow> (E_FAULT, c1, h)
       | (Some v, c1) \<Rightarrow> (Success64, c1, set_gc_values (uarg c 1) (updateValues (uarg c 2) v) h)))"

text \<open>One value, named by a selector of the bridge; the selector is compared in 64 bits.\<close>

definition gc_setter :: "u64 \<Rightarrow> u64 \<Rightarrow> (XGCValues \<Rightarrow> XGCValues) option" where
  "gc_setter selector value =
     (if selector = GC_FUNCTION then Some (\<lambda>v. v\<lparr>g_function := ucast value\<rparr>)
      else if selector = GC_BACKGROUND then Some (\<lambda>v. v\<lparr>g_background := ucast value\<rparr>)
      else if selector = GC_FOREGROUND then Some (\<lambda>v. v\<lparr>g_foreground := ucast value\<rparr>)
      else if selector = GC_SUBWINDOW_MODE then Some (\<lambda>v. v\<lparr>g_subwindow_mode := ucast value\<rparr>)
      else if selector = GC_GRAPHICS_EXPOSURES then Some (\<lambda>v. v\<lparr>g_graphics_exposures := (if value \<noteq> 0 then 1 else 0)\<rparr>)
      else if selector = GC_CLIP_MASK then Some (\<lambda>v. v\<lparr>g_clip_mask := ucast value\<rparr>)
      else if selector = GC_FILL_STYLE then Some (\<lambda>v. v\<lparr>g_fill_style := ucast value\<rparr>)
      else if selector = GC_ARC_MODE then Some (\<lambda>v. v\<lparr>g_arc_mode := ucast value\<rparr>)
      else None)"

definition op_SET_GC_VALUE :: "xserver handler" where
  "op_SET_GC_VALUE = require_args 4 (\<lambda>c h.
     if gcs h (uarg c 1) = None then (BadGC, c, h)
     else (case gc_setter (arg c 2) (arg c 3) of
         None \<Rightarrow> (BadValue, c, h)
       | Some f \<Rightarrow> (Success64, c, set_gc_values (uarg c 1) f h)))"

definition XRectangle_size :: nat where "XRectangle_size = 8"

definition rectangle_at :: "u8 list \<Rightarrow> nat \<Rightarrow> XRectangle" where
  "rectangle_at raw off =
     \<lparr>r_x = le_word (take 2 (drop off raw)), r_y = le_word (take 2 (drop (off + 2) raw)),
      r_width = le_word (take 2 (drop (off + 4) raw)), r_height = le_word (take 2 (drop (off + 6) raw))\<rparr>"

definition op_SET_CLIP_RECTANGLES :: "xserver handler" where
  "op_SET_CLIP_RECTANGLES = require_args 7 (\<lambda>c h.
     if gcs h (uarg c 1) = None then (BadGC, c, h)
     else if 65536 < unat (arg c 5) then (BadValue, c, h)
     else (case h_read (arg c 4) (unat (arg c 5) * XRectangle_size) c of
         (None, c1) \<Rightarrow> (E_FAULT, c1, h)
       | (Some raw, c1) \<Rightarrow> (Success64, c1, upd_gc (uarg c 1) (\<lambda>g. g\<lparr>
             gc_values := (gc_values g)\<lparr>g_clip_x_origin := iarg c 2, g_clip_y_origin := iarg c 3\<rparr>,
             clip_rects := map (\<lambda>k. rectangle_at raw (k * XRectangle_size)) [0..<unat (arg c 5)]\<rparr>) h)))"

section \<open>Drawing\<close>

text \<open>The surface behind an id; a pixmap has no dirty box.\<close>

definition drawable_surface :: "u32 \<Rightarrow> xserver \<Rightarrow> surface option" where
  "drawable_surface i h = (case getDrawable i h of
       None \<Rightarrow> None
     | Some d \<Rightarrow>
         (case pixmaps h i of
            Some p \<Rightarrow> make_surface i (dr_width d) (dr_height d) (dr_visual d) False None h
          | None \<Rightarrow> window_surface i h))"

text \<open>A drawable and a context, looked up in this order, and the operation on the surface; its result is
  \<^verbatim>\<open>None\<close> when the host panics.  A drawable without a visual is a null dereference.\<close>

definition draw_on ::
  "u32 \<Rightarrow> u32 \<Rightarrow> (XGCValues \<Rightarrow> surface \<Rightarrow> (s64 \<times> surface) option) \<Rightarrow> hcall \<Rightarrow> xserver \<Rightarrow> s64 \<times> hcall \<times> xserver" where
  "draw_on drawable gc f c h =
     (if getDrawable drawable h = None then (BadDrawable, c, h)
      else (case gcs h gc of
          None \<Rightarrow> (BadGC, c, h)
        | Some g \<Rightarrow>
            (case drawable_surface drawable h of
               None \<Rightarrow> (Success64, c, mark_stuck h)
             | Some s \<Rightarrow>
                 (case f (gc_values g) s of
                    None \<Rightarrow> (Success64, c, mark_stuck h)
                  | Some (r, s1) \<Rightarrow> (r, c, put_surface drawable s1 h)))))"

definition op_DRAW_LINE :: "xserver handler" where
  "op_DRAW_LINE = require_args 7 (\<lambda>c. draw_on (uarg c 1) (uarg c 2)
     (\<lambda>v. drawLine v (iarg c 3) (iarg c 4) (iarg c 5) (iarg c 6)) c)"

definition op_DRAW_RECTANGLE :: "xserver handler" where
  "op_DRAW_RECTANGLE = require_args 7 (\<lambda>c. draw_on (uarg c 1) (uarg c 2)
     (\<lambda>v. drawRectangle v (iarg c 3) (iarg c 4) (uarg c 5) (uarg c 6)) c)"

text \<open>The stipple may be the drawable itself.\<close>

definition op_FILL_RECTANGLE :: "xserver handler" where
  "op_FILL_RECTANGLE = require_args 7 (\<lambda>c h. draw_on (uarg c 1) (uarg c 2)
     (\<lambda>v. fillRectangle v (\<lambda>s. if g_stipple v = uarg c 1 then Some s else drawable_surface (g_stipple v) h)
            (iarg c 3) (iarg c 4) (uarg c 5) (uarg c 6)) c h)"

definition op_COPY_AREA :: "xserver handler" where
  "op_COPY_AREA = require_args 10 (\<lambda>c h.
     if getDrawable (uarg c 1) h = None then (BadDrawable, c, h)
     else draw_on (uarg c 2) (uarg c 3)
       (\<lambda>v s. if uarg c 1 = uarg c 2 then Some (copy_surface (\<lambda>s. s) (iarg c 4) (iarg c 5) (uarg c 6) (uarg c 7) (iarg c 8) (iarg c 9) s)
              else map_option (\<lambda>src. copy_surface (\<lambda>_. src) (iarg c 4) (iarg c 5) (uarg c 6) (uarg c 7) (iarg c 8) (iarg c 9) s)
                     (drawable_surface (uarg c 1) h)) c h)"

text \<open>Only the rows that are needed are copied out of the client; the arithmetic is 64 bits wide.\<close>

definition put_image_needed :: "u32 \<Rightarrow> u32 \<Rightarrow> c_int \<Rightarrow> c_int \<Rightarrow> u32 \<Rightarrow> u32 \<Rightarrow> u64" where
  "put_image_needed bytesPerLine bitsPerPixel srcX srcY width height =
     (let firstRow = ucast bytesPerLine * scast srcY :: u64;
          rowBytes = (ucast bitsPerPixel * ucast (srcX + width) + 7) div 8 :: u64
      in firstRow + ucast bytesPerLine * ucast (if height \<noteq> 0 then height - 1 else 0) + rowBytes)"

definition op_PUT_IMAGE :: "xserver handler" where
  "op_PUT_IMAGE = require_args 10 (\<lambda>c h.
     if getDrawable (uarg c 1) h = None then (BadDrawable, c, h)
     else if gcs h (uarg c 2) = None then (BadGC, c, h)
     else (case h_read (arg c 3) XImage_size c of
         (None, c1) \<Rightarrow> (E_FAULT, c1, h)
       | (Some raw, c1) \<Rightarrow>
           let dataAddress = get64 raw img_data; bytesPerLine = get32 raw img_bytes_per_line;
               bitsPerPixel = get32 raw img_bits_per_pixel; srcX = iarg c 4; srcY = iarg c 5;
               width = uarg c 8; height = uarg c 9;
               needed = put_image_needed bytesPerLine bitsPerPixel srcX srcY width height in
           if srcX <s 0 \<or> srcY <s 0 \<or> bytesPerLine = 0 \<or> 16384 < height \<or> 16384 < width then (BadValue, c1, h)
           else if 256 * 1024 * 1024 < unat needed then (BadValue, c1, h)
           else (case h_read dataAddress (unat needed) c1 of
               (None, c2) \<Rightarrow> (E_FAULT, c2, h)
             | (Some bytes, c2) \<Rightarrow> draw_on (uarg c 1) (uarg c 2)
                 (\<lambda>v s. Some (copyHostImageData (Some v) bytes bytesPerLine bitsPerPixel srcX srcY (iarg c 6) (iarg c 7) width height s)) c2 h)))"

definition op_GET_IMAGE :: "xserver handler" where "op_GET_IMAGE c h = (E_UNIMPL, c, h)"

text \<open>A bitmap of one bit per pixel is laid in the rows of a pixmap that has the drawable's own visual.\<close>

definition restride :: "nat \<Rightarrow> nat \<Rightarrow> nat \<Rightarrow> u8 list \<Rightarrow> u8 list" where
  "restride sourceStride targetStride height bytes = concat (map (\<lambda>y.
     let row = take (min sourceStride targetStride) (drop (y * sourceStride) bytes)
     in row @ replicate (targetStride - length row) 0) [0..<height])"

definition op_CREATE_BITMAP_FROM_DATA :: "xserver handler" where
  "op_CREATE_BITMAP_FROM_DATA = require_args 5 (\<lambda>c h.
     case getDrawable (uarg c 1) h of
       None \<Rightarrow> (0, c, h)
     | Some d \<Rightarrow>
         let width = uarg c 3; height = uarg c 4 in
         if 16384 < width \<or> 16384 < height then (0, c, h)
         else
           let depth = (case getWindow (uarg c 1) h of Some w \<Rightarrow> w_depth w | None \<Rightarrow> dr_depth d) in
           (case createNewPixmap width height depth (dr_visual d) h of
              (i, h1) \<Rightarrow>
                let sourceStride = unat ((width + 7) div 8) in
                (case h_read (arg c 2) (sourceStride * unat height) c of
                   (None, c1) \<Rightarrow> (E_FAULT, c1, snd (removePixmap i h1))
                 | (Some bytes, c1) \<Rightarrow>
                     (case drawable_surface i h1 of
                        None \<Rightarrow> (0, c1, mark_stuck h1)
                      | Some s \<Rightarrow>
                          (case copyHostImageData None (restride sourceStride (unat (s_pitch s)) (unat height) bytes) (s_pitch s)
                                  (s_bpp s) 0 0 0 0 width height s of
                             (r, s1) \<Rightarrow> (ucast i, c1, put_surface i s1 h1))))))"

end
