(* ===== verification/HostColors.thy ===== *)
theory HostColors
  imports HostWindowCalls
begin

text \<open>
  Colormaps on the host (the handlers of \<^verbatim>\<open>source/x11/x11bridge64.cpp\<close> over \<^verbatim>\<open>source/x11/xcolormap.cpp\<close>): a map
  has 256 cells, each with a colour, flags and the displays that have allocated it.
\<close>

section \<open>Colormaps\<close>

definition COLOR_ALLOCATED :: u8 where "COLOR_ALLOCATED = 1"
definition COLOR_WRITE :: u8 where "COLOR_WRITE = 2"
definition MAX_COLORMAP_SIZE :: nat where "MAX_COLORMAP_SIZE = 256"
definition TrueColor :: c_int where "TrueColor = 4"
definition AllocNone :: u32 where "AllocNone = 0"
definition AllocAll :: u32 where "AllocAll = 1"
definition DummyAtom :: s64 where "DummyAtom = 99"
definition BadColor :: s64 where "BadColor = 12"

definition new_cell :: color_cell where
  "new_cell = \<lparr>cc_r = 0, cc_g = 0, cc_b = 0, cc_flags = 0, cc_uses = []\<rparr>"

definition new_colormap :: xcolormap where
  "new_colormap = \<lparr>cm_colors = replicate MAX_COLORMAP_SIZE new_cell, cm_dirty = False, cm_nativePixels = replicate MAX_COLORMAP_SIZE 0\<rparr>"

definition K_RGB :: "u8 \<Rightarrow> u8 \<Rightarrow> u8 \<Rightarrow> u32" where
  "K_RGB r g b = push_bit 16 (ucast r) OR push_bit 8 (ucast g) OR ucast b"

definition buildCache :: "xcolormap \<Rightarrow> xcolormap" where
  "buildCache m = (if cm_dirty m
     then m\<lparr>cm_dirty := False, cm_nativePixels := map (\<lambda>c. K_RGB (cc_r c) (cc_g c) (cc_b c)) (cm_colors m)\<rparr> else m)"

definition getColorMap :: "u32 \<Rightarrow> xserver \<Rightarrow> xcolormap option" where "getColorMap i h = colorMaps h i"

definition createColorMap :: "xserver \<Rightarrow> u32 \<times> xserver" where
  "createColorMap h = (let i = nextId h + 1 in (i, h\<lparr>nextId := i, colorMaps := (colorMaps h)(i \<mapsto> new_colormap)\<rparr>))"

definition put_colormap :: "u32 \<Rightarrow> xcolormap \<Rightarrow> xserver \<Rightarrow> xserver" where
  "put_colormap i m h = h\<lparr>colorMaps := (colorMaps h)(i \<mapsto> m)\<rparr>"

definition cell_allocated :: "color_cell \<Rightarrow> bool" where "cell_allocated c \<longleftrightarrow> cc_flags c AND COLOR_ALLOCATED \<noteq> 0"
definition cell_writable :: "color_cell \<Rightarrow> bool" where "cell_writable c \<longleftrightarrow> cc_flags c AND COLOR_WRITE \<noteq> 0"

definition upd_cell :: "nat \<Rightarrow> (color_cell \<Rightarrow> color_cell) \<Rightarrow> xcolormap \<Rightarrow> xcolormap" where
  "upd_cell i f m = m\<lparr>cm_colors := (cm_colors m)[i := f (cm_colors m ! i)]\<rparr>"

text \<open>A display uses the cell; a use is recorded once.\<close>

definition add_use :: "u32 \<Rightarrow> color_cell \<Rightarrow> color_cell" where "add_use d c = c\<lparr>cc_uses := List.insert d (cc_uses c)\<rparr>"

section \<open>Colours of the client\<close>

record xcolor =
  xc_pixel :: u32
  xc_red :: u16
  xc_green :: u16
  xc_blue :: u16

definition XColor_size :: nat where "XColor_size = 16"
definition xc_off_pixel :: nat where "xc_off_pixel = 0"
definition xc_off_red :: nat where "xc_off_red = 8"
definition xc_off_green :: nat where "xc_off_green = 10"
definition xc_off_blue :: nat where "xc_off_blue = 12"

lemmas xc_offsets = XColor_size_def xc_off_pixel_def xc_off_red_def xc_off_green_def xc_off_blue_def

definition get16 :: "u8 list \<Rightarrow> nat \<Rightarrow> u16" where "get16 raw off = le_word (take 2 (drop off raw))"

definition color_at :: "u8 list \<Rightarrow> xcolor" where
  "color_at raw = \<lparr>xc_pixel = ucast (get64 raw xc_off_pixel), xc_red = get16 raw xc_off_red,
     xc_green = get16 raw xc_off_green, xc_blue = get16 raw xc_off_blue\<rparr>"

definition readColor :: "u64 \<Rightarrow> hcall \<Rightarrow> xcolor option \<times> hcall" where
  "readColor a c = (case h_read a XColor_size c of (raw, c1) \<Rightarrow> (map_option color_at raw, c1))"

definition writeColorRgb :: "u64 \<Rightarrow> u16 \<Rightarrow> u16 \<Rightarrow> u16 \<Rightarrow> hcall \<Rightarrow> bool \<times> hcall" where
  "writeColorRgb a red green blue = h_write (a + of_nat xc_off_red) (le_bytes 2 red @ le_bytes 2 green @ le_bytes 2 blue)"

text \<open>The high byte of a component is kept, and given back in the high byte.\<close>

definition high_byte :: "u16 \<Rightarrow> u8" where "high_byte v = ucast (drop_bit 8 v)"
definition from_high :: "u8 \<Rightarrow> u16" where "from_high b = push_bit 8 (ucast b)"

section \<open>Operations\<close>

definition op_CREATE_COLORMAP :: "xserver handler" where
  "op_CREATE_COLORMAP = require_args 4 (require_display (\<lambda>i d c h.
     let visualAddress = arg c 2; alloc = uarg c 3 in
     case (if visualAddress = 0 then (Some [], c) else h_read visualAddress Visual_size c) of
       (None, c1) \<Rightarrow> (E_FAULT, c1, h)
     | (Some raw, c1) \<Rightarrow>
         if alloc = AllocNone \<and> (visualAddress = 0 \<or> get32 raw vis_class = TrueColor) then (DummyAtom, c1, h)
         else (case createColorMap h of (m, h1) \<Rightarrow>
           (ucast m, c1,
            if alloc = AllocAll
            then put_colormap m (new_colormap\<lparr>cm_colors := map (\<lambda>x. add_use i
                   (x\<lparr>cc_flags := cc_flags x OR (COLOR_ALLOCATED OR COLOR_WRITE)\<rparr>)) (cm_colors new_colormap)\<rparr>) h1
            else h1))))"

definition op_FREE_COLORMAP :: "xserver handler" where "op_FREE_COLORMAP c h = (0, c, h)"

text \<open>The first allocated cell with the colour, and the first free one.\<close>

definition same_color :: "u8 \<Rightarrow> u8 \<Rightarrow> u8 \<Rightarrow> color_cell \<Rightarrow> bool" where
  "same_color r g b c \<longleftrightarrow> cell_allocated c \<and> cc_r c = r \<and> cc_g c = g \<and> cc_b c = b"

definition first_cell :: "(color_cell \<Rightarrow> bool) \<Rightarrow> xcolormap \<Rightarrow> nat option" where
  "first_cell p m = List.find (\<lambda>i. p (cm_colors m ! i)) [0..<MAX_COLORMAP_SIZE]"

definition op_ALLOC_COLOR :: "xserver handler" where
  "op_ALLOC_COLOR = require_args 3 (require_display (\<lambda>d _ c h.
     case getColorMap (uarg c 1) h of
       None \<Rightarrow> (0, c, h)
     | Some m \<Rightarrow>
         (case readColor (arg c 2) c of
            (None, c1) \<Rightarrow> (E_FAULT, c1, h)
          | (Some color, c1) \<Rightarrow>
              let r = high_byte (xc_red color); g = high_byte (xc_green color); b = high_byte (xc_blue color);
                  answer = (\<lambda>i m'. case h_write64 (arg c 2 + of_nat xc_off_pixel) (of_nat i) c1 of
                     (ok, c2) \<Rightarrow> (if ok then 1 else E_FAULT, c2, put_colormap (uarg c 1) m' h)) in
              (case first_cell (same_color r g b) m of
                 Some i \<Rightarrow> answer i (upd_cell i (\<lambda>x. (add_use d x)\<lparr>cc_flags := COLOR_ALLOCATED\<rparr>) m)
               | None \<Rightarrow>
                   (case first_cell (\<lambda>x. \<not> cell_allocated x) m of
                      None \<Rightarrow> (0, c1, h)
                    | Some i \<Rightarrow> answer i ((upd_cell i (\<lambda>x. (add_use d x)\<lparr>cc_r := r, cc_g := g, cc_b := b, cc_flags := COLOR_ALLOCATED\<rparr>) m)
                        \<lparr>cm_dirty := True\<rparr>))))))"

text \<open>Cells are taken one after the other; a fault leaves those taken so far.\<close>

primrec alloc_cells :: "nat list \<Rightarrow> u32 \<Rightarrow> u64 \<Rightarrow> nat \<Rightarrow> hcall \<Rightarrow> xcolormap \<Rightarrow> s64 \<times> hcall \<times> xcolormap" where
  "alloc_cells [] d pixels n c m = (1, c, m)"
| "alloc_cells (i # is) d pixels n c m =
     (if n = 0 then (1, c, m)
      else if cell_allocated (cm_colors m ! i) then alloc_cells is d pixels n c m
      else
        let m1 = upd_cell i (\<lambda>x. add_use d (x\<lparr>cc_flags := cc_flags x OR (COLOR_ALLOCATED OR COLOR_WRITE)\<rparr>)) m in
        case h_write64 pixels (of_nat i) c of
          (False, c1) \<Rightarrow> (E_FAULT, c1, m1)
        | (True, c1) \<Rightarrow> alloc_cells is d (pixels + 8) (n - 1) c1 m1)"

definition op_ALLOC_COLOR_CELLS :: "xserver handler" where
  "op_ALLOC_COLOR_CELLS = require_args 7 (require_display (\<lambda>d _ c h.
     case getColorMap (uarg c 1) h of
       None \<Rightarrow> (0, c, h)
     | Some m \<Rightarrow>
         if length (filter (\<lambda>x. \<not> cell_allocated x) (cm_colors m)) < unat (arg c 6) then (0, c, h)
         else (case alloc_cells [0..<MAX_COLORMAP_SIZE] d (arg c 5) (unat (arg c 6)) c m of
           (s, c1, m1) \<Rightarrow> (s, c1, put_colormap (uarg c 1) m1 h))))"

definition free_cell :: "u32 \<Rightarrow> color_cell \<Rightarrow> color_cell" where
  "free_cell d x = (let us = removeAll d (cc_uses x) in
     x\<lparr>cc_uses := us, cc_flags := (if us = [] then 0 else cc_flags x)\<rparr>)"

primrec free_colors :: "nat \<Rightarrow> u32 \<Rightarrow> u64 \<Rightarrow> s64 \<Rightarrow> hcall \<Rightarrow> xcolormap \<Rightarrow> s64 \<times> hcall \<times> xcolormap" where
  "free_colors 0 d pixels result c m = (result, c, m)"
| "free_colors (Suc n) d pixels result c m =
     (case h_read64 pixels c of
        (None, c1) \<Rightarrow> (E_FAULT, c1, m)
      | (Some index, c1) \<Rightarrow>
          if MAX_COLORMAP_SIZE \<le> unat index then (BadValue, c1, m)
          else free_colors n d (pixels + 8)
                 (if cell_allocated (cm_colors m ! unat index) then result else BadAccess) c1
                 (upd_cell (unat index) (free_cell d) m))"

definition op_FREE_COLORS :: "xserver handler" where
  "op_FREE_COLORS = require_args 5 (require_display (\<lambda>d _ c h.
     case getColorMap (uarg c 1) h of
       None \<Rightarrow> (BadColor, c, h)
     | Some m \<Rightarrow> (case free_colors (unat (arg c 3)) d (arg c 2) 0 c m of
         (s, c1, m1) \<Rightarrow> (s, c1, put_colormap (uarg c 1) m1 h))))"

text \<open>One colour looked up at an address: the pixel names the cell, its components go back.\<close>

definition query_color :: "xcolormap \<Rightarrow> u64 \<Rightarrow> hcall \<Rightarrow> s64 \<times> hcall" where
  "query_color m a c =
     (case readColor a c of
        (None, c1) \<Rightarrow> (E_FAULT, c1)
      | (Some color, c1) \<Rightarrow>
          if MAX_COLORMAP_SIZE \<le> unat (xc_pixel color) then (BadValue, c1)
          else (let x = cm_colors m ! unat (xc_pixel color) in
            case writeColorRgb a (from_high (cc_r x)) (from_high (cc_g x)) (from_high (cc_b x)) c1 of
              (ok, c2) \<Rightarrow> (if ok then 0 else E_FAULT, c2)))"

definition op_QUERY_COLOR :: "xserver handler" where
  "op_QUERY_COLOR = require_args 3 (\<lambda>c h. case getColorMap (uarg c 1) h of
       None \<Rightarrow> (BadColor, c, h)
     | Some m \<Rightarrow> (case query_color m (arg c 2) c of (s, c1) \<Rightarrow> (s, c1, h)))"

primrec query_colors :: "nat \<Rightarrow> xcolormap \<Rightarrow> u64 \<Rightarrow> hcall \<Rightarrow> s64 \<times> hcall" where
  "query_colors 0 m a c = (0, c)"
| "query_colors (Suc n) m a c = (case query_color m a c of
     (s, c1) \<Rightarrow> if s \<noteq> 0 then (s, c1) else query_colors n m (a + of_nat XColor_size) c1)"

definition op_QUERY_COLORS :: "xserver handler" where
  "op_QUERY_COLORS = require_args 4 (\<lambda>c h. case getColorMap (uarg c 1) h of
       None \<Rightarrow> (BadColor, c, h)
     | Some m \<Rightarrow>
         if MAX_COLORMAP_SIZE < unat (arg c 3) then (BadValue, c, h)
         else (case query_colors (unat (arg c 3)) m (arg c 2) c of (s, c1) \<Rightarrow> (s, c1, h)))"

definition op_STORE_COLOR :: "xserver handler" where
  "op_STORE_COLOR = require_args 3 (\<lambda>c h. case getColorMap (uarg c 1) h of
       None \<Rightarrow> (BadColor, c, h)
     | Some m \<Rightarrow>
         (case readColor (arg c 2) c of
            (None, c1) \<Rightarrow> (E_FAULT, c1, h)
          | (Some color, c1) \<Rightarrow>
              let i = unat (xc_pixel color) in
              if MAX_COLORMAP_SIZE \<le> i then (BadValue, c1, h)
              else if \<not> cell_writable (cm_colors m ! i) then (BadAccess, c1, h)
              else (0, c1, put_colormap (uarg c 1) ((upd_cell i (\<lambda>x. x\<lparr>cc_r := high_byte (xc_red color),
                  cc_g := high_byte (xc_green color), cc_b := high_byte (xc_blue color)\<rparr>) m)\<lparr>cm_dirty := True\<rparr>) h)))"

end
