(* ===== verification/BHashTable.thy ===== *)
theory BHashTable
  imports Prelude
begin

text \<open>
  The hash table every component of the host keeps its objects in (\<^verbatim>\<open>source/util/bhashtable.h\<close>): open
  addressing with linear probing, where a lookup probes at most \<^verbatim>\<open>max_hash_offset + 1\<close> slots and a removal
  leaves no mark.  \<^verbatim>\<open>std::hash\<close> is the parameter \<^verbatim>\<open>hash\<close>, of which nothing is assumed, and the allocator the
  parameter \<^verbatim>\<open>alloc\<close>, which says whether a vector of that many slots is granted.  An unused slot is
  \<^verbatim>\<open>None\<close>: its key and value are never read.  An operation whose search for a free slot did not end would be
  \<^verbatim>\<open>None\<close>; the properties say that it does not happen.
\<close>

section \<open>The table\<close>

record ('k, 'v) hash_table =
  slots :: "('k \<times> 'v) option list"
  used_count :: nat
  max_hash_offset :: nat

datatype table_error = length_error | bad_alloc

definition SIZE_MAX :: nat where "SIZE_MAX = 2 ^ 64 - 1"

definition empty_table :: "('k, 'v) hash_table" where
  "empty_table = \<lparr>slots = [], used_count = 0, max_hash_offset = 0\<rparr>"

definition slot_mask :: "('k, 'v) hash_table \<Rightarrow> nat" where
  "slot_mask t = length (slots t) - 1"

definition key_index :: "('k \<Rightarrow> u64) \<Rightarrow> 'k \<Rightarrow> ('k, 'v) hash_table \<Rightarrow> nat" where
  "key_index hash k t = unat (hash k) AND slot_mask t"

definition checked_growth_size :: "nat \<Rightarrow> nat option" where
  "checked_growth_size current_size =
     (if current_size = 0 then Some 8 else if SIZE_MAX div 2 < current_size then None else Some (current_size * 2))"

definition should_rehash :: "('k, 'v) hash_table \<Rightarrow> bool" where
  "should_rehash t \<longleftrightarrow> slots t = [] \<or> length (slots t) - length (slots t) div 4 \<le> used_count t"

section \<open>Searching\<close>

definition slot_equals :: "('k \<times> 'v) option \<Rightarrow> 'k \<Rightarrow> bool" where
  "slot_equals s k = (case s of None \<Rightarrow> False | Some (k', v) \<Rightarrow> k' = k)"

text \<open>\<^verbatim>\<open>n\<close> slots are still to be probed.\<close>

primrec probe :: "'k \<Rightarrow> ('k, 'v) hash_table \<Rightarrow> nat \<Rightarrow> nat \<Rightarrow> nat option" where
  "probe k t i 0 = None"
| "probe k t i (Suc n) =
     (if slot_equals (slots t ! i) k then Some i else probe k t ((i + 1) AND slot_mask t) n)"

definition get_slot :: "('k \<Rightarrow> u64) \<Rightarrow> 'k \<Rightarrow> ('k, 'v) hash_table \<Rightarrow> nat option" where
  "get_slot hash k t = (if slots t = [] then None else probe k t (key_index hash k t) (Suc (max_hash_offset t)))"

definition table_contains :: "('k \<Rightarrow> u64) \<Rightarrow> 'k \<Rightarrow> ('k, 'v) hash_table \<Rightarrow> bool" where
  "table_contains hash k t = (get_slot hash k t \<noteq> None)"

definition table_get :: "('k \<Rightarrow> u64) \<Rightarrow> 'k \<Rightarrow> ('k, 'v) hash_table \<Rightarrow> 'v option" where
  "table_get hash k t = (case get_slot hash k t of None \<Rightarrow> None | Some i \<Rightarrow> map_option snd (slots t ! i))"

section \<open>Inserting\<close>

text \<open>The loop has no bound of its own.\<close>

partial_function (option) find_free :: "('k, 'v) hash_table \<Rightarrow> nat \<Rightarrow> nat \<Rightarrow> (nat \<times> nat) option" where
  "find_free t i hash_offset =
     (if slots t ! i = None then Some (i, hash_offset)
      else find_free t ((i + 1) AND slot_mask t) (hash_offset + 1))"

declare find_free.simps [code]

definition insert_nonexistent_norehash ::
  "('k \<Rightarrow> u64) \<Rightarrow> 'k \<Rightarrow> 'v \<Rightarrow> ('k, 'v) hash_table \<Rightarrow> ('k, 'v) hash_table option" where
  "insert_nonexistent_norehash hash k v t =
     (case find_free t (key_index hash k t) 0 of
        None \<Rightarrow> None
      | Some (i, hash_offset) \<Rightarrow> Some (t\<lparr>slots := (slots t)[i := Some (k, v)], used_count := used_count t + 1,
            max_hash_offset := (if max_hash_offset t < hash_offset then hash_offset else max_hash_offset t)\<rparr>))"

text \<open>The entries go to the replacement in the order of the slots; the old table stays until it is complete.\<close>

primrec reinsert ::
  "('k \<Rightarrow> u64) \<Rightarrow> ('k \<times> 'v) option list \<Rightarrow> ('k, 'v) hash_table \<Rightarrow> ('k, 'v) hash_table option" where
  "reinsert hash [] replacement = Some replacement"
| "reinsert hash (s # ss) replacement =
     (case s of
        None \<Rightarrow> reinsert hash ss replacement
      | Some (k, v) \<Rightarrow>
          (case insert_nonexistent_norehash hash k v replacement of
             None \<Rightarrow> None
           | Some replacement' \<Rightarrow> reinsert hash ss replacement'))"

definition rehash_to ::
  "(nat \<Rightarrow> bool) \<Rightarrow> ('k \<Rightarrow> u64) \<Rightarrow> nat \<Rightarrow> ('k, 'v) hash_table \<Rightarrow> (table_error + ('k, 'v) hash_table) option" where
  "rehash_to alloc hash new_size t =
     (if \<not> alloc new_size then Some (Inl bad_alloc)
      else map_option Inr (reinsert hash (slots t) \<lparr>slots = replicate new_size None, used_count = 0, max_hash_offset = 0\<rparr>))"

definition rehash ::
  "(nat \<Rightarrow> bool) \<Rightarrow> ('k \<Rightarrow> u64) \<Rightarrow> ('k, 'v) hash_table \<Rightarrow> (table_error + ('k, 'v) hash_table) option" where
  "rehash alloc hash t = (case checked_growth_size (length (slots t)) of
       None \<Rightarrow> Some (Inl length_error)
     | Some n \<Rightarrow> rehash_to alloc hash n t)"

text \<open>The old value, if there was one, and the table; a failure leaves the table alone.\<close>

definition table_set ::
  "(nat \<Rightarrow> bool) \<Rightarrow> ('k \<Rightarrow> u64) \<Rightarrow> 'k \<Rightarrow> 'v \<Rightarrow> ('k, 'v) hash_table \<Rightarrow>
     ((table_error + 'v option) \<times> ('k, 'v) hash_table) option" where
  "table_set alloc hash k v t =
     (case get_slot hash k t of
        Some i \<Rightarrow> Some (Inr (map_option snd (slots t ! i)), t\<lparr>slots := (slots t)[i := Some (k, v)]\<rparr>)
      | None \<Rightarrow>
          (case (if should_rehash t then rehash alloc hash t else Some (Inr t)) of
             None \<Rightarrow> None
           | Some (Inl e) \<Rightarrow> Some (Inl e, t)
           | Some (Inr t1) \<Rightarrow> map_option (\<lambda>t2. (Inr None, t2)) (insert_nonexistent_norehash hash k v t1)))"

text \<open>A loop that stores pairs one after the other, by any \<^verbatim>\<open>set\<close>; an exception ends it.\<close>

primrec set_all ::
  "('k \<Rightarrow> 'v \<Rightarrow> 't \<Rightarrow> ((table_error + 'v option) \<times> 't) option) \<Rightarrow> ('k \<times> 'v) list \<Rightarrow> 't \<Rightarrow> (table_error + 't) option" where
  "set_all put [] t = Some (Inr t)"
| "set_all put (p # ps) t = (case put (fst p) (snd p) t of
     None \<Rightarrow> None | Some (Inl e, _) \<Rightarrow> Some (Inl e) | Some (Inr _, t') \<Rightarrow> set_all put ps t')"

section \<open>Removing and making room\<close>

definition table_remove :: "('k \<Rightarrow> u64) \<Rightarrow> 'k \<Rightarrow> ('k, 'v) hash_table \<Rightarrow> ('k, 'v) hash_table" where
  "table_remove hash k t =
     (if used_count t = 0 then t
      else (case get_slot hash k t of
         None \<Rightarrow> t
       | Some i \<Rightarrow> t\<lparr>slots := (slots t)[i := None], used_count := used_count t - 1\<rparr>))"

definition table_clear :: "('k, 'v) hash_table \<Rightarrow> ('k, 'v) hash_table" where
  "table_clear t = t\<lparr>slots := [], used_count := 0, max_hash_offset := 0\<rparr>"

lemma checked_growth_size_grows: "checked_growth_size n = Some m \<Longrightarrow> n < m"
  by (auto simp: checked_growth_size_def split: if_splits)

function grow_to :: "nat \<Rightarrow> nat \<Rightarrow> nat option" where
  "grow_to real_cap min_num_slots =
     (if real_cap < min_num_slots
      then (case checked_growth_size real_cap of None \<Rightarrow> None | Some n \<Rightarrow> grow_to n min_num_slots)
      else Some real_cap)"
  by pat_completeness auto
termination
  by (relation "measure (\<lambda>(c, m). m - c)") (auto dest: checked_growth_size_grows)

declare grow_to.simps [simp del]

definition table_reserve ::
  "(nat \<Rightarrow> bool) \<Rightarrow> ('k \<Rightarrow> u64) \<Rightarrow> nat \<Rightarrow> ('k, 'v) hash_table \<Rightarrow>
     ((table_error + unit) \<times> ('k, 'v) hash_table) option" where
  "table_reserve alloc hash capacity t =
     (if (SIZE_MAX - 2) div 4 < capacity then Some (Inl length_error, t)
      else (case grow_to 8 ((capacity * 4 + 2) div 3) of
         None \<Rightarrow> Some (Inl length_error, t)
       | Some real_cap \<Rightarrow>
           if length (slots t) < real_cap
           then (case rehash_to alloc hash real_cap t of
                None \<Rightarrow> None
              | Some (Inl e) \<Rightarrow> Some (Inl e, t)
              | Some (Inr t1) \<Rightarrow> Some (Inr (), t1))
           else Some (Inr (), t)))"

section \<open>Iterating\<close>

text \<open>The first used slot from \<^verbatim>\<open>i\<close> on, or the end; an iterator is the index of its slot.\<close>

function skip_unused :: "('k, 'v) hash_table \<Rightarrow> nat \<Rightarrow> nat" where
  "skip_unused t i = (if i < length (slots t) \<and> slots t ! i = None then skip_unused t (i + 1) else i)"
  by pat_completeness auto
termination
  by (relation "measure (\<lambda>(t, i). length (slots t) - i)") auto

declare skip_unused.simps [simp del]

definition it_begin :: "('k, 'v) hash_table \<Rightarrow> nat" where "it_begin t = skip_unused t 0"
definition it_end :: "('k, 'v) hash_table \<Rightarrow> nat" where "it_end t = length (slots t)"
definition it_next :: "('k, 'v) hash_table \<Rightarrow> nat \<Rightarrow> nat" where "it_next t i = skip_unused t (i + 1)"

definition it_find :: "('k \<Rightarrow> u64) \<Rightarrow> 'k \<Rightarrow> ('k, 'v) hash_table \<Rightarrow> nat" where
  "it_find hash k t = (case get_slot hash k t of Some i \<Rightarrow> i | None \<Rightarrow> it_end t)"

lemma skip_unused_ge: "i \<le> skip_unused t i"
  by (induction t i rule: skip_unused.induct) (subst skip_unused.simps, auto)

text \<open>What a loop from an iterator to the end sees.\<close>

function walk_from :: "('k, 'v) hash_table \<Rightarrow> nat \<Rightarrow> ('k \<times> 'v) option list" where
  "walk_from t i = (if i < it_end t then slots t ! i # walk_from t (it_next t i) else [])"
  by pat_completeness auto
termination
proof (relation "measure (\<lambda>(t, i). length (slots t) - i)")
  fix t :: "('k, 'v) hash_table" and i assume "i < it_end t"
  moreover have "i < it_next t i" using skip_unused_ge [of "i + 1" t] by (simp add: it_next_def)
  ultimately show "((t, it_next t i), (t, i)) \<in> measure (\<lambda>(t, i). length (slots t) - i)" by (simp add: it_end_def)
qed simp

declare walk_from.simps [simp del]

end
