(* ===== verification/TableMap.thy ===== *)
theory TableMap
  imports BHashTable
begin

text \<open>
  The hash table of \<^verbatim>\<open>source/util/bhashtable.h\<close> is a finite map: the invariant of its slots, what each
  operation does to the map they stand for, and whole sessions of operations.
\<close>

section \<open>The invariant\<close>

definition kvs :: "('k \<times> 'v) option list \<Rightarrow> ('k \<times> 'v) list" where
  "kvs ss = map the (filter (\<lambda>s. s \<noteq> None) ss)"

lemma kvs_simps [simp]:
  "kvs [] = []" "kvs (None # ss) = kvs ss" "kvs (Some e # ss) = e # kvs ss" "kvs (ss @ ss') = kvs ss @ kvs ss'"
  "kvs (replicate n None) = []"
  by (simp_all add: kvs_def)

definition entries :: "('k, 'v) hash_table \<Rightarrow> ('k \<times> 'v) list" where
  "entries t = kvs (slots t)"

definition table_map :: "('k, 'v) hash_table \<Rightarrow> 'k \<rightharpoonup> 'v" where
  "table_map t = map_of (entries t)"

text \<open>The number of slots is a power of two from eight on, a quarter of them or more are free, the keys are
  distinct, and every key lies within \<^verbatim>\<open>max_hash_offset\<close> slots of the one its hash names.\<close>

definition within_reach :: "('k \<Rightarrow> u64) \<Rightarrow> ('k, 'v) hash_table \<Rightarrow> bool" where
  "within_reach hash t \<longleftrightarrow> (\<forall>i k v. i < length (slots t) \<longrightarrow> slots t ! i = Some (k, v) \<longrightarrow>
     (\<exists>d \<le> max_hash_offset t. i = (key_index hash k t + d) mod length (slots t)))"

definition table_ok :: "('k \<Rightarrow> u64) \<Rightarrow> ('k, 'v) hash_table \<Rightarrow> bool" where
  "table_ok hash t \<longleftrightarrow>
     (slots t = [] \<or> (\<exists>e \<ge> 3. length (slots t) = 2 ^ e)) \<and>
     used_count t = length (entries t) \<and>
     used_count t \<le> length (slots t) - length (slots t) div 4 \<and>
     distinct (map fst (entries t)) \<and> within_reach hash t"

section \<open>Slots and entries\<close>

lemma mask_step: "length (slots t) = 2 ^ e \<Longrightarrow> x AND slot_mask t = x mod length (slots t)"
  unfolding slot_mask_def by (metis mask_eq_exp_minus_1 take_bit_eq_mask take_bit_eq_mod)

lemma entries_at: "i < length (slots t) \<Longrightarrow> slots t ! i = Some (k, v) \<Longrightarrow> (k, v) \<in> set (entries t)"
  by (force simp: entries_def kvs_def in_set_conv_nth image_iff)

lemma entries_slot: "(k, v) \<in> set (entries t) \<longleftrightarrow> (\<exists>i < length (slots t). slots t ! i = Some (k, v))"
  by (force simp: entries_def kvs_def in_set_conv_nth image_iff)

lemma entries_split:
  assumes "i < length (slots t)"
  shows "entries (t\<lparr>slots := (slots t)[i := s]\<rparr>) =
      kvs (take i (slots t)) @ (case s of None \<Rightarrow> [] | Some e \<Rightarrow> [e]) @
      kvs (drop (Suc i) (slots t))"
    "entries t =
      kvs (take i (slots t)) @ (case slots t ! i of None \<Rightarrow> [] | Some e \<Rightarrow> [e]) @
      kvs (drop (Suc i) (slots t))"
proof -
  have *: "entries (t\<lparr>slots := (slots t)[i := r]\<rparr>) =
      kvs (take i (slots t)) @ (case r of None \<Rightarrow> [] | Some e \<Rightarrow> [e]) @
      kvs (drop (Suc i) (slots t))" for r
    using assms by (simp add: entries_def upd_conv_take_nth_drop split: option.split)
  show "entries (t\<lparr>slots := (slots t)[i := s]\<rparr>) =
      kvs (take i (slots t)) @ (case s of None \<Rightarrow> [] | Some e \<Rightarrow> [e]) @
      kvs (drop (Suc i) (slots t))" by (rule *)
  show "entries t =
      kvs (take i (slots t)) @ (case slots t ! i of None \<Rightarrow> [] | Some e \<Rightarrow> [e]) @
      kvs (drop (Suc i) (slots t))"
    using * [of "slots t ! i"] by simp
qed

lemma table_map_Some:
  assumes "distinct (map fst (entries t))"
  shows "table_map t k = Some v \<longleftrightarrow> (\<exists>i < length (slots t). slots t ! i = Some (k, v))"
  using assms by (simp add: table_map_def entries_slot)

lemma entries_cong: "slots t = slots u \<Longrightarrow> entries t = entries u" by (simp add: entries_def)

section \<open>Probing\<close>

lemma probe_found: "probe k t i n = Some j \<Longrightarrow> i < length (slots t) \<Longrightarrow> length (slots t) = 2 ^ e \<Longrightarrow>
    j < length (slots t) \<and> (\<exists>v. slots t ! j = Some (k, v))"
  by (induction n arbitrary: i) (auto simp: slot_equals_def mask_step split: if_splits option.splits)

lemma probe_reaches:
  assumes "length (slots t) = 2 ^ e" "i < length (slots t)" "d < n" "slots t ! ((i + d) mod length (slots t)) = Some (k, v)"
  shows "probe k t i n \<noteq> None"
  using assms(2-4)
proof (induction n arbitrary: i d)
  case (Suc n)
  show ?case
  proof (cases d)
    case 0
    then show ?thesis using Suc.prems by (simp add: slot_equals_def)
  next
    case (Suc d')
    have "((i + 1) mod length (slots t) + d') mod length (slots t) = (i + d) mod length (slots t)"
      by (simp add: Suc mod_simps)
    moreover have "(i + 1) mod length (slots t) < length (slots t)" using assms(1) by simp
    ultimately have "probe k t ((i + 1) mod length (slots t)) n \<noteq> None"
      using Suc.IH [of "(i + 1) mod length (slots t)" d'] Suc.prems Suc by simp
    then show ?thesis using mask_step [OF assms(1), of "i + 1"] by simp
  qed
qed simp

lemma index_less: "length (slots t) = 2 ^ e \<Longrightarrow> key_index hash k t < length (slots t)"
  by (simp add: key_index_def mask_step)

lemma table_okD:
  assumes "table_ok hash t"
  shows "used_count t = length (entries t)" "distinct (map fst (entries t))" "within_reach hash t"
    "used_count t \<le> length (slots t) - length (slots t) div 4"
    "slots t \<noteq> [] \<Longrightarrow> \<exists>e \<ge> 3. length (slots t) = 2 ^ e"
  using assms by (auto simp: table_ok_def)

lemma get_slot_Some:
  assumes ok: "table_ok hash t" and "get_slot hash k t = Some j"
  shows "j < length (slots t)" "\<exists>v. slots t ! j = Some (k, v)"
proof -
  have "slots t \<noteq> []" using assms(2) by (auto simp: get_slot_def)
  then obtain e where "length (slots t) = 2 ^ e" using table_okD(5) [OF ok] by blast
  have "probe k t (key_index hash k t) (Suc (max_hash_offset t)) = Some j"
    using assms(2) \<open>slots t \<noteq> []\<close> by (simp add: get_slot_def del: probe.simps)
  then have "j < length (slots t) \<and> (\<exists>v. slots t ! j = Some (k, v))"
    using index_less [OF \<open>length (slots t) = 2 ^ e\<close>] \<open>length (slots t) = 2 ^ e\<close> by (rule probe_found)
  then show "j < length (slots t)" "\<exists>v. slots t ! j = Some (k, v)" by auto
qed

lemma get_slot_None:
  assumes ok: "table_ok hash t" and "get_slot hash k t = None"
  shows "table_map t k = None" "k \<notin> fst ` set (entries t)"
proof -
  show "k \<notin> fst ` set (entries t)"
  proof
    assume "k \<in> fst ` set (entries t)"
    then obtain v i where i: "i < length (slots t)" "slots t ! i = Some (k, v)" by (auto simp: entries_slot)
    then obtain e where e: "length (slots t) = 2 ^ e" using table_okD(5) [OF ok] by fastforce
    obtain d where d: "d \<le> max_hash_offset t" "i = (key_index hash k t + d) mod length (slots t)"
      using table_okD(3) [OF ok] i unfolding within_reach_def by blast
    have "probe k t (key_index hash k t) (Suc (max_hash_offset t)) \<noteq> None"
      by (rule probe_reaches [OF e index_less [OF e], of d]) (use d i in auto)
    then show False using assms(2) i by (auto simp: get_slot_def split: if_splits)
  qed
  then show "table_map t k = None" by (simp add: table_map_def map_of_eq_None_iff)
qed

text \<open>A lookup is a lookup in the map.\<close>

lemma table_get_map:
  assumes "table_ok hash t"
  shows "table_get hash k t = table_map t k"
proof (cases "get_slot hash k t")
  case (Some j)
  from get_slot_Some [OF assms Some] obtain v where v: "j < length (slots t)" "slots t ! j = Some (k, v)" by blast
  then have "table_map t k = Some v" using table_map_Some [OF table_okD(2) [OF assms]] by blast
  with v Some show ?thesis by (simp add: table_get_def)
qed (simp add: table_get_def get_slot_None [OF assms])

section \<open>Writing a slot\<close>

lemma within_reach_update:
  assumes "within_reach hash t" "length ss = length (slots t)" "max_hash_offset t \<le> m"
    and "\<And>j k v. j < length ss \<Longrightarrow> ss ! j = Some (k, v) \<Longrightarrow> j \<noteq> i \<Longrightarrow> slots t ! j = Some (k, v)"
    and "\<And>k v. i < length ss \<Longrightarrow> ss ! i = Some (k, v) \<Longrightarrow> \<exists>d \<le> m. i = (key_index hash k t + d) mod length (slots t)"
  shows "within_reach hash (t\<lparr>slots := ss, used_count := n, max_hash_offset := m\<rparr>)"
  unfolding within_reach_def
proof (intro allI impI)
  let ?t = "t\<lparr>slots := ss, used_count := n, max_hash_offset := m\<rparr>"
  have idx: "key_index hash k ?t = key_index hash k t" for k
    using assms(2) by (simp add: key_index_def slot_mask_def)
  fix j k v assume j: "j < length (slots ?t)" "slots ?t ! j = Some (k, v)"
  show "\<exists>d\<le>max_hash_offset ?t. j = (key_index hash k ?t + d) mod length (slots ?t)"
  proof (cases "j = i")
    case True
    with assms(5) [of k v] j show ?thesis by (simp add: idx assms(2))
  next
    case False
    with assms(1,2) assms(4) [of j k v] j obtain d where "d \<le> max_hash_offset t" "j = (key_index hash k t + d) mod length (slots t)"
      unfolding within_reach_def by fastforce
    then show ?thesis using assms(2,3) by (intro exI [of _ d]) (simp add: idx)
  qed
qed

lemma map_of_middle:
  assumes "k \<notin> fst ` set xs"
  shows "map_of (xs @ (k, v) # ys) = (map_of (xs @ ys))(k \<mapsto> v)"
proof
  fix q show "map_of (xs @ (k, v) # ys) q = ((map_of (xs @ ys))(k \<mapsto> v)) q"
    using assms by (cases "q = k") (auto simp: map_add_def map_of_eq_None_iff [THEN iffD2] split: option.split)
qed

section \<open>Inserting\<close>

lemma find_free_finds:
  assumes e: "length (slots t) = 2 ^ e"
  shows "i < length (slots t) \<Longrightarrow> \<forall>c < d. slots t ! ((i + c) mod length (slots t)) \<noteq> None \<Longrightarrow>
     slots t ! ((i + d) mod length (slots t)) = None \<Longrightarrow>
     find_free t i off = Some ((i + d) mod length (slots t), off + d)"
proof (induction d arbitrary: i off)
  case 0
  then show ?case by (simp add: find_free.simps)
next
  case (Suc d)
  let ?n = "length (slots t)" and ?i = "(i + 1) mod length (slots t)"
  have sh: "(?i + c) mod ?n = (i + Suc c) mod ?n" for c by (simp add: mod_simps)
  have "find_free t ?i (off + 1) = Some ((?i + d) mod ?n, off + 1 + d)"
  proof (rule Suc.IH)
    show "?i < ?n" using e by simp
    show "\<forall>c<d. slots t ! ((?i + c) mod ?n) \<noteq> None"
    proof (intro allI impI)
      fix c assume "c < d"
      then show "slots t ! ((?i + c) mod ?n) \<noteq> None" using Suc.prems(2) by (metis sh Suc_mono)
    qed
    show "slots t ! ((?i + d) mod ?n) = None" using Suc.prems(3) by (simp only: sh)
  qed
  moreover have "slots t ! i \<noteq> None" using Suc.prems(1,2) by fastforce
  ultimately show ?case using mask_step [OF e, of "i + 1"] sh [of d] by (subst find_free.simps) simp
qed

lemma free_slot:
  assumes "length (slots t) = 2 ^ e" "length (entries t) < length (slots t)" "i < length (slots t)"
  obtains d where "slots t ! ((i + d) mod length (slots t)) = None"
    "\<forall>c < d. slots t ! ((i + c) mod length (slots t)) \<noteq> None"
proof -
  let ?n = "length (slots t)"
  have "\<exists>j < ?n. slots t ! j = None"
  proof (rule ccontr)
    assume "\<not> (\<exists>j < ?n. slots t ! j = None)"
    then have "filter (\<lambda>s. s \<noteq> None) (slots t) = slots t" by (auto simp: filter_id_conv in_set_conv_nth)
    with assms(2) show False by (simp add: entries_def kvs_def)
  qed
  then obtain j where j: "j < ?n" "slots t ! j = None" by blast
  have "(i + (j + ?n - i)) mod ?n = j" using j assms(3) by simp
  with j have ex: "slots t ! ((i + (j + ?n - i)) mod ?n) = None" by simp
  let ?P = "\<lambda>d. slots t ! ((i + d) mod ?n) = None"
  from ex have "?P (LEAST d. ?P d)" by (rule LeastI)
  moreover have "\<forall>c < (LEAST d. ?P d). \<not> ?P c" using not_less_Least by blast
  ultimately show thesis by (rule that)
qed

lemma insert_into:
  assumes ok: "table_ok hash t" and new: "k \<notin> fst ` set (entries t)" and room: "\<not> should_rehash t"
  obtains u where "insert_nonexistent_norehash hash k v t = Some u" "table_ok hash u"
    "table_map u = (table_map t)(k \<mapsto> v)" "length (slots u) = length (slots t)" "used_count u = used_count t + 1"
proof -
  let ?n = "length (slots t)" and ?h = "key_index hash k t"
  have "slots t \<noteq> []" using room by (simp add: should_rehash_def)
  then obtain e where e: "e \<ge> 3" "?n = 2 ^ e" using table_okD(5) [OF ok] by blast
  have less: "used_count t < ?n - ?n div 4" using room by (simp add: should_rehash_def)
  then have "length (entries t) < ?n" using table_okD(1) [OF ok] by simp
  then obtain d where d: "slots t ! ((?h + d) mod ?n) = None" "\<forall>c < d. slots t ! ((?h + c) mod ?n) \<noteq> None"
    using free_slot [OF e(2) _ index_less [OF e(2)]] by blast
  let ?i = "(?h + d) mod ?n"
  define m where "m = (if max_hash_offset t < d then d else max_hash_offset t)"
  define u where "u = t\<lparr>slots := (slots t)[?i := Some (k, v)], used_count := used_count t + 1, max_hash_offset := m\<rparr>"
  have i: "?i < ?n" using e by simp
  have "find_free t ?h 0 = Some (?i, d)" using find_free_finds [OF e(2) index_less [OF e(2)] d(2,1), of 0] by simp
  then have ins: "insert_nonexistent_norehash hash k v t = Some u"
    by (simp add: insert_nonexistent_norehash_def u_def m_def)
  let ?a = "kvs (take ?i (slots t))"
    and ?b = "kvs (drop (Suc ?i) (slots t))"
  have eu: "entries u = ?a @ (k, v) # ?b"
    using entries_split(1) [OF i, of "Some (k, v)"] by (simp add: u_def entries_def)
  have et: "entries t = ?a @ ?b" using entries_split(2) [OF i] d(1) by simp
  have "table_ok hash u"
    unfolding table_ok_def
  proof (intro conjI)
    show "slots u = [] \<or> (\<exists>e\<ge>3. length (slots u) = 2 ^ e)" using e by (auto simp: u_def)
    show "used_count u = length (entries u)" 
    proof -
      have "length (entries u) = Suc (length (entries t))" unfolding eu et by simp
      then show ?thesis using table_okD(1) [OF ok] by (simp add: u_def)
    qed
    show "used_count u \<le> length (slots u) - length (slots u) div 4" using less by (simp add: u_def)
    show "distinct (map fst (entries u))" using table_okD(2) [OF ok] new by (auto simp: eu et)
    show "within_reach hash u"
      unfolding u_def
    proof (rule within_reach_update [where i = ?i])
      show "within_reach hash t" by (rule table_okD(3) [OF ok])
    qed (use i in \<open>auto simp: m_def intro!: exI [of _ d]\<close>)
  qed
  moreover have "table_map u = (table_map t)(k \<mapsto> v)"
    using new unfolding table_map_def eu et by (intro map_of_middle) auto
  moreover have "length (slots u) = length (slots t)" "used_count u = used_count t + 1" by (simp_all add: u_def)
  ultimately show thesis using that [OF ins] by blast
qed

section \<open>Rehashing\<close>

text \<open>A fresh vector of slots holds nothing.\<close>

definition fresh :: "nat \<Rightarrow> ('k, 'v) hash_table" where
  "fresh n = \<lparr>slots = replicate n None, used_count = 0, max_hash_offset = 0\<rparr>"

lemma fresh_ok: "3 \<le> e \<Longrightarrow> table_ok hash (fresh (2 ^ e))" "entries (fresh n) = []"
  by (auto simp: table_ok_def fresh_def entries_def within_reach_def)

lemma reinsert_all:
  assumes "table_ok hash t" "distinct (map fst (entries t) @ map fst (kvs ss))"
    and "length (entries t) + length (kvs ss) \<le> length (slots t) - length (slots t) div 4" "8 \<le> length (slots t)"
  shows "\<exists>u. reinsert hash ss t = Some u \<and> table_ok hash u \<and> length (slots u) = length (slots t) \<and>
     used_count u = used_count t + length (kvs ss) \<and>
     table_map u = table_map t ++ map_of (kvs ss)"
  using assms
proof (induction ss arbitrary: t)
  case Nil
  then show ?case by simp
next
  case (Cons s ss)
  show ?case
  proof (cases s)
    case None
    then show ?thesis using Cons by simp
  next
    case (Some kv)
    obtain k v where kv: "kv = (k, v)" by (cases kv)
    let ?rest = "kvs ss"
    have new: "k \<notin> fst ` set (entries t)" and notin: "k \<notin> fst ` set ?rest"
      using Cons.prems(2) by (auto simp: Some kv)
    have room: "\<not> should_rehash t"
      using Cons.prems(3,4) table_okD(1) [OF Cons.prems(1)] by (auto simp: should_rehash_def Some)
    obtain t' where t': "insert_nonexistent_norehash hash k v t = Some t'" "table_ok hash t'"
        "table_map t' = (table_map t)(k \<mapsto> v)" "length (slots t') = length (slots t)" "used_count t' = used_count t + 1"
      using insert_into [OF Cons.prems(1) new room] by blast
    have keys: "fst ` set (entries t') = insert k (fst ` set (entries t))"
      using t'(3) dom_map_of_conv_image_fst [of "entries t'"] dom_map_of_conv_image_fst [of "entries t"]
      by (simp add: table_map_def)
    have len: "length (entries t') = length (entries t) + 1"
      using t'(5) table_okD(1) [OF t'(2)] table_okD(1) [OF Cons.prems(1)] by simp
    have "\<exists>u. reinsert hash ss t' = Some u \<and> table_ok hash u \<and> length (slots u) = length (slots t') \<and>
       used_count u = used_count t' + length (kvs ss) \<and> table_map u = table_map t' ++ map_of ?rest" (is "\<exists>u. ?Q u")
    proof (rule Cons.IH [OF t'(2)])
      show "distinct (map fst (entries t') @ map fst ?rest)"
        using Cons.prems(2) table_okD(2) [OF t'(2)] keys notin by (auto simp: Some kv)
      show "length (entries t') + length (kvs ss) \<le> length (slots t') - length (slots t') div 4"
        using Cons.prems(3) by (simp add: len t'(4) Some)
      show "8 \<le> length (slots t')" using Cons.prems(4) t'(4) by simp
    qed
    then obtain u where u: "?Q u" by blast
    have split: "(table_map t)(k \<mapsto> v) ++ map_of ?rest = table_map t ++ map_of ((k, v) # ?rest)"
    proof -
      have "k \<notin> dom (map_of ?rest)" using notin by (simp add: dom_map_of_conv_image_fst)
      then show ?thesis by (auto simp: map_add_def fun_eq_iff split: option.split)
    qed
    have "table_map u = table_map t ++ map_of ((k, v) # ?rest)" using u t'(3) split by metis
    with u t' show ?thesis by (intro exI [of _ u]) (simp add: Some kv del: map_of.simps)
  qed
qed

lemma rehash_to_ok:
  assumes ok: "table_ok hash t" and n: "n = 2 ^ e" "3 \<le> e" "length (slots t) < n" and a: "alloc n"
  obtains u where "rehash_to alloc hash n t = Some (Inr u)" "table_ok hash u" "table_map u = table_map t"
    "length (slots u) = n" "used_count u = used_count t"
proof -
  have f: "table_ok hash (fresh n :: ('a, 'b) hash_table)" using fresh_ok(1) n by simp
  have len: "length (slots (fresh n :: ('a, 'b) hash_table)) = n" by (simp add: fresh_def)
  have "8 \<le> n" using n power_increasing [of 3 e "2 :: nat"] by simp
  have "length (slots t) - length (slots t) div 4 \<le> n - n div 4" using n(3) by linarith
  then have "length (entries t) \<le> n - n div 4" using table_okD(1,4) [OF ok] by linarith
  then obtain u where u: "reinsert hash (slots t) (fresh n) = Some u" "table_ok hash u" "length (slots u) = n"
      "used_count u = length (entries t)" "table_map u = table_map t"
    using reinsert_all [OF f, of "slots t"] table_okD(2) [OF ok] \<open>8 \<le> n\<close>
    by (auto simp: fresh_ok len table_map_def entries_def) (auto simp: fresh_def)
  show thesis
  proof (rule that)
    show "rehash_to alloc hash n t = Some (Inr u)" using u(1) a by (simp add: rehash_to_def fresh_def)
  qed (use u table_okD(1) [OF ok] in simp_all)
qed

text \<open>Growing: the size doubles, or starts at eight, unless it is too large or the allocator refuses.\<close>

lemma double_power:
  assumes "slots t = [] \<or> (\<exists>e \<ge> 3. length (slots t) = 2 ^ e)" "checked_growth_size (length (slots t)) = Some n"
  shows "\<exists>e \<ge> 3. n = 2 ^ e"
proof (cases "slots t = []")
  case True
  then show ?thesis using assms(2) by (intro exI [of _ 3]) (simp add: checked_growth_size_def)
next
  case False
  then obtain e where "3 \<le> e" "length (slots t) = 2 ^ e" using assms(1) by blast
  then show ?thesis using assms(2) False
    by (intro exI [of _ "Suc e"]) (simp add: checked_growth_size_def split: if_splits)
qed

definition refused :: "(nat \<Rightarrow> bool) \<Rightarrow> table_error \<Rightarrow> bool" where
  "refused alloc e \<longleftrightarrow> e = length_error \<or> (\<exists>n. \<not> alloc n)"

lemma rehash_ok:
  assumes ok: "table_ok hash t"
  shows "(\<exists>e. rehash alloc hash t = Some (Inl e) \<and> refused alloc e) \<or>
    (\<exists>u. rehash alloc hash t = Some (Inr u) \<and> table_ok hash u \<and> table_map u = table_map t \<and>
       used_count u = used_count t \<and> length (slots u) = (if slots t = [] then 8 else length (slots t) * 2))"
proof (cases "checked_growth_size (length (slots t))")
  case None
  then show ?thesis by (simp add: rehash_def refused_def)
next
  case (Some n)
  have "slots t = [] \<or> (\<exists>e \<ge> 3. length (slots t) = 2 ^ e)" using ok by (simp add: table_ok_def)
  then obtain e where e: "n = 2 ^ e" "3 \<le> e" using double_power Some by blast
  have n: "n = (if slots t = [] then 8 else length (slots t) * 2)"
    using Some by (auto simp: checked_growth_size_def split: if_splits)
  show ?thesis
  proof (cases "alloc n")
    case True
    obtain u where "rehash_to alloc hash n t = Some (Inr u)" "table_ok hash u" "table_map u = table_map t"
        "length (slots u) = n" "used_count u = used_count t"
      using rehash_to_ok [where alloc = alloc, OF ok e checked_growth_size_grows [OF Some] True] by blast
    then show ?thesis using Some n by (auto simp: rehash_def)
  next
    case False
    then show ?thesis by (auto simp: rehash_def Some rehash_to_def refused_def)
  qed
qed

section \<open>What the operations do\<close>

lemma table_empty: "table_ok hash empty_table" "table_map empty_table = Map.empty"
  by (simp_all add: table_ok_def empty_table_def entries_def table_map_def within_reach_def)

lemma overwrite_ok:
  assumes ok: "table_ok hash t" and j: "j < length (slots t)" "slots t ! j = Some (k, v')"
  shows "table_ok hash (t\<lparr>slots := (slots t)[j := Some (k, v)]\<rparr>)"
    "table_map (t\<lparr>slots := (slots t)[j := Some (k, v)]\<rparr>) = (table_map t)(k \<mapsto> v)"
proof -
  let ?u = "t\<lparr>slots := (slots t)[j := Some (k, v)]\<rparr>"
  let ?a = "kvs (take j (slots t))" and ?b = "kvs (drop (Suc j) (slots t))"
  have eu: "entries ?u = ?a @ (k, v) # ?b" using entries_split(1) [OF j(1), of "Some (k, v)"] by simp
  have et: "entries t = ?a @ (k, v') # ?b" using entries_split(2) [OF j(1)] j(2) by simp
  have k: "k \<notin> fst ` set ?a" using table_okD(2) [OF ok] by (auto simp: et)
  show "table_map ?u = (table_map t)(k \<mapsto> v)"
    unfolding table_map_def eu et map_of_middle [OF k] by simp
  have "within_reach hash (t\<lparr>slots := (slots t)[j := Some (k, v)], used_count := used_count t, max_hash_offset := max_hash_offset t\<rparr>)"
    by (rule within_reach_update [OF table_okD(3) [OF ok], where i = j])
       (use j table_okD(3) [OF ok] in \<open>auto simp: within_reach_def\<close>)
  then have r: "within_reach hash ?u" by simp
  show "table_ok hash ?u"
    unfolding table_ok_def
  proof (intro conjI)
    show "used_count ?u = length (entries ?u)" using table_okD(1) [OF ok] by (simp add: eu) (simp add: et)
    show "distinct (map fst (entries ?u))" using table_okD(2) [OF ok] by (simp add: eu) (simp add: et)
    show "used_count ?u \<le> length (slots ?u) - length (slots ?u) div 4" using table_okD(4) [OF ok] by simp
    show "slots ?u = [] \<or> (\<exists>e\<ge>3. length (slots ?u) = 2 ^ e)" using ok by (simp add: table_ok_def)
  qed (rule r)
qed

lemma table_set_ok:
  assumes ok: "table_ok hash t"
  shows "(\<exists>e. table_set alloc hash k v t = Some (Inl e, t) \<and> refused alloc e \<and> table_map t k = None \<and> should_rehash t) \<or>
    (\<exists>u. table_set alloc hash k v t = Some (Inr (table_map t k), u) \<and> table_ok hash u \<and>
       table_map u = (table_map t)(k \<mapsto> v))"
proof (cases "get_slot hash k t")
  case (Some j)
  obtain v' where j: "j < length (slots t)" "slots t ! j = Some (k, v')" using get_slot_Some [OF ok Some] by blast
  have "table_map t k = Some v'" using j table_map_Some [OF table_okD(2) [OF ok]] by blast
  then show ?thesis using overwrite_ok [OF ok j, of v] j Some by (simp add: table_set_def)
next
  case None
  note absent = get_slot_None [OF ok None]
  have go: "\<exists>w. insert_nonexistent_norehash hash k v u = Some w \<and> table_ok hash w \<and> table_map w = (table_map t)(k \<mapsto> v)"
    if u: "table_ok hash u" "table_map u = table_map t" "\<not> should_rehash u" for u
  proof -
    have "map_of (entries u) k = None" using absent(1) u(2) by (simp add: table_map_def)
    then have "k \<notin> fst ` set (entries u)" by (simp add: map_of_eq_None_iff)
    then show ?thesis using insert_into [OF u(1) _ u(3)] u(2) by metis
  qed
  show ?thesis
  proof (cases "should_rehash t")
    case False
    then show ?thesis using go [OF ok refl] None absent(1) by (auto simp: table_set_def)
  next
    case True
    from rehash_ok [OF ok, of alloc] show ?thesis
    proof (elim disjE exE conjE)
      fix e assume "rehash alloc hash t = Some (Inl e)" "refused alloc e"
      then show ?thesis using True None absent(1) by (simp add: table_set_def)
    next
      fix u assume u: "rehash alloc hash t = Some (Inr u)" "table_ok hash u" "table_map u = table_map t"
        "used_count u = used_count t" "length (slots u) = (if slots t = [] then 8 else length (slots t) * 2)"
      have "\<not> should_rehash u"
      proof (cases "slots t = []")
        case True
        then show ?thesis using u(4,5) table_okD(4) [OF ok] by (auto simp: should_rehash_def)
      next
        case False
        then have "0 < length (slots t)" "length (slots u) = 2 * length (slots t)" using u(5) by simp_all
        moreover have "False" if "0 < n" "c \<le> n - n div 4" "2 * n - n div 2 \<le> c" for n c :: nat
          using that by linarith
        ultimately show ?thesis using u(4) table_okD(4) [OF ok] by (auto simp: should_rehash_def)
      qed
      then show ?thesis using go [OF u(2,3)] u(1) True None absent(1) by (auto simp: table_set_def)
    qed
  qed
qed

lemma table_remove_ok:
  assumes ok: "table_ok hash t"
  shows "table_ok hash (table_remove hash k t)" "table_map (table_remove hash k t) = (table_map t)(k := None)"
proof -
  have "table_ok hash (table_remove hash k t) \<and> table_map (table_remove hash k t) = (table_map t)(k := None)"
  proof (cases "used_count t = 0 \<or> get_slot hash k t = None")
    case True
    then have "table_map t k = None" using get_slot_None(1) [OF ok] table_okD(1) [OF ok] by (auto simp: table_map_def)
    moreover have "table_remove hash k t = t" using True by (auto simp: table_remove_def)
    ultimately show ?thesis using ok by (auto simp: fun_eq_iff)
  next
    case False
    then obtain j where s: "get_slot hash k t = Some j" by blast
    obtain v where j: "j < length (slots t)" "slots t ! j = Some (k, v)" using get_slot_Some [OF ok s] by blast
    let ?u = "t\<lparr>slots := (slots t)[j := None], used_count := used_count t - 1\<rparr>"
    let ?a = "kvs (take j (slots t))" and ?b = "kvs (drop (Suc j) (slots t))"
    have eu: "entries ?u = ?a @ ?b" using entries_split(1) [OF j(1), of None] by (simp add: entries_def)
    have et: "entries t = ?a @ (k, v) # ?b" using entries_split(2) [OF j(1)] j(2) by simp
    have k: "k \<notin> fst ` set ?a" "k \<notin> fst ` set ?b" using table_okD(2) [OF ok] by (auto simp: et)
    then have "map_of (?a @ ?b) k = None" by (simp add: map_of_eq_None_iff image_Un)
    then have m: "table_map ?u = (table_map t)(k := None)"
      unfolding table_map_def eu et map_of_middle [OF k(1)] by (auto simp: fun_eq_iff)
    have "within_reach hash (t\<lparr>slots := (slots t)[j := None], used_count := used_count t - 1, max_hash_offset := max_hash_offset t\<rparr>)"
      by (rule within_reach_update [OF table_okD(3) [OF ok], where i = j]) (use j in auto)
    then have r: "within_reach hash ?u" by simp
    have "table_ok hash ?u"
      unfolding table_ok_def
    proof (intro conjI)
      have "used_count ?u = length (entries t) - 1" using table_okD(1) [OF ok] by simp
      moreover have "length (entries ?u) = length (entries t) - 1" unfolding eu et by simp
      ultimately show "used_count ?u = length (entries ?u)" by (simp only:)
      show "distinct (map fst (entries ?u))" using table_okD(2) [OF ok] unfolding eu et by simp
      show "used_count ?u \<le> length (slots ?u) - length (slots ?u) div 4" using table_okD(4) [OF ok] by simp
      show "slots ?u = [] \<or> (\<exists>e\<ge>3. length (slots ?u) = 2 ^ e)" using ok by (simp add: table_ok_def)
    qed (rule r)
    moreover have "table_remove hash k t = ?u" using False s by (simp add: table_remove_def)
    ultimately show ?thesis using m by simp
  qed
  then show "table_ok hash (table_remove hash k t)" "table_map (table_remove hash k t) = (table_map t)(k := None)" by auto
qed

lemma grow_to_power: "grow_to c m = Some n \<Longrightarrow> c = 2 ^ e \<Longrightarrow> 3 \<le> e \<Longrightarrow> \<exists>e' \<ge> 3. n = 2 ^ e'"
proof (induction c m arbitrary: e rule: grow_to.induct)
  case (1 c m)
  show ?case
  proof (cases "c < m")
    case True
    then obtain c' where c': "checked_growth_size c = Some c'" "grow_to c' m = Some n"
      using "1.prems"(1) by (subst (asm) grow_to.simps) (auto split: option.splits)
    then have "c' = 2 ^ Suc e" using "1.prems"(2) by (simp add: checked_growth_size_def split: if_splits)
    then show ?thesis using "1.IH" [OF True c'(1) c'(2), of "Suc e"] "1.prems"(3) by simp
  next
    case False
    then show ?thesis using "1.prems" by (subst (asm) grow_to.simps) auto
  qed
qed

lemma table_reserve_ok:
  assumes ok: "table_ok hash t"
  shows "(\<exists>e. table_reserve alloc hash n t = Some (Inl e, t) \<and> refused alloc e) \<or>
    (\<exists>u. table_reserve alloc hash n t = Some (Inr (), u) \<and> table_ok hash u \<and> table_map u = table_map t)"
proof (cases "(SIZE_MAX - 2) div 4 < n \<or> grow_to 8 ((n * 4 + 2) div 3) = None")
  case True
  then show ?thesis by (auto simp: table_reserve_def refused_def)
next
  case False
  then obtain c where c: "grow_to 8 ((n * 4 + 2) div 3) = Some c" by blast
  obtain e where e: "c = 2 ^ e" "3 \<le> e" using grow_to_power [OF c, of 3] by auto
  show ?thesis
  proof (cases "length (slots t) < c")
    case True
    show ?thesis
    proof (cases "alloc c")
      case True
      obtain u where "rehash_to alloc hash c t = Some (Inr u)" "table_ok hash u" "table_map u = table_map t"
        using rehash_to_ok [where alloc = alloc, OF ok e \<open>length (slots t) < c\<close> True] by blast
      then show ?thesis using False c \<open>length (slots t) < c\<close> by (auto simp: table_reserve_def)
    next
      case no: False
      then show ?thesis using False c True by (auto simp: table_reserve_def rehash_to_def refused_def)
    qed
  next
    case no: False
    then show ?thesis using False c ok by (auto simp: table_reserve_def)
  qed
qed

section \<open>Stores as maps\<close>

text \<open>What the components that keep their objects in a table rely on: a lookup, a store that may be refused
  and a removal, over the map the store stands for.\<close>

locale object_store =
  fixes ok :: "'t \<Rightarrow> bool" and abs_map :: "'t \<Rightarrow> 'k \<rightharpoonup> 'v" and empty_store :: 't
    and look :: "'k \<Rightarrow> 't \<Rightarrow> 'v option" and put :: "'k \<Rightarrow> 'v \<Rightarrow> 't \<Rightarrow> ((table_error + 'v option) \<times> 't) option"
    and del :: "'k \<Rightarrow> 't \<Rightarrow> 't"
  assumes empty_ok: "ok empty_store" "abs_map empty_store = Map.empty"
    and look_abs: "ok t \<Longrightarrow> look k t = abs_map t k"
    and put_abs: "ok t \<Longrightarrow> (\<exists>e. put k v t = Some (Inl e, t)) \<or>
      (\<exists>u. put k v t = Some (Inr (abs_map t k), u) \<and> ok u \<and> abs_map u = (abs_map t)(k \<mapsto> v))"
    and del_abs: "ok t \<Longrightarrow> ok (del k t)" "ok t \<Longrightarrow> abs_map (del k t) = (abs_map t)(k := None)"
begin

lemma set_all_abs:
  "ok t \<Longrightarrow> (\<exists>e. set_all put ps t = Some (Inl e)) \<or>
     (\<exists>u. set_all put ps t = Some (Inr u) \<and> ok u \<and> abs_map u = abs_map t ++ map_of (rev ps))"
proof (induction ps arbitrary: t)
  case (Cons p ps)
  obtain k v where p: "p = (k, v)" by (cases p)
  from put_abs [OF Cons.prems, of k v] show ?case
  proof (elim disjE exE conjE)
    fix u assume u: "put k v t = Some (Inr (abs_map t k), u)" "ok u" "abs_map u = (abs_map t)(k \<mapsto> v)"
    have "abs_map u ++ map_of (rev ps) = abs_map t ++ map_of (rev (p # ps))"
      by (simp add: u(3) p flip: map_add_upd_left)
    then show ?thesis using Cons.IH [OF u(2)] u(1) by (auto simp: p)
  qed (auto simp: p)
qed simp

lemma look_put_same:
  assumes "ok t" "put k v t = Some (Inr old, u)"
  shows "look k u = Some v" "old = look k t"
  using put_abs [OF assms(1), of k v] look_abs [OF assms(1)] look_abs [of u k] assms(2) by auto

lemma look_put_other:
  assumes "ok t" "put k v t = Some (r, u)" "q \<noteq> k"
  shows "look q u = look q t"
  using put_abs [OF assms(1), of k v] look_abs [OF assms(1)] look_abs [of u q] assms(2,3) by auto

lemma look_del: "ok t \<Longrightarrow> look q (del k t) = (if q = k then None else look q t)"
  by (simp add: look_abs del_abs)

end

interpretation bhash: object_store "table_ok hash" table_map empty_table "table_get hash" "table_set alloc hash" "table_remove hash"
  for hash :: "'k \<Rightarrow> u64" and alloc
proof unfold_locales
  show "table_ok hash empty_table" "table_map empty_table = Map.empty" by (rule table_empty)+
  fix t :: "('k, 'v) hash_table" and k v assume ok: "table_ok hash t"
  show "table_get hash k t = table_map t k" using ok by (rule table_get_map)
  show "(\<exists>e. table_set alloc hash k v t = Some (Inl e, t)) \<or>
      (\<exists>u. table_set alloc hash k v t = Some (Inr (table_map t k), u) \<and> table_ok hash u \<and> table_map u = (table_map t)(k \<mapsto> v))"
    using table_set_ok [OF ok, of alloc k v] by blast
  show "table_ok hash (table_remove hash k t)" "table_map (table_remove hash k t) = (table_map t)(k := None)"
    using ok by (rule table_remove_ok)+
qed

lemma used_count_card:
  assumes "table_ok hash t"
  shows "used_count t = card (dom (table_map t))"
proof -
  have "length (entries t) = card (set (map fst (entries t)))"
    using distinct_card [OF table_okD(2) [OF assms]] by simp
  then show ?thesis using table_okD(1) [OF assms] by (simp add: table_map_def dom_map_of_conv_image_fst)
qed

text \<open>Nothing is refused when the allocator grants all and the table is not enormous.\<close>

lemma table_set_granted:
  assumes ok: "table_ok hash t" and few: "used_count t < 2 ^ 60"
  shows "\<exists>u. table_set (\<lambda>_. True) hash k v t = Some (Inr (table_map t k), u) \<and> table_ok hash u \<and>
    table_map u = (table_map t)(k \<mapsto> v) \<and> used_count u \<le> used_count t + 1"
proof -
  have "\<not> (\<exists>e. table_set (\<lambda>_. True) hash k v t = Some (Inl e, t))"
  proof
    assume "\<exists>e. table_set (\<lambda>_. True) hash k v t = Some (Inl e, t)"
    then have "should_rehash t" "\<exists>e. rehash (\<lambda>_. True) hash t = Some (Inl e)"
      by (auto simp: table_set_def split: option.splits sum.splits if_splits)
    then have "SIZE_MAX div 2 < length (slots t)" "length (slots t) - length (slots t) div 4 \<le> used_count t"
      by (auto simp: should_rehash_def rehash_def rehash_to_def checked_growth_size_def split: option.splits if_splits)
    moreover from this have "4 * length (slots t) \<le> 4 * used_count t + length (slots t)" by linarith
    ultimately show False using few by (simp add: SIZE_MAX_def)
  qed
  then obtain u where u: "table_set (\<lambda>_. True) hash k v t = Some (Inr (table_map t k), u)" "table_ok hash u"
      "table_map u = (table_map t)(k \<mapsto> v)"
    using table_set_ok [OF ok, of "\<lambda>_. True" k v] by blast
  moreover have "used_count u \<le> used_count t + 1"
    using card_insert_le_m1 [of "used_count t + 1" "dom (table_map t)" k]
    by (simp add: used_count_card [OF u(2)] used_count_card [OF ok] u(3))
  ultimately show ?thesis by blast
qed

lemma set_all_granted:
  "table_ok hash t \<Longrightarrow> used_count t + length ps \<le> 2 ^ 60 \<Longrightarrow>
     \<exists>u. set_all (table_set (\<lambda>_. True) hash) ps t = Some (Inr u)"
proof (induction ps arbitrary: t)
  case (Cons p ps)
  then have "used_count t < 2 ^ 60" by simp
  from table_set_granted [OF Cons.prems(1) this, of "fst p" "snd p"] obtain u where
    u: "table_set (\<lambda>_. True) hash (fst p) (snd p) t = Some (Inr (table_map t (fst p)), u)" "table_ok hash u"
      "used_count u \<le> used_count t + 1" by blast
  then show ?case using Cons.IH [of u] Cons.prems(2) by simp
qed simp

section \<open>Sessions\<close>

datatype ('k, 'v) table_op = Set 'k 'v | Get 'k | Contains 'k | Remove 'k | Size | Clear | Reserve nat

datatype 'v answer = Done | Value "'v option" | Yes bool | Number nat

definition table_step ::
  "(nat \<Rightarrow> bool) \<Rightarrow> ('k \<Rightarrow> u64) \<Rightarrow> ('k, 'v) table_op \<Rightarrow> ('k, 'v) hash_table \<Rightarrow>
     ((table_error + 'v answer) \<times> ('k, 'v) hash_table) option" where
  "table_step alloc hash op t = (case op of
       Set k v \<Rightarrow> map_option (\<lambda>(r, u). (map_sum id Value r, u)) (table_set alloc hash k v t)
     | Get k \<Rightarrow> Some (Inr (Value (table_get hash k t)), t)
     | Contains k \<Rightarrow> Some (Inr (Yes (table_contains hash k t)), t)
     | Remove k \<Rightarrow> Some (Inr Done, table_remove hash k t)
     | Size \<Rightarrow> Some (Inr (Number (used_count t)), t)
     | Clear \<Rightarrow> Some (Inr Done, table_clear t)
     | Reserve n \<Rightarrow> map_option (\<lambda>(r, u). (map_sum id (\<lambda>_. Done) r, u)) (table_reserve alloc hash n t))"

primrec table_run ::
  "(nat \<Rightarrow> bool) \<Rightarrow> ('k \<Rightarrow> u64) \<Rightarrow> ('k, 'v) table_op list \<Rightarrow> ('k, 'v) hash_table \<Rightarrow>
     ((table_error + 'v answer) list \<times> ('k, 'v) hash_table) option" where
  "table_run alloc hash [] t = Some ([], t)"
| "table_run alloc hash (op # ops) t = (case table_step alloc hash op t of
     None \<Rightarrow> None | Some (r, t') \<Rightarrow> map_option (\<lambda>(rs, u). (r # rs, u)) (table_run alloc hash ops t'))"

text \<open>The same session on a finite map.\<close>

definition map_step :: "('k, 'v) table_op \<Rightarrow> ('k \<rightharpoonup> 'v) \<Rightarrow> 'v answer \<times> ('k \<rightharpoonup> 'v)" where
  "map_step op m = (case op of
       Set k v \<Rightarrow> (Value (m k), m(k \<mapsto> v)) | Get k \<Rightarrow> (Value (m k), m) | Contains k \<Rightarrow> (Yes (m k \<noteq> None), m)
     | Remove k \<Rightarrow> (Done, m(k := None)) | Size \<Rightarrow> (Number (card (dom m)), m) | Clear \<Rightarrow> (Done, Map.empty)
     | Reserve n \<Rightarrow> (Done, m))"

text \<open>A refused operation leaves the map alone; any other answers as the map does.\<close>

fun answers_as_map :: "('k, 'v) table_op list \<Rightarrow> (table_error + 'v answer) list \<Rightarrow> ('k \<rightharpoonup> 'v) \<Rightarrow> ('k \<rightharpoonup> 'v) \<Rightarrow> bool" where
  "answers_as_map [] [] m m' = (m = m')"
| "answers_as_map (op # ops) (Inl e # rs) m m' = answers_as_map ops rs m m'"
| "answers_as_map (op # ops) (Inr a # rs) m m' =
     (a = fst (map_step op m) \<and> answers_as_map ops rs (snd (map_step op m)) m')"
| "answers_as_map _ _ m m' = False"

lemma table_contains_map:
  assumes "table_ok hash t"
  shows "table_contains hash k t = (table_map t k \<noteq> None)"
proof (cases "get_slot hash k t")
  case (Some j)
  from get_slot_Some [OF assms this] obtain v where "j < length (slots t)" "slots t ! j = Some (k, v)" by blast
  then show ?thesis using Some table_get_map [OF assms, of k, symmetric] by (simp add: table_contains_def table_get_def)
qed (simp add: table_contains_def get_slot_None [OF assms])

lemma kvs_key: "i < length ss \<Longrightarrow> ss ! i = Some (k, v) \<Longrightarrow> k \<in> fst ` set (kvs ss)"
  by (force simp: kvs_def in_set_conv_nth image_iff)

lemma slots_distinct:
  assumes ok: "table_ok hash t" and ij: "i < j" "j < length (slots t)"
    and "slots t ! i = Some (k, v)" "slots t ! j = Some (k, w)"
  shows False
proof -
  have "k \<in> fst ` set (kvs (take j (slots t)))"
    by (rule kvs_key [of i]) (use assms in auto)
  moreover have "entries t = kvs (take j (slots t)) @ (k, w) # kvs (drop (Suc j) (slots t))"
    using entries_split(2) [of j t] assms by simp
  ultimately show False using table_okD(2) [OF ok] by auto
qed

lemma table_clear_ok: "table_ok hash (table_clear t)" "table_map (table_clear t) = Map.empty"
  by (simp_all add: table_clear_def table_ok_def entries_def table_map_def within_reach_def)

lemma table_step_ok:
  assumes ok: "table_ok hash t"
  shows "\<exists>r u. table_step alloc hash op t = Some (r, u) \<and> table_ok hash u \<and>
     (case r of Inl e \<Rightarrow> refused alloc e \<and> u = t | Inr a \<Rightarrow> map_step op (table_map t) = (a, table_map u))"
proof (cases op)
  case (Set k v)
  then show ?thesis using table_set_ok [OF ok, of alloc k v] ok by (auto simp: table_step_def map_step_def)
next
  case (Reserve n)
  then show ?thesis using table_reserve_ok [OF ok, of alloc n] ok by (auto simp: table_step_def map_step_def)
qed (use ok in \<open>auto simp: table_step_def map_step_def table_get_map table_contains_map table_remove_ok table_clear_ok used_count_card\<close>)

lemma table_run_ok:
  "table_ok hash t \<Longrightarrow> \<exists>rs u. table_run alloc hash ops t = Some (rs, u) \<and> table_ok hash u \<and>
     answers_as_map ops rs (table_map t) (table_map u) \<and> (\<forall>e. Inl e \<in> set rs \<longrightarrow> refused alloc e)"
proof (induction ops arbitrary: t)
  case (Cons op ops)
  obtain r u where s: "table_step alloc hash op t = Some (r, u)" "table_ok hash u"
      "case r of Inl e \<Rightarrow> refused alloc e \<and> u = t | Inr a \<Rightarrow> map_step op (table_map t) = (a, table_map u)"
    using table_step_ok [OF Cons.prems] by blast
  from Cons.IH [OF s(2)] obtain rs w where w: "table_run alloc hash ops u = Some (rs, w)" "table_ok hash w"
      "answers_as_map ops rs (table_map u) (table_map w)" "\<forall>e. Inl e \<in> set rs \<longrightarrow> refused alloc e" by blast
  show ?case using s w by (cases r) auto
qed simp

text \<open>C31: over any session on a fresh table, whatever the hash function and whenever the allocator refuses, every
  operation ends, a refused operation changes nothing, and all the others answer as a finite map does: the value a
  key was last given, the value it had before, whether it is there, how many keys there are.\<close>

theorem table_session:
  "\<exists>rs u. table_run alloc hash ops empty_table = Some (rs, u) \<and> answers_as_map ops rs Map.empty (table_map u) \<and>
     (\<forall>k. table_get hash k u = table_map u k) \<and>
     (\<forall>e. Inl e \<in> set rs \<longrightarrow> e = length_error \<or> (\<exists>n. \<not> alloc n))"
proof -
  obtain rs u where "table_run alloc hash ops empty_table = Some (rs, u)" "table_ok hash u"
      "answers_as_map ops rs Map.empty (table_map u)" "\<forall>e. Inl e \<in> set rs \<longrightarrow> refused alloc e"
    using table_run_ok [where hash = hash and t = empty_table and alloc = alloc and ops = ops, OF table_empty(1)] by (auto simp: table_empty)
  then show ?thesis by (intro exI [of _ rs] exI [of _ u]) (auto simp: table_get_map refused_def)
qed

text \<open>C32: a table that any session has produced is well formed: no slots or a power of two from eight on, at most three
  quarters of them used, the count that of the used ones, no key twice, and each key found within
  as many steps of the slot its hash names as the table records, which is all a lookup probes.\<close>

theorem table_well_formed:
  "\<exists>rs u. table_run alloc hash ops empty_table = Some (rs, u) \<and>
     (slots u = [] \<or> (\<exists>e \<ge> 3. length (slots u) = 2 ^ e)) \<and>
     used_count u = length (filter (\<lambda>s. s \<noteq> None) (slots u)) \<and> 4 * used_count u \<le> 3 * length (slots u) \<and>
     (\<forall>i j k v w. i < length (slots u) \<and> j < length (slots u) \<and> slots u ! i = Some (k, v) \<and> slots u ! j = Some (k, w) \<longrightarrow> i = j) \<and>
     (\<forall>i k v. i < length (slots u) \<and> slots u ! i = Some (k, v) \<longrightarrow> get_slot hash k u = Some i \<and>
        (\<exists>d \<le> max_hash_offset u. i = (key_index hash k u + d) mod length (slots u)))"
proof -
  obtain rs u where u: "table_run alloc hash ops empty_table = Some (rs, u)" and ok: "table_ok hash u"
    using table_run_ok [where hash = hash and t = empty_table and alloc = alloc and ops = ops, OF table_empty(1)] by blast
  have size: "slots u = [] \<or> (\<exists>e \<ge> 3. length (slots u) = 2 ^ e)" using ok by (simp add: table_ok_def)
  have same: "i = j" if "i < length (slots u)" "j < length (slots u)" "slots u ! i = Some (k, v)" "slots u ! j = Some (k, w)" for i j k v w
    using slots_distinct [OF ok, of i j k v w] slots_distinct [OF ok, of j i k w v] that by (cases i j rule: linorder_cases) auto
  have "get_slot hash k u = Some i" if i: "i < length (slots u)" "slots u ! i = Some (k, v)" for i k v
  proof (cases "get_slot hash k u")
    case None
    then show ?thesis using get_slot_None(2) [OF ok None] entries_at [OF i] by force
  next
    case (Some j)
    from get_slot_Some [OF ok Some] obtain w where "j < length (slots u)" "slots u ! j = Some (k, w)" by blast
    with same [OF i(1) _ i(2)] Some show ?thesis by simp
  qed
  moreover have "4 * used_count u \<le> 3 * length (slots u)"
    using size
  proof
    assume "\<exists>e \<ge> 3. length (slots u) = 2 ^ e"
    then obtain e where "3 \<le> e" "length (slots u) = 2 ^ e" by blast
    moreover from this obtain d where "e = 3 + d" using le_Suc_ex by blast
    ultimately have "length (slots u) = 4 * (2 * 2 ^ d)" "length (slots u) div 4 = 2 * 2 ^ d" by (simp_all add: power_add)
    then show ?thesis using table_okD(4) [OF ok] by linarith
  qed (use table_okD(4) [OF ok] in simp)
  moreover have "used_count u = length (filter (\<lambda>s. s \<noteq> None) (slots u))"
    using table_okD(1) [OF ok] by (simp add: entries_def kvs_def)
  ultimately show ?thesis
    using u size same table_okD(3) [OF ok] unfolding within_reach_def by (intro exI [of _ rs] exI [of _ u]) blast
qed

text \<open>Two keys whose hashes name the same slot.\<close>

definition session0 :: "(u64, nat) table_op list" where
  "session0 = [Set 1 10, Set 9 20, Get 9, Set 9 30, Remove 1, Get 9, Contains 1, Size]"

lemma session0_run:
  "table_run (\<lambda>_. True) (\<lambda>k. k) session0 empty_table =
     Some ([Inr (Value None), Inr (Value None), Inr (Value (Some 20)), Inr (Value (Some 20)), Inr Done,
        Inr (Value (Some 30)), Inr (Yes False), Inr (Number 1)],
       \<lparr>slots = [None, None, Some (9, 30), None, None, None, None, None], used_count = 1, max_hash_offset = 1\<rparr>)"
  by code_simp

theorem table_session_witness:
  "\<exists>rs u. table_run (\<lambda>_. True) (\<lambda>k. k) session0 empty_table = Some (rs, u) \<and>
     rs ! 3 = Inr (Value (Some 20)) \<and> table_get (\<lambda>k. k) 9 u = Some 30 \<and> table_get (\<lambda>k. k) 1 u = None"
proof -
  obtain rs u where u: "table_run (\<lambda>_. True) (\<lambda>k. k) session0 empty_table = Some (rs, u)"
      "\<forall>k. table_get (\<lambda>k. k) k u = table_map u k"
    using table_session [of "\<lambda>_. True" "\<lambda>k. k" session0] by blast
  then have "rs ! 3 = Inr (Value (Some 20))" "table_map u = [9 \<mapsto> 30]"
    by (auto simp: session0_run table_map_def entries_def)
  with u show ?thesis by (intro exI [of _ rs] exI [of _ u]) simp
qed

theorem table_well_formed_witness:
  "\<exists>u. table_run (\<lambda>_. True) (\<lambda>k. k) session0 empty_table = Some (u :: _ list \<times> (u64, nat) hash_table) \<and>
     slots (snd u) ! 2 = Some (9, 30) \<and> get_slot (\<lambda>k. k) 9 (snd u) = Some 2"
proof -
  obtain rs u where u: "table_run (\<lambda>_. True) (\<lambda>k. k) session0 empty_table = Some (rs, u)"
      "\<forall>i k v. i < length (slots u) \<and> slots u ! i = Some (k, v) \<longrightarrow> get_slot (\<lambda>k. k) k u = Some i \<and>
        (\<exists>d \<le> max_hash_offset u. i = (key_index (\<lambda>k. k) k u + d) mod length (slots u))"
    using table_well_formed [of "\<lambda>_. True" "\<lambda>k. k" session0] by blast
  then have "slots u ! 2 = Some (9, 30)" "2 < length (slots u)" by (auto simp: session0_run)
  with u show ?thesis by (intro exI [of _ "(rs, u)"]) simp
qed

section \<open>Iteration\<close>

lemma skip_unused_stop:
  "skip_unused t i \<le> length (slots t) \<or> i > length (slots t)"
  "\<forall>j. i \<le> j \<and> j < skip_unused t i \<longrightarrow> slots t ! j = None"
  "skip_unused t i < length (slots t) \<Longrightarrow> slots t ! skip_unused t i \<noteq> None"
proof (induction t i rule: skip_unused.induct)
  case (1 t i)
  { case 1 then show ?case using "1.IH"(1) by (subst skip_unused.simps) auto }
  { case 2 then show ?case using "1.IH"(2) by (subst skip_unused.simps) (auto simp: Suc_le_eq dest: le_neq_implies_less) }
  { case 3 then show ?case using "1.IH"(3) by (subst (asm) skip_unused.simps, subst skip_unused.simps) (auto split: if_splits) }
qed

lemma kvs_skip:
  "i \<le> j \<Longrightarrow> j \<le> length ss \<Longrightarrow> \<forall>m. i \<le> m \<and> m < j \<longrightarrow> ss ! m = None \<Longrightarrow> kvs (drop i ss) = kvs (drop j ss)"
proof (induction "j - i" arbitrary: i)
  case (Suc n)
  then have "i < length ss" "ss ! i = None" by auto
  then have "kvs (drop i ss) = kvs (drop (Suc i) ss)" by (simp flip: Cons_nth_drop_Suc)
  then show ?case using Suc by simp
qed simp

lemma walk_entries:
  "i \<le> length (slots t) \<Longrightarrow> i < length (slots t) \<longrightarrow> slots t ! i \<noteq> None \<Longrightarrow>
     walk_from t i = map Some (kvs (drop i (slots t)))"
proof (induction t i rule: walk_from.induct)
  case (1 t i)
  show ?case
  proof (cases "i < length (slots t)")
    case False
    then show ?thesis by (subst walk_from.simps) (simp add: it_end_def)
  next
    case True
    let ?j = "it_next t i"
    obtain e where e: "slots t ! i = Some e" using "1.prems"(2) True by blast
    have j: "?j \<le> length (slots t)" "Suc i \<le> ?j" "?j < length (slots t) \<longrightarrow> slots t ! ?j \<noteq> None"
      using skip_unused_stop(1) [of t "i + 1"] skip_unused_stop(3) [of t "i + 1"] skip_unused_ge [of "i + 1" t] True
      by (auto simp: it_next_def)
    have "walk_from t ?j = map Some (kvs (drop ?j (slots t)))"
      using "1.IH" True j by (simp add: it_end_def)
    moreover have "kvs (drop (Suc i) (slots t)) = kvs (drop ?j (slots t))"
      by (rule kvs_skip) (use j skip_unused_stop(2) [of "i + 1" t] in \<open>auto simp: it_next_def\<close>)
    moreover have "kvs (drop i (slots t)) = e # kvs (drop (Suc i) (slots t))"
      using True e by (simp flip: Cons_nth_drop_Suc)
    ultimately show ?thesis using True e by (subst walk_from.simps) (simp add: it_end_def)
  qed
qed

text \<open>C33: a loop over the iterators of a table that a session has produced sees every key of the map once, with its
  value, and nothing else.\<close>

theorem iteration_complete:
  assumes "table_run alloc hash ops empty_table = Some (rs, u)"
  shows "\<exists>es. walk_from u (it_begin u) = map Some es \<and> distinct (map fst es) \<and> map_of es = table_map u \<and>
     (\<forall>k v. (k, v) \<in> set es \<longleftrightarrow> table_get hash k u = Some v)"
proof -
  have ok: "table_ok hash u"
    using table_run_ok [where hash = hash and t = empty_table and alloc = alloc and ops = ops, OF table_empty(1)] assms by auto
  let ?b = "it_begin u"
  have "?b \<le> length (slots u)" "?b < length (slots u) \<longrightarrow> slots u ! ?b \<noteq> None"
    using skip_unused_stop(1) [of u 0] skip_unused_stop(3) [of u 0] by (auto simp: it_begin_def)
  moreover from this have "kvs (drop 0 (slots u)) = kvs (drop ?b (slots u))"
    by (intro kvs_skip) (use skip_unused_stop(2) [of 0 u] in \<open>auto simp: it_begin_def\<close>)
  ultimately have "walk_from u ?b = map Some (entries u)" using walk_entries [of ?b u] by (simp add: entries_def)
  moreover have "(k, v) \<in> set (entries u) \<longleftrightarrow> table_get hash k u = Some v" for k v
    using table_okD(2) [OF ok] by (simp add: table_get_map [OF ok] table_map_def)
  ultimately show ?thesis using table_okD(2) [OF ok] by (intro exI [of _ "entries u"]) (simp add: table_map_def)
qed

theorem iteration_complete_witness:
  "\<exists>rs u es. table_run (\<lambda>_. True) (\<lambda>k. k) session0 empty_table = Some (rs, u) \<and>
     walk_from u (it_begin u) = map Some es \<and> map_of es 9 = Some 30"
proof -
  let ?rs = "[Inr (Value None), Inr (Value None), Inr (Value (Some 20)), Inr (Value (Some 20)), Inr Done,
        Inr (Value (Some 30)), Inr (Yes False), Inr (Number 1)]"
    and ?u = "\<lparr>slots = [None, None, Some (9 :: u64, 30 :: nat), None, None, None, None, None], used_count = 1, max_hash_offset = 1\<rparr>"
  obtain es where "walk_from ?u (it_begin ?u) = map Some es" "map_of es = table_map ?u"
    using iteration_complete [OF session0_run] by blast
  moreover have "table_map ?u 9 = Some 30" by (simp add: table_map_def entries_def)
  ultimately show ?thesis by (intro exI [of _ ?rs] exI [of _ ?u] exI [of _ es]) (simp add: session0_run)
qed

end
