(* ===== verification/HostKeyboard.thy ===== *)
theory HostKeyboard
  imports TableMap
begin

text \<open>
  The keyboard of the host (\<^verbatim>\<open>source/x11/xkeyboard.cpp\<close>): the table of keys and the names of keysyms, the four
  hash tables \<^verbatim>\<open>XKeyboard::init\<close> fills from them, and the lookups of key codes, keysyms, names and text.
\<close>

section \<open>Keysyms and scan codes\<close>

abbreviation (input) XK_Escape :: u16 where "XK_Escape \<equiv> 0xff1b"
abbreviation (input) XK_F1 :: u16 where "XK_F1 \<equiv> 0xffbe"
abbreviation (input) XK_F2 :: u16 where "XK_F2 \<equiv> 0xffbf"
abbreviation (input) XK_F3 :: u16 where "XK_F3 \<equiv> 0xffc0"
abbreviation (input) XK_F4 :: u16 where "XK_F4 \<equiv> 0xffc1"
abbreviation (input) XK_F5 :: u16 where "XK_F5 \<equiv> 0xffc2"
abbreviation (input) XK_F6 :: u16 where "XK_F6 \<equiv> 0xffc3"
abbreviation (input) XK_F7 :: u16 where "XK_F7 \<equiv> 0xffc4"
abbreviation (input) XK_F8 :: u16 where "XK_F8 \<equiv> 0xffc5"
abbreviation (input) XK_F9 :: u16 where "XK_F9 \<equiv> 0xffc6"
abbreviation (input) XK_F10 :: u16 where "XK_F10 \<equiv> 0xffc7"
abbreviation (input) XK_F11 :: u16 where "XK_F11 \<equiv> 0xffc8"
abbreviation (input) XK_F12 :: u16 where "XK_F12 \<equiv> 0xffc9"
abbreviation (input) XK_grave :: u16 where "XK_grave \<equiv> 0x60"
abbreviation (input) XK_asciitilde :: u16 where "XK_asciitilde \<equiv> 0x7e"
abbreviation (input) XK_1 :: u16 where "XK_1 \<equiv> 0x31"
abbreviation (input) XK_exclam :: u16 where "XK_exclam \<equiv> 0x21"
abbreviation (input) XK_2 :: u16 where "XK_2 \<equiv> 0x32"
abbreviation (input) XK_ampersand :: u16 where "XK_ampersand \<equiv> 0x26"
abbreviation (input) XK_3 :: u16 where "XK_3 \<equiv> 0x33"
abbreviation (input) XK_numbersign :: u16 where "XK_numbersign \<equiv> 0x23"
abbreviation (input) XK_4 :: u16 where "XK_4 \<equiv> 0x34"
abbreviation (input) XK_dollar :: u16 where "XK_dollar \<equiv> 0x24"
abbreviation (input) XK_5 :: u16 where "XK_5 \<equiv> 0x35"
abbreviation (input) XK_percent :: u16 where "XK_percent \<equiv> 0x25"
abbreviation (input) XK_6 :: u16 where "XK_6 \<equiv> 0x36"
abbreviation (input) XK_asciicircum :: u16 where "XK_asciicircum \<equiv> 0x5e"
abbreviation (input) XK_7 :: u16 where "XK_7 \<equiv> 0x37"
abbreviation (input) XK_8 :: u16 where "XK_8 \<equiv> 0x38"
abbreviation (input) XK_asterisk :: u16 where "XK_asterisk \<equiv> 0x2a"
abbreviation (input) XK_9 :: u16 where "XK_9 \<equiv> 0x39"
abbreviation (input) XK_parenleft :: u16 where "XK_parenleft \<equiv> 0x28"
abbreviation (input) XK_0 :: u16 where "XK_0 \<equiv> 0x30"
abbreviation (input) XK_parenright :: u16 where "XK_parenright \<equiv> 0x29"
abbreviation (input) XK_minus :: u16 where "XK_minus \<equiv> 0x2d"
abbreviation (input) XK_underscore :: u16 where "XK_underscore \<equiv> 0x5f"
abbreviation (input) XK_equal :: u16 where "XK_equal \<equiv> 0x3d"
abbreviation (input) XK_plus :: u16 where "XK_plus \<equiv> 0x2b"
abbreviation (input) XK_BackSpace :: u16 where "XK_BackSpace \<equiv> 0xff08"
abbreviation (input) XK_Tab :: u16 where "XK_Tab \<equiv> 0xff09"
abbreviation (input) XK_ISO_Left_Tab :: u16 where "XK_ISO_Left_Tab \<equiv> 0xfe20"
abbreviation (input) XK_q :: u16 where "XK_q \<equiv> 0x71"
abbreviation (input) XK_Q :: u16 where "XK_Q \<equiv> 0x51"
abbreviation (input) XK_w :: u16 where "XK_w \<equiv> 0x77"
abbreviation (input) XK_W :: u16 where "XK_W \<equiv> 0x57"
abbreviation (input) XK_e :: u16 where "XK_e \<equiv> 0x65"
abbreviation (input) XK_E :: u16 where "XK_E \<equiv> 0x45"
abbreviation (input) XK_r :: u16 where "XK_r \<equiv> 0x72"
abbreviation (input) XK_R :: u16 where "XK_R \<equiv> 0x52"
abbreviation (input) XK_t :: u16 where "XK_t \<equiv> 0x74"
abbreviation (input) XK_T :: u16 where "XK_T \<equiv> 0x54"
abbreviation (input) XK_y :: u16 where "XK_y \<equiv> 0x79"
abbreviation (input) XK_Y :: u16 where "XK_Y \<equiv> 0x59"
abbreviation (input) XK_u :: u16 where "XK_u \<equiv> 0x75"
abbreviation (input) XK_U :: u16 where "XK_U \<equiv> 0x55"
abbreviation (input) XK_i :: u16 where "XK_i \<equiv> 0x69"
abbreviation (input) XK_I :: u16 where "XK_I \<equiv> 0x49"
abbreviation (input) XK_o :: u16 where "XK_o \<equiv> 0x6f"
abbreviation (input) XK_O :: u16 where "XK_O \<equiv> 0x4f"
abbreviation (input) XK_p :: u16 where "XK_p \<equiv> 0x70"
abbreviation (input) XK_P :: u16 where "XK_P \<equiv> 0x50"
abbreviation (input) XK_bracketleft :: u16 where "XK_bracketleft \<equiv> 0x5b"
abbreviation (input) XK_braceleft :: u16 where "XK_braceleft \<equiv> 0x7b"
abbreviation (input) XK_bracketright :: u16 where "XK_bracketright \<equiv> 0x5d"
abbreviation (input) XK_braceright :: u16 where "XK_braceright \<equiv> 0x7d"
abbreviation (input) XK_backslash :: u16 where "XK_backslash \<equiv> 0x5c"
abbreviation (input) XK_bar :: u16 where "XK_bar \<equiv> 0x7c"
abbreviation (input) XK_Caps_Lock :: u16 where "XK_Caps_Lock \<equiv> 0xffe5"
abbreviation (input) XK_a :: u16 where "XK_a \<equiv> 0x61"
abbreviation (input) XK_A :: u16 where "XK_A \<equiv> 0x41"
abbreviation (input) XK_s :: u16 where "XK_s \<equiv> 0x73"
abbreviation (input) XK_S :: u16 where "XK_S \<equiv> 0x53"
abbreviation (input) XK_d :: u16 where "XK_d \<equiv> 0x64"
abbreviation (input) XK_D :: u16 where "XK_D \<equiv> 0x44"
abbreviation (input) XK_f :: u16 where "XK_f \<equiv> 0x66"
abbreviation (input) XK_F :: u16 where "XK_F \<equiv> 0x46"
abbreviation (input) XK_g :: u16 where "XK_g \<equiv> 0x67"
abbreviation (input) XK_G :: u16 where "XK_G \<equiv> 0x47"
abbreviation (input) XK_h :: u16 where "XK_h \<equiv> 0x68"
abbreviation (input) XK_H :: u16 where "XK_H \<equiv> 0x48"
abbreviation (input) XK_j :: u16 where "XK_j \<equiv> 0x6a"
abbreviation (input) XK_J :: u16 where "XK_J \<equiv> 0x4a"
abbreviation (input) XK_k :: u16 where "XK_k \<equiv> 0x6b"
abbreviation (input) XK_K :: u16 where "XK_K \<equiv> 0x4b"
abbreviation (input) XK_l :: u16 where "XK_l \<equiv> 0x6c"
abbreviation (input) XK_L :: u16 where "XK_L \<equiv> 0x4c"
abbreviation (input) XK_semicolon :: u16 where "XK_semicolon \<equiv> 0x3b"
abbreviation (input) XK_colon :: u16 where "XK_colon \<equiv> 0x3a"
abbreviation (input) XK_apostrophe :: u16 where "XK_apostrophe \<equiv> 0x27"
abbreviation (input) XK_quotedbl :: u16 where "XK_quotedbl \<equiv> 0x22"
abbreviation (input) XK_Return :: u16 where "XK_Return \<equiv> 0xff0d"
abbreviation (input) XK_Shift_L :: u16 where "XK_Shift_L \<equiv> 0xffe1"
abbreviation (input) XK_z :: u16 where "XK_z \<equiv> 0x7a"
abbreviation (input) XK_Z :: u16 where "XK_Z \<equiv> 0x5a"
abbreviation (input) XK_x :: u16 where "XK_x \<equiv> 0x78"
abbreviation (input) XK_X :: u16 where "XK_X \<equiv> 0x58"
abbreviation (input) XK_c :: u16 where "XK_c \<equiv> 0x63"
abbreviation (input) XK_C :: u16 where "XK_C \<equiv> 0x43"
abbreviation (input) XK_v :: u16 where "XK_v \<equiv> 0x76"
abbreviation (input) XK_V :: u16 where "XK_V \<equiv> 0x56"
abbreviation (input) XK_b :: u16 where "XK_b \<equiv> 0x62"
abbreviation (input) XK_B :: u16 where "XK_B \<equiv> 0x42"
abbreviation (input) XK_n :: u16 where "XK_n \<equiv> 0x6e"
abbreviation (input) XK_N :: u16 where "XK_N \<equiv> 0x4e"
abbreviation (input) XK_m :: u16 where "XK_m \<equiv> 0x6d"
abbreviation (input) XK_M :: u16 where "XK_M \<equiv> 0x4d"
abbreviation (input) XK_comma :: u16 where "XK_comma \<equiv> 0x2c"
abbreviation (input) XK_less :: u16 where "XK_less \<equiv> 0x3c"
abbreviation (input) XK_period :: u16 where "XK_period \<equiv> 0x2e"
abbreviation (input) XK_greater :: u16 where "XK_greater \<equiv> 0x3e"
abbreviation (input) XK_slash :: u16 where "XK_slash \<equiv> 0x2f"
abbreviation (input) XK_question :: u16 where "XK_question \<equiv> 0x3f"
abbreviation (input) XK_Shift_R :: u16 where "XK_Shift_R \<equiv> 0xffe2"
abbreviation (input) XK_Control_L :: u16 where "XK_Control_L \<equiv> 0xffe3"
abbreviation (input) XK_Meta_L :: u16 where "XK_Meta_L \<equiv> 0xffe7"
abbreviation (input) XK_Alt_L :: u16 where "XK_Alt_L \<equiv> 0xffe9"
abbreviation (input) XK_space :: u16 where "XK_space \<equiv> 0x20"
abbreviation (input) XK_Alt_R :: u16 where "XK_Alt_R \<equiv> 0xffea"
abbreviation (input) XK_Meta_R :: u16 where "XK_Meta_R \<equiv> 0xffe8"
abbreviation (input) XK_Control_R :: u16 where "XK_Control_R \<equiv> 0xffe4"
abbreviation (input) XK_Print :: u16 where "XK_Print \<equiv> 0xff61"
abbreviation (input) XK_Scroll_Lock :: u16 where "XK_Scroll_Lock \<equiv> 0xff14"
abbreviation (input) XK_Pause :: u16 where "XK_Pause \<equiv> 0xff13"
abbreviation (input) XK_Insert :: u16 where "XK_Insert \<equiv> 0xff63"
abbreviation (input) XK_Home :: u16 where "XK_Home \<equiv> 0xff50"
abbreviation (input) XK_Page_Up :: u16 where "XK_Page_Up \<equiv> 0xff55"
abbreviation (input) XK_Delete :: u16 where "XK_Delete \<equiv> 0xffff"
abbreviation (input) XK_End :: u16 where "XK_End \<equiv> 0xff57"
abbreviation (input) XK_Page_Down :: u16 where "XK_Page_Down \<equiv> 0xff56"
abbreviation (input) XK_Up :: u16 where "XK_Up \<equiv> 0xff52"
abbreviation (input) XK_Left :: u16 where "XK_Left \<equiv> 0xff51"
abbreviation (input) XK_Right :: u16 where "XK_Right \<equiv> 0xff53"
abbreviation (input) XK_Down :: u16 where "XK_Down \<equiv> 0xff54"
abbreviation (input) XK_Num_Lock :: u16 where "XK_Num_Lock \<equiv> 0xff7f"
abbreviation (input) XK_KP_Divide :: u16 where "XK_KP_Divide \<equiv> 0xffaf"
abbreviation (input) XK_KP_Multiply :: u16 where "XK_KP_Multiply \<equiv> 0xffaa"
abbreviation (input) XK_KP_Subtract :: u16 where "XK_KP_Subtract \<equiv> 0xffad"
abbreviation (input) XK_KP_Add :: u16 where "XK_KP_Add \<equiv> 0xffab"
abbreviation (input) XK_KP_Enter :: u16 where "XK_KP_Enter \<equiv> 0xff8d"
abbreviation (input) XK_KP_Home :: u16 where "XK_KP_Home \<equiv> 0xff95"
abbreviation (input) XK_KP_7 :: u16 where "XK_KP_7 \<equiv> 0xffb7"
abbreviation (input) XK_KP_Up :: u16 where "XK_KP_Up \<equiv> 0xff97"
abbreviation (input) XK_KP_8 :: u16 where "XK_KP_8 \<equiv> 0xffb8"
abbreviation (input) XK_KP_Page_Up :: u16 where "XK_KP_Page_Up \<equiv> 0xff9a"
abbreviation (input) XK_KP_9 :: u16 where "XK_KP_9 \<equiv> 0xffb9"
abbreviation (input) XK_KP_Left :: u16 where "XK_KP_Left \<equiv> 0xff96"
abbreviation (input) XK_KP_4 :: u16 where "XK_KP_4 \<equiv> 0xffb4"
abbreviation (input) XK_KP_5 :: u16 where "XK_KP_5 \<equiv> 0xffb5"
abbreviation (input) XK_KP_Right :: u16 where "XK_KP_Right \<equiv> 0xff98"
abbreviation (input) XK_KP_6 :: u16 where "XK_KP_6 \<equiv> 0xffb6"
abbreviation (input) XK_KP_End :: u16 where "XK_KP_End \<equiv> 0xff9c"
abbreviation (input) XK_KP_1 :: u16 where "XK_KP_1 \<equiv> 0xffb1"
abbreviation (input) XK_KP_Down :: u16 where "XK_KP_Down \<equiv> 0xff99"
abbreviation (input) XK_KP_2 :: u16 where "XK_KP_2 \<equiv> 0xffb2"
abbreviation (input) XK_KP_Page_Down :: u16 where "XK_KP_Page_Down \<equiv> 0xff9b"
abbreviation (input) XK_KP_3 :: u16 where "XK_KP_3 \<equiv> 0xffb3"
abbreviation (input) XK_KP_Insert :: u16 where "XK_KP_Insert \<equiv> 0xff9e"
abbreviation (input) XK_KP_0 :: u16 where "XK_KP_0 \<equiv> 0xffb0"
abbreviation (input) XK_KP_Delete :: u16 where "XK_KP_Delete \<equiv> 0xff9f"
abbreviation (input) XK_KP_Decimal :: u16 where "XK_KP_Decimal \<equiv> 0xffae"

abbreviation (input) SDL_SCANCODE_ESCAPE :: u16 where "SDL_SCANCODE_ESCAPE \<equiv> 41"
abbreviation (input) SDL_SCANCODE_F1 :: u16 where "SDL_SCANCODE_F1 \<equiv> 58"
abbreviation (input) SDL_SCANCODE_F2 :: u16 where "SDL_SCANCODE_F2 \<equiv> 59"
abbreviation (input) SDL_SCANCODE_F3 :: u16 where "SDL_SCANCODE_F3 \<equiv> 60"
abbreviation (input) SDL_SCANCODE_F4 :: u16 where "SDL_SCANCODE_F4 \<equiv> 61"
abbreviation (input) SDL_SCANCODE_F5 :: u16 where "SDL_SCANCODE_F5 \<equiv> 62"
abbreviation (input) SDL_SCANCODE_F6 :: u16 where "SDL_SCANCODE_F6 \<equiv> 63"
abbreviation (input) SDL_SCANCODE_F7 :: u16 where "SDL_SCANCODE_F7 \<equiv> 64"
abbreviation (input) SDL_SCANCODE_F8 :: u16 where "SDL_SCANCODE_F8 \<equiv> 65"
abbreviation (input) SDL_SCANCODE_F9 :: u16 where "SDL_SCANCODE_F9 \<equiv> 66"
abbreviation (input) SDL_SCANCODE_F10 :: u16 where "SDL_SCANCODE_F10 \<equiv> 67"
abbreviation (input) SDL_SCANCODE_F11 :: u16 where "SDL_SCANCODE_F11 \<equiv> 68"
abbreviation (input) SDL_SCANCODE_F12 :: u16 where "SDL_SCANCODE_F12 \<equiv> 69"
abbreviation (input) SDL_SCANCODE_GRAVE :: u16 where "SDL_SCANCODE_GRAVE \<equiv> 53"
abbreviation (input) SDL_SCANCODE_1 :: u16 where "SDL_SCANCODE_1 \<equiv> 30"
abbreviation (input) SDL_SCANCODE_2 :: u16 where "SDL_SCANCODE_2 \<equiv> 31"
abbreviation (input) SDL_SCANCODE_3 :: u16 where "SDL_SCANCODE_3 \<equiv> 32"
abbreviation (input) SDL_SCANCODE_4 :: u16 where "SDL_SCANCODE_4 \<equiv> 33"
abbreviation (input) SDL_SCANCODE_5 :: u16 where "SDL_SCANCODE_5 \<equiv> 34"
abbreviation (input) SDL_SCANCODE_6 :: u16 where "SDL_SCANCODE_6 \<equiv> 35"
abbreviation (input) SDL_SCANCODE_7 :: u16 where "SDL_SCANCODE_7 \<equiv> 36"
abbreviation (input) SDL_SCANCODE_8 :: u16 where "SDL_SCANCODE_8 \<equiv> 37"
abbreviation (input) SDL_SCANCODE_9 :: u16 where "SDL_SCANCODE_9 \<equiv> 38"
abbreviation (input) SDL_SCANCODE_0 :: u16 where "SDL_SCANCODE_0 \<equiv> 39"
abbreviation (input) SDL_SCANCODE_MINUS :: u16 where "SDL_SCANCODE_MINUS \<equiv> 45"
abbreviation (input) SDL_SCANCODE_EQUALS :: u16 where "SDL_SCANCODE_EQUALS \<equiv> 46"
abbreviation (input) SDL_SCANCODE_BACKSPACE :: u16 where "SDL_SCANCODE_BACKSPACE \<equiv> 42"
abbreviation (input) SDL_SCANCODE_TAB :: u16 where "SDL_SCANCODE_TAB \<equiv> 43"
abbreviation (input) SDL_SCANCODE_Q :: u16 where "SDL_SCANCODE_Q \<equiv> 20"
abbreviation (input) SDL_SCANCODE_W :: u16 where "SDL_SCANCODE_W \<equiv> 26"
abbreviation (input) SDL_SCANCODE_E :: u16 where "SDL_SCANCODE_E \<equiv> 8"
abbreviation (input) SDL_SCANCODE_R :: u16 where "SDL_SCANCODE_R \<equiv> 21"
abbreviation (input) SDL_SCANCODE_T :: u16 where "SDL_SCANCODE_T \<equiv> 23"
abbreviation (input) SDL_SCANCODE_Y :: u16 where "SDL_SCANCODE_Y \<equiv> 28"
abbreviation (input) SDL_SCANCODE_U :: u16 where "SDL_SCANCODE_U \<equiv> 24"
abbreviation (input) SDL_SCANCODE_I :: u16 where "SDL_SCANCODE_I \<equiv> 12"
abbreviation (input) SDL_SCANCODE_O :: u16 where "SDL_SCANCODE_O \<equiv> 18"
abbreviation (input) SDL_SCANCODE_P :: u16 where "SDL_SCANCODE_P \<equiv> 19"
abbreviation (input) SDL_SCANCODE_LEFTBRACKET :: u16 where "SDL_SCANCODE_LEFTBRACKET \<equiv> 47"
abbreviation (input) SDL_SCANCODE_RIGHTBRACKET :: u16 where "SDL_SCANCODE_RIGHTBRACKET \<equiv> 48"
abbreviation (input) SDL_SCANCODE_BACKSLASH :: u16 where "SDL_SCANCODE_BACKSLASH \<equiv> 49"
abbreviation (input) SDL_SCANCODE_CAPSLOCK :: u16 where "SDL_SCANCODE_CAPSLOCK \<equiv> 57"
abbreviation (input) SDL_SCANCODE_A :: u16 where "SDL_SCANCODE_A \<equiv> 4"
abbreviation (input) SDL_SCANCODE_S :: u16 where "SDL_SCANCODE_S \<equiv> 22"
abbreviation (input) SDL_SCANCODE_D :: u16 where "SDL_SCANCODE_D \<equiv> 7"
abbreviation (input) SDL_SCANCODE_F :: u16 where "SDL_SCANCODE_F \<equiv> 9"
abbreviation (input) SDL_SCANCODE_G :: u16 where "SDL_SCANCODE_G \<equiv> 10"
abbreviation (input) SDL_SCANCODE_H :: u16 where "SDL_SCANCODE_H \<equiv> 11"
abbreviation (input) SDL_SCANCODE_J :: u16 where "SDL_SCANCODE_J \<equiv> 13"
abbreviation (input) SDL_SCANCODE_K :: u16 where "SDL_SCANCODE_K \<equiv> 14"
abbreviation (input) SDL_SCANCODE_L :: u16 where "SDL_SCANCODE_L \<equiv> 15"
abbreviation (input) SDL_SCANCODE_SEMICOLON :: u16 where "SDL_SCANCODE_SEMICOLON \<equiv> 51"
abbreviation (input) SDL_SCANCODE_APOSTROPHE :: u16 where "SDL_SCANCODE_APOSTROPHE \<equiv> 52"
abbreviation (input) SDL_SCANCODE_RETURN :: u16 where "SDL_SCANCODE_RETURN \<equiv> 40"
abbreviation (input) SDL_SCANCODE_LSHIFT :: u16 where "SDL_SCANCODE_LSHIFT \<equiv> 225"
abbreviation (input) SDL_SCANCODE_Z :: u16 where "SDL_SCANCODE_Z \<equiv> 29"
abbreviation (input) SDL_SCANCODE_X :: u16 where "SDL_SCANCODE_X \<equiv> 27"
abbreviation (input) SDL_SCANCODE_C :: u16 where "SDL_SCANCODE_C \<equiv> 6"
abbreviation (input) SDL_SCANCODE_V :: u16 where "SDL_SCANCODE_V \<equiv> 25"
abbreviation (input) SDL_SCANCODE_B :: u16 where "SDL_SCANCODE_B \<equiv> 5"
abbreviation (input) SDL_SCANCODE_N :: u16 where "SDL_SCANCODE_N \<equiv> 17"
abbreviation (input) SDL_SCANCODE_M :: u16 where "SDL_SCANCODE_M \<equiv> 16"
abbreviation (input) SDL_SCANCODE_COMMA :: u16 where "SDL_SCANCODE_COMMA \<equiv> 54"
abbreviation (input) SDL_SCANCODE_PERIOD :: u16 where "SDL_SCANCODE_PERIOD \<equiv> 55"
abbreviation (input) SDL_SCANCODE_SLASH :: u16 where "SDL_SCANCODE_SLASH \<equiv> 56"
abbreviation (input) SDL_SCANCODE_RSHIFT :: u16 where "SDL_SCANCODE_RSHIFT \<equiv> 229"
abbreviation (input) SDL_SCANCODE_LCTRL :: u16 where "SDL_SCANCODE_LCTRL \<equiv> 224"
abbreviation (input) SDL_SCANCODE_LGUI :: u16 where "SDL_SCANCODE_LGUI \<equiv> 227"
abbreviation (input) SDL_SCANCODE_LALT :: u16 where "SDL_SCANCODE_LALT \<equiv> 226"
abbreviation (input) SDL_SCANCODE_SPACE :: u16 where "SDL_SCANCODE_SPACE \<equiv> 44"
abbreviation (input) SDL_SCANCODE_RALT :: u16 where "SDL_SCANCODE_RALT \<equiv> 230"
abbreviation (input) SDL_SCANCODE_RGUI :: u16 where "SDL_SCANCODE_RGUI \<equiv> 231"
abbreviation (input) SDL_SCANCODE_RCTRL :: u16 where "SDL_SCANCODE_RCTRL \<equiv> 228"
abbreviation (input) SDL_SCANCODE_PRINTSCREEN :: u16 where "SDL_SCANCODE_PRINTSCREEN \<equiv> 70"
abbreviation (input) SDL_SCANCODE_SCROLLLOCK :: u16 where "SDL_SCANCODE_SCROLLLOCK \<equiv> 71"
abbreviation (input) SDL_SCANCODE_PAUSE :: u16 where "SDL_SCANCODE_PAUSE \<equiv> 72"
abbreviation (input) SDL_SCANCODE_INSERT :: u16 where "SDL_SCANCODE_INSERT \<equiv> 73"
abbreviation (input) SDL_SCANCODE_HOME :: u16 where "SDL_SCANCODE_HOME \<equiv> 74"
abbreviation (input) SDL_SCANCODE_PAGEUP :: u16 where "SDL_SCANCODE_PAGEUP \<equiv> 75"
abbreviation (input) SDL_SCANCODE_DELETE :: u16 where "SDL_SCANCODE_DELETE \<equiv> 76"
abbreviation (input) SDL_SCANCODE_END :: u16 where "SDL_SCANCODE_END \<equiv> 77"
abbreviation (input) SDL_SCANCODE_PAGEDOWN :: u16 where "SDL_SCANCODE_PAGEDOWN \<equiv> 78"
abbreviation (input) SDL_SCANCODE_UP :: u16 where "SDL_SCANCODE_UP \<equiv> 82"
abbreviation (input) SDL_SCANCODE_LEFT :: u16 where "SDL_SCANCODE_LEFT \<equiv> 80"
abbreviation (input) SDL_SCANCODE_RIGHT :: u16 where "SDL_SCANCODE_RIGHT \<equiv> 79"
abbreviation (input) SDL_SCANCODE_DOWN :: u16 where "SDL_SCANCODE_DOWN \<equiv> 81"
abbreviation (input) SDL_SCANCODE_NUMLOCKCLEAR :: u16 where "SDL_SCANCODE_NUMLOCKCLEAR \<equiv> 83"
abbreviation (input) SDL_SCANCODE_KP_DIVIDE :: u16 where "SDL_SCANCODE_KP_DIVIDE \<equiv> 84"
abbreviation (input) SDL_SCANCODE_KP_MULTIPLY :: u16 where "SDL_SCANCODE_KP_MULTIPLY \<equiv> 85"
abbreviation (input) SDL_SCANCODE_KP_MINUS :: u16 where "SDL_SCANCODE_KP_MINUS \<equiv> 86"
abbreviation (input) SDL_SCANCODE_KP_PLUS :: u16 where "SDL_SCANCODE_KP_PLUS \<equiv> 87"
abbreviation (input) SDL_SCANCODE_KP_ENTER :: u16 where "SDL_SCANCODE_KP_ENTER \<equiv> 88"
abbreviation (input) SDL_SCANCODE_KP_7 :: u16 where "SDL_SCANCODE_KP_7 \<equiv> 95"
abbreviation (input) SDL_SCANCODE_KP_8 :: u16 where "SDL_SCANCODE_KP_8 \<equiv> 96"
abbreviation (input) SDL_SCANCODE_KP_9 :: u16 where "SDL_SCANCODE_KP_9 \<equiv> 97"
abbreviation (input) SDL_SCANCODE_KP_4 :: u16 where "SDL_SCANCODE_KP_4 \<equiv> 92"
abbreviation (input) SDL_SCANCODE_KP_5 :: u16 where "SDL_SCANCODE_KP_5 \<equiv> 93"
abbreviation (input) SDL_SCANCODE_KP_6 :: u16 where "SDL_SCANCODE_KP_6 \<equiv> 94"
abbreviation (input) SDL_SCANCODE_KP_1 :: u16 where "SDL_SCANCODE_KP_1 \<equiv> 89"
abbreviation (input) SDL_SCANCODE_KP_2 :: u16 where "SDL_SCANCODE_KP_2 \<equiv> 90"
abbreviation (input) SDL_SCANCODE_KP_3 :: u16 where "SDL_SCANCODE_KP_3 \<equiv> 91"
abbreviation (input) SDL_SCANCODE_KP_0 :: u16 where "SDL_SCANCODE_KP_0 \<equiv> 98"
abbreviation (input) SDL_SCANCODE_KP_PERIOD :: u16 where "SDL_SCANCODE_KP_PERIOD \<equiv> 99"

section \<open>The keys\<close>

record KeyInfo =
  ki_keyCode :: u16
  ki_scanCode :: u16
  ki_sdlScanCode :: u16
  ki_keySym :: u16
  ki_keySymWithShift :: u16
  ki_keySymWithNum :: u16
  ki_ch :: "u8 list option"
  ki_chShift :: "u8 list option"
  ki_chNum :: "u8 list option"

definition kbd_key :: "u16 \<Rightarrow> u16 \<Rightarrow> u16 \<Rightarrow> u16 \<Rightarrow> u16 \<Rightarrow> u16 \<Rightarrow> u8 list option \<Rightarrow> u8 list option \<Rightarrow> u8 list option \<Rightarrow> KeyInfo" where
  "kbd_key code scan sdl plain shift num ch chShift chNum =
     \<lparr>ki_keyCode = code, ki_scanCode = scan, ki_sdlScanCode = sdl, ki_keySym = plain, ki_keySymWithShift = shift,
      ki_keySymWithNum = num, ki_ch = ch, ki_chShift = chShift, ki_chNum = chNum\<rparr>"

definition usKeyBoard :: "KeyInfo list" where
  "usKeyBoard = [
    kbd_key 0x09 0x01 SDL_SCANCODE_ESCAPE XK_Escape XK_Escape 0 (Some [27]) (Some [27]) None,
    kbd_key 0x43 0x3B SDL_SCANCODE_F1 XK_F1 XK_F1 0 None None None,
    kbd_key 0x44 0x3C SDL_SCANCODE_F2 XK_F2 XK_F2 0 None None None,
    kbd_key 0x45 0x3D SDL_SCANCODE_F3 XK_F3 XK_F3 0 None None None,
    kbd_key 0x46 0x3E SDL_SCANCODE_F4 XK_F4 XK_F4 0 None None None,
    kbd_key 0x47 0x3F SDL_SCANCODE_F5 XK_F5 XK_F5 0 None None None,
    kbd_key 0x48 0x40 SDL_SCANCODE_F6 XK_F6 XK_F6 0 None None None,
    kbd_key 0x49 0x41 SDL_SCANCODE_F7 XK_F7 XK_F7 0 None None None,
    kbd_key 0x4a 0x42 SDL_SCANCODE_F8 XK_F8 XK_F8 0 None None None,
    kbd_key 0x4b 0x42 SDL_SCANCODE_F9 XK_F9 XK_F9 0 None None None,
    kbd_key 0x4c 0x43 SDL_SCANCODE_F10 XK_F10 XK_F10 0 None None None,
    kbd_key 0x5f 0x57 SDL_SCANCODE_F11 XK_F11 XK_F11 0 None None None,
    kbd_key 0x60 0x58 SDL_SCANCODE_F12 XK_F12 XK_F12 0 None None None,
    kbd_key 0x31 0x29 SDL_SCANCODE_GRAVE XK_grave XK_asciitilde 0 (Some [96]) (Some [126]) None,
    kbd_key 0x0a 0x02 SDL_SCANCODE_1 XK_1 XK_exclam 0 (Some [49]) (Some [33]) None,
    kbd_key 0x0b 0x03 SDL_SCANCODE_2 XK_2 XK_ampersand 0 (Some [50]) (Some [64]) None,
    kbd_key 0x0c 0x04 SDL_SCANCODE_3 XK_3 XK_numbersign 0 (Some [51]) (Some [35]) None,
    kbd_key 0x0d 0x05 SDL_SCANCODE_4 XK_4 XK_dollar 0 (Some [52]) (Some [36]) None,
    kbd_key 0x0e 0x06 SDL_SCANCODE_5 XK_5 XK_percent 0 (Some [53]) (Some [37]) None,
    kbd_key 0x0f 0x07 SDL_SCANCODE_6 XK_6 XK_asciicircum 0 (Some [54]) (Some [94]) None,
    kbd_key 0x10 0x08 SDL_SCANCODE_7 XK_7 XK_ampersand 0 (Some [55]) (Some [38]) None,
    kbd_key 0x11 0x09 SDL_SCANCODE_8 XK_8 XK_asterisk 0 (Some [56]) (Some [42]) None,
    kbd_key 0x12 0x0A SDL_SCANCODE_9 XK_9 XK_parenleft 0 (Some [57]) (Some [40]) None,
    kbd_key 0x13 0x0B SDL_SCANCODE_0 XK_0 XK_parenright 0 (Some [48]) (Some [41]) None,
    kbd_key 0x14 0x0C SDL_SCANCODE_MINUS XK_minus XK_underscore 0 (Some [45]) (Some [95]) None,
    kbd_key 0x15 0x0D SDL_SCANCODE_EQUALS XK_equal XK_plus 0 (Some [61]) (Some [43]) None,
    kbd_key 0x16 0x0E SDL_SCANCODE_BACKSPACE XK_BackSpace XK_BackSpace 0 (Some [8]) (Some [8]) None,
    kbd_key 0x17 0x0F SDL_SCANCODE_TAB XK_Tab XK_ISO_Left_Tab 0 (Some [9]) None None,
    kbd_key 0x18 0x10 SDL_SCANCODE_Q XK_q XK_Q 0 (Some [113]) (Some [81]) None,
    kbd_key 0x19 0x11 SDL_SCANCODE_W XK_w XK_W 0 (Some [119]) (Some [87]) None,
    kbd_key 0x1a 0x12 SDL_SCANCODE_E XK_e XK_E 0 (Some [101]) (Some [69]) None,
    kbd_key 0x1b 0x13 SDL_SCANCODE_R XK_r XK_R 0 (Some [114]) (Some [82]) None,
    kbd_key 0x1c 0x14 SDL_SCANCODE_T XK_t XK_T 0 (Some [116]) (Some [84]) None,
    kbd_key 0x1d 0x15 SDL_SCANCODE_Y XK_y XK_Y 0 (Some [121]) (Some [89]) None,
    kbd_key 0x1e 0x16 SDL_SCANCODE_U XK_u XK_U 0 (Some [117]) (Some [85]) None,
    kbd_key 0x1f 0x17 SDL_SCANCODE_I XK_i XK_I 0 (Some [105]) (Some [73]) None,
    kbd_key 0x20 0x18 SDL_SCANCODE_O XK_o XK_O 0 (Some [111]) (Some [79]) None,
    kbd_key 0x21 0x19 SDL_SCANCODE_P XK_p XK_P 0 (Some [112]) (Some [80]) None,
    kbd_key 0x22 0x1A SDL_SCANCODE_LEFTBRACKET XK_bracketleft XK_braceleft 0 (Some [91]) (Some [123]) None,
    kbd_key 0x23 0x1B SDL_SCANCODE_RIGHTBRACKET XK_bracketright XK_braceright 0 (Some [93]) (Some [125]) None,
    kbd_key 0x33 0x2B SDL_SCANCODE_BACKSLASH XK_backslash XK_bar 0 (Some [92]) (Some [124]) None,
    kbd_key 0x42 0x3A SDL_SCANCODE_CAPSLOCK XK_Caps_Lock XK_Caps_Lock 0 None None None,
    kbd_key 0x26 0x1E SDL_SCANCODE_A XK_a XK_A 0 (Some [97]) (Some [65]) None,
    kbd_key 0x27 0x1F SDL_SCANCODE_S XK_s XK_S 0 (Some [115]) (Some [83]) None,
    kbd_key 0x28 0x20 SDL_SCANCODE_D XK_d XK_D 0 (Some [100]) (Some [68]) None,
    kbd_key 0x29 0x21 SDL_SCANCODE_F XK_f XK_F 0 (Some [102]) (Some [70]) None,
    kbd_key 0x2a 0x22 SDL_SCANCODE_G XK_g XK_G 0 (Some [103]) (Some [71]) None,
    kbd_key 0x2b 0x23 SDL_SCANCODE_H XK_h XK_H 0 (Some [104]) (Some [72]) None,
    kbd_key 0x2c 0x24 SDL_SCANCODE_J XK_j XK_J 0 (Some [106]) (Some [74]) None,
    kbd_key 0x2d 0x25 SDL_SCANCODE_K XK_k XK_K 0 (Some [107]) (Some [75]) None,
    kbd_key 0x2e 0x26 SDL_SCANCODE_L XK_l XK_L 0 (Some [108]) (Some [76]) None,
    kbd_key 0x2f 0x27 SDL_SCANCODE_SEMICOLON XK_semicolon XK_colon 0 (Some [59]) (Some [58]) None,
    kbd_key 0x30 0x28 SDL_SCANCODE_APOSTROPHE XK_apostrophe XK_quotedbl 0 (Some [39]) (Some [39]) None,
    kbd_key 0x24 0x1C SDL_SCANCODE_RETURN XK_Return XK_Return 0 (Some [13]) (Some [13]) None,
    kbd_key 0x32 0x2a SDL_SCANCODE_LSHIFT XK_Shift_L XK_Shift_L 0 None None None,
    kbd_key 0x34 0x2C SDL_SCANCODE_Z XK_z XK_Z 0 (Some [122]) (Some [90]) None,
    kbd_key 0x35 0x2D SDL_SCANCODE_X XK_x XK_X 0 (Some [120]) (Some [88]) None,
    kbd_key 0x36 0x2E SDL_SCANCODE_C XK_c XK_C 0 (Some [99]) (Some [67]) None,
    kbd_key 0x37 0x2F SDL_SCANCODE_V XK_v XK_V 0 (Some [118]) (Some [86]) None,
    kbd_key 0x38 0x30 SDL_SCANCODE_B XK_b XK_B 0 (Some [98]) (Some [66]) None,
    kbd_key 0x39 0x31 SDL_SCANCODE_N XK_n XK_N 0 (Some [110]) (Some [78]) None,
    kbd_key 0x3a 0x32 SDL_SCANCODE_M XK_m XK_M 0 (Some [109]) (Some [77]) None,
    kbd_key 0x3b 0x33 SDL_SCANCODE_COMMA XK_comma XK_less 0 (Some [44]) (Some [60]) None,
    kbd_key 0x3c 0x34 SDL_SCANCODE_PERIOD XK_period XK_greater 0 (Some [46]) (Some [62]) None,
    kbd_key 0x3d 0x35 SDL_SCANCODE_SLASH XK_slash XK_question 0 (Some [47]) (Some [63]) None,
    kbd_key 0x3e 0x36 SDL_SCANCODE_RSHIFT XK_Shift_R XK_Shift_R 0 None None None,
    kbd_key 0x25 0x1d SDL_SCANCODE_LCTRL XK_Control_L XK_Control_L 0 None None None,
    kbd_key 0x85 0x5B SDL_SCANCODE_LGUI XK_Meta_L 0 0 None None None,
    kbd_key 0x40 0x38 SDL_SCANCODE_LALT XK_Alt_L XK_Alt_L 0 None None None,
    kbd_key 0x41 0x39 SDL_SCANCODE_SPACE XK_space XK_space 0 (Some [32]) (Some [32]) None,
    kbd_key 0x6c 0x38 SDL_SCANCODE_RALT XK_Alt_R XK_Alt_R 0 None None None,
    kbd_key 0x86 0x5C SDL_SCANCODE_RGUI XK_Meta_R 0 0 None None None,
    kbd_key 0x69 0x1d SDL_SCANCODE_RCTRL XK_Control_R XK_Control_R 0 None None None,
    kbd_key 0x4c 0x45 SDL_SCANCODE_PRINTSCREEN XK_Print XK_Print 0 None None None,
    kbd_key 0x4e 0x46 SDL_SCANCODE_SCROLLLOCK XK_Scroll_Lock XK_Scroll_Lock 0 None None None,
    kbd_key 0x7f 0x45 SDL_SCANCODE_PAUSE XK_Pause XK_Pause 0 None None None,
    kbd_key 0x76 0x52 SDL_SCANCODE_INSERT XK_Insert XK_Insert 0 None None None,
    kbd_key 0x6e 0x47 SDL_SCANCODE_HOME XK_Home XK_Home 0 None None None,
    kbd_key 0x70 0x49 SDL_SCANCODE_PAGEUP XK_Page_Up XK_Page_Up 0 None None None,
    kbd_key 0x77 0x53 SDL_SCANCODE_DELETE XK_Delete XK_Delete 0 None None None,
    kbd_key 0x73 0x4f SDL_SCANCODE_END XK_End XK_End 0 None None None,
    kbd_key 0x75 0x4f SDL_SCANCODE_PAGEDOWN XK_Page_Down XK_Page_Down 0 None None None,
    kbd_key 0x6f 0x51 SDL_SCANCODE_UP XK_Up XK_Up 0 None None None,
    kbd_key 0x71 0x4b SDL_SCANCODE_LEFT XK_Left XK_Left 0 None None None,
    kbd_key 0x72 0x4d SDL_SCANCODE_RIGHT XK_Right XK_Right 0 None None None,
    kbd_key 0x74 0x50 SDL_SCANCODE_DOWN XK_Down XK_Down 0 None None None,
    kbd_key 0x4d 0x45 SDL_SCANCODE_NUMLOCKCLEAR XK_Num_Lock XK_Num_Lock 0 None None None,
    kbd_key 0x6a 0x35 SDL_SCANCODE_KP_DIVIDE XK_KP_Divide XK_KP_Divide 0 (Some [47]) (Some [47]) None,
    kbd_key 0x3f 0x37 SDL_SCANCODE_KP_MULTIPLY XK_KP_Multiply XK_KP_Multiply 0 (Some [42]) (Some [42]) None,
    kbd_key 0x52 0x4a SDL_SCANCODE_KP_MINUS XK_KP_Subtract XK_KP_Subtract 0 (Some [45]) (Some [45]) None,
    kbd_key 0x56 0x4e SDL_SCANCODE_KP_PLUS XK_KP_Add XK_KP_Add 0 (Some [43]) (Some [43]) None,
    kbd_key 0x68 0x1c SDL_SCANCODE_KP_ENTER XK_KP_Enter XK_KP_Enter 0 (Some [13]) (Some [13]) None,
    kbd_key 0x4f 0x47 SDL_SCANCODE_KP_7 XK_KP_Home XK_KP_Home XK_KP_7 None None (Some [55]),
    kbd_key 0x50 0x48 SDL_SCANCODE_KP_8 XK_KP_Up XK_KP_Up XK_KP_8 None None (Some [56]),
    kbd_key 0x51 0x49 SDL_SCANCODE_KP_9 XK_KP_Page_Up XK_KP_Page_Up XK_KP_9 None None (Some [57]),
    kbd_key 0x53 0x4b SDL_SCANCODE_KP_4 XK_KP_Left XK_KP_Left XK_KP_4 None None (Some [52]),
    kbd_key 0x54 0x4c SDL_SCANCODE_KP_5 0 0 XK_KP_5 None None (Some [53]),
    kbd_key 0x55 0x4d SDL_SCANCODE_KP_6 XK_KP_Right XK_KP_Right XK_KP_6 None None (Some [54]),
    kbd_key 0x57 0x4f SDL_SCANCODE_KP_1 XK_KP_End XK_KP_End XK_KP_1 None None (Some [49]),
    kbd_key 0x58 0x50 SDL_SCANCODE_KP_2 XK_KP_Down XK_KP_Down XK_KP_2 None None (Some [50]),
    kbd_key 0x59 0x51 SDL_SCANCODE_KP_3 XK_KP_Page_Down XK_KP_Page_Down XK_KP_3 None None (Some [51]),
    kbd_key 0x5a 0x52 SDL_SCANCODE_KP_0 XK_KP_Insert XK_KP_Insert XK_KP_0 None None (Some [48]),
    kbd_key 0x5b 0x53 SDL_SCANCODE_KP_PERIOD XK_KP_Delete XK_KP_Delete XK_KP_Decimal None None (Some [46])]"

text \<open>The names, without their terminators.\<close>

definition kbd_name :: "string \<Rightarrow> u8 list" where "kbd_name = map of_char"

definition keyNames :: "(u16 \<times> u8 list) list" where
  "keyNames = [
    (XK_Escape, kbd_name ''Escape''),
    (XK_F1, kbd_name ''F1''),
    (XK_F2, kbd_name ''F2''),
    (XK_F3, kbd_name ''F3''),
    (XK_F4, kbd_name ''F4''),
    (XK_F5, kbd_name ''F5''),
    (XK_F6, kbd_name ''F6''),
    (XK_F7, kbd_name ''F7''),
    (XK_F8, kbd_name ''F8''),
    (XK_F9, kbd_name ''F9''),
    (XK_F10, kbd_name ''F10''),
    (XK_F11, kbd_name ''F11''),
    (XK_F12, kbd_name ''F12''),
    (XK_grave, kbd_name ''grave''),
    (XK_asciitilde, kbd_name ''asciitilde''),
    (XK_1, kbd_name ''1''),
    (XK_exclam, kbd_name ''exclam''),
    (XK_2, kbd_name ''2''),
    (XK_ampersand, kbd_name ''at''),
    (XK_3, kbd_name ''3''),
    (XK_numbersign, kbd_name ''numbersign''),
    (XK_4, kbd_name ''4''),
    (XK_dollar, kbd_name ''dollar''),
    (XK_5, kbd_name ''5''),
    (XK_percent, kbd_name ''percent''),
    (XK_6, kbd_name ''6''),
    (XK_asciicircum, kbd_name ''asciicircum''),
    (XK_7, kbd_name ''7''),
    (XK_ampersand, kbd_name ''ampersand''),
    (XK_8, kbd_name ''8''),
    (XK_asterisk, kbd_name ''asterisk''),
    (XK_9, kbd_name ''9''),
    (XK_parenleft, kbd_name ''parenleft''),
    (XK_0, kbd_name ''0''),
    (XK_parenright, kbd_name ''parenright''),
    (XK_minus, kbd_name ''minus''),
    (XK_underscore, kbd_name ''underscore''),
    (XK_equal, kbd_name ''equal''),
    (XK_plus, kbd_name ''plus''),
    (XK_BackSpace, kbd_name ''BackSpace''),
    (XK_Tab, kbd_name ''Tab''),
    (XK_ISO_Left_Tab, kbd_name ''ISO_Left_Tab''),
    (XK_q, kbd_name ''q''),
    (XK_Q, kbd_name ''Q''),
    (XK_w, kbd_name ''w''),
    (XK_W, kbd_name ''W''),
    (XK_e, kbd_name ''e''),
    (XK_E, kbd_name ''E''),
    (XK_r, kbd_name ''r''),
    (XK_R, kbd_name ''R''),
    (XK_t, kbd_name ''t''),
    (XK_T, kbd_name ''T''),
    (XK_y, kbd_name ''y''),
    (XK_Y, kbd_name ''Y''),
    (XK_u, kbd_name ''u''),
    (XK_U, kbd_name ''U''),
    (XK_i, kbd_name ''i''),
    (XK_I, kbd_name ''I''),
    (XK_o, kbd_name ''o''),
    (XK_O, kbd_name ''O''),
    (XK_p, kbd_name ''p''),
    (XK_P, kbd_name ''P''),
    (XK_bracketleft, kbd_name ''bracketleft''),
    (XK_braceleft, kbd_name ''braceleft''),
    (XK_bracketright, kbd_name ''bracketright''),
    (XK_braceright, kbd_name ''braceright''),
    (XK_backslash, kbd_name ''backslash''),
    (XK_bar, kbd_name ''bar''),
    (XK_Caps_Lock, kbd_name ''Caps_Lock''),
    (XK_a, kbd_name ''a''),
    (XK_A, kbd_name ''A''),
    (XK_s, kbd_name ''s''),
    (XK_S, kbd_name ''S''),
    (XK_d, kbd_name ''d''),
    (XK_D, kbd_name ''D''),
    (XK_f, kbd_name ''f''),
    (XK_F, kbd_name ''F''),
    (XK_g, kbd_name ''g''),
    (XK_G, kbd_name ''G''),
    (XK_h, kbd_name ''h''),
    (XK_H, kbd_name ''H''),
    (XK_j, kbd_name ''j''),
    (XK_J, kbd_name ''J''),
    (XK_k, kbd_name ''k''),
    (XK_K, kbd_name ''K''),
    (XK_l, kbd_name ''l''),
    (XK_L, kbd_name ''L''),
    (XK_semicolon, kbd_name ''semicolon''),
    (XK_colon, kbd_name ''colon''),
    (XK_apostrophe, kbd_name ''apostrophe''),
    (XK_quotedbl, kbd_name ''quotedbl''),
    (XK_Return, kbd_name ''Return''),
    (XK_Shift_L, kbd_name ''Shift_L''),
    (XK_z, kbd_name ''z''),
    (XK_Z, kbd_name ''Z''),
    (XK_x, kbd_name ''x''),
    (XK_X, kbd_name ''X''),
    (XK_c, kbd_name ''c''),
    (XK_C, kbd_name ''C''),
    (XK_v, kbd_name ''v''),
    (XK_V, kbd_name ''V''),
    (XK_b, kbd_name ''b''),
    (XK_B, kbd_name ''B''),
    (XK_n, kbd_name ''n''),
    (XK_N, kbd_name ''N''),
    (XK_m, kbd_name ''m''),
    (XK_M, kbd_name ''M''),
    (XK_comma, kbd_name '',''),
    (XK_less, kbd_name ''<''),
    (XK_period, kbd_name ''.''),
    (XK_greater, kbd_name ''>''),
    (XK_slash, kbd_name ''/''),
    (XK_question, kbd_name ''?''),
    (XK_Shift_R, kbd_name ''Shift_R''),
    (XK_Control_L, kbd_name ''Control_R''),
    (XK_Meta_L, kbd_name ''Super_L''),
    (XK_Alt_L, kbd_name ''Alt_L''),
    (XK_space, kbd_name ''space''),
    (XK_Alt_R, kbd_name ''Alt_R''),
    (XK_Meta_R, kbd_name ''Super_R''),
    (XK_Control_R, kbd_name ''Control_R''),
    (XK_Print, kbd_name ''Print''),
    (XK_Scroll_Lock, kbd_name ''Scroll_Lock''),
    (XK_Pause, kbd_name ''Pause''),
    (XK_Insert, kbd_name ''Insert''),
    (XK_Home, kbd_name ''Home''),
    (XK_Page_Up, kbd_name ''Prior''),
    (XK_Delete, kbd_name ''Delete''),
    (XK_End, kbd_name ''End''),
    (XK_Page_Down, kbd_name ''Next''),
    (XK_Up, kbd_name ''Up''),
    (XK_Left, kbd_name ''Left''),
    (XK_Right, kbd_name ''Right''),
    (XK_Down, kbd_name ''Down''),
    (XK_Num_Lock, kbd_name ''Num_Lock''),
    (XK_KP_Divide, kbd_name ''KP_Divide''),
    (XK_KP_Multiply, kbd_name ''KP_Multiply''),
    (XK_KP_Subtract, kbd_name ''KP_Subtract''),
    (XK_KP_Add, kbd_name ''KP_Add''),
    (XK_KP_Enter, kbd_name ''KP_Enter''),
    (XK_KP_Home, kbd_name ''KP_Home''),
    (XK_KP_7, kbd_name ''KP_7''),
    (XK_KP_Up, kbd_name ''KP_Up''),
    (XK_KP_8, kbd_name ''KP_8''),
    (XK_KP_Page_Up, kbd_name ''KP_Prior''),
    (XK_KP_9, kbd_name ''KP_9''),
    (XK_KP_Left, kbd_name ''KP_Left''),
    (XK_KP_4, kbd_name ''KP_4''),
    (XK_KP_5, kbd_name ''KP_5''),
    (XK_KP_Right, kbd_name ''KP_Right''),
    (XK_KP_6, kbd_name ''KP_6''),
    (XK_KP_End, kbd_name ''KP_End''),
    (XK_KP_1, kbd_name ''KP_1''),
    (XK_KP_Down, kbd_name ''KP_Down''),
    (XK_KP_2, kbd_name ''KP_2''),
    (XK_KP_Page_Down, kbd_name ''KP_Next''),
    (XK_KP_3, kbd_name ''KP_3''),
    (XK_KP_Insert, kbd_name ''KP_Insert''),
    (XK_KP_0, kbd_name ''KP_0''),
    (XK_KP_Delete, kbd_name ''KP_Delete''),
    (XK_KP_Decimal, kbd_name ''KP_Decimal'')]"

section \<open>Initialisation\<close>

record keyboard =
  keyCodeToInfo :: "(u16, KeyInfo) hash_table"
  keySymToInfo :: "(u16, KeyInfo) hash_table"
  keySdlToInfo :: "(u16, KeyInfo) hash_table"
  keyToName :: "(u16, u8 list) hash_table"
  minKeyCode :: u16
  maxKeyCode :: u16

text \<open>What one key stores under its keysyms, in the order of the code.\<close>

definition sym_entries :: "KeyInfo \<Rightarrow> (u16 \<times> KeyInfo) list" where
  "sym_entries k = [(ki_keySym k, k), (ki_keySymWithShift k, k)] @
     (if ki_keySymWithNum k \<noteq> 0 then [(ki_keySymWithNum k, k)] else [])"

definition smaller_code :: "KeyInfo \<Rightarrow> u16 \<Rightarrow> u16" where
  "smaller_code k m = (if ki_keyCode k \<noteq> 0 \<and> ki_keyCode k < m then ki_keyCode k else m)"

definition larger_code :: "KeyInfo \<Rightarrow> u16 \<Rightarrow> u16" where
  "larger_code k m = (if ki_keyCode k \<noteq> 0 \<and> m < ki_keyCode k then ki_keyCode k else m)"

text \<open>An exception of a table ends it; \<^verbatim>\<open>None\<close> would be a table that does not return.\<close>

definition XKeyboard_init :: "(nat \<Rightarrow> bool) \<Rightarrow> (u16 \<Rightarrow> u64) \<Rightarrow> (table_error + keyboard) option" where
  "XKeyboard_init alloc hash =
     (case set_all (table_set alloc hash) (map (\<lambda>k. (ki_keyCode k, k)) usKeyBoard) empty_table of
        Some (Inr codes) \<Rightarrow>
          (case set_all (table_set alloc hash) (concat (map sym_entries usKeyBoard)) empty_table of
             Some (Inr syms) \<Rightarrow>
               (case set_all (table_set alloc hash) (map (\<lambda>k. (ki_sdlScanCode k, k)) usKeyBoard) empty_table of
                  Some (Inr sdls) \<Rightarrow>
                    (case set_all (table_set alloc hash) keyNames empty_table of
                       Some (Inr names) \<Rightarrow> Some (Inr
                         \<lparr>keyCodeToInfo = codes, keySymToInfo = syms, keySdlToInfo = sdls, keyToName = names,
                          minKeyCode = fold smaller_code usKeyBoard 0xFFFF, maxKeyCode = fold larger_code usKeyBoard 0\<rparr>)
                     | Some (Inl e) \<Rightarrow> Some (Inl e) | None \<Rightarrow> None)
                | Some (Inl e) \<Rightarrow> Some (Inl e) | None \<Rightarrow> None)
           | Some (Inl e) \<Rightarrow> Some (Inl e) | None \<Rightarrow> None)
      | Some (Inl e) \<Rightarrow> Some (Inl e) | None \<Rightarrow> None)"

section \<open>Lookups\<close>

text \<open>The 32-bit argument is cut to the 16 bits of the table.\<close>

definition kb_getKeysymName :: "(u16 \<Rightarrow> u64) \<Rightarrow> keyboard \<Rightarrow> u32 \<Rightarrow> u8 list option" where
  "kb_getKeysymName hash kb keysym = table_get hash (ucast keysym) (keyToName kb)"

definition kb_keycodeToKeysym :: "(u16 \<Rightarrow> u64) \<Rightarrow> keyboard \<Rightarrow> u32 \<Rightarrow> u32 \<Rightarrow> u32" where
  "kb_keycodeToKeysym hash kb keycode level =
     (case table_get hash (ucast keycode) (keyCodeToInfo kb) of
        None \<Rightarrow> 0
      | Some info \<Rightarrow>
          if level = 0 then ucast (ki_keySym info)
          else if level = 1 \<or> level = 2 then ucast (ki_keySymWithShift info)
          else if level = 5 then ucast (ki_keySymWithNum info)
          else 0)"

definition kb_keysymToKeycode :: "(u16 \<Rightarrow> u64) \<Rightarrow> keyboard \<Rightarrow> u32 \<Rightarrow> u32" where
  "kb_keysymToKeycode hash kb keysym =
     (case table_get hash (ucast keysym) (keySymToInfo kb) of None \<Rightarrow> 0 | Some info \<Rightarrow> ucast (ki_keyCode info))"

definition kb_sdl2x11 :: "(u16 \<Rightarrow> u64) \<Rightarrow> keyboard \<Rightarrow> u32 \<Rightarrow> u32" where
  "kb_sdl2x11 hash kb sdlScanCode =
     (case table_get hash (ucast sdlScanCode) (keySdlToInfo kb) of None \<Rightarrow> 0 | Some info \<Rightarrow> ucast (ki_keyCode info))"

text \<open>\<^verbatim>\<open>IS_SHIFT\<close> looks at the bit of \<^verbatim>\<open>LockMask\<close>.\<close>

definition ShiftMask :: u32 where "ShiftMask = 1"
definition NumMask :: u32 where "NumMask = 0x10"

definition IS_SHIFT :: "u32 \<Rightarrow> bool" where
  "IS_SHIFT x \<longleftrightarrow> x AND 2 \<noteq> 0 \<and> x AND 2 \<noteq> 3"

text \<open>The length and the bytes put in a buffer of \<^verbatim>\<open>bufferLen\<close> bytes.\<close>

definition put_text :: "u8 list option \<Rightarrow> nat \<Rightarrow> nat \<times> u8 list" where
  "put_text s bufferLen = (case s of
       None \<Rightarrow> (0, [])
     | Some t \<Rightarrow> if bufferLen \<noteq> 0 then (min (length t) bufferLen, take bufferLen t) else (length t, []))"

text \<open>The length, the keysym that is left and what the buffer holds.\<close>

definition kb_translate :: "(u16 \<Rightarrow> u64) \<Rightarrow> keyboard \<Rightarrow> u32 \<Rightarrow> u32 \<Rightarrow> nat \<Rightarrow> nat \<times> u32 \<times> u8 list" where
  "kb_translate hash kb keysym modifiers bufferLen =
     (case table_get hash (ucast keysym) (keySymToInfo kb) of
        None \<Rightarrow> (0, keysym, [])
      | Some info \<Rightarrow>
          if modifiers AND NumMask \<noteq> 0 \<and> ki_chNum info \<noteq> None
          then (case put_text (ki_chNum info) bufferLen of (len, text) \<Rightarrow> (len, ucast (ki_keySymWithNum info), text))
          else if IS_SHIFT modifiers \<or> keysym = ucast (ki_keySymWithShift info)
          then (case put_text (ki_chShift info) bufferLen of (len, text) \<Rightarrow> (len, ucast (ki_keySymWithShift info), text))
          else (case put_text (ki_ch info) bufferLen of (len, text) \<Rightarrow> (len, ucast (ki_keySym info), text)))"

section \<open>The tables are the lists\<close>

text \<open>The last key of the list that has a property is the one a lookup finds.\<close>

definition last_with :: "(KeyInfo \<Rightarrow> bool) \<Rightarrow> KeyInfo option" where
  "last_with P = List.find P (rev usKeyBoard)"

lemma find_map_of: "map_of (map (\<lambda>k. (f k, k)) ks) x = List.find (\<lambda>k. f k = x) ks"
  by (induction ks) auto

lemma map_of_rev_find: "map_of (rev (map (\<lambda>k. (f k, k)) ks)) x = List.find (\<lambda>k. f k = x) (rev ks)"
  by (simp add: rev_map find_map_of)

lemma set_all_get:
  assumes "set_all (table_set alloc hash) ps empty_table = Some (Inr u)"
  shows "table_get hash x u = map_of (rev ps) x"
  using bhash.set_all_abs [of hash empty_table alloc ps] assms by (auto simp: table_empty table_get_map)

definition names_key :: "u16 \<Rightarrow> KeyInfo \<Rightarrow> bool" where
  "names_key x k \<longleftrightarrow> x = ki_keySym k \<or> x = ki_keySymWithShift k \<or> ki_keySymWithNum k \<noteq> 0 \<and> x = ki_keySymWithNum k"

lemma map_of_syms: "map_of (rev (concat (map sym_entries ks))) x = List.find (names_key x) (rev ks)"
proof (induction ks rule: rev_induct)
  case (snoc k ks)
  have "map_of (rev (sym_entries k)) x = (if names_key x k then Some k else None)"
    by (auto simp: sym_entries_def names_key_def)
  then show ?case using snoc by (simp add: map_add_def)
qed simp

text \<open>Initialisation ends, and succeeds when the allocator grants what it asks for; the lookups then are
  searches of the lists.\<close>

lemma init_tables:
  assumes "XKeyboard_init alloc hash = Some (Inr kb)"
  shows "table_get hash x (keyCodeToInfo kb) = last_with (\<lambda>k. ki_keyCode k = x)"
    "table_get hash x (keySymToInfo kb) = last_with (names_key x)"
    "table_get hash x (keySdlToInfo kb) = last_with (\<lambda>k. ki_sdlScanCode k = x)"
    "table_get hash x (keyToName kb) = map_of (rev keyNames) x"
    "minKeyCode kb = fold smaller_code usKeyBoard 0xFFFF" "maxKeyCode kb = fold larger_code usKeyBoard 0"
proof -
  obtain codes syms sdls names where t:
      "set_all (table_set alloc hash) (map (\<lambda>k. (ki_keyCode k, k)) usKeyBoard) empty_table = Some (Inr codes)"
      "set_all (table_set alloc hash) (concat (map sym_entries usKeyBoard)) empty_table = Some (Inr syms)"
      "set_all (table_set alloc hash) (map (\<lambda>k. (ki_sdlScanCode k, k)) usKeyBoard) empty_table = Some (Inr sdls)"
      "set_all (table_set alloc hash) keyNames empty_table = Some (Inr names)"
      "kb = \<lparr>keyCodeToInfo = codes, keySymToInfo = syms, keySdlToInfo = sdls, keyToName = names,
          minKeyCode = fold smaller_code usKeyBoard 0xFFFF, maxKeyCode = fold larger_code usKeyBoard 0\<rparr>"
    using assms by (auto simp: XKeyboard_init_def split: option.splits sum.splits)
  note g = t(1-4) [THEN set_all_get]
  show "table_get hash x (keyCodeToInfo kb) = last_with (\<lambda>k. ki_keyCode k = x)"
    "table_get hash x (keySymToInfo kb) = last_with (names_key x)"
    "table_get hash x (keySdlToInfo kb) = last_with (\<lambda>k. ki_sdlScanCode k = x)"
    "table_get hash x (keyToName kb) = map_of (rev keyNames) x"
    "minKeyCode kb = fold smaller_code usKeyBoard 0xFFFF" "maxKeyCode kb = fold larger_code usKeyBoard 0"
    by (simp_all add: t(5) g map_of_rev_find map_of_syms last_with_def)
qed

lemma set_all_fresh:
  assumes "length ps \<le> 1000"
  shows "\<exists>u. set_all (table_set (\<lambda>_. True) hash) ps empty_table = Some (Inr u)"
proof (rule set_all_granted)
  show "table_ok hash empty_table" by (rule table_empty)
qed (use assms in \<open>simp add: empty_table_def\<close>)

lemma init_succeeds: "\<exists>kb. XKeyboard_init (\<lambda>_. True) hash = Some (Inr kb)"
proof -
  have "length usKeyBoard = 103" "length keyNames = 161" by (simp_all add: usKeyBoard_def keyNames_def)
  moreover have "length (concat (map sym_entries ks)) \<le> 3 * length ks" for ks
    by (induction ks) (auto simp: sym_entries_def)
  from this [of usKeyBoard] have "length (concat (map sym_entries usKeyBoard)) \<le> 309" using calculation by simp
  ultimately have "length (map (\<lambda>k. (ki_keyCode k, k)) usKeyBoard) \<le> 1000" "length (concat (map sym_entries usKeyBoard)) \<le> 1000"
      "length (map (\<lambda>k. (ki_sdlScanCode k, k)) usKeyBoard) \<le> 1000" "length keyNames \<le> 1000"
    by simp_all
  note this [THEN set_all_fresh, where hash = hash]
  then show ?thesis by (auto simp: XKeyboard_init_def)
qed

end
