(* ===== verification/HostInput.thy ===== *)
theory HostInput
  imports HostWindowCalls HostKeyboard
begin

text \<open>
  Key lookups, extensions and traces on the host (\<^verbatim>\<open>source/x11/x11bridge64.cpp\<close>).  The keyboard of the server is
  one that \<^verbatim>\<open>XKeyboard::init\<close> has filled; the log is not modelled.
\<close>

text \<open>The server with the lookups of a keyboard.\<close>

definition install_keyboard :: "(u16 \<Rightarrow> u64) \<Rightarrow> keyboard \<Rightarrow> xserver \<Rightarrow> xserver" where
  "install_keyboard hash kb h = h\<lparr>minKeycode := ucast (minKeyCode kb), maxKeycode := ucast (maxKeyCode kb),
     keycodeToKeysym := kb_keycodeToKeysym hash kb, keysymName := kb_getKeysymName hash kb,
     keysymToKeycode := kb_keysymToKeycode hash kb, translateKeysym := kb_translate hash kb\<rparr>"

definition op_KEYSYM_TO_KEYCODE :: "xserver handler" where
  "op_KEYSYM_TO_KEYCODE = require_args 2 (\<lambda>c h. (ucast (keysymToKeycode h (uarg c 1)), c, h))"

definition op_KEYCODE_TO_KEYSYM :: "xserver handler" where
  "op_KEYCODE_TO_KEYSYM = require_args 4 (\<lambda>c h. (ucast (keycodeToKeysym h (uarg c 1) (uarg c 3)), c, h))"

definition key_state :: nat where "key_state = 80"
definition key_keycode :: nat where "key_keycode = 84"

definition TEXT_BUFFER :: nat where "TEXT_BUFFER = 16"

text \<open>The keysym of a key event: the keypad's with Num Lock, else that of the key with or without Shift.\<close>

definition event_keysym :: "u32 \<Rightarrow> u32 \<Rightarrow> xserver \<Rightarrow> u32" where
  "event_keysym state keycode h =
     (let k1 = (if state AND NumMask \<noteq> 0 then keycodeToKeysym h keycode 5 else 0) in
      if k1 = 0 then keycodeToKeysym h keycode (if state AND ShiftMask \<noteq> 0 then 1 else 0) else k1)"

definition op_LOOKUP_STRING :: "xserver handler" where
  "op_LOOKUP_STRING = require_args 4 (\<lambda>c h.
     case h_read (arg c 0) XEvent_size c of
       (None, c1) \<Rightarrow> (E_FAULT, c1, h)
     | (Some raw, c1) \<Rightarrow>
         let state = get32 raw key_state; keysym = event_keysym state (get32 raw key_keycode) h in
         if keysym = 0 then (0, c1, h)
         else (case translateKeysym h keysym state TEXT_BUFFER of
           (result, keysym', text) \<Rightarrow>
             (case (if arg c 3 \<noteq> 0 then h_write64 (arg c 3) (ucast keysym') c1 else (True, c1)) of
                (False, c2) \<Rightarrow> (E_FAULT, c2, h)
              | (True, c2) \<Rightarrow>
                  if result \<noteq> 0 \<and> text \<noteq> [] \<and> hd text \<noteq> 0
                  then (let n = min result (unat (arg c 2)) in
                    case h_write (arg c 1) (take n text) c2 of
                      (ok, c3) \<Rightarrow> (if ok then of_nat n else E_FAULT, c3, h))
                  else (0, c2, h))))"

definition op_KB_TRANSLATE_KEYSYM :: "xserver handler" where
  "op_KB_TRANSLATE_KEYSYM = require_args 6 (\<lambda>c h.
     case h_read64 (arg c 1) c of
       (None, c1) \<Rightarrow> (E_FAULT, c1, h)
     | (Some keysym64, c1) \<Rightarrow>
         (case translateKeysym h (ucast keysym64) (uarg c 2) TEXT_BUFFER of
            (result, keysym, text) \<Rightarrow>
              if result = 0 then (0, c1, h)
              else
                let nbytes = unat (arg c 4); n = min result nbytes;
                    buffer = text @ replicate (TEXT_BUFFER - length text) 0 in
                (case h_write (arg c 3) (take (if n + 1 \<le> nbytes then n + 1 else n) buffer) c1 of
                   (False, c2) \<Rightarrow> (E_FAULT, c2, h)
                 | (True, c2) \<Rightarrow>
                     (case h_write64 (arg c 1) (ucast keysym) c2 of
                        (ok, c3) \<Rightarrow> (if ok then of_nat n else E_FAULT, c3, h)))))"

definition op_LOOKUP_KEYSYM :: "xserver handler" where
  "op_LOOKUP_KEYSYM = require_args 2 (\<lambda>c h.
     case h_read (arg c 0) XEvent_size c of
       (None, c1) \<Rightarrow> (E_FAULT, c1, h)
     | (Some raw, c1) \<Rightarrow> (ucast (keycodeToKeysym h (get32 raw key_keycode) (uarg c 1)), c1, h))"

text \<open>No extension is offered.\<close>

definition op_QUERY_EXTENSION :: "xserver handler" where
  "op_QUERY_EXTENSION = require_args 5 (\<lambda>c h.
     case readString (arg c 1) 65536 c of (_, c1) \<Rightarrow> (if c_faulted c1 then E_FAULT else 0, c1, h))"

definition op_REPORT_UNIMPLEMENTED :: "xserver handler" where
  "op_REPORT_UNIMPLEMENTED = require_args 1 (\<lambda>c h.
     case readString (arg c 0) 128 c of (_, c1) \<Rightarrow> (if c_faulted c1 then E_FAULT else 0, c1, h))"

text \<open>A counted trace: the first 128 lines are read.\<close>

definition op_TRACE :: "xserver handler" where
  "op_TRACE = require_args 1 (\<lambda>c h.
     let h1 = h\<lparr>traceBudget := traceBudget h + 1\<rparr> in
     if 128 \<le> traceBudget h then (0, c, h1)
     else (case readString (arg c 0) 256 c of (_, c1) \<Rightarrow> (if c_faulted c1 then E_FAULT else 0, c1, h1)))"

definition op_CLEAR_AREA :: "xserver handler" where "op_CLEAR_AREA c h = (0, c, h)"

end
