(* ===== verification/HostHints.thy ===== *)
theory HostHints
  imports HostRandr
begin

text \<open>
  What a client tells the window manager and other clients through the host (\<^verbatim>\<open>source/x11/x11bridge64.cpp\<close>):
  hints and text properties, events sent to a window, the state of a window (\<^verbatim>\<open>_NET_WM_STATE\<close>, handled by
  \<^verbatim>\<open>source/x11/xwindow.cpp\<close>) and the clipboard selection.  The log of window titles is not modelled.
\<close>

section \<open>Hints\<close>

definition XA_ATOM :: u32 where "XA_ATOM = 4"
definition XA_WM_HINTS :: u32 where "XA_WM_HINTS = 35"
definition XA_WM_NORMAL_HINTS :: u32 where "XA_WM_NORMAL_HINTS = 40"

definition wmh_flags :: nat where "wmh_flags = 0"
definition wmh_input :: nat where "wmh_input = 8"
definition wmh_initial_state :: nat where "wmh_initial_state = 12"
definition wmh_icon_pixmap :: nat where "wmh_icon_pixmap = 16"
definition wmh_icon_window :: nat where "wmh_icon_window = 24"
definition wmh_icon_x :: nat where "wmh_icon_x = 32"
definition wmh_icon_y :: nat where "wmh_icon_y = 36"
definition wmh_icon_mask :: nat where "wmh_icon_mask = 40"
definition wmh_window_group :: nat where "wmh_window_group = 48"
definition XWMHints64_size :: nat where "XWMHints64_size = 56"
definition XWMHints32_size :: nat where "XWMHints32_size = 36"

lemmas wmh_offsets = wmh_flags_def wmh_input_def wmh_initial_state_def wmh_icon_pixmap_def wmh_icon_window_def
  wmh_icon_x_def wmh_icon_y_def wmh_icon_mask_def wmh_window_group_def XWMHints64_size_def XWMHints32_size_def

text \<open>The host keeps the structure of the 32-bit lane: nine words.\<close>

definition wm_hints_words :: "u8 list \<Rightarrow> u32 list" where
  "wm_hints_words raw = [ucast (get64 raw wmh_flags), get32 raw wmh_input, get32 raw wmh_initial_state,
     ucast (get64 raw wmh_icon_pixmap), ucast (get64 raw wmh_icon_window), get32 raw wmh_icon_x, get32 raw wmh_icon_y,
     ucast (get64 raw wmh_icon_mask), ucast (get64 raw wmh_window_group)]"

definition wm_hints_raw :: "u32 list \<Rightarrow> u8 list" where
  "wm_hints_raw ws = le_bytes 8 (ucast (ws ! 0) :: u64) @ le_bytes 4 (ws ! 1) @ le_bytes 4 (ws ! 2) @
     le_bytes 8 (ucast (ws ! 3) :: u64) @ le_bytes 8 (ucast (ws ! 4) :: u64) @ le_bytes 4 (ws ! 5) @ le_bytes 4 (ws ! 6) @
     le_bytes 8 (ucast (ws ! 7) :: u64) @ le_bytes 8 (ucast (ws ! 8) :: u64)"

definition op_SET_WM_HINTS :: "xserver handler" where
  "op_SET_WM_HINTS = require_args 3 (with_window 1 BadWindow (\<lambda>w c h.
     case h_read (arg c 2) XWMHints64_size c of
       (None, c1) \<Rightarrow> (E_FAULT, c1, h)
     | (Some raw, c1) \<Rightarrow> (0, c1, setProperty w XA_WM_HINTS XA_CARDINAL 32 (words32_bytes (wm_hints_words raw)) h)))"

definition op_GET_WM_HINTS :: "xserver handler" where
  "op_GET_WM_HINTS = require_args 3 (with_window 1 0 (\<lambda>w c h.
     case getProperty w XA_WM_HINTS h of
       None \<Rightarrow> (0, c, h)
     | Some prop \<Rightarrow>
         if length (p_value prop) \<noteq> XWMHints32_size then (0, c, h)
         else (case h_write (arg c 2) (wm_hints_raw (words32 (p_value prop) 9)) c of
           (ok, c1) \<Rightarrow> (if ok then 1 else E_FAULT, c1, h))))"

text \<open>After the flags the two layouts agree: seventeen words.\<close>

definition szh_flags :: nat where "szh_flags = 0"
definition szh_x :: nat where "szh_x = 8"
definition XSizeHints64_size :: nat where "XSizeHints64_size = 80"
definition XSizeHints32_size :: nat where "XSizeHints32_size = 72"

definition op_SET_WM_NORMAL_HINTS :: "xserver handler" where
  "op_SET_WM_NORMAL_HINTS = require_args 3 (with_window 1 BadWindow (\<lambda>w c h.
     case h_read (arg c 2) XSizeHints64_size c of
       (None, c1) \<Rightarrow> (E_FAULT, c1, h)
     | (Some raw, c1) \<Rightarrow> (0, c1, setProperty w XA_WM_NORMAL_HINTS XA_CARDINAL 32
           (le_bytes 4 (ucast (get64 raw szh_flags) :: u32) @ take (XSizeHints32_size - 4) (drop szh_x raw)) h)))"

definition op_GET_WM_NORMAL_HINTS :: "xserver handler" where
  "op_GET_WM_NORMAL_HINTS = require_args 4 (with_window 1 0 (\<lambda>w c h.
     case getProperty w XA_WM_NORMAL_HINTS h of
       None \<Rightarrow> (0, c, h)
     | Some prop \<Rightarrow>
         if length (p_value prop) \<noteq> XSizeHints32_size then (0, c, h)
         else
           let flags = ucast (get32 (p_value prop) 0) :: u64;
               raw = le_bytes 8 flags @ drop 4 (p_value prop) @ replicate (XSizeHints64_size - szh_x - (XSizeHints32_size - 4)) 0 in
           (case h_write (arg c 2) raw c of
              (False, c1) \<Rightarrow> (E_FAULT, c1, h)
            | (True, c1) \<Rightarrow>
                (case (if arg c 3 \<noteq> 0 then h_write64 (arg c 3) flags c1 else (True, c1)) of
                   (ok, c2) \<Rightarrow> (if ok then 1 else E_FAULT, c2, h)))))"

section \<open>Text\<close>

definition tpr_value :: nat where "tpr_value = 0"
definition tpr_encoding :: nat where "tpr_encoding = 8"
definition tpr_format :: nat where "tpr_format = 16"
definition tpr_nitems :: nat where "tpr_nitems = 24"
definition XTextProperty64_size :: nat where "XTextProperty64_size = 32"

text \<open>Encoding, format and bytes; more than a million items are a fault.\<close>

definition readTextPropertyBytes :: "u64 \<Rightarrow> hcall \<Rightarrow> (u32 \<times> u32 \<times> u8 list) option \<times> hcall" where
  "readTextPropertyBytes a c =
     (case h_read a XTextProperty64_size c of
        (None, c1) \<Rightarrow> (None, c1)
      | (Some raw, c1) \<Rightarrow>
          let val = get64 raw tpr_value; encoding = ucast (get64 raw tpr_encoding); format = get32 raw tpr_format;
              nitems = get64 raw tpr_nitems; n = unat nitems in
          if 1024 * 1024 < n then (None, c1\<lparr>c_faulted := True\<rparr>)
          else if format = 32 then
            (case h_read val (n * 8) c1 of
               (None, c2) \<Rightarrow> (None, c2)
             | (Some longs, c2) \<Rightarrow>
                 (Some (encoding, format, concat (map (\<lambda>x. le_bytes 4 (ucast x :: u32)) (words64 longs n))), c2))
          else
            (case h_read val (n * (if format = 16 then 2 else 1)) c1 of
               (None, c2) \<Rightarrow> (None, c2)
             | (Some bytes, c2) \<Rightarrow> (Some (encoding, format, bytes), c2)))"

definition op_SET_TEXT_PROPERTY :: "xserver handler" where
  "op_SET_TEXT_PROPERTY = require_args 4 (with_window 1 BadWindow (\<lambda>w c h.
     case readTextPropertyBytes (arg c 2) c of
       (None, c1) \<Rightarrow> (E_FAULT, c1, h)
     | (Some (encoding, format, bytes), c1) \<Rightarrow> (0, c1, setProperty w (uarg c 3) encoding format bytes h)))"

section \<open>The state of a window\<close>

definition NET_WM_STATE :: u32 where "NET_WM_STATE = 100"

text \<open>The atoms of the message: up to four, ended by one that is not above 1.\<close>

definition state_args :: "xevent \<Rightarrow> u32 list" where
  "state_args ev = takeWhile (\<lambda>v. 1 <s v) (map (\<lambda>i. ev ! (7 + i)) [1..<5])"

text \<open>Removing: each occurrence becomes zero and is counted, then what is not zero moves to a new array
  of the remaining length.  Zeros that were there before are dropped too, and the array then has a tail that nothing
  has written.\<close>

definition zap :: "u32 \<Rightarrow> u32 list \<Rightarrow> u32 list" where "zap a vs = map (\<lambda>v. if v = a then 0 else v) vs"

definition remove_states :: "u32 list \<Rightarrow> u32 list \<Rightarrow> u32 list \<times> nat" where
  "remove_states as vs = fold (\<lambda>a (vs, n). (zap a vs, n + length (filter (\<lambda>v. v = a) vs))) as (vs, 0)"

text \<open>The search for an atom that is already there sees only the old values.\<close>

definition add_states :: "u32 list \<Rightarrow> u32 list \<Rightarrow> u32 list" where
  "add_states as vs = vs @ filter (\<lambda>a. a \<notin> set vs) as"

definition set_states :: "u32 \<Rightarrow> u32 \<Rightarrow> u32 list \<Rightarrow> xserver \<Rightarrow> xserver" where
  "set_states w atom vs = setProperty w atom XA_ATOM 32 (words32_bytes vs)"

definition handleNetWmStatePropertyEvent :: "u32 \<Rightarrow> xevent \<Rightarrow> xserver \<Rightarrow> s64 \<times> xserver" where
  "handleNetWmStatePropertyEvent w ev h =
     (let as = state_args ev; action = ev ! 7; atom = ev ! 5 in
      case getProperty w atom h of
        None \<Rightarrow> (0, if action = 1 then set_states w atom as h else h)
      | Some prop \<Rightarrow>
          let existing = words32 (p_value prop) (length (p_value prop) div 4) in
          if action = 0 then
            (case remove_states as existing of (vs, removed) \<Rightarrow>
               if removed = 0 then (0, h)
               else if length existing - removed = 0 then (0, deleteProperty w atom h)
               else
                 let kept = filter (\<lambda>v. v \<noteq> 0) vs; n = length existing - removed in
                 (0, set_states w atom (kept @ replicate (n - length kept) 0)
                       (if length kept < n then h\<lparr>wild := True\<rparr> else h)))
          else if action = 1 then
            (let vs = add_states as existing in
             (0, if length vs \<noteq> length existing then set_states w atom vs h else h))
          else (BadValue, h))"

section \<open>Sending events\<close>

text \<open>A copy for one display, with its serial.\<close>

definition send_to :: "xevent \<Rightarrow> display_data \<Rightarrow> display_data" where
  "send_to ev d = (case getNextEventSerial d of (serial, d1) \<Rightarrow> putEvent (ev[1 := serial, 3 := 0]) False d1)"

definition PointerWindow :: u32 where "PointerWindow = 0"
definition InputFocus :: u32 where "InputFocus = 1"

definition op_SEND_EVENT :: "xserver handler" where
  "op_SEND_EVENT = require_args 5 (\<lambda>c h.
     let windowId = uarg c 1; propagate = (arg c 2 \<noteq> 0); eventMask = uarg c 3 in
     if selectionWindow h = Some windowId then (1, c, h)
     else if windowId = PointerWindow \<or> windowId = InputFocus then (BadImplementation64, c, h)
     else (case getWindow windowId h of
         None \<Rightarrow> (BadWindow, c, h)
       | Some w \<Rightarrow>
           (case h_read (arg c 4) XEvent_size c of
              (None, c1) \<Rightarrow> (E_FAULT, c1, h)
            | (Some raw, c1) \<Rightarrow>
                let ev = readEvent64 raw in
                if ev ! 0 = ClientMessage \<and> ev ! 5 = NET_WM_STATE
                then (case handleNetWmStatePropertyEvent windowId ev h of (s, h1) \<Rightarrow> (s, c1, h1))
                else
                  let ev1 = ev[2 := 1] in
                  if eventMask = 0 then
                    (case displays h (w_displayId w) of
                       None \<Rightarrow> (BadValue, c1, h)
                     | Some _ \<Rightarrow> (1, c1, upd_display (w_displayId w) (send_to ev1) h))
                  else if \<not> propagate
                  then (1, c1, iterateEventMask windowId eventMask (\<lambda>i. upd_display i (send_to ev1)) h)
                  else (BadImplementation64, c1, h))))"

section \<open>The selection\<close>

definition CLIPBOARD :: u32 where "CLIPBOARD = 109"
definition UTF8_STRING :: u32 where "UTF8_STRING = 110"
definition TARGETS :: u32 where "TARGETS = 111"

text \<open>The answer goes to a property of the requestor; property 0 says that there is none.\<close>

definition answer_selection :: "u32 \<Rightarrow> u32 \<Rightarrow> u32 \<Rightarrow> u32 \<Rightarrow> xserver \<Rightarrow> u32 \<times> xserver" where
  "answer_selection w selection target property h =
     (if selection \<noteq> CLIPBOARD then (0, h)
      else if target = TARGETS then (property, setProperty w property XA_ATOM 32 (le_bytes 4 UTF8_STRING) h)
      else if target = UTF8_STRING
      then (property, setProperty w property UTF8_STRING 8 (clipboard h) (h\<lparr>sdlLastSelection := clipboard h\<rparr>))
      else (0, h))"

definition op_CONVERT_SELECTION :: "xserver handler" where
  "op_CONVERT_SELECTION = require_args 6 (require_display (\<lambda>i _ c h.
     let selection = uarg c 1; target = uarg c 2; requestor = uarg c 4 in
     if getWindow requestor h = None then (BadWindow, c, h)
     else (case answer_selection requestor selection target (uarg c 3) h of
       (property, h1) \<Rightarrow>
         (0, c, upd_display i (queue_event (\<lambda>d serial.
            [SelectionNotify, serial, 0, 0, requestor, selection, target, property, eventTime h1])) h1))))"

end
