(* ===== verification/HostTable.thy ===== *)
theory HostTable
  imports HostOpen HostDrawing HostColors HostInput HostHints
begin

text \<open>
  The dispatch table of the host (\<^verbatim>\<open>kOps\<close> of \<^verbatim>\<open>source/x11/x11bridge64.cpp\<close>) over the handlers of
  the other theories, and a small concrete server and process on which the properties are shown to
  apply.
\<close>

section \<open>Dispatch\<close>


text \<open>The table of handlers, for the operations modelled here; \<^verbatim>\<open>other\<close> stands for the rest.\<close>

definition kOps :: "(nat \<Rightarrow> xserver handler) \<Rightarrow> nat \<Rightarrow> xserver handler" where
  "kOps other op =
     (if op = OP_CLOSE_DISPLAY then op_CLOSE_DISPLAY
      else if op = OP_INTERN_ATOM then op_INTERN_ATOM
      else if op = OP_INTERN_ATOMS then op_INTERN_ATOMS
      else if op = OP_GET_ATOM_NAME then op_GET_ATOM_NAME
      else if op = OP_SELECT_INPUT then op_SELECT_INPUT
      else if op = OP_QUERY_TREE then op_QUERY_TREE
      else if op = OP_CHANGE_PROPERTY then op_CHANGE_PROPERTY
      else if op = OP_GET_WINDOW_PROPERTY then op_GET_WINDOW_PROPERTY
      else if op = OP_DELETE_PROPERTY then op_DELETE_PROPERTY
      else if op = OP_LOCK_EVENTS then op_LOCK_EVENTS
      else if op = OP_GET_EVENT then op_GET_EVENT
      else if op = OP_REMOVE_EVENT then op_REMOVE_EVENT
      else if op = OP_UNLOCK_EVENTS then op_UNLOCK_EVENTS
      else if op = OP_CHECK_TYPED_WINDOW_EVENT then op_CHECK_TYPED_WINDOW_EVENT
      else if op = OP_PUT_BACK_EVENT then op_PUT_BACK_EVENT
      else if op = OP_GET_KEYBOARD_MAPPING then op_GET_KEYBOARD_MAPPING
      else if op = OP_GET_MODIFIER_MAPPING then op_GET_MODIFIER_MAPPING
      else if op = OP_KEYSYM_TO_STRING then op_KEYSYM_TO_STRING
      else if op = OP_SET_SELECTION_OWNER then op_SET_SELECTION_OWNER
      else if op = OP_GET_SELECTION_OWNER then op_GET_SELECTION_OWNER
      else if op = OP_CREATE_WINDOW then op_CREATE_WINDOW
      else if op = OP_DESTROY_WINDOW then op_DESTROY_WINDOW
      else if op = OP_MAP_WINDOW then op_MAP_WINDOW
      else if op = OP_UNMAP_WINDOW then op_UNMAP_WINDOW
      else if op = OP_MOVE_RESIZE_WINDOW then op_MOVE_RESIZE_WINDOW
      else if op = OP_CONFIGURE_WINDOW then op_CONFIGURE_WINDOW
      else if op = OP_CHANGE_WINDOW_ATTRIBUTES then op_CHANGE_WINDOW_ATTRIBUTES
      else if op = OP_GET_WINDOW_ATTRIBUTES then op_GET_WINDOW_ATTRIBUTES
      else if op = OP_REPARENT_WINDOW then op_REPARENT_WINDOW
      else if op = OP_TRANSLATE_COORDINATES then op_TRANSLATE_COORDINATES
      else if op = OP_GET_GEOMETRY then op_GET_GEOMETRY
      else if op = OP_WITHDRAW_WINDOW then op_WITHDRAW_WINDOW
      else if op = OP_ICONIFY_WINDOW then op_ICONIFY_WINDOW
      else if op = OP_SET_INPUT_FOCUS then op_SET_INPUT_FOCUS
      else if op = OP_GET_INPUT_FOCUS then op_GET_INPUT_FOCUS
      else if op = OP_SET_TRANSIENT_FOR_HINT then op_SET_TRANSIENT_FOR_HINT
      else if op = OP_GRAB_POINTER then op_GRAB_POINTER
      else if op = OP_UNGRAB_POINTER then op_UNGRAB_POINTER
      else if op = OP_QUERY_POINTER then op_QUERY_POINTER
      else if op = OP_CREATE_PIXMAP then op_CREATE_PIXMAP
      else if op = OP_FREE_PIXMAP then op_FREE_PIXMAP
      else if op = OP_GRAB_SERVER then op_GRAB_SERVER
      else if op = OP_UNGRAB_SERVER then op_UNGRAB_SERVER
      else if op = OP_INIT_THREADS then op_INIT_THREADS
      else if op = OP_OPEN_DISPLAY then op_OPEN_DISPLAY
      else if op = OP_SYNC then op_SYNC
      else if op = OP_FLUSH then op_FLUSH
      else if op = OP_RANDR_GET_STATE then op_RANDR_GET_STATE
      else if op = OP_RANDR_SET_MODE then op_RANDR_SET_MODE
      else if op = OP_CREATE_GC then op_CREATE_GC
      else if op = OP_FREE_GC then op_FREE_GC
      else if op = OP_CHANGE_GC then op_CHANGE_GC
      else if op = OP_SET_GC_VALUE then op_SET_GC_VALUE
      else if op = OP_SET_CLIP_RECTANGLES then op_SET_CLIP_RECTANGLES
      else if op = OP_COPY_AREA then op_COPY_AREA
      else if op = OP_DRAW_LINE then op_DRAW_LINE
      else if op = OP_DRAW_RECTANGLE then op_DRAW_RECTANGLE
      else if op = OP_FILL_RECTANGLE then op_FILL_RECTANGLE
      else if op = OP_PUT_IMAGE then op_PUT_IMAGE
      else if op = OP_GET_IMAGE then op_GET_IMAGE
      else if op = OP_CREATE_BITMAP_FROM_DATA then op_CREATE_BITMAP_FROM_DATA
      else if op = OP_CREATE_COLORMAP then op_CREATE_COLORMAP
      else if op = OP_FREE_COLORMAP then op_FREE_COLORMAP
      else if op = OP_ALLOC_COLOR then op_ALLOC_COLOR
      else if op = OP_ALLOC_COLOR_CELLS then op_ALLOC_COLOR_CELLS
      else if op = OP_FREE_COLORS then op_FREE_COLORS
      else if op = OP_QUERY_COLOR then op_QUERY_COLOR
      else if op = OP_QUERY_COLORS then op_QUERY_COLORS
      else if op = OP_STORE_COLOR then op_STORE_COLOR
      else if op = OP_KEYSYM_TO_KEYCODE then op_KEYSYM_TO_KEYCODE
      else if op = OP_KEYCODE_TO_KEYSYM then op_KEYCODE_TO_KEYSYM
      else if op = OP_LOOKUP_STRING then op_LOOKUP_STRING
      else if op = OP_KB_TRANSLATE_KEYSYM then op_KB_TRANSLATE_KEYSYM
      else if op = OP_LOOKUP_KEYSYM then op_LOOKUP_KEYSYM
      else if op = OP_QUERY_EXTENSION then op_QUERY_EXTENSION
      else if op = OP_REPORT_UNIMPLEMENTED then op_REPORT_UNIMPLEMENTED
      else if op = OP_TRACE then op_TRACE
      else if op = OP_CLEAR_AREA then op_CLEAR_AREA
      else if op = OP_SET_WM_HINTS then op_SET_WM_HINTS
      else if op = OP_GET_WM_HINTS then op_GET_WM_HINTS
      else if op = OP_SET_WM_NORMAL_HINTS then op_SET_WM_NORMAL_HINTS
      else if op = OP_GET_WM_NORMAL_HINTS then op_GET_WM_NORMAL_HINTS
      else if op = OP_SET_TEXT_PROPERTY then op_SET_TEXT_PROPERTY
      else if op = OP_SEND_EVENT then op_SEND_EVENT
      else if op = OP_CONVERT_SELECTION then op_CONVERT_SELECTION
      else other op)"

section \<open>A concrete server\<close>

text \<open>Two atoms, the root and one child window, key codes 8 to 15 and the keysym 97.\<close>

definition attributes0 :: window_attributes where
  "attributes0 = \<lparr>a_background_pixmap = 0, a_background_pixel = 0, a_border_pixmap = 0, a_border_pixel = 0,
     a_bit_gravity = 0, a_win_gravity = 1, a_backing_store = 0, a_backing_planes = -1, a_backing_pixel = 0,
     a_save_under = 0, a_event_mask = 0, a_do_not_propagate_mask = 0, a_override_redirect = 0,
     a_colormap = 0, a_cursor = 0\<rparr>"

definition window0 :: "u32 \<Rightarrow> u32 option \<Rightarrow> u32 list \<Rightarrow> u32 \<Rightarrow> u32 \<Rightarrow> xwindow" where
  "window0 i p cs w h = \<lparr>w_displayId = i, w_listed = True, w_parent = p, w_children = cs, w_transients = [],
     w_transientCached = None, w_left = 0, w_top = 0, w_width = w, w_height = h, w_border = 0,
     w_class = 1, w_depth = 32, w_visual = Some 1, w_mapped = True, w_hasBackgroundPixel = False,
     w_backgroundFilled = True, w_dirty = None, w_attrs = attributes0, w_colorMap = Some 1,
     w_properties = (\<lambda>_. None)\<rparr>"

definition server0 :: xserver where
  "server0 = \<lparr>displays = (\<lambda>_. None), displayOrder = [], nextId = 2, atoms = [1 \<mapsto> [80], 2 \<mapsto> [65, 66]],
     reverseAtoms = [[80] \<mapsto> 1, [65, 66] \<mapsto> 2], nextAtomID = 2,
     windows = [1 \<mapsto> window0 0 None [2] 800 600, 2 \<mapsto> window0 3 (Some 1) [] 100 50],
     pixmaps = (\<lambda>_. None), buffers = (\<lambda>_. \<lparr>b_size = 0, b_data = (\<lambda>_. 0)\<rparr>), gcs = (\<lambda>_. None), wild = False, root = 1, pointerWindow = 1, mouseX = 400, mouseY = 300, nativeModifiers = 0, inputFocus = None,
     inputFocusIsPointerRoot = False, inputFocusRevertTo = 0, isGrabbed = False, grabbedId = 0, grabbedConfinedId = 0,
     grabbedDisplayId = 0, grabbedMask = 0, grabbedTime = 0, isLocked = False,
     selectionOwner = 0, selectionWindow = None, clipboard = [], sdlLastSelection = [], eventTime = 0,
     visuals = [(32, \<lparr>v_visualid = 1, v_class = 4, v_red_mask = 0xFF0000, v_green_mask = 0xFF00, v_blue_mask = 0xFF,
       v_bits_per_rgb = 8, v_map_entries = 256\<rparr>)], colorMaps = [1 \<mapsto> new_colormap], defaultColorMap = 1,
     screenWidth = 800, screenHeight = 600, screenRate = 60, randrModes = None, randrRequest = (0, 0, 0),
     minKeycode = 8, maxKeycode = 15,
     keycodeToKeysym = (\<lambda>k j. k + 100 * j), keysymName = [97 \<mapsto> [97]], keysymToKeycode = (\<lambda>k. 8), traceBudget = 0, translateKeysym = (\<lambda>k m n. (0, k, [])), modifiers = [50, 0, 0, 0, 0, 0, 0, 0],
     stuck = False\<rparr>"

definition process0 :: "xserver world" where
  "process0 = \<lparr>mem = (\<lambda>_. 0), live = (\<lambda>_. None), brk = 4096, sp = stack_top, oom = [],
     socks = [], fds = [1], bad_free = False, bad_close = False, server = server0\<rparr>"

text \<open>What a refused operation does; it stands for the handlers outside the table in closed examples.\<close>

definition refuse :: "nat \<Rightarrow> xserver handler" where "refuse op c h = (E_UNIMPL, c, h)"

definition all_pages :: probe where "all_pages a w = True"

lemma process0_ready: "mapped all_pages" "stack_ok process0" "heap_ok process0"
  by (simp_all add: mapped_def all_pages_def stack_ok_def heap_ok_def process0_def heap_top_def stack_top_def)

lemma process0_alloc: "n < 4096 \<Longrightarrow> \<not> alloc_fails n process0"
  by (simp add: alloc_fails_def process0_def heap_top_def)

lemma process0_server [simp]: "server process0 = server0" by (simp add: process0_def)

end
