(* ===== verification/X11Keyboard.thy ===== *)
theory X11Keyboard
  imports X11Drawing
begin

text \<open>
  Keyboard tables of \<^verbatim>\<open>tools/x11-64/X11.c\<close>: the keysym table and the modifier map the host
  fills, and \<^verbatim>\<open>XKeysymToString\<close>, whose results must stay valid for the life of the process and
  are kept in a growing array behind a mutex.
\<close>

section \<open>Tables\<close>

definition XGetKeyboardMapping ::
  "'h syscall \<Rightarrow> nat \<Rightarrow> u32 \<Rightarrow> c_int \<Rightarrow> nat \<Rightarrow> 'h world \<Rightarrow> nat \<times> 'h world" where
  "XGetKeyboardMapping sys dpy first_keycode keycode_count keysyms_per_keycode_return \<sigma> =
     (case bw_sized sys OP_GET_KEYBOARD_MAPPING [P dpy, A_uint first_keycode, A_int keycode_count, 0, 0] 3 \<sigma> of
        ((keysyms, status), \<sigma>1) \<Rightarrow>
          if sint status \<le> 0 \<or> keysyms = 0
          then (0, store 4 keysyms_per_keycode_return (0 :: c_int) (free keysyms \<sigma>1))
          else (keysyms, store 4 keysyms_per_keycode_return (to_int status) \<sigma>1))"

definition XModifierKeymap_size :: nat where "XModifierKeymap_size = 16"
definition mod_max_keypermod :: nat where "mod_max_keypermod = 0"
definition mod_modifiermap :: nat where "mod_modifiermap = 8"

definition XGetModifierMapping :: "'h syscall \<Rightarrow> nat \<Rightarrow> 'h world \<Rightarrow> nat \<times> 'h world" where
  "XGetModifierMapping sys dpy \<sigma> =
     (case calloc 1 XModifierKeymap_size \<sigma> of (km, \<sigma>1) \<Rightarrow>
        if km = 0 then (0, \<sigma>1)
        else case calloc 8 1 \<sigma>1 of (codes, \<sigma>2) \<Rightarrow>
          let \<sigma>3 = store 8 (km + mod_modifiermap) (P codes) \<sigma>2 in
          if codes = 0 then (0, free km \<sigma>3)
          else case BW sys OP_GET_MODIFIER_MAPPING [P dpy, P codes] \<sigma>3 of (r, \<sigma>4) \<Rightarrow>
            let \<sigma>5 = store 4 (km + mod_max_keypermod) (to_int r) \<sigma>4 in
            (km, if sint (to_int r) \<le> 0 then store 4 (km + mod_max_keypermod) (1 :: c_int) \<sigma>5 else \<sigma>5))"

definition XFreeModifiermap :: "nat \<Rightarrow> 'h world \<Rightarrow> c_int \<times> 'h world" where
  "XFreeModifiermap modmap \<sigma> =
     (1, if modmap \<noteq> 0 then free modmap (free (unat (ld 8 (modmap + mod_modifiermap) \<sigma> :: u64)) \<sigma>) else \<sigma>)"

section \<open>Names of keysyms\<close>

text \<open>The array of pairs of a keysym and its name lives in the heap; these are the statics.\<close>

record keysym_lib =
  bw_keysym_names :: nat
  bw_keysym_name_count :: nat
  bw_keysym_locked :: bool

definition bw_keysym_name_size :: nat where "bw_keysym_name_size = 16"

primrec keysym_search :: "nat \<Rightarrow> u64 \<Rightarrow> nat \<Rightarrow> nat \<Rightarrow> 'h world \<Rightarrow> nat option" where
  "keysym_search names k i 0 \<sigma> = None"
| "keysym_search names k i (Suc n) \<sigma> =
     (if ld 8 (names + bw_keysym_name_size * i) \<sigma> = k
      then Some (unat (ld 8 (names + bw_keysym_name_size * i + 8) \<sigma> :: u64))
      else keysym_search names k (Suc i) n \<sigma>)"

definition lock_keysyms :: "keysym_lib \<Rightarrow> keysym_lib" where "lock_keysyms L = L\<lparr>bw_keysym_locked := True\<rparr>"
definition unlock_keysyms :: "keysym_lib \<Rightarrow> keysym_lib" where "unlock_keysyms L = L\<lparr>bw_keysym_locked := False\<rparr>"

definition XKeysymToString ::
  "'h syscall \<Rightarrow> u64 \<Rightarrow> keysym_lib \<times> 'h world \<Rightarrow> nat \<times> keysym_lib \<times> 'h world" where
  "XKeysymToString sys keysym = (\<lambda>(L, \<sigma>).
     let L1 = lock_keysyms L in
     case keysym_search (bw_keysym_names L1) keysym 0 (bw_keysym_name_count L1) \<sigma> of
       Some name \<Rightarrow> (name, unlock_keysyms L1, \<sigma>)
     | None \<Rightarrow>
         let L2 = unlock_keysyms L1 in
         (case bw_sized sys OP_KEYSYM_TO_STRING [keysym, 0, 0] 1 \<sigma> of
            ((name, status), \<sigma>1) \<Rightarrow>
              if sint status \<le> 0 \<or> name = 0 then (0, L2, free name \<sigma>1)
              else
                let L3 = lock_keysyms L2 in
                (case realloc (bw_keysym_names L3) ((bw_keysym_name_count L3 + 1) * bw_keysym_name_size) \<sigma>1 of
                   (grown, \<sigma>2) \<Rightarrow>
                     if grown = 0 then (name, unlock_keysyms L3, \<sigma>2)
                     else
                       let i = bw_keysym_name_count L3;
                           \<sigma>3 = store 8 (grown + bw_keysym_name_size * i) keysym \<sigma>2;
                           \<sigma>4 = store 8 (grown + bw_keysym_name_size * i + 8) (P name) \<sigma>3
                       in (name, unlock_keysyms (L3\<lparr>bw_keysym_names := grown, bw_keysym_name_count := i + 1\<rparr>), \<sigma>4))))"

end
