(* ===== verification/SizedOperations.thy ===== *)
theory SizedOperations
  imports HostTable X11Keyboard
begin

text \<open>
  The operations whose results the host sizes, end to end: the contract of
  \<^verbatim>\<open>X11Bridge\<close> is interpreted on the handlers of \<^verbatim>\<open>HostServer\<close>, and the guest functions
  that use it are proved on top: atom names, keysym names and the keyboard table.
\<close>

section \<open>Atom names\<close>

text \<open>The call is well-formed when the pages of the process are mapped and the atom is known;
  the answer is the name with its terminator.\<close>

definition call_ready :: "probe \<Rightarrow> 'h world \<Rightarrow> bool" where
  "call_ready pr \<sigma> \<longleftrightarrow> mapped pr \<and> stack_ok \<sigma> \<and> heap_ok \<sigma>"

lemma call_ready_agree: "agree \<sigma> \<sigma>' \<Longrightarrow> heap_ok \<sigma>' \<Longrightarrow> call_ready pr \<sigma> \<Longrightarrow> call_ready pr \<sigma>'"
  by (simp add: call_ready_def agree_def stack_ok_def)

text \<open>A name short enough for the buffers to fit in the address space of the guest's heap.\<close>

definition name_ok :: "u8 list \<Rightarrow> bool" where "name_ok name \<longleftrightarrow> length name \<le> 65536"

definition name_answer :: "u8 list option \<Rightarrow> u8 list \<times> s64" where
  "name_answer n = (case n of None \<Rightarrow> ([0], 0) | Some name \<Rightarrow> (name @ [0], of_nat (length name + 1)))"

lemma name_answer_bounds:
  assumes "name_answer (Some name) = (bs, s)" "name_ok name"
  shows "bs \<noteq> [] \<and> length bs < 2 ^ 46 \<and> 0 \<le> sint s"
  using assms sint_nat64 [of "length name + 1"] by (auto simp: name_answer_def name_ok_def)

definition atom_ready :: "probe \<Rightarrow> u64 list \<Rightarrow> xserver world \<Rightarrow> bool" where
  "atom_ready pr args \<sigma> \<longleftrightarrow> call_ready pr \<sigma> \<and> length args = 4 \<and>
     (\<exists>name. atoms (server \<sigma>) (ucast (args ! 1)) = Some name \<and> name_ok name)"

definition atom_answer :: "u64 list \<Rightarrow> xserver world \<Rightarrow> u8 list \<times> s64" where
  "atom_answer args \<sigma> = name_answer (atoms (server \<sigma>) (ucast (args ! 1)))"

lemma call_for_args:
  "length args \<le> MAX_ARGS \<Longrightarrow> i < length args \<Longrightarrow> arg (call_for pr args m) i = args ! i"
  "length args \<le> MAX_ARGS \<Longrightarrow> i < length args \<Longrightarrow> uarg (call_for pr args m) i = ucast (args ! i)"
  "c_count (call_for pr args m) = length args"
  by (simp_all add: arg_def uarg_def call_for_def nth_append)

interpretation atom_name: sized_handler pr "kOps other" OP_GET_ATOM_NAME 2 "atom_ready pr" atom_answer
  for pr other
proof (unfold_locales, goal_cases)
  case 1
  show ?case by (simp add: OP_COUNT_def bridge_ops_def)
next
  case (2 args \<sigma> bs s c)
  then obtain name where "atoms (server \<sigma>) (ucast (args ! 1)) = Some name" "length args = 4"
    by (auto simp: atom_ready_def)
  then show ?case using 2
    by (auto simp: kOps_def op_GET_ATOM_NAME_def require_args_def call_for_args MAX_ARGS_def sized_then_def
        atom_answer_def name_answer_def)
next
  case (3 args \<sigma>)
  then show ?case by (simp add: atom_ready_def call_ready_def MAX_ARGS_def)
next
  case (4 args x y \<sigma>)
  then show ?case by (simp add: atom_ready_def)
next
  case (5 args x y \<sigma>)
  then show ?case by (simp add: atom_answer_def)
next
  case (6 args \<sigma> \<sigma>')
  then show ?case
    by (auto simp: atom_ready_def atom_answer_def dest: call_ready_agree) (simp_all add: agree_def)
next
  case (7 args \<sigma> bs s)
  then show ?case unfolding atom_ready_def atom_answer_def by (metis name_answer_bounds)
qed

text \<open>For an atom the server knows, XGetAtomName through the bridge returns a fresh block holding
  exactly the server's name and its terminator, or null without a leak when the allocation fails; no
  other live block changes.\<close>

theorem XGetAtomName_result:
  assumes "mapped pr" "stack_ok \<sigma>" "heap_ok \<sigma>"
    and "atoms (server \<sigma>) (ucast atom) = Some name" "length name \<le> 65536"
    and call: "XGetAtomName (x11Bridge64 pr (kOps other)) dpy atom \<sigma> = (p, \<sigma>')"
  shows "(if alloc_fails (length name + 1) \<sigma> then p = 0 \<and> live \<sigma>' = live \<sigma>
      else p \<noteq> 0 \<and> live \<sigma> p = None \<and> live \<sigma>' = (live \<sigma>)(p \<mapsto> length name + 1) \<and>
           rd (mem \<sigma>') p (length name + 1) = name @ [0]) \<and>
    server \<sigma>' = server \<sigma> \<and> (\<forall>b t. live \<sigma> b = Some t \<longrightarrow> rd (mem \<sigma>') b t = rd (mem \<sigma>) b t)"
proof -
  let ?args = "[P dpy, atom, 0, 0]"
  obtain q status \<sigma>1 where s: "bw_sized (x11Bridge64 pr (kOps other)) OP_GET_ATOM_NAME ?args 2 \<sigma> = ((q, status), \<sigma>1)"
    by (metis surj_pair)
  have R: "atom_ready pr ?args \<sigma>" using assms(1-5) by (simp add: atom_ready_def call_ready_def name_ok_def)
  have A: "atom_answer ?args \<sigma> = (name @ [0], of_nat (length name + 1))"
    using assms(4) by (simp add: atom_answer_def name_answer_def)
  have ss: "sint (of_nat (length name + 1) :: s64) = int (length name + 1)"
    using assms(5) by (intro sint_nat64) simp
  note r = atom_name.sized.bw_sized_result [OF R assms(3) _ A s]
  show ?thesis
  proof (cases "alloc_fails (length name + 1) \<sigma>")
    case True
    then show ?thesis using r call s by (auto simp: XGetAtomName_def)
  next
    case False
    then have "\<not> sint status \<le> 0" using r(1) ss by simp
    then show ?thesis using r False call s by (auto simp: XGetAtomName_def)
  qed
qed

section \<open>Keyboard tables\<close>

definition keymap_ready :: "probe \<Rightarrow> u64 list \<Rightarrow> xserver world \<Rightarrow> bool" where
  "keymap_ready pr args \<sigma> \<longleftrightarrow> call_ready pr \<sigma> \<and> length args = 5 \<and> args ! 2 \<noteq> 0 \<and> unat (args ! 2) \<le> 256 \<and>
     args ! 1 + args ! 2 - 1 \<le> scast (maxKeycode (server \<sigma>))"

definition keymap_bytes :: "xserver \<Rightarrow> u64 \<Rightarrow> nat \<Rightarrow> u8 list" where
  "keymap_bytes h first n =
     concat (map (\<lambda>i. concat (map (\<lambda>j. le_bytes 8 (ucast (keycodeToKeysym h (ucast (first + of_nat i)) (of_nat j)) :: u64)) [0..<6]))
                 [0..<n])"

definition keymap_answer :: "u64 list \<Rightarrow> xserver world \<Rightarrow> u8 list \<times> s64" where
  "keymap_answer args \<sigma> = (keymap_bytes (server \<sigma>) (args ! 1) (unat (args ! 2)), 6)"

lemma length_chunks:
  "(\<And>x. x \<in> set xs \<Longrightarrow> length (f x) = m) \<Longrightarrow> length (concat (map f xs)) = m * length xs"
  by (induction xs) auto

lemma nth_chunk:
  assumes "\<And>x. x \<in> set xs \<Longrightarrow> length (f x) = m" "k < length xs"
  shows "take m (drop (m * k) (concat (map f xs))) = f (xs ! k)"
  using assms
proof (induction xs arbitrary: k)
  case (Cons x xs)
  then show ?case by (cases k) (auto simp: drop_all)
qed simp

lemma length_keymap_bytes: "length (keymap_bytes h first n) = 48 * n"
  unfolding keymap_bytes_def by (subst length_chunks [where m = 48]) (simp_all add: length_chunks [where m = 8])

lemma keymap_bytes_entry:
  assumes "i < n" "j < 6"
  shows "take 8 (drop (8 * (6 * i + j)) (keymap_bytes h first n)) =
    le_bytes 8 (ucast (keycodeToKeysym h (ucast (first + of_nat i)) (of_nat j)) :: u64)"
proof -
  let ?e = "\<lambda>i j. le_bytes 8 (ucast (keycodeToKeysym h (ucast (first + of_nat i)) (of_nat j)) :: u64)"
  let ?row = "\<lambda>i. concat (map (?e i) [0..<6])"
  have row: "take 48 (drop (48 * i) (keymap_bytes h first n)) = ?row i"
    unfolding keymap_bytes_def using assms(1)
    by (subst nth_chunk [where m = 48]) (simp_all add: length_chunks [where m = 8])
  have "take 8 (drop (8 * j) (?row i)) = ?e i j"
    using nth_chunk [where m = 8 and f = "?e i" and xs = "[0..<6]" and k = j] assms(2) by simp
  then have "take 8 (drop (8 * j) (take 48 (drop (48 * i) (keymap_bytes h first n)))) = ?e i j" by (simp only: row)
  moreover have "take 8 (drop (8 * j) (take 48 xs)) = take 8 (drop (8 * j) xs)" for xs :: "u8 list"
    using assms(2) by (simp add: drop_take min_def)
  ultimately show ?thesis by (simp add: algebra_simps)
qed

interpretation keymap: sized_handler pr "kOps other" OP_GET_KEYBOARD_MAPPING 3 "keymap_ready pr" keymap_answer
  for pr other
proof (unfold_locales, goal_cases)
  case 1
  show ?case by (simp add: OP_COUNT_def bridge_ops_def)
next
  case (2 args \<sigma> bs s c)
  have "op_GET_KEYBOARD_MAPPING c (server \<sigma>) = sized_then 3 (keymap_bytes (server \<sigma>) (args ! 1) (unat (args ! 2))) 6 c (server \<sigma>)"
    using 2 by (auto simp: op_GET_KEYBOARD_MAPPING_def require_args_def call_for_args MAX_ARGS_def
        keymap_ready_def keymap_bytes_def Let_def not_less)
  then show ?case using 2 by (auto simp: kOps_def sized_then_def keymap_answer_def)
next
  case (3 args \<sigma>)
  then show ?case by (simp add: keymap_ready_def call_ready_def MAX_ARGS_def)
next
  case (4 args x y \<sigma>)
  then show ?case by (simp add: keymap_ready_def)
next
  case (5 args x y \<sigma>)
  then show ?case by (simp add: keymap_answer_def)
next
  case (6 args \<sigma> \<sigma>')
  then show ?case
    by (auto simp: keymap_ready_def keymap_answer_def dest: call_ready_agree) (simp_all add: agree_def)
next
  case (7 args \<sigma> bs s)
  then have "length bs = 48 * unat (args ! 2)" "unat (args ! 2) \<noteq> 0" "unat (args ! 2) \<le> 256"
    by (auto simp: keymap_ready_def keymap_answer_def length_keymap_bytes unat_eq_0)
  then have "length bs \<le> 48 * 256" "bs \<noteq> []" by auto
  then show ?case using 7 by (auto simp: keymap_answer_def)
qed

text \<open>C6: XGetKeyboardMapping over a range of key codes the keyboard has returns a fresh block with
  the six keysyms of each code in order and reports six per code; when the allocation fails it
  returns null, reports zero, and no block is left.\<close>

theorem XGetKeyboardMapping_result:
  assumes "mapped pr" "stack_ok \<sigma>" "heap_ok \<sigma>"
    and n: "0 < n" "n \<le> 256" "0 \<le> sint (maxKeycode (server \<sigma>))" "unat first + n \<le> nat (sint (maxKeycode (server \<sigma>))) + 1"
    and ret: "ret + 4 \<le> brk \<sigma> \<or> heap_top \<le> ret"
    and call: "XGetKeyboardMapping (x11Bridge64 pr (kOps other)) dpy first (of_nat n) ret \<sigma> = (p, \<sigma>')"
  shows "if alloc_fails (48 * n) \<sigma> then p = 0 \<and> live \<sigma>' = live \<sigma> \<and> ld 4 ret \<sigma>' = (0 :: c_int)
    else p \<noteq> 0 \<and> live \<sigma> p = None \<and> live \<sigma>' = (live \<sigma>)(p \<mapsto> 48 * n) \<and> ld 4 ret \<sigma>' = (6 :: c_int) \<and>
      (\<forall>i < n. \<forall>j < 6. ld 8 (p + 8 * (6 * i + j)) \<sigma>' =
         (ucast (keycodeToKeysym (server \<sigma>) (first + of_nat i) (of_nat j)) :: u64))"
proof -
  let ?args = "[P dpy, A_uint first, A_int (of_nat n), 0, 0]"
  obtain q status \<sigma>1 where s: "bw_sized (x11Bridge64 pr (kOps other)) OP_GET_KEYBOARD_MAPPING ?args 3 \<sigma> = ((q, status), \<sigma>1)"
    by (metis surj_pair)
  have "sint (of_nat n :: c_int) = int n"
    using n(2) by (simp add: signed_of_nat signed_take_bit_int_eq_self)
  then have An: "A_int (of_nat n) = of_nat n" by (simp add: A_int_def scast_eq)
  have un: "unat (of_nat n :: u64) = n" using n(2) by (simp add: unat_of_nat take_bit_nat_eq_self)
  have uf: "A_uint first = of_nat (unat first)" by (simp only: A_uint_def ucast_nat)
  have "A_uint first + of_nat n - 1 \<le> scast (maxKeycode (server \<sigma>))"
  proof -
    let ?m = "nat (sint (maxKeycode (server \<sigma>)))"
    have "sint (maxKeycode (server \<sigma>)) < 2 ^ 31" using sint_lt [of "maxKeycode (server \<sigma>)"] by simp
    then have m: "?m < 2 ^ 64" by simp
    have "int ?m = sint (maxKeycode (server \<sigma>))" using n(3) by simp
    then have "scast (maxKeycode (server \<sigma>)) = (of_nat ?m :: u64)" by (metis scast_eq of_int_of_nat_eq)
    moreover have "A_uint first + of_nat n - 1 = (of_nat (unat first + n - 1) :: u64)"
      using n(1) by (simp add: uf of_nat_diff)
    moreover have "unat first + n - 1 \<le> ?m" using n(4) by linarith
    ultimately show ?thesis using m by (simp add: word_le_nat_alt unat_of_nat take_bit_nat_eq_self)
  qed
  moreover have "(of_nat n :: u64) \<noteq> 0" using un n(1) by (metis unsigned_0 less_irrefl)
  ultimately have R: "keymap_ready pr ?args \<sigma>"
    using assms(1-3) n(2) un by (simp add: keymap_ready_def call_ready_def An)
  have A: "keymap_answer ?args \<sigma> = (keymap_bytes (server \<sigma>) (A_uint first) n, 6)"
    by (simp add: keymap_answer_def An un)
  note r = keymap.sized.bw_sized_result [OF R assms(3) _ A s, unfolded length_keymap_bytes]
  show ?thesis
  proof (cases "alloc_fails (48 * n) \<sigma>")
    case True
    then show ?thesis using r call s by (auto simp: XGetKeyboardMapping_def)
  next
    case False
    then have e: "p = q" "\<sigma>' = store 4 ret (6 :: c_int) \<sigma>1" "q \<noteq> 0" "live \<sigma> q = None" "live \<sigma>1 = (live \<sigma>)(q \<mapsto> 48 * n)"
      and b: "rd (mem \<sigma>1) q (48 * n) = keymap_bytes (server \<sigma>) (A_uint first) n"
      using r call s by (auto simp: XGetKeyboardMapping_def to_int_def)
    have "q = brk \<sigma>" "q + 48 * n < heap_top" using r(1) False by simp_all
    then have away: "ret + 4 \<le> q \<or> q + 48 * n \<le> ret" using ret by linarith
    have "ld 8 (q + 8 * (6 * i + j)) \<sigma>' =
         (ucast (keycodeToKeysym (server \<sigma>) (first + of_nat i) (of_nat j)) :: u64)" if "i < n" "j < 6" for i j
    proof -
      have le: "8 * (6 * i + j) + 8 \<le> 48 * n" using that by presburger
      then have "ld 8 (q + 8 * (6 * i + j)) \<sigma>' = (ld 8 (q + 8 * (6 * i + j)) \<sigma>1 :: u64)"
        unfolding e(2) using away by (intro ld_st_other) linarith
      also have "\<dots> = le_word (take 8 (drop (8 * (6 * i + j)) (rd (mem \<sigma>1) q (48 * n))))"
        using le by (simp add: ld_def drop_rd take_rd)
      also have "\<dots> = ucast (keycodeToKeysym (server \<sigma>) (ucast (A_uint first + of_nat i)) (of_nat j))"
        unfolding b keymap_bytes_entry [OF that] by simp
      also have "(ucast (A_uint first + of_nat i :: u64) :: u32) = first + of_nat i"
      proof -
        have "A_uint first + of_nat i = (of_nat (unat first + i) :: u64)" by (simp add: uf)
        then show ?thesis using ucast_of_nat_down [of "unat first + i"] by simp
      qed
      finally show ?thesis .
    qed
    then show ?thesis using e False by simp
  qed
qed


lemma XGetAtomName_result_witness:
  "rd (mem (snd (XGetAtomName (x11Bridge64 all_pages (kOps refuse)) 8192 2 process0)))
      (fst (XGetAtomName (x11Bridge64 all_pages (kOps refuse)) 8192 2 process0)) 3 = [65, 66, 0]"
  using XGetAtomName_result [OF process0_ready _ _ surjective_pairing, where atom = 2 and name = "[65, 66]"
      and other = refuse and dpy = 8192] process0_alloc [of 3]
  by (simp add: server0_def numeral_3_eq_3)

lemma XGetKeyboardMapping_result_witness:
  "ld 8 (fst (XGetKeyboardMapping (x11Bridge64 all_pages (kOps refuse)) 8192 9 2 heap_top process0) + 8 * (6 * 1 + 3))
     (snd (XGetKeyboardMapping (x11Bridge64 all_pages (kOps refuse)) 8192 9 2 heap_top process0)) = (310 :: u64)"
proof -
  have "\<forall>i < 2. \<forall>j < 6. ld 8 (fst (XGetKeyboardMapping (x11Bridge64 all_pages (kOps refuse)) 8192 9 2 heap_top process0) + 8 * (6 * i + j))
     (snd (XGetKeyboardMapping (x11Bridge64 all_pages (kOps refuse)) 8192 9 2 heap_top process0)) =
       (ucast (keycodeToKeysym server0 (9 + of_nat i) (of_nat j)) :: u64)"
    using XGetKeyboardMapping_result [OF process0_ready _ _ _ _ _ surjective_pairing, where first = 9 and n = 2
        and ret = heap_top and other = refuse and dpy = 8192] process0_alloc [of 96]
    by (simp add: server0_def)
  from this [rule_format, of 1 3] show ?thesis by (simp add: server0_def)
qed

section \<open>Names of keysyms\<close>

definition keysym_ready :: "probe \<Rightarrow> u64 list \<Rightarrow> xserver world \<Rightarrow> bool" where
  "keysym_ready pr args \<sigma> \<longleftrightarrow> call_ready pr \<sigma> \<and> length args = 3 \<and>
     (\<exists>name. keysymName (server \<sigma>) (ucast (args ! 0)) = Some name \<and> name_ok name)"

definition keysym_answer :: "u64 list \<Rightarrow> xserver world \<Rightarrow> u8 list \<times> s64" where
  "keysym_answer args \<sigma> = name_answer (keysymName (server \<sigma>) (ucast (args ! 0)))"

interpretation keysym_name: sized_handler pr "kOps other" OP_KEYSYM_TO_STRING 1 "keysym_ready pr" keysym_answer
  for pr other
proof (unfold_locales, goal_cases)
  case 1
  show ?case by (simp add: OP_COUNT_def bridge_ops_def)
next
  case (2 args \<sigma> bs s c)
  then obtain name where "keysymName (server \<sigma>) (ucast (args ! 0)) = Some name" "length args = 3"
    by (auto simp: keysym_ready_def)
  then show ?case using 2
    by (auto simp: kOps_def op_KEYSYM_TO_STRING_def require_args_def call_for_args MAX_ARGS_def sized_then_def
        keysym_answer_def name_answer_def)
next
  case (3 args \<sigma>)
  then show ?case by (simp add: keysym_ready_def call_ready_def MAX_ARGS_def)
next
  case (4 args x y \<sigma>)
  then show ?case by (simp add: keysym_ready_def)
next
  case (5 args x y \<sigma>)
  then show ?case by (simp add: keysym_answer_def)
next
  case (6 args \<sigma> \<sigma>')
  then show ?case
    by (auto simp: keysym_ready_def keysym_answer_def dest: call_ready_agree) (simp_all add: agree_def)
next
  case (7 args \<sigma> bs s)
  then show ?case unfolding keysym_ready_def keysym_answer_def by (metis name_answer_bounds)
qed

text \<open>The array is a live block of exactly the entries in use, and the mutex is free.\<close>

definition keysym_inv :: "keysym_lib \<times> 'h world \<Rightarrow> bool" where
  "keysym_inv = (\<lambda>(L, \<sigma>). heap_ok \<sigma> \<and> \<not> bad_free \<sigma> \<and> \<not> bw_keysym_locked L \<and>
     (if bw_keysym_names L = 0 then bw_keysym_name_count L = 0
      else live \<sigma> (bw_keysym_names L) = Some (bw_keysym_name_count L * bw_keysym_name_size)))"

definition cached :: "keysym_lib \<times> 'h world \<Rightarrow> u64 \<Rightarrow> nat option" where
  "cached = (\<lambda>(L, \<sigma>) k. keysym_search (bw_keysym_names L) k 0 (bw_keysym_name_count L) \<sigma>)"

lemma keysym_search_cong:
  assumes "rd (mem \<sigma>') (names' + 16 * i) (16 * n) = rd (mem \<sigma>) (names + 16 * i) (16 * n)"
  shows "keysym_search names' k i n \<sigma>' = keysym_search names k i n \<sigma>"
  using assms
proof (induction n arbitrary: i)
  case (Suc n)
  have e: "rd (mem \<sigma>') (names' + 16 * i) 16 @ rd (mem \<sigma>') (names' + 16 * i + 16) (16 * n) =
        rd (mem \<sigma>) (names + 16 * i) 16 @ rd (mem \<sigma>) (names + 16 * i + 16) (16 * n)"
    using Suc.prems unfolding rd_append [symmetric] by simp
  then have h: "rd (mem \<sigma>') (names' + 16 * i) 16 = rd (mem \<sigma>) (names + 16 * i) 16"
    and t: "rd (mem \<sigma>') (names' + 16 * Suc i) (16 * n) = rd (mem \<sigma>) (names + 16 * Suc i) (16 * n)"
    by (simp_all add: ac_simps)
  have "take 8 (rd (mem \<sigma>') (names' + 16 * i) 16) = take 8 (rd (mem \<sigma>) (names + 16 * i) 16)"
    "drop 8 (rd (mem \<sigma>') (names' + 16 * i) 16) = drop 8 (rd (mem \<sigma>) (names + 16 * i) 16)" using h by simp_all
  then have "ld 8 (names' + 16 * i) \<sigma>' = (ld 8 (names + 16 * i) \<sigma> :: u64)"
    "ld 8 (names' + 16 * i + 8) \<sigma>' = (ld 8 (names + 16 * i + 8) \<sigma> :: u64)"
    by (simp_all add: ld_def take_rd drop_rd)
  then show ?case using Suc.IH [OF t] by (simp add: bw_keysym_name_size_def)
qed simp

lemma cached_cong:
  assumes "keysym_inv (L, \<sigma>)" "\<And>b t. live \<sigma> b = Some t \<Longrightarrow> rd (mem \<sigma>') b t = rd (mem \<sigma>) b t"
  shows "cached (L, \<sigma>') j = cached (L, \<sigma>) j"
proof -
  have "rd (mem \<sigma>') (bw_keysym_names L) (16 * bw_keysym_name_count L) = rd (mem \<sigma>) (bw_keysym_names L) (16 * bw_keysym_name_count L)"
    using assms(1) assms(2) [of "bw_keysym_names L"]
    by (auto simp: keysym_inv_def bw_keysym_name_size_def mult.commute split: if_splits)
  then show ?thesis unfolding cached_def prod.case by (intro keysym_search_cong) simp
qed

lemma keysym_search_append:
  "keysym_search names k i (n + m) \<sigma> =
    (case keysym_search names k i n \<sigma> of None \<Rightarrow> keysym_search names k (i + n) m \<sigma> | Some q \<Rightarrow> Some q)"
  by (induction n arbitrary: i) (auto split: option.splits)

lemma realloc_result:
  assumes "heap_ok \<sigma>" "realloc p n \<sigma> = (q, \<sigma>')" "if p = 0 then s = 0 else live \<sigma> p = Some s"
  shows "(if alloc_fails n \<sigma> then q = 0 \<and> live \<sigma>' = live \<sigma> \<and> mem \<sigma>' = mem \<sigma>
    else q \<noteq> 0 \<and> q \<noteq> p \<and> live \<sigma> q = None \<and> live \<sigma>' = (if p = 0 then live \<sigma> else (live \<sigma>)(p := None))(q \<mapsto> n) \<and>
      rd (mem \<sigma>') q (min s n) = rd (mem \<sigma>) p (min s n) \<and> q = brk \<sigma> \<and> q + n < heap_top \<and>
      (\<forall>i. i < q \<or> q + n \<le> i \<longrightarrow> mem \<sigma>' i = mem \<sigma> i)) \<and>
    heap_ok \<sigma>' \<and> bad_free \<sigma>' = bad_free \<sigma> \<and> server \<sigma>' = server \<sigma> \<and> sp \<sigma>' = sp \<sigma>"
proof -
  obtain r \<sigma>1 where m: "malloc n \<sigma> = (r, \<sigma>1)" by (metis surj_pair)
  note f = malloc_frameD [OF m]
  have H1: "heap_ok \<sigma>1" using malloc_heap_ok [OF assms(1), of n] m by simp
  have "brk \<sigma> \<noteq> 0" using assms(1) by (simp add: heap_ok_def)
  then have r0: "r = 0 \<longleftrightarrow> alloc_fails n \<sigma>" using malloc_null [of n \<sigma>] m by simp
  show ?thesis
  proof (cases "r = 0")
    case True
    then show ?thesis using assms m r0 malloc_fail [of n \<sigma> \<sigma>1] H1 by (simp add: realloc_def)
  next
    case False
    note g = malloc_fresh [OF assms(1) m False]
    have old: "(if p = 0 then 0 else case live \<sigma> p of None \<Rightarrow> 0 | Some s \<Rightarrow> s) = s" using assms(3) by (auto split: if_splits)
    have e: "q = r" "\<sigma>' = free p (st_bytes r (rd (mem \<sigma>) p (min s n)) \<sigma>1)"
      using assms(2) m False f(1) unfolding realloc_def Let_def old by auto
    have "r \<noteq> p" using g(1) assms(3) False by (auto split: if_splits)
    then have fr: "free p (st_bytes r (rd (mem \<sigma>) p (min s n)) \<sigma>1) =
        (if p = 0 then st_bytes r (rd (mem \<sigma>) p (min s n)) \<sigma>1
         else (st_bytes r (rd (mem \<sigma>) p (min s n)) \<sigma>1)\<lparr>live := (live \<sigma>1)(p := None)\<rparr>)"
      using g(2) assms(3) by (auto simp: free_def split: if_splits)
    have "heap_ok \<sigma>'" unfolding e by (rule free_heap_ok) (simp add: H1)
    then show ?thesis
      using False r0 \<open>r \<noteq> p\<close> g f unfolding e fr by (auto simp: st_bytes_def fun_upd_twist)
  qed
qed



end
