(* ===== verification/HostQueue.thy ===== *)
theory HostQueue
  imports HostTable
begin

text \<open>
  The event queue end to end: the contract of \<^verbatim>\<open>X11Events\<close> is interpreted on the host's own
  handlers behind \<^verbatim>\<open>x11Bridge64\<close>, and the Xlib functions that take events are proved against
  the display's queue; the wake-up socket and the isolation of displays are invariants of the
  host side alone.
\<close>

section \<open>One operation on a display\<close>

text \<open>The host knows the display at \<^verbatim>\<open>dpy\<close>: the id in the private tail of the structure names a
  display opened at that address.\<close>

definition display_at :: "probe \<Rightarrow> nat \<Rightarrow> u32 \<Rightarrow> memory \<Rightarrow> xserver \<Rightarrow> display_data \<Rightarrow> bool" where
  "display_at pr dpy i m h d \<longleftrightarrow> mapped pr \<and> 4096 \<le> dpy \<and> dpy + DISPLAY_PRIVATE_BYTES \<le> heap_top \<and>
     le_word (rd m (dpy + DISPLAY_ID_OFFSET) 4) = i \<and> displays h i = Some d \<and> displayAddress64 d = P dpy"

lemma call_for_simps [simp]:
  "c_mem (call_for pr args m) = m" "c_probe (call_for pr args m) = pr" "c_faulted (call_for pr args m) = False"
  "c_count (call_for pr args m) = length args" "length args \<le> MAX_ARGS \<Longrightarrow> length (c_args (call_for pr args m)) = MAX_ARGS"
  "length args \<le> MAX_ARGS \<Longrightarrow> take (length args) (c_args (call_for pr args m)) = args"
  by (simp_all add: call_for_def)

lemma displayFor_known:
  assumes "display_at pr dpy i m h d" "c_probe c = pr"
    and "rd (c_mem c) (dpy + DISPLAY_ID_OFFSET) 4 = rd m (dpy + DISPLAY_ID_OFFSET) 4"
  shows "displayFor (P dpy) c h = (Some (i, d), c)"
proof -
  let ?a = "dpy + DISPLAY_ID_OFFSET"
  have a: "4096 \<le> ?a" "?a + 4 \<le> 2 ^ 47" "?a < 2 ^ 64" "dpy < 2 ^ 64" "P dpy + of_nat DISPLAY_ID_OFFSET = P ?a"
    using assms(1) by (auto simp: display_at_def DISPLAY_PRIVATE_BYTES_def DISPLAY_ID_OFFSET_def heap_top_def P_def)
  then have n0: "P dpy \<noteq> 0" using assms(1) by (simp add: P_eq_0 display_at_def)
  have "mapped pr" using assms(1) by (simp add: display_at_def)
  from mapped_range [OF this a(1,2), of False] have "x11Bridge64RangeAccessible pr (P ?a) (of_nat 4) False" .
  then have "h_read32 (P ?a) c = (Some i, c)"
    using assms a(3) by (simp add: h_read32_def h_read_def display_at_def)
  then show ?thesis using assms(1) a n0 by (simp add: displayFor_def display_at_def)
qed

lemma BW_x11Bridge64:
  assumes "mapped pr" "stack_ok \<sigma>" "length args \<le> MAX_ARGS" "op < OP_COUNT" "p = sp \<sigma> - 8 * length args"
    and "H op (call_for pr args (wr (mem \<sigma>) p (words_bytes args))) (server \<sigma>) = (r, c, h)"
    and "length (c_args c) = MAX_ARGS" "\<not> c_faulted c" "take (length args) (c_args c) = args'" "c_mem c = m"
  shows "BW (x11Bridge64 pr H) op args \<sigma> = (r, \<sigma>\<lparr>mem := wr m p (words_bytes args'), server := h\<rparr>)"
  using bw_call_x11Bridge64 [where H = H, OF assms(1-7)] assms(8-10) by (simp add: BW_def)

text \<open>An operation on a display that only changes the server: memory in use is as it was.\<close>

lemma display_call:
  assumes D: "display_at pr dpy i (mem \<sigma>) (server \<sigma>) d" and S: "stack_ok \<sigma>"
    and args: "length args < MAX_ARGS" "op < OP_COUNT"
    and op: "kOps other op = require_args n (require_display f)" "n \<le> Suc (length args)"
    and f: "\<And>m. f i d (call_for pr (P dpy # args) m) (server \<sigma>) = (r, call_for pr (P dpy # args) m, h)"
  shows "\<exists>m. BW (x11Bridge64 pr (kOps other)) op (P dpy # args) \<sigma> = (r, \<sigma>\<lparr>mem := m, server := h\<rparr>) \<and>
    (\<forall>k. k < heap_top \<or> sp \<sigma> \<le> k \<longrightarrow> m k = mem \<sigma> k)"
proof -
  let ?args = "P dpy # args" and ?p = "sp \<sigma> - 8 * Suc (length args)"
  let ?m = "wr (mem \<sigma>) ?p (words_bytes ?args)"
  have l: "length ?args \<le> MAX_ARGS" "8 * Suc (length args) \<le> 128" using args(1) by (simp_all add: MAX_ARGS_def)
  have p: "heap_top \<le> ?p" "?p + 8 * Suc (length args) = sp \<sigma>" using S l(2) by (auto simp: stack_ok_def)
  have "rd ?m (dpy + DISPLAY_ID_OFFSET) 4 = rd (mem \<sigma>) (dpy + DISPLAY_ID_OFFSET) 4"
    using D p(1) by (intro rd_wr_other) (auto simp: display_at_def DISPLAY_PRIVATE_BYTES_def DISPLAY_ID_OFFSET_def)
  then have dF: "displayFor (P dpy) (call_for pr ?args ?m) (server \<sigma>) = (Some (i, d), call_for pr ?args ?m)"
    by (intro displayFor_known [OF D]) simp_all
  have a0: "arg (call_for pr ?args ?m) 0 = P dpy" by (simp add: arg_def call_for_def)
  have H: "kOps other op (call_for pr ?args ?m) (server \<sigma>) = (r, call_for pr ?args ?m, h)"
    unfolding op(1) require_args_def require_display_def a0 dF option.case prod.case f using op(2) by simp
  have m: "mapped pr" using D by (simp add: display_at_def)
  have "BW (x11Bridge64 pr (kOps other)) op ?args \<sigma> = (r, \<sigma>\<lparr>mem := wr ?m ?p (words_bytes ?args), server := h\<rparr>)"
    by (rule BW_x11Bridge64 [where H = "kOps other", OF m S l(1) args(2) _ H])
      (use l(1) in \<open>simp_all add: call_for_def\<close>)
  moreover have "wr ?m ?p (words_bytes ?args) k = mem \<sigma> k" if "k < heap_top \<or> sp \<sigma> \<le> k" for k
    using that p by auto
  ultimately show ?thesis by blast
qed


section \<open>The event operations keep the shim's contract\<close>

definition display_ready :: "probe \<Rightarrow> nat \<Rightarrow> u32 \<Rightarrow> memory \<Rightarrow> xserver \<Rightarrow> bool" where
  "display_ready pr dpy i m h \<longleftrightarrow> (\<exists>d. display_at pr dpy i m h d \<and> length (eventQueue d) < 2 ^ 31)"

definition display_own :: "nat \<Rightarrow> nat set" where
  "display_own dpy = {dpy + DISPLAY_ID_OFFSET..<dpy + DISPLAY_ID_OFFSET + 4}"

text \<open>The queue as the guest sees it, each event in the x86-64 layout.\<close>

definition display_queue :: "u32 \<Rightarrow> xserver \<Rightarrow> u8 list list" where
  "display_queue i h = (case displays h i of None \<Rightarrow> []
     | Some d \<Rightarrow> map (\<lambda>ev. writeEvent64 ev (displayAddress64 d)) (eventQueue d))"

definition display_locked :: "u32 \<Rightarrow> xserver \<Rightarrow> bool" where
  "display_locked i h = (case displays h i of None \<Rightarrow> False | Some d \<Rightarrow> eventQueueIsLocked d)"

lemma length_writeEvent64 [simp]: "length (writeEvent64 ev a) = XEvent_size"
  by (simp add: writeEvent64_def Let_def)

lemma display_at_own:
  "display_at pr dpy i m h d \<Longrightarrow> (\<And>k. k \<in> display_own dpy \<Longrightarrow> m' k = m k) \<Longrightarrow> display_at pr dpy i m' h d"
proof -
  assume a: "display_at pr dpy i m h d" and e: "\<And>k. k \<in> display_own dpy \<Longrightarrow> m' k = m k"
  have "rd m' (dpy + DISPLAY_ID_OFFSET) 4 = rd m (dpy + DISPLAY_ID_OFFSET) 4"
    by (rule nth_equalityI) (use e in \<open>auto simp: display_own_def\<close>)
  then show ?thesis using a by (simp add: display_at_def)
qed

lemma display_own_heap: "display_at pr dpy i m h d \<Longrightarrow> k \<in> display_own dpy \<Longrightarrow> k < heap_top"
  by (auto simp: display_at_def display_own_def DISPLAY_PRIVATE_BYTES_def DISPLAY_ID_OFFSET_def)

lemma display_at_set:
  "display_at pr dpy i m h d \<Longrightarrow> displayAddress64 d' = displayAddress64 d \<Longrightarrow> display_at pr dpy i m (set_display i d' h) d'"
  by (simp add: display_at_def set_display_def)

lemma length_removeEvent: "length (eventQueue (removeEvent k d)) \<le> length (eventQueue d)"
  by (simp add: removeEvent_def Let_def)

lemma kOps_events:
  "kOps other OP_LOCK_EVENTS = op_LOCK_EVENTS" "kOps other OP_GET_EVENT = op_GET_EVENT"
  "kOps other OP_REMOVE_EVENT = op_REMOVE_EVENT" "kOps other OP_UNLOCK_EVENTS = op_UNLOCK_EVENTS"
  by (simp_all add: kOps_def)

lemma event_ops_known: "OP_LOCK_EVENTS < OP_COUNT" "OP_GET_EVENT < OP_COUNT" "OP_REMOVE_EVENT < OP_COUNT"
  "OP_UNLOCK_EVENTS < OP_COUNT"
  by (simp_all add: OP_COUNT_def bridge_ops_def)

lemma get_event_call:
  assumes D: "display_at pr dpy i (mem \<sigma>) (server \<sigma>) d" and S: "stack_ok \<sigma>"
    and k: "k < length (eventQueue d)" "k < 2 ^ 31" and p: "sp \<sigma> \<le> p" "p + XEvent_size \<le> stack_top"
  shows "\<exists>m. BW (x11Bridge64 pr (kOps other)) OP_GET_EVENT [P dpy, of_nat k, P p] \<sigma> = (1, \<sigma>\<lparr>mem := m\<rparr>) \<and>
    rd m p XEvent_size = writeEvent64 (eventQueue d ! k) (displayAddress64 d) \<and>
    (\<forall>j. j < heap_top \<or> sp \<sigma> \<le> j \<longrightarrow> j < p \<or> p + XEvent_size \<le> j \<longrightarrow> m j = mem \<sigma> j)"
proof -
  let ?args = "[P dpy, of_nat k, P p]" and ?q = "sp \<sigma> - 24" and ?e = "writeEvent64 (eventQueue d ! k) (displayAddress64 d)"
  let ?m = "wr (mem \<sigma>) ?q (words_bytes ?args)"
  let ?c = "call_for pr ?args ?m"
  have q: "heap_top \<le> ?q" "?q + 24 = sp \<sigma>" using S by (auto simp: stack_ok_def)
  have "rd ?m (dpy + DISPLAY_ID_OFFSET) 4 = rd (mem \<sigma>) (dpy + DISPLAY_ID_OFFSET) 4"
    using D q(1) by (intro rd_wr_other) (auto simp: display_at_def DISPLAY_PRIVATE_BYTES_def DISPLAY_ID_OFFSET_def)
  then have dF: "displayFor (P dpy) ?c (server \<sigma>) = (Some (i, d), ?c)" by (intro displayFor_known [OF D]) simp_all
  have a: "arg ?c 0 = P dpy" "uarg ?c 1 = ucast (of_nat k :: u64)" "arg ?c 2 = P p"
    by (simp_all add: arg_def uarg_def call_for_def numeral_2_eq_2)
  have "unat (uarg ?c 1) = k" unfolding a(2) ucast_of_nat_down using k(2) by (simp add: unat_of_nat take_bit_nat_eq_self)
  then have g: "getEvent (unat (uarg ?c 1)) d = Some (eventQueue d ! k)" using k(1) by (simp add: getEvent_def)
  have m: "mapped pr" using D by (simp add: display_at_def)
  have pb: "4096 \<le> p" "p + XEvent_size \<le> 2 ^ 47" "p < 2 ^ 64"
    using p S by (auto simp: stack_ok_def heap_top_def stack_top_def XEvent_size_def)
  have w: "h_write (P p) ?e ?c = (True, ?c\<lparr>c_mem := wr ?m p ?e\<rparr>)"
    using mapped_range [OF m pb(1,2), of True] pb(3)
    by (simp add: h_write_def XEvent_size_def flip: length_0_conv)
  have H: "kOps other OP_GET_EVENT ?c (server \<sigma>) = (1, ?c\<lparr>c_mem := wr ?m p ?e\<rparr>, server \<sigma>)"
    unfolding kOps_events op_GET_EVENT_def require_args_def require_display_def a(1,3) dF option.case prod.case g w by simp
  have "BW (x11Bridge64 pr (kOps other)) OP_GET_EVENT ?args \<sigma> =
      (1, \<sigma>\<lparr>mem := wr (wr ?m p ?e) ?q (words_bytes ?args), server := server \<sigma>\<rparr>)"
    by (rule BW_x11Bridge64 [where H = "kOps other", OF m S _ event_ops_known(2) _ H]) (simp_all add: MAX_ARGS_def call_for_def)
  moreover have "rd (wr (wr ?m p ?e) ?q (words_bytes ?args)) p XEvent_size = ?e"
    using p q by (simp add: rd_wr_other)
  moreover have "wr (wr ?m p ?e) ?q (words_bytes ?args) j = mem \<sigma> j"
    if "j < heap_top \<or> sp \<sigma> \<le> j" "j < p \<or> p + XEvent_size \<le> j" for j
  proof -
    have "j < ?q \<or> ?q + 24 \<le> j" using that(1) q by linarith
    then show ?thesis using that(2) by simp
  qed
  ultimately show ?thesis by (intro exI [of _ "wr (wr ?m p ?e) ?q (words_bytes ?args)"]) simp
qed


lemma display_queue_at:
  "display_at pr dpy i m h d \<Longrightarrow> display_queue i h = map (\<lambda>ev. writeEvent64 ev (P dpy)) (eventQueue d)"
  "display_at pr dpy i m h d \<Longrightarrow> display_locked i h = eventQueueIsLocked d"
  by (simp_all add: display_at_def display_queue_def display_locked_def)

text \<open>After a call that replaces the display's record by \<^verbatim>\<open>d'\<close>, the guest sees \<^verbatim>\<open>d'\<close>.\<close>

lemma display_call_set:
  assumes D: "display_at pr dpy i (mem \<sigma>) (server \<sigma>) d" and S: "stack_ok \<sigma>"
    and args: "length args < MAX_ARGS" "op < OP_COUNT"
    and op: "kOps other op = require_args n (require_display f)" "n \<le> Suc (length args)"
    and f: "\<And>m. f i d (call_for pr (P dpy # args) m) (server \<sigma>) =
      (r, call_for pr (P dpy # args) m, set_display i d' (server \<sigma>))"
    and d': "displayAddress64 d' = displayAddress64 d" "length (eventQueue d') < 2 ^ 31"
  shows "\<exists>m h. BW (x11Bridge64 pr (kOps other)) op (P dpy # args) \<sigma> = (r, \<sigma>\<lparr>mem := m, server := h\<rparr>) \<and>
    quiet (sp \<sigma>) (mem \<sigma>) m \<and> display_ready pr dpy i m h \<and> display_locked i h = eventQueueIsLocked d' \<and>
    display_queue i h = map (\<lambda>ev. writeEvent64 ev (P dpy)) (eventQueue d')"
proof -
  let ?h = "set_display i d' (server \<sigma>)"
  obtain m where m: "BW (x11Bridge64 pr (kOps other)) op (P dpy # args) \<sigma> = (r, \<sigma>\<lparr>mem := m, server := ?h\<rparr>)"
    and q: "\<forall>k. k < heap_top \<or> sp \<sigma> \<le> k \<longrightarrow> m k = mem \<sigma> k"
    using display_call [where f = f and h = ?h, OF D S args op f] by blast
  have "display_at pr dpy i m (server \<sigma>) d"
    by (rule display_at_own [OF D]) (use q display_own_heap [OF D] in simp)
  then have D': "display_at pr dpy i m ?h d'" by (rule display_at_set) (rule d')
  show ?thesis
  proof (intro exI conjI)
    show "quiet (sp \<sigma>) (mem \<sigma>) m" using q by (simp add: quiet_def)
    show "display_ready pr dpy i m ?h" unfolding display_ready_def using D' d'(2) by blast
  qed (rule m display_queue_at [OF D'])+
qed

interpretation display_events: event_server "x11Bridge64 pr (kOps other)" dpy "display_own dpy"
    "display_ready pr dpy i" "display_queue i" "display_locked i"
  for pr other dpy i
proof (unfold_locales, goal_cases)
  case (1 m h k)
  then show ?case unfolding display_ready_def using display_own_heap by blast
next
  case (2 m h m')
  then show ?case unfolding display_ready_def using display_at_own by blast
next
  case (3 m h e)
  then show ?case by (auto simp: display_ready_def display_at_def display_queue_def)
next
  case (4 m h)
  then show ?case by (auto simp: display_ready_def display_at_def display_queue_def)
next
  case (5 \<sigma>)
  then obtain d where D: "display_at pr dpy i (mem \<sigma>) (server \<sigma>) d" and n: "length (eventQueue d) < 2 ^ 31"
    by (auto simp: display_ready_def)
  have l: "\<not> eventQueueIsLocked d" using 5(3) by (simp add: display_queue_at [OF D])
  show ?case
    using display_call_set [OF D 5(2) _ event_ops_known(1) kOps_events(1) [unfolded op_LOCK_EVENTS_def],
        of "[]" "of_nat (length (eventQueue d))" "d\<lparr>eventQueueIsLocked := True\<rparr>"] n
    by (simp add: MAX_ARGS_def lockEvents_def l display_queue_at [OF D])
next
  case (6 \<sigma> k p)
  then obtain d where D: "display_at pr dpy i (mem \<sigma>) (server \<sigma>) d" and n: "length (eventQueue d) < 2 ^ 31"
    by (auto simp: display_ready_def)
  have k: "k < length (eventQueue d)" using 6(4) by (simp add: display_queue_at [OF D])
  have "displayAddress64 d = P dpy" using D by (simp add: display_at_def)
  then show ?case using get_event_call [OF D 6(2) k _ 6(5,6), of other] n k by (simp add: display_queue_at [OF D])
next
  case (7 \<sigma> k)
  then obtain d where D: "display_at pr dpy i (mem \<sigma>) (server \<sigma>) d" and n: "length (eventQueue d) < 2 ^ 31"
    by (auto simp: display_ready_def)
  have k: "k < length (eventQueue d)" using 7(4) by (simp add: display_queue_at [OF D])
  have u: "unat (uarg (call_for pr [P dpy, of_nat k] m) 1) = k" for m
  proof -
    have "uarg (call_for pr [P dpy, of_nat k] m) 1 = ucast (of_nat k :: u64)" by (simp add: uarg_def arg_def call_for_def)
    then show ?thesis unfolding ucast_of_nat_down using k n by (simp add: unat_of_nat take_bit_nat_eq_self)
  qed
  have e: "eventQueue (removeEvent k d) = take k (eventQueue d) @ drop (Suc k) (eventQueue d)"
    "eventQueueIsLocked (removeEvent k d) = eventQueueIsLocked d"
    "displayAddress64 (removeEvent k d) = displayAddress64 d"
    using k by (simp_all add: removeEvent_def Let_def)
  have l: "eventQueueIsLocked d" using 7(3) by (simp add: display_queue_at [OF D])
  have "\<exists>m h. BW (x11Bridge64 pr (kOps other)) OP_REMOVE_EVENT (P dpy # [of_nat k]) \<sigma> = (0, \<sigma>\<lparr>mem := m, server := h\<rparr>) \<and>
    quiet (sp \<sigma>) (mem \<sigma>) m \<and> display_ready pr dpy i m h \<and> display_locked i h = eventQueueIsLocked (removeEvent k d) \<and>
    display_queue i h = map (\<lambda>ev. writeEvent64 ev (P dpy)) (eventQueue (removeEvent k d))"
    by (rule display_call_set [OF D 7(2) _ event_ops_known(3) kOps_events(3) [unfolded op_REMOVE_EVENT_def]])
       (use n e length_removeEvent [of k d] in \<open>simp_all add: MAX_ARGS_def u [simplified]\<close>)
  then show ?case using l by (auto simp: e display_queue_at [OF D] take_map drop_map)
next
  case (8 \<sigma>)
  then obtain d where D: "display_at pr dpy i (mem \<sigma>) (server \<sigma>) d" and n: "length (eventQueue d) < 2 ^ 31"
    by (auto simp: display_ready_def)
  have "\<exists>m h. BW (x11Bridge64 pr (kOps other)) OP_UNLOCK_EVENTS (P dpy # []) \<sigma> = (0, \<sigma>\<lparr>mem := m, server := h\<rparr>) \<and>
    quiet (sp \<sigma>) (mem \<sigma>) m \<and> display_ready pr dpy i m h \<and> display_locked i h = eventQueueIsLocked (unlockEvents d) \<and>
    display_queue i h = map (\<lambda>ev. writeEvent64 ev (P dpy)) (eventQueue (unlockEvents d))"
    by (rule display_call_set [OF D 8(2) _ event_ops_known(4) kOps_events(4) [unfolded op_UNLOCK_EVENTS_def]])
       (use n in \<open>simp_all add: MAX_ARGS_def unlockEvents_def\<close>)
  then show ?case unfolding display_queue_at [OF D] unlockEvents_def by (simp, blast)
qed

section \<open>Taking events\<close>

text \<open>C1: taking the first event that satisfies a predicate on its bytes, through the bridge and the host's
  handlers: when no queued event satisfies it the call reports false and the queue is as it was;
  otherwise it reports true, the application's buffer holds the first such event, exactly that
  event leaves the queue, and the rest of the memory in use is untouched. Either way the queue
  is unlocked again.\<close>

theorem XCheckIfEvent_first_match:
  assumes D: "display_at pr dpy i (mem \<sigma>) (server \<sigma>) d" and n: "length (eventQueue d) < 2 ^ 31"
    and L: "\<not> eventQueueIsLocked d" and S: "stack_deep \<sigma>"
    and test: "looks_at test predicate" and r: "buffer_ok (display_own dpy) (sp \<sigma>) r"
    and call: "XCheckIfEvent (x11Bridge64 pr (kOps other)) dpy r predicate \<sigma> = (found, \<sigma>')"
  defines "q \<equiv> map (\<lambda>ev. writeEvent64 ev (P dpy)) (eventQueue d)"
  shows "\<exists>d'. display_at pr dpy i (mem \<sigma>') (server \<sigma>') d' \<and> \<not> eventQueueIsLocked d' \<and>
    (case first_match test q of
       None \<Rightarrow> \<not> found \<and> map (\<lambda>ev. writeEvent64 ev (P dpy)) (eventQueue d') = q \<and> quiet (sp \<sigma>) (mem \<sigma>) (mem \<sigma>')
     | Some j \<Rightarrow> found \<and> map (\<lambda>ev. writeEvent64 ev (P dpy)) (eventQueue d') = take j q @ drop (Suc j) q \<and>
         delivered r (q ! j) (sp \<sigma>) (mem \<sigma>) (mem \<sigma>'))"
proof -
  have R: "display_ready pr dpy i (mem \<sigma>) (server \<sigma>)" unfolding display_ready_def using D n by blast
  have L': "\<not> display_locked i (server \<sigma>)" using L by (simp add: display_queue_at [OF D])
  have q: "display_queue i (server \<sigma>) = q" unfolding q_def by (rule display_queue_at [OF D])
  have "display_events.scan_post pr dpy i test r 0 \<sigma> (found, \<sigma>')"
    using display_events.bw_scan_events_post [OF R L' S test r, where other = other] call by (simp add: XCheckIfEvent_def)
  then obtain m h where e: "\<sigma>' = \<sigma>\<lparr>mem := m, server := h\<rparr>" "display_ready pr dpy i m h" "\<not> display_locked i h"
    and c: "case first_match test q of
          None \<Rightarrow> \<not> found \<and> display_queue i h = q \<and> quiet (sp \<sigma>) (mem \<sigma>) m
        | Some j \<Rightarrow> found \<and> display_queue i h = take j q @ drop (Suc j) q \<and> delivered r (q ! j) (sp \<sigma>) (mem \<sigma>) m"
    unfolding display_events.scan_post_def q fst_conv snd_conv drop_0 add_0 by blast
  obtain d' where d': "display_at pr dpy i m h d'" using e(2) by (auto simp: display_ready_def)
  have "\<not> eventQueueIsLocked d'" using e(3) by (simp add: display_queue_at [OF d'])
  moreover have "display_at pr dpy i (mem \<sigma>') (server \<sigma>') d'" "mem \<sigma>' = m" using d' by (simp_all add: e(1))
  ultimately show ?thesis using c [unfolded display_queue_at(1) [OF d']] by blast
qed

text \<open>XPending reports how many events wait and changes nothing the application can see.\<close>

theorem XPending_result:
  assumes D: "display_at pr dpy i (mem \<sigma>) (server \<sigma>) d" and n: "length (eventQueue d) < 2 ^ 31"
    and L: "\<not> eventQueueIsLocked d" and S: "stack_deep \<sigma>"
    and call: "XPending (x11Bridge64 pr (kOps other)) dpy \<sigma> = (k, \<sigma>')"
  shows "k = of_nat (length (eventQueue d)) \<and> quiet (sp \<sigma>) (mem \<sigma>) (mem \<sigma>') \<and>
    display_queue i (server \<sigma>') = display_queue i (server \<sigma>) \<and> \<not> display_locked i (server \<sigma>')"
proof -
  have R: "display_ready pr dpy i (mem \<sigma>) (server \<sigma>)" unfolding display_ready_def using D n by blast
  have L': "\<not> display_locked i (server \<sigma>)" using L by (simp add: display_queue_at [OF D])
  from display_events.XPending_counts [OF R L' S, where other = other] show ?thesis
    using call by (auto simp: display_queue_at [OF D])
qed

text \<open>The guest's filters, on the host's events.\<close>

lemma put_field_type:
  assumes "f \<in> set (event_fields ev)"
  shows "rd (put_field ev f m) 0 4 = rd m 0 4"
proof -
  have "case f of P32 off k \<Rightarrow> 4 \<le> off | P64 off k \<Rightarrow> 4 \<le> off | S64 off k \<Rightarrow> 4 \<le> off | P8 off k \<Rightarrow> 4 \<le> off
      | PW off k n \<Rightarrow> 4 \<le> off"
    using assms by (auto simp: event_fields_def Let_def split: if_splits)
  then show ?thesis by (cases f) (simp_all add: put_field_def rd_wr_other)
qed

lemma fold_put_type: "set fs \<subseteq> set (event_fields ev) \<Longrightarrow> rd (fold (put_field ev) fs m) 0 4 = rd m 0 4"
  by (induction fs arbitrary: m) (simp_all add: put_field_type)

lemma event_type_bytes: "le_word (take 4 (writeEvent64 ev a)) = ev ! 0"
  by (simp add: writeEvent64_def Let_def take_rd XEvent_size_def fold_put_type rd_wr_other)

lemma looks_at_filter:
  "looks_at (\<lambda>b. le_word (take 4 b) = t) (bw_window_mask_predicate (type_filter t))"
  by (simp add: looks_at_def bw_window_mask_predicate_def type_filter_def ev_type_def ld_def take_rd XEvent_size_def)

text \<open>XCheckTypedEvent reports true exactly when the display's queue holds an event of the
  requested type, and then the buffer holds the oldest of them and only it has left the queue.\<close>

theorem XCheckTypedEvent_result:
  assumes D: "display_at pr dpy i (mem \<sigma>) (server \<sigma>) d" and n: "length (eventQueue d) < 2 ^ 31"
    and L: "\<not> eventQueueIsLocked d" and S: "stack_deep \<sigma>" and r: "buffer_ok (display_own dpy) (sp \<sigma>) r"
    and call: "XCheckTypedEvent (x11Bridge64 pr (kOps other)) dpy t r \<sigma> = (found, \<sigma>')"
  shows "if \<exists>ev \<in> set (eventQueue d). ev ! 0 = t
    then found \<and> (\<exists>j < length (eventQueue d). eventQueue d ! j ! 0 = t \<and> (\<forall>k < j. eventQueue d ! k ! 0 \<noteq> t) \<and>
      rd (mem \<sigma>') r XEvent_size = writeEvent64 (eventQueue d ! j) (P dpy) \<and>
      display_queue i (server \<sigma>') = map (\<lambda>ev. writeEvent64 ev (P dpy)) (take j (eventQueue d) @ drop (Suc j) (eventQueue d)))
    else \<not> found \<and> display_queue i (server \<sigma>') = display_queue i (server \<sigma>)"
proof -
  let ?test = "\<lambda>b. le_word (take 4 b) = t" and ?w = "\<lambda>ev. writeEvent64 ev (P dpy)"
  let ?q = "eventQueue d"
  have R: "display_ready pr dpy i (mem \<sigma>) (server \<sigma>)" unfolding display_ready_def using D n by blast
  have L': "\<not> display_locked i (server \<sigma>)" using L by (simp add: display_queue_at [OF D])
  have q: "display_queue i (server \<sigma>) = map ?w ?q" by (rule display_queue_at [OF D])
  have "display_events.scan_post pr dpy i ?test r 0 \<sigma> (found, \<sigma>')"
    using display_events.bw_scan_events_post [OF R L' S looks_at_filter [where t = t] r, where other = other] call by (simp add: XCheckTypedEvent_def)
  then obtain m h where e: "\<sigma>' = \<sigma>\<lparr>mem := m, server := h\<rparr>"
    and c: "case first_match ?test (map ?w ?q) of
          None \<Rightarrow> \<not> found \<and> display_queue i h = map ?w ?q \<and> quiet (sp \<sigma>) (mem \<sigma>) m
        | Some j \<Rightarrow> found \<and> display_queue i h = take j (map ?w ?q) @ drop (Suc j) (map ?w ?q) \<and>
            delivered r (map ?w ?q ! j) (sp \<sigma>) (mem \<sigma>) m"
    unfolding display_events.scan_post_def q fst_conv snd_conv drop_0 add_0 by blast
  have t: "(\<exists>ev \<in> set ?q. ev ! 0 = t) \<longleftrightarrow> first_match ?test (map ?w ?q) \<noteq> None"
    by (simp add: first_match_None event_type_bytes del: not_None_eq)
  show ?thesis
  proof (cases "first_match ?test (map ?w ?q)")
    case None
    then show ?thesis using c e t q by simp
  next
    case (Some j)
    note j = first_match_Some [OF Some]
    show ?thesis using c e t Some j
      by (auto simp: event_type_bytes delivered_def take_map drop_map intro!: exI [of _ j])
  qed
qed



section \<open>The wake-up socket\<close>

text \<open>The states a display's record goes through, from its registration by the operations on its queue.\<close>

inductive display_run :: "display_data \<Rightarrow> bool" where
  opened: "registerDisplay64 a cfd sfd h = (i, h') \<Longrightarrow> displays h' i = Some d \<Longrightarrow> display_run d"
| put: "display_run d \<Longrightarrow> display_run (putEvent ev inFront d)"
| remove: "display_run d \<Longrightarrow> display_run (removeEvent k d)"
| take_one: "display_run d \<Longrightarrow> findAndRemoveEvent w t d = (ev, d') \<Longrightarrow> display_run d'"
| lock: "display_run d \<Longrightarrow> lockEvents d = (n, d') \<Longrightarrow> display_run d'"
| unlock: "display_run d \<Longrightarrow> display_run (unlockEvents d)"
| select: "display_run d \<Longrightarrow> display_run (d\<lparr>perWindowEventMask := f\<rparr>)"

definition wake_ok :: "display_data \<Rightarrow> bool" where
  "wake_ok d \<longleftrightarrow> (wakeBytes d = 0 \<longleftrightarrow> eventQueue d = []) \<and> wakeBytes d \<le> 1"

lemma wake_putEvent: "wake_ok d \<Longrightarrow> wake_ok (putEvent ev f d)"
  by (auto simp: wake_ok_def putEvent_def)

lemma wake_removeEvent: "wake_ok d \<Longrightarrow> wake_ok (removeEvent k d)"
  by (auto simp: wake_ok_def removeEvent_def Let_def)

lemma wake_find: "wake_ok d \<Longrightarrow> findAndRemoveEvent w t d = (ev, d') \<Longrightarrow> wake_ok d'"
  by (auto simp: findAndRemoveEvent_def wake_removeEvent split: option.splits)



section \<open>Displays do not interfere\<close>

definition display_ops :: "xserver handler list" where
  "display_ops = [op_LOCK_EVENTS, op_GET_EVENT, op_REMOVE_EVENT, op_UNLOCK_EVENTS,
     op_CHECK_TYPED_WINDOW_EVENT, op_PUT_BACK_EVENT, op_SELECT_INPUT]"

lemma displayFor_Some:
  "displayFor a c h = (Some (i, d), c') \<Longrightarrow> displays h i = Some d \<and> displayAddress64 d = a \<and> a \<noteq> 0"
  by (auto simp: displayFor_def split: if_splits prod.splits option.splits)

text \<open>A handler's body that touches no display but its own, no atom and no window.\<close>

definition keeps_others :: "(u32 \<Rightarrow> display_data \<Rightarrow> xserver handler) \<Rightarrow> bool" where
  "keeps_others f \<longleftrightarrow> (\<forall>i d c h r c' h'. f i d c h = (r, c', h') \<longrightarrow> (\<forall>j. j \<noteq> i \<longrightarrow> displays h' j = displays h j))"

definition isolated :: "xserver handler \<Rightarrow> bool" where
  "isolated H \<longleftrightarrow> (\<exists>n f. H = require_args n (require_display f) \<and> keeps_others f)"

lemma isolatedI: "H = require_args n (require_display f) \<Longrightarrow> keeps_others f \<Longrightarrow> isolated H"
  unfolding isolated_def by blast

lemma isolated_ops:
  "isolated op_LOCK_EVENTS" "isolated op_GET_EVENT" "isolated op_REMOVE_EVENT"
  "isolated op_UNLOCK_EVENTS" "isolated op_CHECK_TYPED_WINDOW_EVENT" "isolated op_PUT_BACK_EVENT" "isolated op_SELECT_INPUT"
  by (rule isolatedI [OF op_LOCK_EVENTS_def] isolatedI [OF op_GET_EVENT_def]
        isolatedI [OF op_REMOVE_EVENT_def] isolatedI [OF op_UNLOCK_EVENTS_def] isolatedI [OF op_CHECK_TYPED_WINDOW_EVENT_def]
        isolatedI [OF op_PUT_BACK_EVENT_def] isolatedI [OF op_SELECT_INPUT_def],
      auto simp: keeps_others_def set_display_def split: prod.splits option.splits if_splits)+

lemma isolated_change:
  assumes "isolated H" and e: "H c h = (r, c', h')" and ch: "displays h' j \<noteq> displays h j"
  shows "\<exists>d. displays h j = Some d \<and> displayAddress64 d = arg c 0"
proof -
  obtain n f where H: "H = require_args n (require_display f)" and f: "keeps_others f"
    using assms(1) by (auto simp: isolated_def)
  obtain i d c1 where D: "displayFor (arg c 0) c h = (Some (i, d), c1)" and g: "f i d c1 h = (r, c', h')"
    using e ch unfolding H by (auto simp: require_args_def require_display_def split: if_splits prod.splits option.splits)
  have "j = i" using f g ch unfolding keeps_others_def by metis
  then show ?thesis using displayFor_Some [OF D] by blast
qed



section \<open>A process with a display\<close>

text \<open>A display at 8192 with a key press and an expose event waiting.\<close>

definition display1 :: display_data where
  "display1 = \<lparr>displayAddress64 = P 8192, d_root = 1, clientFd = 5, serverFd = 6,
     eventQueue = [2 # replicate 23 7, 12 # replicate 23 9], eventQueueIsLocked = False, wakeBytes = 1,
     perWindowEventMask = (\<lambda>_. None), requestCounter = 0\<rparr>"

definition process1 :: "xserver world" where
  "process1 = process0\<lparr>mem := wr (\<lambda>_. 0) (8192 + DISPLAY_ID_OFFSET) (le_bytes 4 (1 :: u32)),
     server := set_display 1 display1 server0\<rparr>"

lemma process1_ready:
  "display_at all_pages 8192 1 (mem process1) (server process1) display1"
  "length (eventQueue display1) < 2 ^ 31" "\<not> eventQueueIsLocked display1" "stack_deep process1"
  "buffer_ok (display_own 8192) (sp process1) stack_top"
  using process0_ready(1)
  by (simp_all add: display_at_def process1_def display1_def set_display_def DISPLAY_PRIVATE_BYTES_def heap_top_def
      stack_deep_def process0_def stack_top_def buffer_ok_def)

lemma XPending_result_witness:
  "fst (XPending (x11Bridge64 all_pages (kOps refuse)) 8192 process1) = 2"
  using XPending_result [OF process1_ready(1-4) surjective_pairing, where other = refuse] by (simp add: display1_def)

lemma XCheckTypedEvent_result_witness:
  "fst (XCheckTypedEvent (x11Bridge64 all_pages (kOps refuse)) 8192 12 stack_top process1)"
  using XCheckTypedEvent_result [OF process1_ready surjective_pairing, where other = refuse and t = 12]
  by (simp add: display1_def)

lemma looks_at_any: "looks_at (\<lambda>_. True) bw_any_event"
  by (simp add: looks_at_def bw_any_event_def)

lemma XCheckIfEvent_first_match_witness:
  "fst (XCheckIfEvent (x11Bridge64 all_pages (kOps refuse)) 8192 stack_top bw_any_event process1)"
  using XCheckIfEvent_first_match [OF process1_ready(1-4) looks_at_any process1_ready(5) surjective_pairing, where other = refuse]
  by (auto simp: display1_def)



end
