(* ===== verification/HostTree.thy ===== *)
theory HostTree
  imports HostWindowCalls
begin

text \<open>
  The tree of windows: what telling the clients leaves alone, the invariant of the tree, walks towards
  the root that end, and the search for the window under a point against its declarative reading.
\<close>

section \<open>What the handlers leave alone\<close>

text \<open>Telling the clients changes nothing but the queues of the displays.\<close>

definition told :: "xserver \<Rightarrow> xserver \<Rightarrow> bool" where
  "told h h' \<longleftrightarrow> (\<exists>D. h' = h\<lparr>displays := D\<rparr>)"

lemma told_refl [simp, intro]: "told h h"
  unfolding told_def by (rule exI [of _ "displays h"]) simp

lemma told_trans [trans]: "told a b \<Longrightarrow> told b c \<Longrightarrow> told a c"
  unfolding told_def by (auto intro: exI)

lemma told_upd_display [simp]: "told h (upd_display i f h)"
  by (cases "displays h i") (auto simp: upd_display_def set_display_def told_def)

lemma told_fold: "(\<And>x h. x \<in> set xs \<Longrightarrow> told h (f x h)) \<Longrightarrow> told h (fold f xs h)"
  by (induction xs arbitrary: h) (auto intro: told_trans)

lemma told_iterate: "(\<And>i h. told h (f i h)) \<Longrightarrow> told h (iterateEventMask w m f h)"
  unfolding iterateEventMask_def by (rule told_fold) (simp split: option.split)

lemma told_notify [simp]: "told h (notify w m mk h)"
  unfolding notify_def by (rule told_iterate) simp

lemma told_tell [simp]: "told h (tell_parent p t mk h)" "told h (tell_self i t mk h)"
  by (simp_all add: tell_parent_def tell_self_def split: option.split)

lemma told_property_notify [simp]: "told h (property_notify w a s h)" by (simp add: property_notify_def)

text \<open>The part of a window the tree and the geometry are made of; the rest of the state may also change
  in what only the client reads back.\<close>

definition skel :: "xwindow \<Rightarrow> xwindow" where
  "skel w = w\<lparr>w_properties := (\<lambda>_. None), w_attrs := default_attributes, w_colorMap := None,
     w_hasBackgroundPixel := False, w_backgroundFilled := False, w_dirty := None\<rparr>"

definition same_tree :: "xserver \<Rightarrow> xserver \<Rightarrow> bool" where
  "same_tree h h' \<longleftrightarrow> (\<forall>i. map_option skel (windows h' i) = map_option skel (windows h i)) \<and>
     root h' = root h \<and> nextId h' = nextId h"

lemma same_tree_refl [simp, intro]: "same_tree h h" by (simp add: same_tree_def)
lemma same_tree_trans [trans]: "same_tree a b \<Longrightarrow> same_tree b c \<Longrightarrow> same_tree a c" by (simp add: same_tree_def)
lemma same_tree_sym: "same_tree a b \<Longrightarrow> same_tree b a" by (simp add: same_tree_def)

lemma told_same_tree: "told h h' \<Longrightarrow> same_tree h h'" by (auto simp: told_def same_tree_def)

lemma told_fields: "told h h' \<Longrightarrow> stuck h' = stuck h \<and> windows h' = windows h \<and> root h' = root h \<and> nextId h' = nextId h
    \<and> grabbedId h' = grabbedId h \<and> pointerWindow h' = pointerWindow h"
  by (auto simp: told_def)

lemma same_tree_upd:
  "(\<And>w. skel (f w) = skel w) \<Longrightarrow> same_tree h (upd_window i f h)"
  by (simp add: same_tree_def upd_window_def option.map_comp o_def)

lemma skel_simps [simp]:
  "w_parent (skel w) = w_parent w" "w_children (skel w) = w_children w" "w_listed (skel w) = w_listed w"
  "w_transients (skel w) = w_transients w" "w_transientCached (skel w) = w_transientCached w" "w_left (skel w) = w_left w"
  "w_top (skel w) = w_top w" "w_width (skel w) = w_width w" "w_height (skel w) = w_height w"
  "w_mapped (skel w) = w_mapped w" "w_class (skel w) = w_class w"
  by (simp_all add: skel_def)

text \<open>Every reader of the tree looks at the skeleton of a window only.\<close>

definition skel_at :: "u32 \<Rightarrow> xserver \<Rightarrow> xwindow option" where "skel_at i h = map_option skel (windows h i)"

lemma reads_skel:
  "parent_of i h = (case skel_at i h of None \<Rightarrow> None | Some w \<Rightarrow> w_parent w)"
  "children_of i h = (case skel_at i h of None \<Rightarrow> [] | Some w \<Rightarrow> w_children w)"
  "left_of i h = (case skel_at i h of None \<Rightarrow> 0 | Some w \<Rightarrow> w_left w)"
  "top_of i h = (case skel_at i h of None \<Rightarrow> 0 | Some w \<Rightarrow> w_top w)"
  "width_of i h = (case skel_at i h of None \<Rightarrow> 0 | Some w \<Rightarrow> w_width w)"
  "height_of i h = (case skel_at i h of None \<Rightarrow> 0 | Some w \<Rightarrow> w_height w)"
  "mapped_at i h = (case skel_at i h of None \<Rightarrow> False | Some w \<Rightarrow> w_mapped w)"
  "class_of i h = (case skel_at i h of None \<Rightarrow> 0 | Some w \<Rightarrow> w_class w)"
  "in_child i p h = (case skel_at i h of None \<Rightarrow> False
       | Some w \<Rightarrow> sint (w_left w) \<le> sint (fst p) \<and> sint (fst p) < sint (w_left w + w_width w) \<and>
           sint (w_top w) \<le> sint (snd p) \<and> sint (snd p) < sint (w_top w + w_height w))"
  "(getWindow i h = None) = (case skel_at i h of None \<Rightarrow> True | Some w \<Rightarrow> \<not> w_listed w)"
  "isTransient i h = (case skel_at i h of
       None \<Rightarrow> Some False
     | Some win \<Rightarrow>
         (case w_transientCached win of
            None \<Rightarrow> Some False
          | Some t \<Rightarrow> if getWindow t h = None then Some False else isThisAndAncestorsMapped t h))"
  "children_front_to_back i h = (case skel_at i h of
       None \<Rightarrow> []
     | Some win \<Rightarrow> filter (\<lambda>(c, _). mapped_at c h)
         (map (\<lambda>c. (c, False)) (rev (w_transients win)) @ map (\<lambda>c. (c, True)) (rev (w_children win))))"
  by (cases "windows h i"; simp add: skel_at_def parent_of_def children_of_def left_of_def top_of_def width_of_def
      height_of_def mapped_at_def class_of_def in_child_def getWindow_def isTransient_def children_front_to_back_def)+

lemma same_tree_skel: "same_tree h h' \<Longrightarrow> skel_at i h' = skel_at i h" by (simp add: same_tree_def skel_at_def)

lemma same_tree_reads:
  assumes "same_tree h h'"
  shows "parent_of i h' = parent_of i h" "children_of i h' = children_of i h" "left_of i h' = left_of i h"
    "top_of i h' = top_of i h" "width_of i h' = width_of i h" "height_of i h' = height_of i h"
    "mapped_at i h' = mapped_at i h" "class_of i h' = class_of i h" "in_child i p h' = in_child i p h"
    "(getWindow i h' = None) = (getWindow i h = None)"
  by (simp_all only: reads_skel same_tree_skel [OF assms])

lemma same_tree_walk: "same_tree h h' \<Longrightarrow> walk_up n stop w h' = walk_up n stop w h"
  by (induction n arbitrary: w) (auto simp: same_tree_reads split: option.split)

lemma skel_properties [simp]: "skel (w\<lparr>w_properties := f\<rparr>) = skel w" by (simp add: skel_def)

text \<open>Painting touches the buffers, and what a window remembers of its painting.\<close>

definition unpainted :: "xwindow \<Rightarrow> xwindow" where "unpainted w = w\<lparr>w_backgroundFilled := False, w_dirty := None\<rparr>"

definition painted :: "xserver \<Rightarrow> xserver \<Rightarrow> bool" where
  "painted h h' \<longleftrightarrow> (\<exists>W B x. h' = h\<lparr>windows := W, buffers := B, wild := x\<rparr> \<and>
     (\<forall>i. map_option unpainted (W i) = map_option unpainted (windows h i)))"

lemma painted_refl [simp, intro]: "painted h h"
  unfolding painted_def by (intro exI [of _ "windows h"] exI [of _ "buffers h"] exI [of _ "wild h"]) simp

lemma painted_trans [trans]:
  assumes "painted a b" "painted b c"
  shows "painted a c"
proof -
  obtain W B x where b: "b = a\<lparr>windows := W, buffers := B, wild := x\<rparr>"
    "\<forall>i. map_option unpainted (W i) = map_option unpainted (windows a i)" using assms(1) unfolding painted_def by blast
  obtain W' B' x' where c: "c = b\<lparr>windows := W', buffers := B', wild := x'\<rparr>"
    "\<forall>i. map_option unpainted (W' i) = map_option unpainted (windows b i)" using assms(2) unfolding painted_def by blast
  show ?thesis unfolding painted_def using b c by (intro exI [of _ W'] exI [of _ B'] exI [of _ x']) simp
qed

lemma skel_unpainted [simp]: "skel (unpainted w) = skel w" by (simp add: skel_def unpainted_def)

lemma painted_same_tree: "painted h h' \<Longrightarrow> same_tree h h'"
proof -
  assume "painted h h'"
  then obtain W B x where e: "h' = h\<lparr>windows := W, buffers := B, wild := x\<rparr>"
    "\<forall>i. map_option unpainted (W i) = map_option unpainted (windows h i)" unfolding painted_def by blast
  have "map_option skel (W i) = map_option skel (windows h i)" for i
    using arg_cong [OF spec [OF e(2), of i], of "map_option skel"] by (simp add: option.map_comp o_def)
  then show ?thesis using e(1) by (simp add: same_tree_def)
qed

lemma painted_override: "painted h h' \<Longrightarrow> override_of i h' = override_of i h"
proof -
  assume "painted h h'"
  then have "map_option unpainted (windows h' i) = map_option unpainted (windows h i)" by (auto simp: painted_def)
  then show ?thesis by (cases "windows h i"; cases "windows h' i") (auto simp: override_of_def unpainted_def dest!: arg_cong [of _ _ w_attrs])
qed

lemma painted_fields:
  "painted h h' \<Longrightarrow> stuck h' = stuck h \<and> displays h' = displays h \<and> displayOrder h' = displayOrder h \<and> root h' = root h \<and>
     nextId h' = nextId h \<and> grabbedId h' = grabbedId h \<and> pointerWindow h' = pointerWindow h \<and> eventTime h' = eventTime h \<and>
     selectionWindow h' = selectionWindow h"
  by (auto simp: painted_def)

lemma painted_upd: "(\<And>w. unpainted (f w) = unpainted w) \<Longrightarrow> painted h (upd_window i f h)"
proof -
  assume "\<And>w. unpainted (f w) = unpainted w"
  then show ?thesis unfolding painted_def
    by (intro exI [of _ "windows (upd_window i f h)"] exI [of _ "buffers h"] exI [of _ "wild h"])
       (simp add: upd_window_def option.map_comp o_def)
qed

lemma unpainted_simps [simp]: "unpainted (w\<lparr>w_backgroundFilled := b\<rparr>) = unpainted w" "unpainted (w\<lparr>w_dirty := d\<rparr>) = unpainted w"
  by (simp_all add: unpainted_def)

lemma painted_set_buffer: "painted h (set_buffer i b (h\<lparr>wild := x\<rparr>))"
  unfolding painted_def set_buffer_def
  by (intro exI [of _ "windows h"] exI [of _ "(buffers h)(i := b)"] exI [of _ x]) simp

lemma painted_put_surface: "painted h (put_surface i s h)"
  unfolding put_surface_def Let_def using painted_set_buffer painted_trans [OF painted_set_buffer painted_upd] by simp

lemma painted_setDirty [simp]: "painted h (setDirty i h)" unfolding setDirty_def by (rule painted_upd) simp

lemma painted_fill [simp]: "painted h (fillWithBackground i h)"
proof -
  let ?h1 = "upd_window i (\<lambda>w. w\<lparr>w_backgroundFilled := True\<rparr>) h"
  have "painted h ?h1" by (rule painted_upd) simp
  moreover have "painted h (put_surface i s ?h1)" for s by (rule painted_trans [OF calculation painted_put_surface])
  ultimately show ?thesis by (simp add: fillWithBackground_def Let_def split: option.split)
qed

lemma painting_fields [simp]:
  "displays (fillWithBackground i h) = displays h" "displayOrder (fillWithBackground i h) = displayOrder h"
  "displays (setDirty i h) = displays h" "displayOrder (setDirty i h) = displayOrder h"
  "eventTime (setDirty i h) = eventTime h" "selectionWindow (setDirty i h) = selectionWindow h"
  using painted_fields [OF painted_fill] painted_fields [OF painted_setDirty] by blast+

text \<open>A new size is seen in the window and nowhere else in the tree.\<close>

lemma setSize_shape: "\<exists>B. setSize i wd ht h = (upd_window i (\<lambda>w. w\<lparr>w_width := wd, w_height := ht\<rparr>) h)\<lparr>buffers := B\<rparr>"
  unfolding setSize_def set_buffer_def by blast

lemma resize_painted: "painted (upd_window i (\<lambda>w. w\<lparr>w_width := wd, w_height := ht\<rparr>) h) (resize_window i wd ht h)"
proof -
  let ?h1 = "upd_window i (\<lambda>w. w\<lparr>w_width := wd, w_height := ht\<rparr>) h"
  have "painted ?h1 (setSize i wd ht h)"
    using painted_set_buffer [of ?h1 i _ "wild ?h1"] unfolding setSize_def by simp
  also have "painted \<dots> (upd_window i (\<lambda>w. w\<lparr>w_backgroundFilled := False\<rparr>) (setSize i wd ht h))" by (rule painted_upd) simp
  finally show ?thesis unfolding resize_window_def by (rule painted_trans [OF _ painted_fill])
qed

lemma same_tree_delete: "same_tree h (deleteProperty w a h)"
proof -
  have "same_tree h (upd_window w (\<lambda>win. win\<lparr>w_properties := (w_properties win)(a := None)\<rparr>) h)" by (rule same_tree_upd) simp
  then show ?thesis unfolding deleteProperty_def Let_def
    by (auto split: option.split intro: same_tree_trans [OF _ told_same_tree])
qed

lemma same_tree_setProperty: "same_tree h (setProperty w a t f bs h)"
proof -
  let ?g = "\<lambda>win. win\<lparr>w_properties := (w_properties win)(a \<mapsto> \<lparr>p_type = t, p_format = f, p_value = bs\<rparr>)\<rparr>"
  have "same_tree h (upd_window w ?g h)" by (rule same_tree_upd) simp
  also have "same_tree \<dots> (property_notify w a PropertyNewValue (upd_window w ?g h))" by (rule told_same_tree) simp
  finally show ?thesis unfolding setProperty_def Let_def by (auto intro: same_tree_trans same_tree_delete)
qed

lemma stuck_upd [simp]: "stuck (upd_window w f h) = stuck h" by (simp add: upd_window_def)
lemma stuck_told [simp]: "stuck (property_notify w a s h) = stuck h" "stuck (notify w m mk h) = stuck h"
  "stuck (tell_parent p t mkp h) = stuck h" "stuck (tell_self i t mkp h) = stuck h"
  using told_fields [OF told_property_notify] told_fields [OF told_notify] told_fields [OF told_tell(1)]
    told_fields [OF told_tell(2)] by auto

lemma stuck_delete [simp]: "stuck (deleteProperty w a h) = stuck h"
  by (simp add: deleteProperty_def Let_def split: option.split)

lemma stuck_setProperty [simp]: "stuck (setProperty w a t f bs h) = stuck h"
  by (simp add: setProperty_def Let_def)

lemma stuck_setWmState [simp]: "stuck (setWmState w s h) = stuck h" by (simp add: setWmState_def)
lemma same_tree_setWmState: "same_tree h (setWmState w s h)" unfolding setWmState_def by (rule same_tree_setProperty)


lemma same_tree_walks:
  assumes "same_tree h h'"
  shows "walk stop w h' = walk stop w h" "getAncestorTree i h' = getAncestorTree i h"
    "screenToWindow i p h' = screenToWindow i p h" "windowToScreen i p h' = windowToScreen i p h"
    "isThisAndAncestorsMapped i h' = isThisAndAncestorsMapped i h"
    "between i j h' = between i j h"
proof -
  have w: "walk st w h' = walk st w h" for st w
    using assms by (simp add: walk_def same_tree_walk [OF assms]) (simp add: same_tree_def)
  show "walk stop w h' = walk stop w h" "getAncestorTree i h' = getAncestorTree i h"
    "screenToWindow i p h' = screenToWindow i p h" "windowToScreen i p h' = windowToScreen i p h"
    "isThisAndAncestorsMapped i h' = isThisAndAncestorsMapped i h" "between i j h' = between i j h"
    by (simp_all add: getAncestorTree_def screenToWindow_def windowToScreen_def isThisAndAncestorsMapped_def
        between_def w same_tree_reads [OF assms])
qed

lemma same_tree_transient:
  assumes "same_tree h h'"
  shows "isTransient i h' = isTransient i h" "children_front_to_back i h' = children_front_to_back i h"
  by (simp_all only: reads_skel same_tree_skel [OF assms] same_tree_walks [OF assms])

lemma same_tree_scan:
  assumes "same_tree h h'"
  shows "visit_child f p h' c = visit_child f p h c" "scan_children f p h' xs = scan_children f p h xs"
proof -
  show v: "visit_child f p h' c = visit_child f p h c" for c
    unfolding visit_child_def same_tree_reads [OF assms] same_tree_walks [OF assms] same_tree_transient [OF assms] ..
  show "scan_children f p h' xs = scan_children f p h xs"
  proof (induction xs)
    case (Cons x xs)
    show ?case unfolding scan_children.simps same_tree_transient [OF assms] v Cons ..
  qed simp
qed

lemma same_tree_point: "same_tree h h' \<Longrightarrow> from_point n p h' w = from_point n p h w"
proof (induction n arbitrary: w)
  case (Suc n)
  have "from_point n p h' = from_point n p h" using Suc by blast
  then show ?case by (simp add: same_tree_scan [OF Suc.prems] same_tree_transient [OF Suc.prems])
qed simp

lemma same_tree_getWindowFromPoint: "same_tree h h' \<Longrightarrow> getWindowFromPoint w p h' = getWindowFromPoint w p h"
proof -
  assume s: "same_tree h h'"
  then have "nextId h' = nextId h" by (simp add: same_tree_def)
  then show ?thesis by (simp only: getWindowFromPoint_def same_tree_point [OF s])
qed

section \<open>The tree of windows\<close>

definition up :: "xserver \<Rightarrow> (u32 \<times> u32) set" where "up h = {(i, p). parent_of i h = Some p}"

text \<open>Ids are those given out; parents exist and form no cycle; a window lists exactly the windows in the
  table whose parent it is, each once; the root has no parent.\<close>

definition tree_ok :: "xserver \<Rightarrow> bool" where
  "tree_ok h \<longleftrightarrow>
     (\<forall>i. windows h i \<noteq> None \<longrightarrow> i \<noteq> 0 \<and> i \<le> nextId h) \<and>
     (\<forall>i p. parent_of i h = Some p \<longrightarrow> windows h p \<noteq> None) \<and>
     acyclic (up h) \<and>
     (\<forall>p c. c \<in> set (children_of p h) \<longleftrightarrow> parent_of c h = Some p \<and> getWindow c h \<noteq> None) \<and>
     (\<forall>p. distinct (children_of p h)) \<and>
     windows h (root h) \<noteq> None \<and> parent_of (root h) h = None"

lemma tree_okD:
  assumes "tree_ok h"
  shows "windows h i \<noteq> None \<Longrightarrow> i \<noteq> 0 \<and> i \<le> nextId h" "parent_of i h = Some p \<Longrightarrow> windows h p \<noteq> None"
    "acyclic (up h)" "c \<in> set (children_of p h) \<longleftrightarrow> parent_of c h = Some p \<and> getWindow c h \<noteq> None"
    "distinct (children_of p h)" "windows h (root h) \<noteq> None" "parent_of (root h) h = None"
  using assms by (auto simp: tree_ok_def)

lemma same_tree_windows: "same_tree h h' \<Longrightarrow> (windows h' i = None) = (windows h i = None)"
  unfolding same_tree_def by (metis option.map_disc_iff)

lemma same_tree_up: "same_tree h h' \<Longrightarrow> up h' = up h" by (simp add: up_def same_tree_reads)

lemma same_tree_ok: "same_tree h h' \<Longrightarrow> tree_ok h' = tree_ok h"
  by (simp add: tree_ok_def same_tree_reads same_tree_windows same_tree_up) (simp add: same_tree_def)

text \<open>A chain of parents has no repetition, so it is no longer than the number of ids.\<close>

lemma chain_reach: "successively (\<lambda>a b. (a, b) \<in> r) (x # xs) \<Longrightarrow> y \<in> set xs \<Longrightarrow> (x, y) \<in> r\<^sup>+"
proof (induction xs arbitrary: x)
  case (Cons z zs)
  from Cons.prems(1) have xz: "(x, z) \<in> r" and s: "successively (\<lambda>a b. (a, b) \<in> r) (z # zs)" by simp_all
  show ?case
  proof (cases "y = z")
    case False
    then have "(z, y) \<in> r\<^sup>+" using Cons.IH [OF s] Cons.prems(2) by simp
    then show ?thesis using xz by (rule trancl_into_trancl2 [rotated])
  qed (use xz in auto)
qed simp

lemma chain_distinct: "acyclic r \<Longrightarrow> successively (\<lambda>a b. (a, b) \<in> r) xs \<Longrightarrow> distinct xs"
proof (induction xs)
  case (Cons x xs)
  have "x \<notin> set xs" using chain_reach [OF Cons.prems(2)] Cons.prems(1) by (auto simp: acyclic_def)
  moreover have "successively (\<lambda>a b. (a, b) \<in> r) xs" using Cons.prems(2) by (cases xs) auto
  ultimately show ?case using Cons by simp
qed simp

lemma length_ids: "distinct xs \<Longrightarrow> (\<And>x. x \<in> set xs \<Longrightarrow> x \<noteq> 0 \<and> x \<le> (n :: u32)) \<Longrightarrow> length xs \<le> unat n"
proof -
  assume d: "distinct xs" and b: "\<And>x. x \<in> set xs \<Longrightarrow> x \<noteq> 0 \<and> x \<le> n"
  have "unat ` set xs \<subseteq> {1..unat n}"
    using b by (auto simp: word_le_nat_alt Suc_le_eq unat_gt_0)
  then have "card (unat ` set xs) \<le> card {1..unat n}" by (intro card_mono) auto
  moreover have "card (unat ` set xs) = length xs" using d
    by (subst card_image) (auto simp: distinct_card inj_on_def word_unat_eq_iff)
  ultimately show ?thesis by simp
qed

lemma chain_exists: "tree_ok h \<Longrightarrow> successively (\<lambda>a b. (a, b) \<in> up h) (x # xs) \<Longrightarrow> windows h x \<noteq> None \<Longrightarrow> y \<in> set (x # xs) \<Longrightarrow>
    windows h y \<noteq> None"
proof (induction xs arbitrary: x)
  case (Cons z zs)
  from Cons.prems(2) have "parent_of x h = Some z" and c: "successively (\<lambda>a b. (a, b) \<in> up h) (z # zs)" by (simp_all add: up_def)
  then have z: "windows h z \<noteq> None" using tree_okD(2) [OF Cons.prems(1)] by blast
  show ?case
  proof (cases "y = x")
    case False
    then show ?thesis using Cons.IH [OF Cons.prems(1) c z] Cons.prems(4) by simp
  qed (use Cons.prems(3) in simp)
qed simp

lemma chain_length:
  "tree_ok h \<Longrightarrow> successively (\<lambda>a b. (a, b) \<in> up h) (x # xs) \<Longrightarrow> windows h x \<noteq> None \<Longrightarrow> length (x # xs) \<le> unat (nextId h)"
  by (rule length_ids) (use chain_distinct tree_okD(3) in blast, use chain_exists tree_okD(1) in blast)

lemma walk_None_chain: "walk_up n stop (Some i) h = None \<Longrightarrow>
    \<exists>xs. length xs = n \<and> successively (\<lambda>a b. (a, b) \<in> up h) (i # xs)"
proof (induction n arbitrary: i)
  case (Suc n)
  from Suc.prems have n: "walk_up n stop (parent_of i h) h = None" by (auto split: if_splits)
  then obtain p where p: "parent_of i h = Some p" by (cases "parent_of i h"; cases n) auto
  then obtain xs where "length xs = n" "successively (\<lambda>a b. (a, b) \<in> up h) (p # xs)" using Suc.IH n by auto
  then show ?case using p by (intro exI [of _ "p # xs"]) (simp add: up_def)
qed simp

lemma walk_returns: "tree_ok h \<Longrightarrow> (\<And>i. w = Some i \<Longrightarrow> windows h i \<noteq> None) \<Longrightarrow> walk stop w h \<noteq> None"
proof
  assume t: "tree_ok h" and ex: "\<And>i. w = Some i \<Longrightarrow> windows h i \<noteq> None" and n: "walk stop w h = None"
  obtain i where i: "w = Some i" using n by (cases w; cases "unat (nextId h)") (auto simp: walk_def)
  then have "walk_up (unat (nextId h)) stop (Some i) h = None" using n by (simp add: walk_def)
  from walk_None_chain [OF this] obtain xs where
    "length xs = unat (nextId h)" "successively (\<lambda>a b. (a, b) \<in> up h) (i # xs)" by blast
  then show False using chain_length [OF t] ex [OF i] by fastforce
qed

lemma walks_return:
  assumes "tree_ok h" "windows h i \<noteq> None"
  shows "getAncestorTree i h \<noteq> None" "screenToWindow i p h \<noteq> None" "windowToScreen i p h \<noteq> None"
    "isThisAndAncestorsMapped i h \<noteq> None" "between i j h \<noteq> None"
proof -
  have w: "walk st (Some i) h \<noteq> None" for st by (rule walk_returns [OF assms(1)]) (use assms(2) in simp)
  have "walk st (parent_of i h) h \<noteq> None" for st by (rule walk_returns [OF assms(1)]) (rule tree_okD(2) [OF assms(1)])
  then show "between i j h \<noteq> None" by (simp add: between_def)
  show "getAncestorTree i h \<noteq> None" using w by (simp add: getAncestorTree_def)
  then show "screenToWindow i p h \<noteq> None" "windowToScreen i p h \<noteq> None" by (simp_all add: screenToWindow_def windowToScreen_def)
  show "isThisAndAncestorsMapped i h \<noteq> None" using w by (simp add: isThisAndAncestorsMapped_def)
qed


section \<open>The window under a point\<close>

text \<open>No window is shown in front of another as its transient.\<close>

definition no_transients :: "xserver \<Rightarrow> bool" where
  "no_transients h \<longleftrightarrow> (\<forall>i w. windows h i = Some w \<longrightarrow> w_transients w = [] \<and> w_transientCached w = None)"

lemma no_transients_isTransient [simp]: "no_transients h \<Longrightarrow> isTransient i h = Some False"
  by (simp add: no_transients_def isTransient_def split: option.split)

lemma no_transients_children:
  "no_transients h \<Longrightarrow> children_front_to_back w h = map (\<lambda>c. (c, True)) (filter (\<lambda>c. mapped_at c h) (rev (children_of w h)))"
  by (auto simp: no_transients_def children_front_to_back_def children_of_def filter_map o_def split: option.split)

lemma same_tree_no_transients: "same_tree h h' \<Longrightarrow> no_transients h' = no_transients h"
proof -
  have i: "no_transients h = (\<forall>i. case skel_at i h of None \<Rightarrow> True | Some w \<Rightarrow> w_transients w = [] \<and> w_transientCached w = None)" for h
    by (auto simp: no_transients_def skel_at_def split: option.split)
  show "same_tree h h' \<Longrightarrow> no_transients h' = no_transients h" by (simp add: i same_tree_skel)
qed

definition down_fuel :: "nat \<Rightarrow> u32 \<Rightarrow> xserver \<Rightarrow> bool" where
  "down_fuel n w h \<longleftrightarrow> (\<forall>xs. successively (\<lambda>a b. (b, a) \<in> up h) (w # xs) \<longrightarrow> length xs < n)"

lemma down_fuel_child: "down_fuel (Suc n) w h \<Longrightarrow> parent_of c h = Some w \<Longrightarrow> down_fuel n c h"
  unfolding down_fuel_def
proof (intro allI impI)
  fix xs assume a: "\<forall>xs. successively (\<lambda>a b. (b, a) \<in> up h) (w # xs) \<longrightarrow> length xs < Suc n"
    and c: "parent_of c h = Some w" "successively (\<lambda>a b. (b, a) \<in> up h) (c # xs)"
  then have "successively (\<lambda>a b. (b, a) \<in> up h) (w # c # xs)" by (simp add: up_def)
  with a show "length xs < n" by fastforce
qed

lemma down_fuel_0 [simp]: "\<not> down_fuel 0 w h" unfolding down_fuel_def by (auto intro: exI [of _ "[]"])

lemma down_fuel_ids:
  assumes "tree_ok h" "windows h w \<noteq> None"
  shows "down_fuel (unat (nextId h)) w h"
  unfolding down_fuel_def
proof (intro allI impI)
  fix xs assume d: "successively (\<lambda>a b. (b, a) \<in> up h) (w # xs)"
  let ?ys = "rev (w # xs)"
  have u: "successively (\<lambda>a b. (a, b) \<in> up h) ?ys" using d by (simp only: successively_rev)
  have e: "windows h (hd ?ys) \<noteq> None"
  proof (cases xs rule: rev_cases)
    case (snoc zs z)
    then have "successively (\<lambda>a b. (b, a) \<in> up h) ((w # zs) @ [z])" using d by simp
    then have "(z, last (w # zs)) \<in> up h" by (simp only: successively_append_iff) auto
    then show ?thesis using snoc by (auto simp: up_def parent_of_def split: option.splits)
  qed (use assms(2) in simp)
  obtain z zs where z: "?ys = z # zs" by (cases ?ys) auto
  have "length (z # zs) \<le> unat (nextId h)" by (rule chain_length [OF assms(1)]) (use u e z in simp_all)
  then have "length ?ys \<le> unat (nextId h)" by (simp only: z)
  then show "length xs < unat (nextId h)" by simp
qed

lemma down_fuel_mono: "down_fuel m w h \<Longrightarrow> m \<le> n \<Longrightarrow> down_fuel n w h" unfolding down_fuel_def by fastforce

lemma child_parent: "tree_ok h \<Longrightarrow> c \<in> set (children_of w h) \<Longrightarrow> parent_of c h = Some w" by (simp add: tree_okD(4))

lemma scan_plain:
  assumes "no_transients h" "screenToWindow w p h = Some q" "\<And>c. c \<in> set cs \<Longrightarrow> parent_of c h = Some w"
    and "\<And>c. c \<in> set cs \<Longrightarrow> f c \<noteq> None"
  shows "scan_children f p h (map (\<lambda>c. (c, True)) cs) =
    Some (case find (\<lambda>c. in_child c q h) cs of None \<Rightarrow> None | Some c \<Rightarrow> f c)"
  using assms(3,4)
proof (induction cs)
  case (Cons c cs)
  then obtain r where r: "f c = Some r" by auto
  have "visit_child f p h c = Some (if in_child c q h then Some r else None)"
    using Cons.prems(1) assms(1,2) r by (simp add: visit_child_def)
  then show ?case using Cons r assms(1) by simp
qed simp

lemma find_mem: "find Q xs = Some x \<Longrightarrow> x \<in> set xs \<and> Q x" by (induction xs) (auto split: if_splits)

lemma from_point_step:
  assumes "tree_ok h" "no_transients h" "screenToWindow w p h = Some q"
    and "\<And>c. c \<in> set (children_of w h) \<Longrightarrow> from_point n p h c \<noteq> None"
  shows "from_point (Suc n) p h w =
    (case find (\<lambda>c. mapped_at c h \<and> in_child c q h) (rev (children_of w h)) of None \<Rightarrow> Some w | Some c \<Rightarrow> from_point n p h c)"
proof -
  let ?cs = "filter (\<lambda>c. mapped_at c h) (rev (children_of w h))"
  have f: "find (\<lambda>c. in_child c q h) (filter Q xs) = find (\<lambda>c. Q c \<and> in_child c q h) xs" for Q xs
    by (induction xs) auto
  have "scan_children (from_point n p h) p h (map (\<lambda>c. (c, True)) ?cs) =
      Some (case find (\<lambda>c. in_child c q h) ?cs of None \<Rightarrow> None | Some c \<Rightarrow> from_point n p h c)"
    by (rule scan_plain [OF assms(2,3)]) (use assms(4) child_parent [OF assms(1)] in auto)
  moreover have "from_point n p h c \<noteq> None" if "find (\<lambda>c. mapped_at c h \<and> in_child c q h) (rev (children_of w h)) = Some c" for c
    using assms(4) find_mem [OF that] by simp
  ultimately show ?thesis
    by (auto simp: no_transients_children [OF assms(2)] f split: option.split)
qed

lemma from_point_returns:
  "tree_ok h \<Longrightarrow> no_transients h \<Longrightarrow> windows h w \<noteq> None \<Longrightarrow> down_fuel n w h \<Longrightarrow> from_point n p h w \<noteq> None"
proof (induction n arbitrary: w)
  case (Suc n)
  obtain q where q: "screenToWindow w p h = Some q" using walks_return(2) [OF Suc.prems(1,3)] by blast
  have c: "from_point n p h c \<noteq> None" if "c \<in> set (children_of w h)" for c
  proof (rule Suc.IH [OF Suc.prems(1,2)])
    show "windows h c \<noteq> None" using tree_okD(4) [OF Suc.prems(1)] that by (auto simp: getWindow_def split: option.splits)
    show "down_fuel n c h" by (rule down_fuel_child [OF Suc.prems(4)]) (rule child_parent [OF Suc.prems(1) that])
  qed
  note step = from_point_step [OF Suc.prems(1,2) q c]
  show ?case
    by (cases "find (\<lambda>c. mapped_at c h \<and> in_child c q h) (rev (children_of w h))")
      (use c in \<open>auto simp: step simp del: from_point.simps dest!: find_mem\<close>)
qed simp


lemma getWindowFromPoint_returns:
  "tree_ok h \<Longrightarrow> no_transients h \<Longrightarrow> windows h w \<noteq> None \<Longrightarrow> getWindowFromPoint w p h \<noteq> None"
  unfolding getWindowFromPoint_def
  by (rule from_point_returns) (auto intro: down_fuel_mono [OF down_fuel_ids])

lemma from_point_exists: "tree_ok h \<Longrightarrow> no_transients h \<Longrightarrow> windows h w \<noteq> None \<Longrightarrow> down_fuel n w h \<Longrightarrow>
    from_point n p h w = Some r \<Longrightarrow> windows h r \<noteq> None"
proof (induction n arbitrary: w)
  case (Suc n)
  obtain q where q: "screenToWindow w p h = Some q" using walks_return(2) [OF Suc.prems(1,3)] by blast
  have e: "windows h c \<noteq> None" "down_fuel n c h" if "c \<in> set (children_of w h)" for c
    using tree_okD(4) [OF Suc.prems(1)] that down_fuel_child [OF Suc.prems(4)] child_parent [OF Suc.prems(1) that]
    by (auto simp: getWindow_def split: option.splits)
  have c: "from_point n p h c \<noteq> None" if "c \<in> set (children_of w h)" for c
    by (rule from_point_returns [OF Suc.prems(1,2)]) (use e that in auto)
  note step = from_point_step [OF Suc.prems(1,2) q c]
  show ?case
  proof (cases "find (\<lambda>c. mapped_at c h \<and> in_child c q h) (rev (children_of w h))")
    case None
    then show ?thesis using Suc.prems by (simp add: step del: from_point.simps)
  next
    case (Some c)
    have "c \<in> set (children_of w h)" using find_mem [OF Some] by simp
    moreover have "from_point n p h c = Some r" using Suc.prems(5) Some by (simp add: step del: from_point.simps)
    ultimately show ?thesis using Suc.IH [OF Suc.prems(1,2)] e by blast
  qed
qed simp

lemma getWindowFromPoint_exists:
  "tree_ok h \<Longrightarrow> no_transients h \<Longrightarrow> windows h w \<noteq> None \<Longrightarrow> getWindowFromPoint w p h = Some r \<Longrightarrow> windows h r \<noteq> None"
proof -
  assume a: "tree_ok h" "no_transients h" "windows h w \<noteq> None" and r: "getWindowFromPoint w p h = Some r"
  have "down_fuel (Suc (unat (nextId h))) w h" by (rule down_fuel_mono [OF down_fuel_ids [OF a(1,3)]]) simp
  then show ?thesis using from_point_exists [OF a] r unfolding getWindowFromPoint_def by blast
qed

section \<open>Moves of the pointer\<close>

text \<open>A fold over displays whose steps only tell the clients, each from the state the last one left.\<close>

lemma told_fold_tree:
  assumes "\<And>x h'. x \<in> set xs \<Longrightarrow> told h h' \<Longrightarrow> told h' (f x h')"
  shows "told h (fold f xs h)"
proof -
  have "told h (fold f xs g)" if "told h g" for g
    using assms that
  proof (induction xs arbitrary: g)
    case (Cons x xs)
    have "told h (f x g)" using Cons.prems(1) [of x g] Cons.prems(2) told_trans by simp
    then show ?case using Cons.IH Cons.prems(1) by simp
  qed simp
  then show ?thesis by simp
qed

lemma told_iterate_tree:
  assumes "\<And>i h'. told h h' \<Longrightarrow> told h' (f i h')"
  shows "told h (iterateEventMask w m f h)"
  unfolding iterateEventMask_def
  by (rule told_fold_tree) (simp add: assms split: option.split)

lemma told_tree_ok: "told h h' \<Longrightarrow> tree_ok h \<Longrightarrow> tree_ok h'" using same_tree_ok told_same_tree by blast
lemma told_windows: "told h h' \<Longrightarrow> windows h' = windows h" by (auto simp: told_def)

lemma crossing_told:
  assumes "tree_ok h" "windows h w \<noteq> None"
  shows "told h (crossingNotify ins w p mode detail i h)"
proof -
  have "walk st (Some w) h \<noteq> None" for st by (rule walk_returns [OF assms(1)]) (use assms(2) in simp)
  then have "doesThisOrAncestorHaveFocus w h \<noteq> None" 
    by (cases "inputFocus h") (auto simp: doesThisOrAncestorHaveFocus_def)
  then show ?thesis using walks_return(2) [OF assms, of p] by (auto simp: crossingNotify_def)
qed

lemma leave_told:
  assumes "tree_ok h" "windows h w \<noteq> None"
  shows "told h (leave w p mode detail h)" "told h (enter w p mode detail h)"
  unfolding leave_def enter_def
  by (rule told_iterate_tree; rule crossing_told; use assms told_tree_ok told_windows in fastforce)+

lemma walk_up_exists: "tree_ok h \<Longrightarrow> (\<And>i. w = Some i \<Longrightarrow> windows h i \<noteq> None) \<Longrightarrow> walk_up n stop w h = Some (xs, e) \<Longrightarrow>
    x \<in> set xs \<Longrightarrow> windows h x \<noteq> None"
proof (induction n arbitrary: w xs)
  case 0
  then show ?case by (auto split: option.splits if_splits)
next
  case (Suc n)
  then obtain i where i: "w = Some i" by (auto split: option.splits)
  show ?case
  proof (cases "x = i")
    case False
    then obtain ys where "walk_up n stop (parent_of i h) h = Some (ys, e)" "x \<in> set ys"
      using Suc.prems(3,4) i by (auto split: if_splits)
    then show ?thesis using Suc.IH [OF Suc.prems(1)] tree_okD(2) [OF Suc.prems(1)] by blast
  qed (use Suc.prems(2) i in blast)
qed

lemma between_exists: "tree_ok h \<Longrightarrow> between w j h = Some xs \<Longrightarrow> x \<in> set xs \<Longrightarrow> windows h x \<noteq> None"
  unfolding between_def walk_def
  by (auto dest: walk_up_exists [rotated 2] tree_okD(2))

lemma told_fold_windows:
  assumes "tree_ok h" "\<And>x. x \<in> set xs \<Longrightarrow> windows h x \<noteq> None"
  shows "told h (fold (\<lambda>w. leave w p mode detail) xs h)" "told h (fold (\<lambda>w. enter w p mode detail) xs h)"
  by (rule told_fold_tree; rule leave_told; use assms told_tree_ok told_windows in fastforce)+

lemma pointer_moves_told:
  assumes t: "tree_ok h" and e: "windows h a \<noteq> None" "windows h b \<noteq> None"
  shows "told h (pointerMovedParentToChild a b p mode h)" "told h (pointerMovedChildToParent a b p mode h)"
    "told h (pointerMovedBetweenSiblings a b c p mode h)"
proof -
  have go: "told h h' \<Longrightarrow> told h (enter b p mode d h')" for h' d
    using t e(2) told_trans leave_told(2) told_tree_ok told_windows by metis
  show "told h (pointerMovedParentToChild a b p mode h)"
  proof -
    let ?h1 = "leave a p mode NotifyAncestor h"
    have l: "told h ?h1" by (rule leave_told [OF t e(1)])
    then have t1: "tree_ok ?h1" using t told_tree_ok by blast
    obtain ws where ws: "between b a ?h1 = Some ws" using walks_return(5) [OF t1] e(2) told_windows [OF l] by fastforce
    have "told ?h1 (fold (\<lambda>w. leave w p mode NotifyVirtual) (rev ws) ?h1)"
      by (rule told_fold_windows(1) [OF t1]) (use between_exists [OF t1 ws] in simp)
    then show ?thesis using go told_trans [OF l] ws by (simp add: pointerMovedParentToChild_def Let_def)
  qed
  show "told h (pointerMovedChildToParent a b p mode h)"
  proof -
    let ?h1 = "leave a p mode NotifyInferior h"
    have l: "told h ?h1" by (rule leave_told [OF t e(1)])
    then have t1: "tree_ok ?h1" using t told_tree_ok by blast
    obtain ws where ws: "between a b ?h1 = Some ws" using walks_return(5) [OF t1] e(1) told_windows [OF l] by fastforce
    have "told ?h1 (fold (\<lambda>w. enter w p mode NotifyVirtual) ws ?h1)"
      by (rule told_fold_windows(2) [OF t1]) (use between_exists [OF t1 ws] in simp)
    then show ?thesis using go told_trans [OF l] ws by (simp add: pointerMovedChildToParent_def Let_def)
  qed
  show "told h (pointerMovedBetweenSiblings a b c p mode h)"
  proof -
    let ?h1 = "leave a p mode NotifyNonlinear h"
    have l: "told h ?h1" by (rule leave_told [OF t e(1)])
    then have t1: "tree_ok ?h1" using t told_tree_ok by blast
    obtain ws where ws: "between a c ?h1 = Some ws" using walks_return(5) [OF t1] e(1) told_windows [OF l] by fastforce
    let ?h2 = "fold (\<lambda>w. leave w p mode NotifyNonlinearVirtual) ws ?h1"
    have "told ?h1 ?h2"
      by (rule told_fold_windows(1) [OF t1]) (use between_exists [OF t1 ws] in simp)
    then have l2: "told h ?h2" using l told_trans by blast
    then have t2: "tree_ok ?h2" using t told_tree_ok by blast
    obtain vs where vs: "between b c ?h2 = Some vs" using walks_return(5) [OF t2] e(2) told_windows [OF l2] by fastforce
    have "told ?h2 (fold (\<lambda>w. enter w p mode NotifyNonlinearVirtual) (rev vs) ?h2)"
      by (rule told_fold_windows(2) [OF t2]) (use between_exists [OF t2 vs] in simp)
    then show ?thesis using go told_trans [OF l2] ws vs by (simp add: pointerMovedBetweenSiblings_def Let_def)
  qed
qed

lemma pointerMoved_told:
  assumes "tree_ok h" "windows h a \<noteq> None" "windows h b \<noteq> None"
  shows "told h (pointerMoved a b p mode h)"
proof -
  have "getLeastCommonAncestor a b h \<noteq> None"
    using walks_return(1) [OF assms(1,2)] walks_return(1) [OF assms(1,3)] by (auto simp: getLeastCommonAncestor_def)
  then obtain c where "getLeastCommonAncestor a b h = Some c" by blast
  then show ?thesis using pointer_moves_told [OF assms, where p = p and mode = mode] by (simp add: pointerMoved_def)
qed


section \<open>The window under a point, declaratively\<close>

text \<open>A window shows at a point when the point, relative to its parent, lies in its rectangle.\<close>

definition shows_at :: "c_int \<times> c_int \<Rightarrow> xserver \<Rightarrow> u32 \<Rightarrow> bool" where
  "shows_at p h c \<longleftrightarrow> mapped_at c h \<and> (\<exists>w q. parent_of c h = Some w \<and> screenToWindow w p h = Some q \<and> in_child c q h)"

text \<open>From a window, the search goes into the topmost child that shows at the point and stops at a window
  none of whose children does.\<close>

inductive under_point :: "c_int \<times> c_int \<Rightarrow> xserver \<Rightarrow> u32 \<Rightarrow> u32 \<Rightarrow> bool" for p h where
  here: "(\<forall>c \<in> set (children_of w h). \<not> shows_at p h c) \<Longrightarrow> under_point p h w w"
| inside: "children_of w h = behind @ c # front \<Longrightarrow> shows_at p h c \<Longrightarrow> (\<forall>d \<in> set front. \<not> shows_at p h d) \<Longrightarrow>
    under_point p h c r \<Longrightarrow> under_point p h w r"

lemma from_point_under:
  "tree_ok h \<Longrightarrow> no_transients h \<Longrightarrow> windows h w \<noteq> None \<Longrightarrow> down_fuel n w h \<Longrightarrow> from_point n p h w = Some r \<Longrightarrow> under_point p h w r"
proof (induction n arbitrary: w)
  case (Suc n)
  obtain q where q: "screenToWindow w p h = Some q" using walks_return(2) [OF Suc.prems(1,3)] by blast
  have e: "windows h c \<noteq> None" "down_fuel n c h" if "c \<in> set (children_of w h)" for c
    using tree_okD(4) [OF Suc.prems(1)] that down_fuel_child [OF Suc.prems(4)] child_parent [OF Suc.prems(1) that]
    by (auto simp: getWindow_def split: option.splits)
  have c: "from_point n p h c \<noteq> None" if "c \<in> set (children_of w h)" for c
    by (rule from_point_returns [OF Suc.prems(1,2)]) (use e that in auto)
  have s: "shows_at p h c = (mapped_at c h \<and> in_child c q h)" if "c \<in> set (children_of w h)" for c
    using child_parent [OF Suc.prems(1) that] q by (cases q) (auto simp: shows_at_def)
  note step = from_point_step [OF Suc.prems(1,2) q c]
  show ?case
  proof (cases "find (\<lambda>c. mapped_at c h \<and> in_child c q h) (rev (children_of w h))")
    case None
    then have "r = w" using Suc.prems(5) by (simp add: step del: from_point.simps)
    moreover have "\<forall>c \<in> set (children_of w h). \<not> shows_at p h c" using None s by (auto simp: find_None_iff)
    ultimately show ?thesis using under_point.here by blast
  next
    case (Some c)
    then obtain k where k: "k < length (children_of w h)" "mapped_at c h \<and> in_child c q h" "c = rev (children_of w h) ! k"
        "\<forall>j<k. \<not> (mapped_at (rev (children_of w h) ! j) h \<and> in_child (rev (children_of w h) ! j) q h)"
      by (auto simp: find_Some_iff)
    let ?cs = "rev (children_of w h)"
    have "?cs = take k ?cs @ c # drop (Suc k) ?cs" using k(1,3) by (simp add: id_take_nth_drop)
    then have split: "children_of w h = rev (drop (Suc k) ?cs) @ c # rev (take k ?cs)"
      by (metis append.assoc append_Cons append_Nil rev.simps(2) rev_append rev_rev_ident)
    have cin: "c \<in> set (children_of w h)" using find_mem [OF Some] by simp
    have "\<not> shows_at p h d" if d: "d \<in> set (rev (take k ?cs))" for d
    proof -
      obtain j where "j < k" "d = ?cs ! j" using d by (auto simp: in_set_conv_nth)
      moreover have "d \<in> set (children_of w h)" using d by (auto dest: in_set_takeD)
      ultimately show ?thesis using k(4) s by auto
    qed
    moreover have "under_point p h c r"
      using Suc.IH [OF Suc.prems(1,2)] e [OF cin] Suc.prems(5) Some by (simp add: step del: from_point.simps)
    ultimately show ?thesis using under_point.inside [OF split] s [OF cin] k(2) by blast
  qed
qed simp

lemma under_point_unique: "under_point p h w r \<Longrightarrow> under_point p h w r' \<Longrightarrow> r = r'"
proof (induction arbitrary: r' rule: under_point.induct)
  case (here w)
  then show ?case by (auto elim: under_point.cases)
next
  case (inside w behind c front r)
  from inside.prems show ?case
  proof (cases rule: under_point.cases)
    case here
    then show ?thesis using inside.hyps by simp
  next
    case (inside behind' c' front')
    have "c' = c"
    proof (cases "length front = length front'")
      case True
      then show ?thesis using inside(1) \<open>children_of w h = behind @ c # front\<close> by simp
    next
      case False
      have e: "behind @ [c] @ front = behind' @ [c'] @ front'" using inside(1) \<open>children_of w h = behind @ c # front\<close> by simp
      then have "c \<in> set front' \<or> c' \<in> set front"
        using False by (auto simp: append_eq_append_conv2 Cons_eq_append_conv append_eq_Cons_conv)
      then show ?thesis using inside(2,3) \<open>shows_at p h c\<close> \<open>\<forall>d\<in>set front. \<not> shows_at p h d\<close> by blast
    qed
    then show ?thesis using inside(4) \<open>\<And>r'. under_point p h c r' \<Longrightarrow> r = r'\<close> by blast
  qed
qed


end
