(* ===== verification/HostDelivery.thy ===== *)
theory HostDelivery
  imports HostPointer
begin

text \<open>
  Native input becomes events (\<^verbatim>\<open>XServer::mouseMove\<close>, \<^verbatim>\<open>mouseButton\<close> and \<^verbatim>\<open>key\<close> of \<^verbatim>\<open>source/x11/xserver.cpp\<close>, with the
  notifications of \<^verbatim>\<open>xwindow.cpp\<close>): the event goes to the grabbing display, or from the window under the pointer, or
  that with the focus, up to the first window some display selected it on.  The displays of the bridge never select
  XInput2 events, which are not offered to them; the cursor image, the full-screen stand-in window and the log are
  not modelled.
\<close>

section \<open>Notifications\<close>

definition motionNotify :: "u32 \<Rightarrow> c_int \<times> c_int \<Rightarrow> u32 \<Rightarrow> xserver \<Rightarrow> xserver" where
  "motionNotify w p i h =
     (case screenToWindow w p h of
        None \<Rightarrow> mark_stuck h
      | Some (x, y) \<Rightarrow> upd_display i (queue_event (\<lambda>d serial. [MotionNotify, serial, 0, 0, w, d_root d, 0, eventTime h,
          x, y, fst p, snd p, getInputModifiers h, NotifyNormal, 1])) h)"

definition keyNotify :: "u32 \<Rightarrow> u32 \<Rightarrow> bool \<Rightarrow> c_int \<times> c_int \<Rightarrow> u32 \<Rightarrow> xserver \<Rightarrow> xserver" where
  "keyNotify w keycode pressed p i h =
     (case screenToWindow w p h of
        None \<Rightarrow> mark_stuck h
      | Some (x, y) \<Rightarrow> upd_display i (queue_event (\<lambda>d serial. [if pressed then KeyPress else KeyRelease, serial, 0, 0, w,
          d_root d, 0, eventTime h, x, y, fst p, snd p, getInputModifiers h, keycode, 1])) h)"

text \<open>The state before the event: a button that is pressed was up, one that is released was down.\<close>

definition Button1Mask :: u32 where "Button1Mask = 0x100"

definition button_state :: "u32 \<Rightarrow> bool \<Rightarrow> u32 \<Rightarrow> u32" where
  "button_state button pressed state =
     (let bit = push_bit (unat (button - 1)) Button1Mask in if pressed then state AND NOT bit else state OR bit)"

definition buttonNotify :: "u32 \<Rightarrow> u32 \<Rightarrow> bool \<Rightarrow> c_int \<times> c_int \<Rightarrow> u32 \<Rightarrow> xserver \<Rightarrow> xserver" where
  "buttonNotify w button pressed p i h =
     (case screenToWindow w p h of
        None \<Rightarrow> mark_stuck h
      | Some (x, y) \<Rightarrow> upd_display i (queue_event (\<lambda>d serial. [if pressed then ButtonPress else ButtonRelease, serial, 0, 0,
          w, d_root d, 0, eventTime h, x, y, fst p, snd p, button_state button pressed (getInputModifiers h), button, 1])) h)"

section \<open>One window\<close>

text \<open>Some display is told: it exists and selected one of the events on the window.\<close>

definition selected :: "u32 \<Rightarrow> u32 \<Rightarrow> xserver \<Rightarrow> bool" where
  "selected w m h = list_ex (\<lambda>i. case displays h i of None \<Rightarrow> False | Some d \<Rightarrow> getEventMask w d AND m \<noteq> 0) (displayOrder h)"

definition mouseMoveScreenCoords :: "c_int \<times> c_int \<Rightarrow> u32 \<Rightarrow> xserver \<Rightarrow> bool \<times> xserver" where
  "mouseMoveScreenCoords p w h =
     (selected w (ucast PointerMotionMask) h, iterateEventMask w (ucast PointerMotionMask) (motionNotify w p) h)"

definition button_mask :: "bool \<Rightarrow> u32" where
  "button_mask pressed = ucast (if pressed then ButtonPressMask else ButtonReleaseMask)"

definition mouseButtonScreenCoords :: "u32 \<Rightarrow> bool \<Rightarrow> c_int \<times> c_int \<Rightarrow> u32 \<Rightarrow> xserver \<Rightarrow> bool \<times> xserver" where
  "mouseButtonScreenCoords button pressed p w h =
     (selected w (button_mask pressed) h, iterateEventMask w (button_mask pressed) (buttonNotify w button pressed p) h)"

definition key_mask :: "bool \<Rightarrow> u32" where
  "key_mask pressed = ucast (if pressed then KeyPressMask else KeyReleaseMask)"

definition keyScreenCoords :: "u32 \<Rightarrow> bool \<Rightarrow> c_int \<times> c_int \<Rightarrow> u32 \<Rightarrow> xserver \<Rightarrow> bool \<times> xserver" where
  "keyScreenCoords keycode pressed p w h =
     (selected w (key_mask pressed) h, iterateEventMask w (key_mask pressed) (keyNotify w keycode pressed p) h)"

section \<open>Up the tree\<close>

text \<open>From a window to its ancestors until one has told somebody; the fuel is as for the walks.\<close>

primrec rise :: "nat \<Rightarrow> (u32 \<Rightarrow> xserver \<Rightarrow> bool \<times> xserver) \<Rightarrow> u32 option \<Rightarrow> xserver \<Rightarrow> xserver" where
  "rise 0 tell w h = (case w of None \<Rightarrow> h | Some _ \<Rightarrow> mark_stuck h)"
| "rise (Suc n) tell w h =
     (case w of
        None \<Rightarrow> h
      | Some i \<Rightarrow> (case tell i h of (found, h') \<Rightarrow> if found then h' else rise n tell (parent_of i h') h'))"

definition rise_from :: "(u32 \<Rightarrow> xserver \<Rightarrow> bool \<times> xserver) \<Rightarrow> u32 \<Rightarrow> xserver \<Rightarrow> xserver" where
  "rise_from tell w h = rise (unat (nextId h)) tell (Some w) h"

text \<open>A grab is in force when its window and its display are still there.\<close>

definition grab_holds :: "xserver \<Rightarrow> bool" where
  "grab_holds h \<longleftrightarrow> getWindow (grabbedId h) h \<noteq> None \<and> displays h (grabbedDisplayId h) \<noteq> None"

definition move_to :: "c_int \<times> c_int \<Rightarrow> xserver \<Rightarrow> xserver" where
  "move_to p h =
     (case getWindowFromPoint (root h) p h of
        None \<Rightarrow> mark_stuck h
      | Some wnd \<Rightarrow> rise_from (mouseMoveScreenCoords p) wnd
          (if wnd = pointerWindow h then h
           else (pointerMoved (pointerWindow h) wnd p NotifyNormal h)\<lparr>pointerWindow := wnd\<rparr>))"

text \<open>\<^verbatim>\<open>half\<close> is the middle of the native screen, from which relative moves are counted.\<close>

definition mouseMove :: "c_int \<times> c_int \<Rightarrow> c_int \<times> c_int \<Rightarrow> bool \<Rightarrow> xserver \<Rightarrow> xserver" where
  "mouseMove half p relative h =
     (let q = (if relative then (fst p + fst half, snd p + snd half) else p) in
      if isGrabbed h then
        if grab_holds h then
          if grabbedMask h AND ucast PointerMotionMask = 0 then h
          else motionNotify (grabbedId h) q (grabbedDisplayId h) h
        else move_to q (ungrabPointer h)
      else move_to q h)"

definition press_at :: "u32 \<Rightarrow> bool \<Rightarrow> c_int \<times> c_int \<Rightarrow> xserver \<Rightarrow> xserver" where
  "press_at button pressed p h =
     (case getWindowFromPoint (root h) p h of
        None \<Rightarrow> mark_stuck h
      | Some wnd \<Rightarrow> rise_from (mouseButtonScreenCoords button pressed p) wnd h)"

definition mouseButton :: "u32 \<Rightarrow> c_int \<times> c_int \<Rightarrow> bool \<Rightarrow> xserver \<Rightarrow> xserver" where
  "mouseButton button p pressed h =
     (if isGrabbed h then
        if grab_holds h then
          if grabbedMask h AND button_mask pressed = 0 then h
          else buttonNotify (grabbedId h) button pressed p (grabbedDisplayId h) h
        else press_at button pressed p (ungrabPointer h)
      else press_at button pressed p h)"

definition key_event :: "u32 \<Rightarrow> bool \<Rightarrow> xserver \<Rightarrow> xserver" where
  "key_event keycode pressed h =
     (case inputFocus h of
        None \<Rightarrow> h
      | Some f \<Rightarrow>
          let p = (mouseX h, mouseY h) in
          (case (if inputFocusIsPointerRoot h then getWindowFromPoint (root h) p h else Some f) of
             None \<Rightarrow> mark_stuck h
           | Some wnd \<Rightarrow> rise_from (keyScreenCoords keycode pressed p) wnd h))"

end
