(* ===== verification/HostSession.thy ===== *)
theory HostSession
  imports HostTree HostTable HostDelivery
begin

text \<open>
  Sessions of window requests: every handler keeps the tree of windows and returns; and how the
  requests order, place and move windows.
\<close>

section \<open>Requests that keep the shape of the tree\<close>

text \<open>What every request relies on and keeps.\<close>

definition good :: "xserver \<Rightarrow> bool" where
  "good h \<longleftrightarrow> tree_ok h \<and> no_transients h \<and> windows h (pointerWindow h) \<noteq> None \<and> \<not> stuck h"

lemma goodD: assumes "good h"
  shows "tree_ok h" "no_transients h" "windows h (pointerWindow h) \<noteq> None" "\<not> stuck h"
  using assms by (simp_all add: good_def)

lemma good_same_tree:
  "good h \<Longrightarrow> same_tree h h' \<Longrightarrow> stuck h' = stuck h \<Longrightarrow> windows h (pointerWindow h') \<noteq> None \<Longrightarrow> good h'"
  by (simp add: good_def same_tree_ok same_tree_no_transients same_tree_windows)

lemma good_told: "good h \<Longrightarrow> told h h' \<Longrightarrow> good h'"
proof -
  assume g: "good h" and t: "told h h'"
  have "windows h (pointerWindow h') \<noteq> None" using told_fields [OF t] goodD(3) [OF g] by simp
  then show ?thesis using good_same_tree [OF g told_same_tree [OF t]] told_fields [OF t] by simp
qed

lemma good_pointer_moved:
  "good h \<Longrightarrow> windows h a \<noteq> None \<Longrightarrow> windows h b \<noteq> None \<Longrightarrow> good (pointerMoved a b p mode h)"
  by (rule good_told [OF _ pointerMoved_told]) (auto simp: goodD)

lemma good_set_pointer: "good h \<Longrightarrow> windows h w \<noteq> None \<Longrightarrow> good (h\<lparr>pointerWindow := w\<rparr>)"
  by (rule good_same_tree [of h]) (simp_all add: same_tree_def)

lemma windows_pointerMoved:
  "good h \<Longrightarrow> windows h a \<noteq> None \<Longrightarrow> windows h b \<noteq> None \<Longrightarrow> windows (pointerMoved a b p mode h) = windows h"
  by (rule told_windows [OF pointerMoved_told]) (auto simp: goodD)

lemma good_refresh: "good h \<Longrightarrow> good (refresh_pointer h)"
proof -
  assume g: "good h"
  have r: "windows h (root h) \<noteq> None" by (rule tree_okD(6) [OF goodD(1) [OF g]])
  obtain w where w: "getWindowFromPoint (root h) (mouseX h, mouseY h) h = Some w"
    using getWindowFromPoint_returns [OF goodD(1,2) [OF g] r] by blast
  have e: "windows h w \<noteq> None" by (rule getWindowFromPoint_exists [OF goodD(1,2) [OF g] r w])
  let ?h1 = "pointerMoved (pointerWindow h) w (mouseX h, mouseY h) NotifyNormal h"
  have "good (?h1\<lparr>pointerWindow := w\<rparr>)"
    by (rule good_set_pointer [OF good_pointer_moved [OF g goodD(3) [OF g] e]])
      (use windows_pointerMoved [OF g goodD(3) [OF g] e] e in simp)
  then show ?thesis using w g by (simp add: refresh_pointer_def Let_def)
qed

lemma good_ungrab: "good h \<Longrightarrow> good (ungrabPointer h)"
proof (cases "grabbedId h = 0")
  case False
  assume g: "good h"
  let ?h1 = "h\<lparr>grabbedId := 0, grabbedDisplayId := 0, grabbedConfinedId := 0, isGrabbed := False\<rparr>"
  have g1: "good ?h1" by (rule good_same_tree [OF g]) (simp_all add: same_tree_def goodD(3) [OF g])
  have r: "windows ?h1 (root ?h1) \<noteq> None" by (rule tree_okD(6) [OF goodD(1) [OF g1]])
  obtain w where w: "getWindowFromPoint (root ?h1) (mouseX h, mouseY h) ?h1 = Some w"
    using getWindowFromPoint_returns [OF goodD(1,2) [OF g1] r] by blast
  have e: "windows ?h1 w \<noteq> None" by (rule getWindowFromPoint_exists [OF goodD(1,2) [OF g1] r w])
  have g2: "good (?h1\<lparr>pointerWindow := w\<rparr>)" by (rule good_set_pointer [OF g1 e])
  show ?thesis
  proof (cases "getWindow (grabbedId h) h = None")
    case True
    then show ?thesis using False w g2 by (simp add: ungrabPointer_def Let_def)
  next
    case listed: False
    then have "windows h (grabbedId h) \<noteq> None" by (auto simp: getWindow_def split: option.splits)
    then have "good (pointerMoved (grabbedId h) w (mouseX h, mouseY h) NotifyUngrab (?h1\<lparr>pointerWindow := w\<rparr>))"
      by (intro good_pointer_moved [OF g2]) (use e in simp_all)
    moreover obtain v where "getWindow (grabbedId h) h = Some v" using listed by blast
    ultimately show ?thesis using False w by (simp add: ungrabPointer_def Let_def)
  qed
qed (simp add: ungrabPointer_def)

lemma windows_ungrab: "good h \<Longrightarrow> windows (ungrabPointer h) = windows h"
proof -
  assume g: "good h"
  let ?h1 = "h\<lparr>grabbedId := 0, grabbedDisplayId := 0, grabbedConfinedId := 0, isGrabbed := False\<rparr>"
  have g1: "good ?h1" by (rule good_same_tree [OF g]) (simp_all add: same_tree_def goodD(3) [OF g])
  have r: "windows ?h1 (root ?h1) \<noteq> None" by (rule tree_okD(6) [OF goodD(1) [OF g1]])
  have e: "windows h w \<noteq> None" if "getWindowFromPoint (root ?h1) p ?h1 = Some w" for w p
    using getWindowFromPoint_exists [OF goodD(1,2) [OF g1] r that] by simp
  have "windows (pointerMoved a b p mode (?h1\<lparr>pointerWindow := b\<rparr>)) = windows h"
    if "windows h a \<noteq> None" "windows h b \<noteq> None" for a b p mode
    using windows_pointerMoved [OF good_set_pointer [OF g1]] that by simp
  then show ?thesis using e
    by (auto simp: ungrabPointer_def Let_def mark_stuck_def getWindow_def split: option.splits if_splits)
qed

lemma good_grab: "good h \<Longrightarrow> windows h w \<noteq> None \<Longrightarrow> good (grabPointer i w confined m time h)"
proof -
  assume g: "good h" and e: "windows h w \<noteq> None"
  let ?h1 = "h\<lparr>grabbedId := w, grabbedConfinedId := (case confined of None \<Rightarrow> grabbedConfinedId h | Some c \<Rightarrow> c),
      grabbedMask := m, grabbedTime := (if time = 0 then eventTime h else time), grabbedDisplayId := i, isGrabbed := True\<rparr>"
  have g1: "good ?h1" by (rule good_same_tree [OF g]) (simp_all add: same_tree_def goodD(3) [OF g])
  have e1: "windows ?h1 (pointerWindow ?h1) \<noteq> None" "windows ?h1 w \<noteq> None" using goodD(3) [OF g1] e by simp_all
  have "good ((pointerMoved (pointerWindow ?h1) w (mouseX h, mouseY h) NotifyGrab ?h1)\<lparr>pointerWindow := w\<rparr>)"
    by (rule good_set_pointer [OF good_pointer_moved [OF g1 e1]])
      (use windows_pointerMoved [OF g1 e1] e in simp)
  then show ?thesis using g1 by (simp add: grabPointer_def Let_def)
qed

lemma good_focus: "good h \<Longrightarrow> good (setInputFocus w r h)"
proof -
  assume g: "good h"
  have f: "good g \<Longrightarrow> good (focusNotify v b g)" for g v b
    by (rule good_told, assumption, unfold focusNotify_def, rule told_notify)
  have s: "good g \<Longrightarrow> good (g\<lparr>inputFocus := v\<rparr>)" for g v
    by (rule good_same_tree [of g]) (simp_all add: same_tree_def goodD(3))
  have g1: "good (h\<lparr>inputFocusRevertTo := r, inputFocusIsPointerRoot := b\<rparr>)" for b
    by (rule good_same_tree [OF g]) (simp_all add: same_tree_def goodD(3) [OF g])
  show ?thesis
    unfolding setInputFocus_def Let_def
    by (auto split: option.split intro!: g1 f s)
qed

text \<open>Exposure events go down the tree, as deep as it is.\<close>

lemma same_tree_down_fuel: "same_tree h h' \<Longrightarrow> down_fuel n w h' = down_fuel n w h"
  by (simp add: down_fuel_def same_tree_up)

lemma expose_told:
  "tree_ok h \<Longrightarrow> down_fuel n w h \<Longrightarrow> told h (exposeNofity n w x y wd ht ct i h)"
proof (induction n arbitrary: w x y wd ht ct i h)
  case (Suc n)
  let ?h1 = "upd_display i (queue_event (\<lambda>d serial. [Expose, serial, 0, 0, w, x, y, wd, ht, ct])) h"
  have t: "told h ?h1" by simp
  have s: "children_of w ?h1 = children_of w h" using same_tree_reads(2) [OF told_same_tree [OF t]] by simp
  have step: "told g (iterateEventMask c (ucast ExposureMask) (exposeNofity n c 0 0 (width_of c g) (height_of c g) 0) g)"
    if "told h g" "c \<in> set (children_of w h)" for c g
  proof (rule told_iterate_tree)
    fix j g' assume "told g g'"
    then have tg: "told h g'" using that(1) told_trans by blast
    show "told g' (exposeNofity n c 0 0 (width_of c g) (height_of c g) 0 j g')"
    proof (rule Suc.IH)
      show "tree_ok g'" by (rule told_tree_ok [OF tg Suc.prems(1)])
      show "down_fuel n c g'" unfolding same_tree_down_fuel [OF told_same_tree [OF tg]]
        by (rule down_fuel_child [OF Suc.prems(2)]) (rule child_parent [OF Suc.prems(1) that(2)])
    qed
  qed
  have "told ?h1 (fold (\<lambda>c h. if mapped_at c h \<and> class_of c h = InputOutput
       then iterateEventMask c (ucast ExposureMask) (exposeNofity n c 0 0 (width_of c h) (height_of c h) 0) h else h)
     (children_of w h) ?h1)"
    by (rule told_fold_tree) (use step told_trans [OF t] in auto)
  then show ?case using told_trans [OF t] by simp
qed simp

lemma expose_on_told:
  assumes "tree_ok h" "windows h w \<noteq> None"
  shows "told h (expose_on tgt w h)"
  unfolding expose_on_def
proof (rule told_iterate_tree, rule expose_told)
  fix i h' assume t: "told h h'"
  show "tree_ok h'" by (rule told_tree_ok [OF t assms(1)])
  show "down_fuel (Suc (unat (nextId h))) w h'"
    unfolding same_tree_down_fuel [OF told_same_tree [OF t]]
    by (rule down_fuel_mono [OF down_fuel_ids [OF assms]]) simp
qed


section \<open>Requests that change windows\<close>

lemma windows_upd [simp]: "windows (upd_window i f h) j = (if j = i then map_option f (windows h j) else windows h j)"
  by (simp add: upd_window_def)

lemma fields_upd [simp]: "root (upd_window i f h) = root h" "nextId (upd_window i f h) = nextId h"
  "pointerWindow (upd_window i f h) = pointerWindow h" "grabbedId (upd_window i f h) = grabbedId h"
  by (simp_all add: upd_window_def)

lemma tree_ok_links:
  assumes "\<And>i. (windows h' i = None) = (windows h i = None)" "\<And>i. parent_of i h' = parent_of i h"
    "\<And>p. set (children_of p h') = set (children_of p h) \<and> (distinct (children_of p h) \<longrightarrow> distinct (children_of p h'))"
    "\<And>i. (getWindow i h' = None) = (getWindow i h = None)" "root h' = root h" "nextId h' = nextId h"
  shows "tree_ok h \<Longrightarrow> tree_ok h'"
  unfolding tree_ok_def up_def by (simp only: assms) (simp add: assms(3))

lemma good_upd:
  assumes g: "good h"
    and f: "\<And>w. w_parent (f w) = w_parent w \<and> w_listed (f w) = w_listed w \<and>
      (w_transients w = [] \<longrightarrow> w_transients (f w) = []) \<and> w_transientCached (f w) = w_transientCached w"
    and c: "\<And>w. set (w_children (f w)) = set (w_children w) \<and> (distinct (w_children w) \<longrightarrow> distinct (w_children (f w)))"
  shows "good (upd_window i f h)"
proof -
  have "tree_ok (upd_window i f h)"
    by (rule tree_ok_links [OF _ _ _ _ _ _ goodD(1) [OF g]])
      (use f c in \<open>auto simp: parent_of_def children_of_def getWindow_def split: option.splits\<close>)
  moreover have "no_transients (upd_window i f h)" using goodD(2) [OF g] f by (auto simp: no_transients_def)
  ultimately show ?thesis using goodD(3,4) [OF g] by (auto simp: good_def)
qed

lemma pointerWindow_property [simp]: "pointerWindow (property_notify w a s h) = pointerWindow h"
  "pointerWindow (deleteProperty w a h) = pointerWindow h" "pointerWindow (setProperty w a t f bs h) = pointerWindow h"
proof -
  show n: "pointerWindow (property_notify w a s h) = pointerWindow h" for w a s h using told_fields [OF told_property_notify] by blast
  show d: "pointerWindow (deleteProperty w a h) = pointerWindow h" for w a h by (simp add: deleteProperty_def Let_def n split: option.split)
  show "pointerWindow (setProperty w a t f bs h) = pointerWindow h" by (simp add: setProperty_def Let_def n d)
qed

lemma good_setProperty: "good h \<Longrightarrow> good (setProperty w a t f bs h)"
  by (rule good_same_tree [OF _ same_tree_setProperty]) (use goodD(3) in auto)

lemma good_deleteProperty: "good h \<Longrightarrow> good (deleteProperty w a h)"
  by (rule good_same_tree [OF _ same_tree_delete]) (use goodD(3) in auto)

lemma good_setWmState: "good h \<Longrightarrow> good (setWmState w s h)" unfolding setWmState_def by (rule good_setProperty)

lemma good_tell: "good h \<Longrightarrow> good (tell_parent p t mk h)" "good h \<Longrightarrow> good (tell_self i t mk h)"
  by (erule good_told [OF _ told_tell(1)], erule good_told [OF _ told_tell(2)])

lemma good_painted: "good h \<Longrightarrow> painted h h' \<Longrightarrow> good h'"
proof -
  assume g: "good h" and t: "painted h h'"
  have "windows h (pointerWindow h') \<noteq> None" using painted_fields [OF t] goodD(3) [OF g] by simp
  then show ?thesis using good_same_tree [OF g painted_same_tree [OF t]] painted_fields [OF t] by simp
qed

lemma painted_windows: "painted h h' \<Longrightarrow> (windows h' j = None) = (windows h j = None)"
  using same_tree_windows [OF painted_same_tree] by blast

lemma windows_painted [simp]: "(windows (fillWithBackground i h) j = None) = (windows h j = None)"
  "(windows (setDirty i h) j = None) = (windows h j = None)"
  by (simp_all add: painted_windows)

lemma good_fill: "good h \<Longrightarrow> good (fillWithBackground i h)" "good h \<Longrightarrow> good (setDirty i h)"
  by (auto intro: good_painted)

lemma windows_exist [simp]:
  "(windows (setWmState w s h) j = None) = (windows h j = None)" "windows (tell_parent p t mk h) = windows h"
  "windows (tell_self i t mk h) = windows h"
  using same_tree_windows [OF same_tree_setWmState] told_windows [OF told_tell(1)] told_windows [OF told_tell(2)] by blast+

lemma good_mapWindow: "good h \<Longrightarrow> windows h i \<noteq> None \<Longrightarrow> good (mapWindow i h) \<and> windows (mapWindow i h) i \<noteq> None"
proof (cases "mapped_at i h")
  case False
  assume g: "good h" and e: "windows h i \<noteq> None"
  define h1 where "h1 = setWmState i NormalState (setDirty i (upd_window i (\<lambda>w. w\<lparr>w_mapped := True\<rparr>) h))"
  define h2 where "h2 = fillWithBackground i (tell_self i MapNotify (\<lambda>q. [i, override_of i h])
      (tell_parent (parent_of i h) MapNotify (\<lambda>q. [i, override_of i h]) h1))"
  define h3 where "h3 = (if class_of i h = InputOutput then expose_on i i h2 else h2)"
  have g2: "good h2" unfolding h2_def h1_def by (intro good_fill good_tell good_setWmState good_upd [OF g]) simp_all
  have e1: "windows h1 i \<noteq> None" unfolding h1_def using e by simp
  then have e2: "windows h2 i \<noteq> None" unfolding h2_def by simp
  have t: "told h2 h3" unfolding h3_def using expose_on_told [OF goodD(1) [OF g2] e2] by simp
  have g3: "good h3" by (rule good_told [OF g2 t])
  have e3: "windows h3 i \<noteq> None" using e2 told_windows [OF t] by simp
  have "mapWindow i h = (if isThisAndAncestorsMapped i h3 = None then mark_stuck h3 else h3)"
    using False by (simp only: mapWindow_def Let_def h1_def h2_def h3_def if_False)
  then show ?thesis using g3 e3 walks_return(4) [OF goodD(1) [OF g3] e3] by simp
qed (simp add: mapWindow_def)

lemma good_unmapWindow: "good h \<Longrightarrow> windows h i \<noteq> None \<Longrightarrow> good (unmapWindow i h)"
proof (cases "mapped_at i h")
  case True
  assume g: "good h" and e: "windows h i \<noteq> None"
  define h0 where "h0 = setWmState i WithdrawnState (upd_window i (\<lambda>w. w\<lparr>w_mapped := False\<rparr>) h)"
  define h1 where "h1 = (if parent_of i h = None then h0 else setDirty i h0)"
  define h2 where "h2 = tell_self i UnmapNotify (\<lambda>q. [i, override_of i h]) (tell_parent (parent_of i h) UnmapNotify (\<lambda>q. [i, override_of i h]) h1)"
  have g0: "good h0" unfolding h0_def by (intro good_setWmState good_upd [OF g]) simp_all
  have g2: "good h2" unfolding h2_def h1_def by (intro good_tell) (simp add: g0 good_fill)
  have e1: "windows h1 i \<noteq> None" unfolding h1_def h0_def using e by (simp del: not_None_eq)
  then have e2: "windows h2 i \<noteq> None" unfolding h2_def by simp
  have "good (expose_on p i h2)" for p by (rule good_told [OF g2 expose_on_told [OF goodD(1) [OF g2] e2]])
  moreover have "unmapWindow i h = (case parent_of i h of None \<Rightarrow> h2 | Some p \<Rightarrow> if class_of i h = InputOutput then expose_on p i h2 else h2)"
    using True walks_return(4) [OF goodD(1) [OF g] e] by (simp only: unmapWindow_def Let_def h0_def h1_def h2_def) simp
  ultimately show ?thesis using g2 by (simp split: option.split)
qed (simp add: unmapWindow_def)

lemma good_configureNotify: "good h \<Longrightarrow> good (configureNotify i h)"
  by (auto simp: configureNotify_def Let_def split: option.split intro!: good_tell)

lemma windows_configureNotify [simp]: "windows (configureNotify i h) = windows h"
  by (simp add: configureNotify_def Let_def split: option.split)

lemma good_resize: "good h \<Longrightarrow> good (resize_window i w ht h)"
  by (rule good_painted [OF _ resize_painted], rule good_upd) simp_all

lemma windows_resize [simp]: "(windows (resize_window i w ht h) j = None) = (windows h j = None)"
  using painted_windows [OF resize_painted] by simp

lemma good_moveResize: "good h \<Longrightarrow> good (moveResize i x y w ht h)"
  by (auto simp: moveResize_def intro!: good_configureNotify good_resize)

lemma set_to_back: "i \<in> set xs \<Longrightarrow> insert i (set (remove1 i xs)) = set xs" by (induction xs) auto

lemma good_raise: "good h \<Longrightarrow> good (raise_window i p h)"
  unfolding raise_window_def by (erule good_upd) (simp_all add: set_to_back)

lemma good_configure: "good h \<Longrightarrow> windows h i \<noteq> None \<Longrightarrow> m AND CWSibling = 0 \<Longrightarrow> good (configure i m ch h)"
proof -
  assume g: "good h" and e: "windows h i \<noteq> None" and m: "m AND CWSibling = 0"
  define h1 where "h1 = upd_window i (\<lambda>w. w\<lparr>
                 w_left := (if m AND CWX \<noteq> 0 then ch_x ch else w_left w),
                 w_top := (if m AND CWY \<noteq> 0 then ch_y ch else w_top w),
                 w_border := (if m AND CWBorderWidth \<noteq> 0 then ch_border_width ch else w_border w)\<rparr>) h"
  define h2 where "h2 = (if m AND CWStackMode \<noteq> 0 then (case parent_of i h1 of None \<Rightarrow> h1 | Some p \<Rightarrow> raise_window i p h1) else h1)"
  define width where "width = (if m AND CWWidth \<noteq> 0 then ch_width ch else width_of i h)"
  define height where "height = (if m AND CWHeight \<noteq> 0 then ch_height ch else height_of i h)"
  define h3 where "h3 = (if width \<noteq> width_of i h \<or> height \<noteq> height_of i h then resize_window i width height h2 else h2)"
  have g1: "good h1" unfolding h1_def by (rule good_upd [OF g]) simp_all
  then have g2: "good h2" unfolding h2_def by (simp add: good_raise split: option.split)
  then have g4: "good (configureNotify i h3)" unfolding h3_def by (intro good_configureNotify) (simp add: good_resize)
  have e1: "windows h1 i \<noteq> None" unfolding h1_def using e by simp
  then have "windows h2 i \<noteq> None" unfolding h2_def by (simp add: raise_window_def split: option.split)
  then have "windows (configureNotify i h3) i \<noteq> None" by (simp add: h3_def del: not_None_eq)
  then have "good (expose_on i i (configureNotify i h3))" by (intro good_told [OF g4 expose_on_told [OF goodD(1) [OF g4]]])
  then show ?thesis using g4 m unfolding configure_def Let_def width_def height_def h1_def h2_def h3_def by simp
qed

lemma same_tree_setAttributes: "same_tree h (snd (setAttributes i w a m h))"
  by (auto simp: setAttributes_def Let_def skel_def told_same_tree intro!: same_tree_trans [OF _ same_tree_upd])

lemma good_setAttributes: "good h \<Longrightarrow> good (snd (setAttributes i w a m h))"
proof -
  assume g: "good h"
  have d: "stuck (upd_display i f h) = stuck h" "pointerWindow (upd_display i f h) = pointerWindow h" for f h
    using told_fields [OF told_upd_display] by blast+
  have "stuck (snd (setAttributes i w a m h)) = stuck h" "pointerWindow (snd (setAttributes i w a m h)) = pointerWindow h"
    by (simp_all add: setAttributes_def Let_def d)
  then show ?thesis using good_same_tree [OF g same_tree_setAttributes] goodD(3) [OF g] by metis
qed


section \<open>Requests that change the tree\<close>

lemma links_upd: "parent_of j (upd_window i f h) = (if j = i then Option.bind (windows h i) (\<lambda>w. w_parent (f w)) else parent_of j h)"
  "children_of j (upd_window i f h) = (if j = i then (case windows h i of None \<Rightarrow> [] | Some w \<Rightarrow> w_children (f w)) else children_of j h)"
  "(getWindow j (upd_window i f h) = None) = (if j = i then (case windows h i of None \<Rightarrow> True | Some w \<Rightarrow> \<not> w_listed (f w)) else getWindow j h = None)"
  by (auto simp: parent_of_def children_of_def getWindow_def split: option.split)

lemma links_window: "windows h i = Some w \<Longrightarrow> parent_of i h = w_parent w \<and> children_of i h = w_children w \<and>
    (getWindow i h = None \<longleftrightarrow> \<not> w_listed w)"
  by (simp add: parent_of_def children_of_def getWindow_def)

lemma listed_exists: "getWindow i h \<noteq> None \<Longrightarrow> windows h i \<noteq> None" by (auto simp: getWindow_def split: option.splits)

lemma good_next:
  "good h \<Longrightarrow> nextId h + 1 \<noteq> 0 \<Longrightarrow> good (h\<lparr>nextId := nextId h + 1, buffers := b, pixmaps := f\<rparr>)"
proof -
  assume g: "good h" and n: "nextId h + 1 \<noteq> 0"
  let ?h = "h\<lparr>nextId := nextId h + 1, buffers := b, pixmaps := f\<rparr>"
  have "nextId h < nextId h + 1" using unatSuc [of "nextId h"] n by (simp add: word_less_nat_alt add.commute)
  then have le: "i \<le> nextId h + 1" if "windows h i \<noteq> None" for i
    using tree_okD(1) [OF goodD(1) [OF g] that] by (auto intro: order.strict_implies_order order.strict_trans1)
  have r: "parent_of i ?h = parent_of i h" "children_of i ?h = children_of i h" "(getWindow i ?h = None) = (getWindow i h = None)" for i
    by (simp_all add: parent_of_def children_of_def getWindow_def)
  have "tree_ok ?h" using goodD(1) [OF g] le by (auto simp: tree_ok_def up_def r)
  then show ?thesis using g by (simp add: good_def no_transients_def)
qed

lemma tree_create:
  assumes t: "tree_ok h" and p: "getWindow p h \<noteq> None" and n: "nextId h + 1 \<noteq> 0"
    and w: "w_parent w = Some p" "w_children w = []" "w_listed w"
  defines "i \<equiv> nextId h + 1"
  shows "tree_ok (addToParent i p (h\<lparr>nextId := i, windows := (windows h)(i \<mapsto> w)\<rparr>))" (is "tree_ok ?h'")
proof -
  have lt: "nextId h < i" unfolding i_def using unatSuc [of "nextId h"] n by (simp add: word_less_nat_alt add.commute)
  have fresh: "windows h i = None" using tree_okD(1) [OF t, of i] lt by fastforce
  have pe: "windows h p \<noteq> None" "p \<noteq> i" using listed_exists [OF p] fresh by auto
  then obtain q where q: "windows h p = Some q" by blast
  have P: "parent_of j ?h' = (if j = i then Some p else parent_of j h)" for j
    using w pe(2) q by (simp add: addToParent_def links_upd) (simp add: parent_of_def)
  have C: "children_of j ?h' = (if j = i then [] else if j = p then children_of p h @ [i] else children_of j h)" for j
    using w pe(2) q by (simp add: addToParent_def links_upd) (simp add: children_of_def)
  have G: "(getWindow j ?h' = None) = (j \<noteq> i \<and> getWindow j h = None)" for j
    using w pe(2) q by (simp add: addToParent_def links_upd) (simp add: getWindow_def)
  have W: "(windows ?h' j = None) = (j \<noteq> i \<and> windows h j = None)" for j
    using pe(2) q by (auto simp: addToParent_def)
  have R: "root ?h' = root h" "nextId ?h' = i" by (simp_all add: addToParent_def)
  have noref: "parent_of j h \<noteq> Some i" for j using tree_okD(2) [OF t, of j i] fresh by blast
  have "parent_of i h = None" using fresh by (simp add: parent_of_def)
  then have "up ?h' = insert (i, p) (up h)" by (auto simp: up_def P split: if_splits)
  moreover have "(p, i) \<notin> (up h)\<^sup>*" using noref pe(2) by (auto elim: rtranclE simp: up_def)
  ultimately have a: "acyclic (up ?h')" using tree_okD(3) [OF t] by (simp add: acyclic_insert)
  have i0: "i \<noteq> 0" unfolding i_def by (rule n)
  have le: "j \<le> i" if "windows h j \<noteq> None" for j using tree_okD(1) [OF t that] lt by (auto intro: order.strict_implies_order order.strict_trans1)
  have ni: "children_of i h = []" "parent_of i h = None" "i \<notin> set (children_of j h)" for j
    using fresh tree_okD(4) [OF t, of i j] by (simp_all add: children_of_def parent_of_def)
  show ?thesis unfolding tree_ok_def
  proof (intro conjI allI impI)
    show "j \<noteq> 0" "j \<le> nextId ?h'" if "windows ?h' j \<noteq> None" for j
      using that i0 le [of j] tree_okD(1) [OF t, of j] by (auto simp: W R)
    show "windows ?h' k \<noteq> None" if "parent_of j ?h' = Some k" for j k
      using that pe tree_okD(2) [OF t, of j k] by (auto simp: P W split: if_splits)
    show "c \<in> set (children_of k ?h') \<longleftrightarrow> parent_of c ?h' = Some k \<and> getWindow c ?h' \<noteq> None" for k c
      using tree_okD(4) [OF t, of c k] ni noref pe(2) by (auto simp: C P G)
    show "distinct (children_of k ?h')" for k using tree_okD(5) [OF t] ni by (simp add: C)
    show "windows ?h' (root ?h') \<noteq> None" using tree_okD(6) [OF t] by (simp add: W R)
    show "parent_of (root ?h') ?h' = None" using tree_okD(6,7) [OF t] fresh by (auto simp: P R)
  qed (rule a)
qed

lemma tree_unlist:
  assumes t: "tree_ok h" and c: "\<And>j. children_of j h' = (if Some j = parent_of i h then remove1 i (children_of j h) else children_of j h)"
    and p: "\<And>j. parent_of j h' = parent_of j h" and g: "\<And>j. (getWindow j h' = None) = (j = i \<or> getWindow j h = None)"
    and w: "\<And>j. (windows h' j = None) = (windows h j = None)" and r: "root h' = root h" "nextId h' = nextId h"
  shows "tree_ok h'"
  unfolding tree_ok_def
proof (intro conjI allI impI)
  show "j \<noteq> 0" "j \<le> nextId h'" if "windows h' j \<noteq> None" for j using that tree_okD(1) [OF t, of j] by (simp_all add: w r)
  show "windows h' k \<noteq> None" if "parent_of j h' = Some k" for j k using that tree_okD(2) [OF t, of j k] by (simp add: w p)
  show "acyclic (up h')" using tree_okD(3) [OF t] by (simp add: up_def p)
  show "x \<in> set (children_of k h') \<longleftrightarrow> parent_of x h' = Some k \<and> getWindow x h' \<noteq> None" for k x
    using tree_okD(4) [OF t, of x k] tree_okD(5) [OF t, of k] by (auto simp: c p g)
  show "distinct (children_of k h')" for k using tree_okD(5) [OF t, of k] by (simp add: c)
  show "windows h' (root h') \<noteq> None" "parent_of (root h') h' = None" using tree_okD(6,7) [OF t] by (simp_all add: w p r)
qed

lemma tree_move:
  assumes t: "tree_ok h" and old: "parent_of i h = Some old" and i: "getWindow i h \<noteq> None" and new: "windows h p \<noteq> None"
    and below: "(p, i) \<notin> (up h)\<^sup>*"
    and c: "\<And>j. children_of j h' = (let cs = (if j = old then remove1 i (children_of j h) else children_of j h)
                                     in if j = p then cs @ [i] else cs)"
    and P: "\<And>j. parent_of j h' = (if j = i then Some p else parent_of j h)"
    and g: "\<And>j. (getWindow j h' = None) = (getWindow j h = None)"
    and w: "\<And>j. (windows h' j = None) = (windows h j = None)" and r: "root h' = root h" "nextId h' = nextId h"
  shows "tree_ok h'"
  unfolding tree_ok_def
proof (intro conjI allI impI)
  show "j \<noteq> 0" "j \<le> nextId h'" if "windows h' j \<noteq> None" for j using that tree_okD(1) [OF t, of j] by (simp_all add: w r)
  show "windows h' k \<noteq> None" if "parent_of j h' = Some k" for j k
    using that new tree_okD(2) [OF t, of j k] by (auto simp: w P split: if_splits)
  have "up h' \<subseteq> insert (i, p) (up h)" by (auto simp: up_def P split: if_splits)
  moreover have "acyclic (insert (i, p) (up h))" using tree_okD(3) [OF t] below by (simp add: acyclic_insert)
  ultimately show "acyclic (up h')" by (rule acyclic_subset [rotated])
  have ni: "i \<notin> set (children_of p h)" if "p \<noteq> old" using tree_okD(4) [OF t, of i p] old that by simp
  show "x \<in> set (children_of k h') \<longleftrightarrow> parent_of x h' = Some k \<and> getWindow x h' \<noteq> None" for k x
    using tree_okD(4) [OF t, of x k] tree_okD(5) [OF t, of k] i old by (auto simp: c P g Let_def)
  show "distinct (children_of k h')" for k using tree_okD(5) [OF t, of k] ni by (auto simp: c Let_def)
  show "windows h' (root h') \<noteq> None" using tree_okD(6) [OF t] by (simp add: w r)
  show "parent_of (root h') h' = None" using tree_okD(7) [OF t] old by (auto simp: P r)
qed


lemma good_tree: "good h \<Longrightarrow> tree_ok h' \<Longrightarrow> no_transients h' \<Longrightarrow> windows h' (pointerWindow h') \<noteq> None \<Longrightarrow> stuck h' = stuck h \<Longrightarrow> good h'"
  by (simp add: good_def)

lemma good_create:
  assumes g: "good h" and p: "getWindow p h \<noteq> None" and n: "nextId h + 1 \<noteq> 0"
  shows "good (snd (createNewWindow i p wd ht dep x y cls b v h))"
proof -
  let ?i = "nextId h + 1" and ?w = "new_window i p wd ht dep x y cls b v h"
  let ?h0 = "h\<lparr>buffers := (buffers h)(?i := new_buffer v wd ht h)\<rparr>"
  let ?h1 = "h\<lparr>nextId := ?i, buffers := (buffers h)(?i := new_buffer v wd ht h), windows := (windows h)(?i \<mapsto> ?w)\<rparr>"
  have w: "w_parent ?w = Some p" "w_children ?w = []" "w_listed ?w" "w_transients ?w = []" "w_transientCached ?w = None"
    by (simp_all add: new_window_def)
  have g0: "good ?h0" by (rule good_same_tree [OF g]) (simp_all add: same_tree_def goodD(3) [OF g])
  have "getWindow p ?h0 \<noteq> None" using p by (simp add: getWindow_def)
  then have t0: "tree_ok (addToParent ?i p (?h0\<lparr>nextId := ?i, windows := (windows h)(?i \<mapsto> ?w)\<rparr>))"
    using tree_create [OF goodD(1) [OF g0], of p ?w] n w(1-3) by simp
  have "?h0\<lparr>nextId := ?i, windows := (windows h)(?i \<mapsto> ?w)\<rparr> = ?h1" by (cases h) simp
  then have t: "tree_ok (addToParent ?i p ?h1)" using t0 by (simp only:)
  have "good (addToParent ?i p ?h1)"
    by (rule good_tree [OF g t]) (use goodD(2,3) [OF g] w in \<open>auto simp: addToParent_def no_transients_def split: if_splits\<close>)
  moreover have "snd (createNewWindow i p wd ht dep x y cls b v h) =
      tell_parent (Some p) CreateNotify (\<lambda>q. [?i, w_left ?w, w_top ?w, w_width ?w, w_height ?w, w_border ?w]) (addToParent ?i p ?h1)"
    by (simp add: createNewWindow_def onCreate_def Let_def w(1))
  ultimately show ?thesis by (simp add: good_tell)
qed

lemma good_drop_transient: "good h \<Longrightarrow> good (drop_transient w t h)"
  unfolding drop_transient_def by (auto intro!: good_upd)

text \<open>The state in which a destroyed window is left, before the pointer is released.\<close>

lemma destroy_state:
  assumes g: "good h" and listed: "getWindow w h \<noteq> None"
  defines "h3 \<equiv> upd_window w (\<lambda>win. win\<lparr>w_listed := False\<rparr>) (onDestroy w h)"
  shows "good h3" "parent_of j h3 = parent_of j h"
    "children_of j h3 = (if Some j = parent_of w h then remove1 w (children_of j h) else children_of j h)"
    "(getWindow j h3 = None) = (j = w \<or> getWindow j h = None)"
proof -
  define h1 where "h1 = drop_transient w (WM_TRANSIENT_FOR w h) h"
  have g1: "good h1" unfolding h1_def by (rule good_drop_transient [OF g])
  define h2 where "h2 = (case parent_of w h1 of None \<Rightarrow> h1 | Some p \<Rightarrow> removeFromParent w p h1)"
  have o: "told h2 (onDestroy w h)"
    unfolding onDestroy_def Let_def h2_def h1_def [symmetric]
    by (auto split: option.split intro: told_trans [OF told_tell(1) told_tell(2)])
  have we: "windows h w \<noteq> None" by (rule listed_exists [OF listed])
  then have we1: "windows h1 w \<noteq> None" by (auto simp: h1_def drop_transient_def)
  have r2: "root h2 = root h1" "nextId h2 = nextId h1" "pointerWindow h2 = pointerWindow h1" "stuck h2 = stuck h1"
    by (simp_all add: h2_def removeFromParent_def split: option.split)
  have c2: "children_of j h2 = (if Some j = parent_of w h1 then remove1 w (children_of j h1) else children_of j h1)" for j
    by (cases "parent_of w h1"; cases "windows h1 j") (auto simp: h2_def removeFromParent_def links_upd children_of_def)
  have p2: "parent_of j h2 = parent_of j h1" "(getWindow j h2 = None) = (getWindow j h1 = None)"
    "(windows h2 j = None) = (windows h1 j = None)" for j
    by (cases "windows h1 j"; auto simp: h2_def removeFromParent_def links_upd split: option.split simp: parent_of_def getWindow_def)+
  note [simp] = same_tree_reads [OF told_same_tree [OF o]] told_windows [OF o]
  have we3: "\<exists>x. windows h2 w = Some x" using we1 p2(3) [of w] by auto
  have c3: "children_of j h3 = (if Some j = parent_of w h1 then remove1 w (children_of j h1) else children_of j h1)" for j
      unfolding c2 [symmetric] using we3 by (auto simp: h3_def links_upd) (simp add: children_of_def)
  have p3: "parent_of j h3 = parent_of j h1" for j
      unfolding p2(1) [symmetric] using we3 by (auto simp: h3_def links_upd) (simp add: parent_of_def)
  have l3: "(getWindow j h3 = None) = (j = w \<or> getWindow j h1 = None)" for j
      using we3 by (auto simp: h3_def links_upd p2(2) [symmetric])
  have t: "tree_ok h3"
  proof (rule tree_unlist [OF goodD(1) [OF g1] c3 p3 l3])
    show "(windows h3 j = None) = (windows h1 j = None)" for j by (simp add: h3_def p2(3))
    show "root h3 = root h1" "nextId h3 = nextId h1" using told_fields [OF o] by (simp_all add: h3_def r2)
  qed
  have nt2: "no_transients h2" using goodD(2) [OF g1] by (auto simp: h2_def removeFromParent_def no_transients_def split: option.splits if_splits)
  have f: "pointerWindow (onDestroy w h) = pointerWindow h1" "stuck (onDestroy w h) = stuck h1" "windows (onDestroy w h) = windows h2"
    using told_fields [OF o] r2 by simp_all
  have e3: "(windows h3 j = None) = (windows h1 j = None)" "pointerWindow h3 = pointerWindow h1" for j
    by (simp_all add: h3_def p2(3) f)
  show "good h3"
  proof (rule good_tree [OF g1 t])
    show "no_transients h3" using nt2 by (auto simp: h3_def no_transients_def f split: if_splits)
    show "windows h3 (pointerWindow h3) \<noteq> None" unfolding e3 by (rule goodD(3) [OF g1])
    show "stuck h3 = stuck h1" by (simp add: h3_def f)
  qed
  have l1: "parent_of j h1 = parent_of j h" "children_of j h1 = children_of j h" "(getWindow j h1 = None) = (getWindow j h = None)" for j
    by (auto simp: h1_def drop_transient_def links_upd split: option.split simp: parent_of_def children_of_def getWindow_def)
  show "parent_of j h3 = parent_of j h" "(getWindow j h3 = None) = (j = w \<or> getWindow j h = None)"
    "children_of j h3 = (if Some j = parent_of w h then remove1 w (children_of j h) else children_of j h)"
    using p3 c3 l3 l1 by simp_all
qed

lemma good_destroy: "good h \<Longrightarrow> good (snd (destroyWindow w h))"
  using destroy_state(1) good_ungrab by (auto simp: destroyWindow_def Let_def)

lemma walk_reaches: "walk_up n (\<lambda>_. False) (Some p) h = Some (xs, e) \<Longrightarrow> (p, i) \<in> (up h)\<^sup>* \<Longrightarrow> i \<in> set xs"
proof (induction n arbitrary: p xs)
  case (Suc n)
  from Suc.prems(1) obtain ys where ys: "walk_up n (\<lambda>_. False) (parent_of p h) h = Some (ys, e)" "xs = p # ys" by auto
  from Suc.prems(2) show ?case
  proof (cases rule: converse_rtranclE)
    case (step q)
    then have "parent_of p h = Some q" by (simp add: up_def)
    then show ?thesis using Suc.IH ys step(2) by simp
  qed (simp add: ys)
qed simp

lemma not_below: "getAncestorTree p h = Some ws \<Longrightarrow> i \<notin> set ws \<Longrightarrow> (p, i) \<notin> (up h)\<^sup>*"
  unfolding getAncestorTree_def walk_def using walk_reaches by fastforce

lemma unmap_links:
  assumes "good h" "windows h i \<noteq> None"
  shows "parent_of j (unmapWindow i h) = parent_of j h" "(getWindow j (unmapWindow i h) = None) = (getWindow j h = None)"
    "(windows (unmapWindow i h) j = None) = (windows h j = None)"
proof -
  have m: "same_tree (upd_window i (\<lambda>w. w\<lparr>w_mapped := False\<rparr>) h)
      (setWmState i WithdrawnState (upd_window i (\<lambda>w. w\<lparr>w_mapped := False\<rparr>) h))" by (rule same_tree_setWmState)
  define h0 where "h0 = setWmState i WithdrawnState (upd_window i (\<lambda>w. w\<lparr>w_mapped := False\<rparr>) h)"
  define h1 where "h1 = (if parent_of i h = None then h0 else setDirty i h0)"
  define h2 where "h2 = tell_self i UnmapNotify (\<lambda>q. [i, override_of i h]) (tell_parent (parent_of i h) UnmapNotify (\<lambda>q. [i, override_of i h]) h1)"
  have g0: "good h0" unfolding h0_def by (intro good_setWmState good_upd [OF assms(1)]) simp_all
  have g2: "good h2" unfolding h2_def h1_def by (intro good_tell) (simp add: g0 good_fill)
  have "windows h1 i \<noteq> None" unfolding h1_def h0_def using assms(2) by (simp del: not_None_eq)
  then have e2: "windows h2 i \<noteq> None" unfolding h2_def by simp
  have t: "told h2 (case parent_of i h of None \<Rightarrow> h2 | Some p \<Rightarrow> if class_of i h = InputOutput then expose_on p i h2 else h2)"
    using expose_on_told [OF goodD(1) [OF g2] e2] by (simp split: option.split)
  have s12: "told h1 h2" unfolding h2_def by (rule told_trans [OF told_tell(1) told_tell(2)])
  have u: "unmapWindow i h = (if mapped_at i h
      then (case parent_of i h of None \<Rightarrow> h2 | Some p \<Rightarrow> if class_of i h = InputOutput then expose_on p i h2 else h2) else h)"
    using walks_return(4) [OF goodD(1) [OF assms(1)] assms(2)]
    by (simp only: unmapWindow_def Let_def h0_def h1_def h2_def) simp
  have "same_tree (upd_window i (\<lambda>w. w\<lparr>w_mapped := False\<rparr>) h) h0" unfolding h0_def by (rule m)
  also have "same_tree h0 h1" unfolding h1_def by (simp add: painted_same_tree)
  also have "same_tree h1 h2" by (rule told_same_tree [OF s12])
  also have "same_tree h2 (case parent_of i h of None \<Rightarrow> h2 | Some p \<Rightarrow> if class_of i h = InputOutput then expose_on p i h2 else h2)"
    by (rule told_same_tree [OF t])
  finally have "mapped_at i h \<Longrightarrow> same_tree (upd_window i (\<lambda>w. w\<lparr>w_mapped := False\<rparr>) h) (unmapWindow i h)" by (simp add: u)
  then show "parent_of j (unmapWindow i h) = parent_of j h" "(getWindow j (unmapWindow i h) = None) = (getWindow j h = None)"
    "(windows (unmapWindow i h) j = None) = (windows h j = None)"
    by (cases "mapped_at i h"; use assms(2) in \<open>auto simp: same_tree_reads same_tree_windows links_upd u\<close>;
        auto simp: parent_of_def getWindow_def)+
qed


lemma good_reparent:
  assumes g: "good h" and i: "getWindow i h \<noteq> None" and p: "windows h p \<noteq> None" and par: "parent_of i h \<noteq> None"
    and below: "(p, i) \<notin> (up h)\<^sup>*"
  shows "good (snd (reparentWindow i p x y h))"
proof (cases "class_of p h = InputOnly \<and> class_of i h \<noteq> InputOnly")
  case False
  have ie: "windows h i \<noteq> None" by (rule listed_exists [OF i])
  define h1 where "h1 = (if mapped_at i h then unmapWindow i h else h)"
  have g1: "good h1" unfolding h1_def using good_unmapWindow [OF g ie] g by simp
  have l: "parent_of j h1 = parent_of j h" "(getWindow j h1 = None) = (getWindow j h = None)"
    "(windows h1 j = None) = (windows h j = None)" for j
    unfolding h1_def using unmap_links [OF g ie] by auto
  obtain old where old: "parent_of i h1 = Some old" using par l(1) by auto
  have i1: "getWindow i h1 \<noteq> None" "windows h1 p \<noteq> None" unfolding l by (rule i, rule p)
  have below1: "(p, i) \<notin> (up h1)\<^sup>*" using below by (simp add: up_def l(1))
  define h2 where "h2 = addToParent i p (upd_window i (\<lambda>w. w\<lparr>w_parent := Some p, w_left := x, w_top := y\<rparr>) (removeFromParent i old h1))"
  have o1: "windows h1 old \<noteq> None" by (rule tree_okD(2) [OF goodD(1) [OF g1] old])
  have ip: "i \<noteq> p" using below by auto
  have w2: "(windows h2 j = None) = (windows h1 j = None)" for j by (auto simp: h2_def addToParent_def removeFromParent_def)
  have t: "tree_ok h2"
  proof (rule tree_move [OF goodD(1) [OF g1] old i1 below1])
    show "children_of j h2 = (let cs = (if j = old then remove1 i (children_of j h1) else children_of j h1) in if j = p then cs @ [i] else cs)" for j
      using i1(2) o1 by (auto simp: h2_def addToParent_def removeFromParent_def links_upd Let_def children_of_def split: option.split)
    show "parent_of j h2 = (if j = i then Some p else parent_of j h1)" for j
      using listed_exists [OF i1(1)] i1(2) o1 ip
      by (auto simp: h2_def addToParent_def removeFromParent_def links_upd parent_of_def split: option.split)
    show "(getWindow j h2 = None) = (getWindow j h1 = None)" for j
      by (auto simp: h2_def addToParent_def removeFromParent_def links_upd getWindow_def split: option.split)
    show "root h2 = root h1" "nextId h2 = nextId h1" by (simp_all add: h2_def addToParent_def removeFromParent_def)
  qed (rule w2)
  have f2: "pointerWindow h2 = pointerWindow h1" "stuck h2 = stuck h1" by (simp_all add: h2_def addToParent_def removeFromParent_def)
  have g2: "good h2"
  proof (rule good_tree [OF g1 t])
    show "no_transients h2" using goodD(2) [OF g1]
      by (auto simp: h2_def addToParent_def removeFromParent_def no_transients_def split: if_splits)
    show "windows h2 (pointerWindow h2) \<noteq> None" unfolding w2 f2 by (rule goodD(3) [OF g1])
  qed (rule f2)
  define h3 where "h3 = tell_self i ReparentNotify (\<lambda>q. [i, p, x, y, override_of i h])
      (tell_parent (Some p) ReparentNotify (\<lambda>q. [i, p, x, y, override_of i h]) h2)"
  have g3: "good h3" unfolding h3_def by (intro good_tell g2)
  have e3: "windows h3 i \<noteq> None" using listed_exists [OF i1(1)] w2 by (simp add: h3_def)
  have "snd (reparentWindow i p x y h) = (if mapped_at i h then mapWindow i h3 else h3)"
    unfolding reparentWindow_def Let_def if_not_P [OF False] h1_def [symmetric] old option.case h2_def [symmetric] h3_def [symmetric] snd_conv ..
  then show ?thesis using g3 good_mapWindow [OF g3 e3] by simp
qed (use g in \<open>simp add: reparentWindow_def\<close>)

section \<open>Handlers\<close>

definition keeps_good :: "xserver handler \<Rightarrow> bool" where
  "keeps_good H \<longleftrightarrow> (\<forall>c h. good h \<longrightarrow> good (snd (snd (H c h))))"

lemma keeps_args: "keeps_good H \<Longrightarrow> keeps_good (require_args n H)"
  by (simp add: keeps_good_def require_args_def)

lemma keeps_display: "(\<And>i d. keeps_good (f i d)) \<Longrightarrow> keeps_good (require_display f)"
  by (auto simp: keeps_good_def require_display_def split: prod.split option.split)

lemma keeps_window: "(\<And>w c h. good h \<Longrightarrow> getWindow w h \<noteq> None \<Longrightarrow> good (snd (snd (f w c h)))) \<Longrightarrow> keeps_good (with_window n e f)"
  by (simp add: keeps_good_def with_window_def)

lemma keepsI: "(\<And>c h. good h \<Longrightarrow> good (snd (snd (H c h)))) \<Longrightarrow> keeps_good H" by (simp add: keeps_good_def)

lemma good_fields: "good h \<Longrightarrow> windows h' = windows h \<Longrightarrow> root h' = root h \<Longrightarrow> nextId h' = nextId h \<Longrightarrow>
    pointerWindow h' = pointerWindow h \<Longrightarrow> stuck h' = stuck h \<Longrightarrow> good h'"
  by (rule good_same_tree [of h]) (auto simp: same_tree_def dest: goodD(3))

lemma good_set_display: "good h \<Longrightarrow> good (set_display i d h)"
  by (rule good_fields) (simp_all add: set_display_def)

lemma result_good: "good (snd x) \<Longrightarrow> x = (r, h) \<Longrightarrow> good h" by simp

lemma good_intern: "good h \<Longrightarrow> good (snd (internAtom name b h))"
  by (auto simp: internAtom_def Let_def split: option.split intro: good_fields)

lemma good_unregister: "good h \<Longrightarrow> good (unregisterDisplay64 i h)"
proof -
  assume g: "good h"
  then have g1: "good (if grabbedDisplayId h = i then ungrabPointer h else h)" by (simp add: good_ungrab)
  show ?thesis unfolding unregisterDisplay64_def Let_def by (rule good_fields [OF g1]) simp_all
qed

lemma listed_window: "getWindow w h \<noteq> None \<Longrightarrow> windows h w \<noteq> None" by (rule listed_exists)

lemma keeps_windows:
  "keeps_good op_DESTROY_WINDOW" "keeps_good op_MAP_WINDOW" "keeps_good op_UNMAP_WINDOW" "keeps_good op_WITHDRAW_WINDOW"
  "keeps_good op_MOVE_RESIZE_WINDOW" "keeps_good op_CHANGE_WINDOW_ATTRIBUTES" "keeps_good op_GET_WINDOW_ATTRIBUTES"
proof -
  show "keeps_good op_DESTROY_WINDOW" unfolding op_DESTROY_WINDOW_def
    by (rule keeps_args, rule keepsI) (auto split: prod.split dest: result_good [OF good_destroy])
  show "keeps_good op_MAP_WINDOW" unfolding op_MAP_WINDOW_def server_mapWindow_def
    by (rule keeps_args, rule keeps_display, rule keeps_window) (use good_mapWindow listed_window in \<open>auto intro: good_refresh\<close>)
  show "keeps_good op_UNMAP_WINDOW" unfolding op_UNMAP_WINDOW_def server_unmapWindow_def
  proof (rule keeps_args, rule keeps_display, rule keeps_window)
    fix w c h assume g: "good h" and w: "getWindow w h \<noteq> None"
    note u = windows_ungrab [OF g]
    show "good (snd (snd (0 :: s64, c :: hcall, refresh_pointer (unmapWindow w (if grabbedId h = w then ungrabPointer h else h)))))"
      using g listed_window [OF w] by (auto simp: u intro!: good_refresh good_unmapWindow good_ungrab)
  qed
  show "keeps_good op_WITHDRAW_WINDOW" unfolding op_WITHDRAW_WINDOW_def
    by (rule keeps_args, rule keeps_window) (simp add: good_unmapWindow listed_window)
  show "keeps_good op_MOVE_RESIZE_WINDOW" unfolding op_MOVE_RESIZE_WINDOW_def
    by (rule keeps_args, rule keeps_window) (simp add: good_moveResize)
  show "keeps_good op_CHANGE_WINDOW_ATTRIBUTES" unfolding op_CHANGE_WINDOW_ATTRIBUTES_def
    by (rule keeps_args, rule keeps_display, rule keeps_window)
      (auto split: prod.split option.split dest: result_good [OF good_setAttributes])
  show "keeps_good op_GET_WINDOW_ATTRIBUTES" unfolding op_GET_WINDOW_ATTRIBUTES_def
  proof (rule keeps_args, rule keeps_display, rule keepsI)
    fix i d c h assume g: "good h"
    show "good (snd (snd (case getWindow (uarg c 1) h of None \<Rightarrow> (BadWindow, c, h)
      | Some w \<Rightarrow> if w_mapped w \<and> isThisAndAncestorsMapped (uarg c 1) h = None then (0, c, mark_stuck h)
         else (case (case w_visual w of None \<Rightarrow> (0, c) | Some v \<Rightarrow> visualAddressFor (arg c 0) v c) of
            (visual, c1) \<Rightarrow> (case screenAddressFor (arg c 0) c1 of (screen, c2) \<Rightarrow>
                   (case h_write (arg c 2) (attributes_raw (uarg c 1) w (getEventMask (uarg c 1) d) visual screen h) c2 of
                      (ok, c3) \<Rightarrow> (if ok then 1 else E_FAULT, c3, h)))))))"
    proof (cases "getWindow (uarg c 1) h")
      case (Some w)
      then obtain b where "isThisAndAncestorsMapped (uarg c 1) h = Some b"
        using walks_return(4) [OF goodD(1) [OF g] listed_window, of "uarg c 1"] by auto
      then show ?thesis using Some g by (auto split: option.split prod.split)
    qed (use g in simp)
  qed
qed


lemma good_configure_call:
  "good h \<Longrightarrow> uarg c 2 AND CWSibling = 0 \<Longrightarrow> good (snd (snd (op_CONFIGURE_WINDOW c h)))"
  by (auto simp: op_CONFIGURE_WINDOW_def require_args_def with_window_def listed_window good_configure split: prod.split option.split)

lemma good_create_call: "good h \<Longrightarrow> nextId h + 1 \<noteq> 0 \<Longrightarrow> good (snd (snd (op_CREATE_WINDOW c h)))"
proof -
  assume g: "good h" and n: "nextId h + 1 \<noteq> 0"
  have k: "good (snd (snd (case attributes_arg a m c of
          (Inl e, c2) \<Rightarrow> (e, c2, h)
        | (Inr attributes, c2) \<Rightarrow>
            (case createNewWindow i p wd ht dep x y cls b v h of
               (w, h1) \<Rightarrow> (ucast w :: s64, c2, case attributes of None \<Rightarrow> h1
                    | Some a \<Rightarrow> snd (setAttributes i w a msk h1))))))"
    if "getWindow p h \<noteq> None" for a m c i p wd ht dep x y cls b v msk
    using good_create [OF g that n] g
    by (simp add: case_prod_beta good_setAttributes split: sum.split option.split)
  note d = op_CREATE_WINDOW_def Let_def require_args_def require_display_def
  obtain r c1 where D: "displayFor (arg c 0) c h = (r, c1)" by force
  show ?thesis
  proof (cases "c_count c < 12 \<or> r = None \<or> getWindow (uarg c1 1) h = None")
    case True
    then show ?thesis unfolding d D by (cases r) (use g in auto)
  next
    case False
    then obtain i dd where r: "r = Some (i, dd)" and w: "getWindow (uarg c1 1) h \<noteq> None" by auto
    obtain v c2 where V: "visual_arg (arg c1 9) (uarg c1 1) c1 h = (v, c2)" by force
    show ?thesis
    proof (cases v)
      case (Inl e)
      show ?thesis unfolding d D r option.case prod.case V Inl sum.case using False g by simp
    next
      case (Inr b)
      note K = k [OF w]
      show ?thesis unfolding d D r option.case prod.case V Inr sum.case if_not_P [OF w]
        using False by (simp add: K del: One_nat_def)
    qed
  qed
qed

lemma good_reparent_call:
  assumes "good h" "parent_of (uarg c 1) h \<noteq> None" "getAncestorTree (uarg c 2) h = Some ws" "uarg c 1 \<notin> set ws"
  shows "good (snd (snd (op_REPARENT_WINDOW c h)))"
  using assms(1) result_good [OF good_reparent [OF assms(1) _ listed_window assms(2) not_below [OF assms(3,4)]]]
  by (auto simp: op_REPARENT_WINDOW_def require_args_def split: prod.split)

lemma keeps_queries:
  "keeps_good op_TRANSLATE_COORDINATES" "keeps_good op_QUERY_POINTER" "keeps_good op_GET_GEOMETRY" "keeps_good op_QUERY_TREE"
  "keeps_good op_GET_INPUT_FOCUS" "keeps_good op_ICONIFY_WINDOW" "keeps_good op_GET_SELECTION_OWNER"
proof -
  have pt: "good h \<Longrightarrow> \<exists>w. getWindowFromPoint (root h) p h = Some w" for h p
    using getWindowFromPoint_returns [OF goodD(1,2) tree_okD(6) [OF goodD(1)]] by blast
  have sc: "good h \<Longrightarrow> getWindow w h \<noteq> None \<Longrightarrow> (\<exists>q. screenToWindow w p h = Some q) \<and> (\<exists>q. windowToScreen w p h = Some q)" for h p w
    using walks_return(2,3) [OF goodD(1) listed_window] by blast
  show "keeps_good op_TRANSLATE_COORDINATES" unfolding op_TRANSLATE_COORDINATES_def
  proof (rule keeps_args, rule keepsI)
    fix c h assume g: "good h"
    show "good (snd (snd (let src = uarg c 1; dest = uarg c 2 in
     if getWindow src h = None \<or> getWindow dest h = None then (0, c, h)
     else case windowToScreen src (iarg c 3, iarg c 4) h of
       None \<Rightarrow> (0, c, mark_stuck h)
     | Some p \<Rightarrow>
         (case (getWindowFromPoint (root h) p h, screenToWindow dest p h) of
            (Some child, Some (x, y)) \<Rightarrow>
              (case h_writes ([put32 (arg c 5) x, put32 (arg c 6) y] @
                       (if arg c 7 = 0 then [] else [put64 (arg c 7) (ucast child)])) c of
                 (ok, c1) \<Rightarrow> (if ok then 1 else E_FAULT, c1, h))
          | _ \<Rightarrow> (0, c, mark_stuck h)))))"
    proof (cases "getWindow (uarg c 1) h = None \<or> getWindow (uarg c 2) h = None")
      case False
      then obtain p where p: "windowToScreen (uarg c 1) (iarg c 3, iarg c 4) h = Some p" using sc [OF g, of "uarg c 1"] by blast
      obtain x y where q: "screenToWindow (uarg c 2) p h = Some (x, y)" using sc [OF g, of "uarg c 2" p] False by auto
      obtain w where "getWindowFromPoint (root h) p h = Some w" using pt [OF g] by blast
      then show ?thesis using False p q g by (simp add: Let_def split: prod.split)
    qed (use g in auto)
  qed
  show "keeps_good op_QUERY_POINTER" unfolding op_QUERY_POINTER_def
  proof (rule keeps_args, rule keepsI)
    fix c h assume g: "good h"
    obtain w where w: "getWindowFromPoint (root h) (mouseX h, mouseY h) h = Some w" using pt [OF g] by blast
    show "good (snd (snd (let w = uarg c 1; p = (mouseX h, mouseY h) in
     if getWindow w h = None then (0, c, h)
     else case (getWindowFromPoint (root h) p h, screenToWindow w p h) of
       (Some child, Some (x, y)) \<Rightarrow>
         (case h_writes [put64 (arg c 2) (ucast (root h)), put64 (arg c 3) (ucast child), put32 (arg c 4) (mouseX h),
                 put32 (arg c 5) (mouseY h), put32 (arg c 6) x, put32 (arg c 7) y,
                 put32 (arg c 8) (getInputModifiers h)] c of
            (ok, c1) \<Rightarrow> (if ok then 1 else E_FAULT, c1, h))
     | _ \<Rightarrow> (0, c, mark_stuck h))))"
    proof (cases "getWindow (uarg c 1) h = None")
      case False
      then obtain x y where q: "screenToWindow (uarg c 1) (mouseX h, mouseY h) h = Some (x, y)"
        using sc [OF g, of "uarg c 1" "(mouseX h, mouseY h)"] by auto
      then show ?thesis using False w g by (simp add: Let_def split: prod.split)
    qed (use g in auto)
  qed
  show "keeps_good op_GET_GEOMETRY" "keeps_good op_GET_INPUT_FOCUS" "keeps_good op_ICONIFY_WINDOW" "keeps_good op_GET_SELECTION_OWNER"
    unfolding op_GET_GEOMETRY_def op_GET_INPUT_FOCUS_def op_ICONIFY_WINDOW_def op_GET_SELECTION_OWNER_def Let_def
    by (auto simp: keeps_good_def require_args_def split: prod.split option.split)
  show "keeps_good op_QUERY_TREE" unfolding op_QUERY_TREE_def Let_def
    by (rule keeps_args) (auto simp: keeps_good_def split: prod.split option.split sum.split bool.split)
qed

lemma keeps_rest:
  "keeps_good op_SET_INPUT_FOCUS" "keeps_good op_GRAB_POINTER" "keeps_good op_UNGRAB_POINTER"
  "keeps_good op_GRAB_SERVER" "keeps_good op_UNGRAB_SERVER" "keeps_good op_SELECT_INPUT" "keeps_good op_CLOSE_DISPLAY"
  "keeps_good op_LOCK_EVENTS" "keeps_good op_UNLOCK_EVENTS" "keeps_good op_REMOVE_EVENT" "keeps_good op_PUT_BACK_EVENT"
  "keeps_good op_GET_EVENT" "keeps_good op_CHECK_TYPED_WINDOW_EVENT" "keeps_good op_SET_SELECTION_OWNER"
  "keeps_good op_CHANGE_PROPERTY" "keeps_good op_DELETE_PROPERTY" "keeps_good op_INTERN_ATOM" "keeps_good op_FREE_PIXMAP"
proof -
  show "keeps_good op_SET_INPUT_FOCUS" unfolding op_SET_INPUT_FOCUS_def Let_def
    by (rule keeps_args, rule keeps_display, rule keepsI) (simp add: good_focus)
  show "keeps_good op_GRAB_POINTER" unfolding op_GRAB_POINTER_def
    by (rule keeps_args, rule keeps_display, rule keeps_window) (simp add: good_grab listed_window)
  show "keeps_good op_UNGRAB_POINTER" unfolding op_UNGRAB_POINTER_def
    by (rule keeps_args, rule keepsI) (simp add: good_ungrab)
  show "keeps_good op_GRAB_SERVER" "keeps_good op_UNGRAB_SERVER" unfolding op_GRAB_SERVER_def op_UNGRAB_SERVER_def
    by (rule keepsI, auto intro: good_fields)+
  show "keeps_good op_SET_SELECTION_OWNER" unfolding op_SET_SELECTION_OWNER_def
    by (rule keeps_args, rule keepsI) (auto intro: good_fields)
  show "keeps_good op_SELECT_INPUT" "keeps_good op_LOCK_EVENTS" "keeps_good op_UNLOCK_EVENTS" "keeps_good op_REMOVE_EVENT"
    "keeps_good op_PUT_BACK_EVENT" "keeps_good op_GET_EVENT" "keeps_good op_CHECK_TYPED_WINDOW_EVENT"
    unfolding op_SELECT_INPUT_def op_LOCK_EVENTS_def op_UNLOCK_EVENTS_def op_REMOVE_EVENT_def op_PUT_BACK_EVENT_def
      op_GET_EVENT_def op_CHECK_TYPED_WINDOW_EVENT_def
    by (rule keeps_args, rule keeps_display, rule keepsI, auto simp: good_set_display split: prod.split option.split)+
  show "keeps_good op_CLOSE_DISPLAY" unfolding op_CLOSE_DISPLAY_def
    by (rule keeps_args, rule keeps_display, rule keepsI) (simp add: good_unregister)
  show "keeps_good op_CHANGE_PROPERTY" "keeps_good op_DELETE_PROPERTY"
    unfolding op_CHANGE_PROPERTY_def op_DELETE_PROPERTY_def Let_def
    by (rule keeps_args, rule keepsI, auto simp: good_setProperty good_deleteProperty split: prod.split option.split)+
  show "keeps_good op_INTERN_ATOM" unfolding op_INTERN_ATOM_def
    by (rule keeps_args, rule keepsI) (auto split: prod.split dest: result_good [OF good_intern])
  show "keeps_good op_FREE_PIXMAP" unfolding op_FREE_PIXMAP_def removePixmap_def
    by (rule keeps_args, rule keepsI) (auto intro: good_fields)
qed


lemma good_pixmap_call: "good h \<Longrightarrow> nextId h + 1 \<noteq> 0 \<Longrightarrow> good (snd (snd (op_CREATE_PIXMAP c h)))"
  by (simp add: op_CREATE_PIXMAP_def require_args_def createNewPixmap_def Let_def good_next split: option.split)

section \<open>Native input\<close>

text \<open>Input only tells the clients, except that a move may change the window the pointer is in, or end a grab.\<close>

lemma walk_any: "tree_ok h \<Longrightarrow> walk stop (Some i) h \<noteq> None"
proof (cases "windows h i")
  case None
  assume t: "tree_ok h"
  have "parent_of i h = None" using None by (simp add: parent_of_def)
  moreover have "0 < unat (nextId h)"
    using tree_okD(1) [OF t tree_okD(6) [OF t]] by (auto simp: word_le_nat_alt unat_gt_0 unsigned_eq_0_iff)
  then obtain n where "unat (nextId h) = Suc n" using gr0_conv_Suc by blast
  ultimately show ?thesis by (cases n) (auto simp: walk_def)
next
  case (Some w)
  assume "tree_ok h"
  then show ?thesis using Some by (intro walk_returns) auto
qed

lemma screenToWindow_any: "tree_ok h \<Longrightarrow> screenToWindow w p h \<noteq> None"
  using walk_any [of h "\<lambda>_. False" w] by (auto simp: screenToWindow_def getAncestorTree_def)

lemma notifications_told:
  assumes "tree_ok h"
  shows "told h (motionNotify w p i h)" "told h (keyNotify w k pressed p i h)" "told h (buttonNotify w b pressed p i h)"
  using screenToWindow_any [OF assms, of w p] by (auto simp: motionNotify_def keyNotify_def buttonNotify_def)

lemma notified_told:
  assumes "tree_ok h"
  shows "told h (snd (mouseMoveScreenCoords p w h))" "told h (snd (keyScreenCoords k pressed p w h))"
    "told h (snd (mouseButtonScreenCoords b pressed p w h))"
  unfolding mouseMoveScreenCoords_def keyScreenCoords_def mouseButtonScreenCoords_def snd_conv
  by (rule told_iterate_tree; rule notifications_told; use assms told_tree_ok in blast)+

lemma rise_told:
  assumes "\<And>i g. told h g \<Longrightarrow> told g (snd (tell i g))" "walk_up n (\<lambda>_. False) w h \<noteq> None"
  shows "told h (rise n tell w h)"
proof -
  have "told h g \<Longrightarrow> walk_up n (\<lambda>_. False) w g \<noteq> None \<Longrightarrow> told h (rise n tell w g)" for g
  proof (induction n arbitrary: w g)
    case 0
    then show ?case by (auto split: option.splits)
  next
    case (Suc n)
    show ?case
    proof (cases w)
      case None
      then show ?thesis using Suc.prems by simp
    next
      case (Some i)
      obtain found g' where t: "tell i g = (found, g')" by fastforce
      then have s: "told g g'" using assms(1) [OF Suc.prems(1), of i] by simp
      have "parent_of i g' = parent_of i g" using s told_windows [OF s] by (simp add: parent_of_def)
      then have "walk_up n (\<lambda>_. False) (parent_of i g') g' \<noteq> None"
        using Suc.prems(2) Some same_tree_walk [OF told_same_tree [OF s]] by auto
      then show ?thesis using Suc.IH [of g'] told_trans [OF Suc.prems(1) s] t Some by simp
    qed
  qed
  then show ?thesis using assms(2) told_refl by blast
qed

lemma rise_from_told:
  assumes "tree_ok h" "\<And>i g. told h g \<Longrightarrow> told g (snd (tell i g))"
  shows "told h (rise_from tell w h)"
  unfolding rise_from_def
  by (rule rise_told) (use assms walk_any [OF assms(1)] in \<open>auto simp: walk_def\<close>)

lemma good_set_pointer_moved:
  "good h \<Longrightarrow> windows h w \<noteq> None \<Longrightarrow> good ((pointerMoved (pointerWindow h) w p mode h)\<lparr>pointerWindow := w\<rparr>)"
  by (intro good_set_pointer good_pointer_moved) (simp_all add: goodD(3) windows_pointerMoved)

lemma good_input:
  assumes "good h"
  shows "good (mouseMove half p relative h)" "good (mouseButton b p pressed h)" "good (key_event k pressed h)"
proof -
  have bub: "good (rise_from (mouseMoveScreenCoords q) w g)" "good (rise_from (mouseButtonScreenCoords b pressed q) w g)"
    "good (rise_from (keyScreenCoords k pressed q) w g)" if "good g" for q w g
    by (rule good_told [OF that]; rule rise_from_told [OF goodD(1) [OF that]]; rule notified_told; use goodD(1) [OF that] told_tree_ok in blast)+
  have at_point: "\<exists>w. getWindowFromPoint (root g) q g = Some w \<and> windows g w \<noteq> None" if "good g" for q g
    using getWindowFromPoint_returns [OF goodD(1,2) [OF that] tree_okD(6) [OF goodD(1) [OF that]]]
      getWindowFromPoint_exists [OF goodD(1,2) [OF that] tree_okD(6) [OF goodD(1) [OF that]]] by blast
  have move: "good (move_to q g)" if g: "good g" for q g
  proof -
    obtain w where w: "getWindowFromPoint (root g) q g = Some w" "windows g w \<noteq> None" using at_point [OF g] by blast
    show ?thesis using bub(1) g good_set_pointer_moved [OF g w(2)] by (simp add: move_to_def w(1))
  qed
  have press: "good (press_at b pressed q g)" if g: "good g" for q g
  proof -
    obtain w where "getWindowFromPoint (root g) q g = Some w" using at_point [OF g] by blast
    then show ?thesis using bub(2) [OF g] by (simp add: press_at_def)
  qed
  note told = good_told [OF assms notifications_told(1) [OF goodD(1) [OF assms]]] good_told [OF assms notifications_told(3) [OF goodD(1) [OF assms]]]
  show "good (mouseMove half p relative h)"
    using assms move good_ungrab told(1) by (simp add: mouseMove_def Let_def)
  show "good (mouseButton b p pressed h)"
    using assms press good_ungrab told(2) by (simp add: mouseButton_def)
  show "good (key_event k pressed h)"
    using assms at_point [OF assms, of "(mouseX h, mouseY h)"] bub(3) [OF assms] by (auto simp: key_event_def Let_def split: option.splits)
qed

section \<open>Sessions\<close>

text \<open>The handlers that may be called at any time with any arguments.\<close>

definition window_ops :: "xserver handler list" where
  "window_ops = [op_DESTROY_WINDOW, op_MAP_WINDOW, op_UNMAP_WINDOW, op_WITHDRAW_WINDOW, op_MOVE_RESIZE_WINDOW,
     op_CHANGE_WINDOW_ATTRIBUTES, op_GET_WINDOW_ATTRIBUTES, op_TRANSLATE_COORDINATES, op_QUERY_POINTER, op_GET_GEOMETRY,
     op_QUERY_TREE, op_GET_INPUT_FOCUS, op_SET_INPUT_FOCUS, op_ICONIFY_WINDOW, op_GRAB_POINTER, op_UNGRAB_POINTER,
     op_GRAB_SERVER, op_UNGRAB_SERVER, op_SELECT_INPUT, op_CLOSE_DISPLAY, op_LOCK_EVENTS, op_UNLOCK_EVENTS,
     op_REMOVE_EVENT, op_PUT_BACK_EVENT, op_GET_EVENT, op_CHECK_TYPED_WINDOW_EVENT, op_GET_SELECTION_OWNER,
     op_SET_SELECTION_OWNER, op_CHANGE_PROPERTY, op_DELETE_PROPERTY, op_INTERN_ATOM, op_FREE_PIXMAP]"

lemma window_ops_good: "H \<in> set window_ops \<Longrightarrow> keeps_good H"
  using keeps_windows keeps_queries keeps_rest by (auto simp: window_ops_def)

text \<open>Requests and native input in any order.  Windows and pixmaps are created while ids last; a window is not configured relative to a sibling and
  moves under a parent that is not below it, and the root does not move.\<close>

inductive window_session :: "xserver \<Rightarrow> xserver \<Rightarrow> bool" for h0 where
  start: "window_session h0 h0"
| request: "window_session h0 h \<Longrightarrow> H \<in> set window_ops \<Longrightarrow> H c h = (r, c', h') \<Longrightarrow> window_session h0 h'"
| creation: "window_session h0 h \<Longrightarrow> nextId h + 1 \<noteq> 0 \<Longrightarrow> op_CREATE_WINDOW c h = (r, c', h') \<Longrightarrow> window_session h0 h'"
| pixmap: "window_session h0 h \<Longrightarrow> nextId h + 1 \<noteq> 0 \<Longrightarrow> op_CREATE_PIXMAP c h = (r, c', h') \<Longrightarrow> window_session h0 h'"
| configuration: "window_session h0 h \<Longrightarrow> uarg c 2 AND CWSibling = 0 \<Longrightarrow> op_CONFIGURE_WINDOW c h = (r, c', h') \<Longrightarrow>
    window_session h0 h'"
| reparenting: "window_session h0 h \<Longrightarrow> parent_of (uarg c 1) h \<noteq> None \<Longrightarrow> getAncestorTree (uarg c 2) h = Some ws \<Longrightarrow>
    uarg c 1 \<notin> set ws \<Longrightarrow> op_REPARENT_WINDOW c h = (r, c', h') \<Longrightarrow> window_session h0 h'"
| pointer: "window_session h0 h \<Longrightarrow> window_session h0 (h\<lparr>mouseX := x, mouseY := y, nativeModifiers := m, eventTime := t\<rparr>)"
| motion: "window_session h0 h \<Longrightarrow> window_session h0 (mouseMove half p relative h)"
| button: "window_session h0 h \<Longrightarrow> window_session h0 (mouseButton b p pressed h)"
| key: "window_session h0 h \<Longrightarrow> window_session h0 (key_event k pressed h)"

lemma session_good: "window_session h0 h \<Longrightarrow> good h0 \<Longrightarrow> good h"
proof (induction rule: window_session.induct)
  case (request h H c r c' h')
  then show ?case using window_ops_good [of H] by (metis keeps_good_def snd_conv)
next
  case (creation h c r c' h')
  then show ?case using good_create_call by (metis snd_conv)
next
  case (pixmap h c r c' h')
  then show ?case using good_pixmap_call by (metis snd_conv)
next
  case (configuration h c r c' h')
  then show ?case using good_configure_call by (metis snd_conv)
next
  case (reparenting h c ws r c' h')
  then show ?case using good_reparent_call by (metis snd_conv)
next
  case (pointer h x y m t)
  then have "good h" by simp
  then show ?case by (rule good_same_tree) (use goodD(3) \<open>good h\<close> in \<open>simp_all add: same_tree_def\<close>)
qed (simp_all add: good_input)



end
