(* ===== verification/HostRequests.thy ===== *)
theory HostRequests
  imports HostSession
begin

text \<open>
  What window requests do: coordinates, stacking and geometry, cycles of parents, the birth and death of
  a window, and the events a map request sends; and the small server on which the properties of the
  window tree apply.
\<close>

section \<open>Coordinates\<close>

lemma fold_pairs:
  fixes x y :: c_int
  shows
  "fold (\<lambda>i (x, y). (x + f i, y + g i)) ws (x, y) = (x + sum_list (map f ws), y + sum_list (map g ws))"
  "fold (\<lambda>i (x, y). (x - f i, y - g i)) ws (x, y) = (x - sum_list (map f ws), y - sum_list (map g ws))"
  by (induction ws arbitrary: x y) (simp_all add: algebra_simps)

lemma screen_inverse: "windowToScreen w p h = Some q \<Longrightarrow> screenToWindow w q h = Some p"
  by (cases p) (auto simp: windowToScreen_def screenToWindow_def fold_pairs)

lemma window_inverse: "screenToWindow w q h = Some p \<Longrightarrow> windowToScreen w p h = Some q"
  by (cases q) (auto simp: windowToScreen_def screenToWindow_def fold_pairs)

text \<open>A point translated from one window to another and back is the same point, whatever the offsets and
  with all the wrap-around of 32-bit arithmetic.\<close>

theorem coordinates_roundtrip:
  assumes "tree_ok h" "windows h src \<noteq> None" "windows h dest \<noteq> None"
  shows "\<exists>q r. windowToScreen src p h = Some q \<and> screenToWindow dest q h = Some r \<and>
    windowToScreen dest r h = Some q \<and> screenToWindow src q h = Some p"
proof -
  obtain q where q: "windowToScreen src p h = Some q" using walks_return(3) [OF assms(1,2)] by blast
  obtain r where r: "screenToWindow dest q h = Some r" using walks_return(2) [OF assms(1,3)] by blast
  show ?thesis using q r screen_inverse [OF q] window_inverse [OF r] by blast
qed

section \<open>Stacking and geometry\<close>

lemma configureNotify_told [simp]: "told h (configureNotify i h)"
  by (auto simp: configureNotify_def Let_def split: option.split intro: told_trans [OF told_tell(1) told_tell(2)])

text \<open>Raising a window puts it in front of its siblings and keeps their order; the stack mode of the
  request is never looked at, so lowering a window raises it just the same.\<close>

theorem restacking_raises:
  assumes "good h" "getWindow i h \<noteq> None" "parent_of i h = Some p" "m AND CWSibling = 0" "m AND CWStackMode \<noteq> 0"
  shows "children_of p (configure i m ch h) = remove1 i (children_of p h) @ [i]"
proof -
  note g = assms(1)
  have mem: "i \<in> set (children_of p h)" using tree_okD(4) [OF goodD(1) [OF g]] assms(2,3) by simp
  have ip: "i \<noteq> p" using tree_okD(3) [OF goodD(1) [OF g]] assms(3) by (auto simp: acyclic_def up_def)
  have pe: "windows h p \<noteq> None" by (rule tree_okD(2) [OF goodD(1) [OF g] assms(3)])
  have ie: "windows h i \<noteq> None" by (rule listed_exists [OF assms(2)])
  define f where "f = (\<lambda>w :: xwindow. w\<lparr>
                 w_left := (if m AND CWX \<noteq> 0 then ch_x ch else w_left w),
                 w_top := (if m AND CWY \<noteq> 0 then ch_y ch else w_top w),
                 w_border := (if m AND CWBorderWidth \<noteq> 0 then ch_border_width ch else w_border w)\<rparr>)"
  have ff: "w_parent (f w) = w_parent w" "w_children (f w) = w_children w" "w_listed (f w) = w_listed w"
    "w_transients (f w) = w_transients w" "w_transientCached (f w) = w_transientCached w" for w
    by (simp_all add: f_def)
  define width where "width = (if m AND CWWidth \<noteq> 0 then ch_width ch else width_of i h)"
  define height where "height = (if m AND CWHeight \<noteq> 0 then ch_height ch else height_of i h)"
  define h1 where "h1 = upd_window i f h"
  define h2 where "h2 = raise_window i p h1"
  define h3 where "h3 = (if width \<noteq> width_of i h \<or> height \<noteq> height_of i h then resize_window i width height h2 else h2)"
  have p1: "parent_of i h1 = Some p" using assms(3) ie by (auto simp: h1_def links_upd ff parent_of_def)
  have g1: "good h1" unfolding h1_def by (rule good_upd [OF g]) (simp_all add: ff)
  have g2: "good h2" unfolding h2_def by (rule good_raise [OF g1])
  then have g3: "good h3" unfolding h3_def by (simp add: good_resize)
  have c2: "children_of p h2 = remove1 i (children_of p h) @ [i]"
    using mem ip pe by (auto simp: h2_def h1_def raise_window_def links_upd ff children_of_def)
  have "children_of p (resize_window i width height h2) = children_of p h2"
    using same_tree_reads(2) [OF painted_same_tree [OF resize_painted]] ip by (simp add: links_upd)
  then have c3: "children_of p h3 = remove1 i (children_of p h) @ [i]" using c2 by (simp add: h3_def)
  have "windows h2 i \<noteq> None" using ie ip by (simp add: h2_def h1_def raise_window_def)
  then have e3: "windows h3 i \<noteq> None" by (simp add: h3_def del: not_None_eq)
  have t: "told h3 (configureNotify i h3)" by simp
  have g4: "good (configureNotify i h3)" by (rule good_told [OF g3 t])
  have "told (configureNotify i h3) (expose_on i i (configureNotify i h3))"
    by (rule expose_on_told [OF goodD(1) [OF g4]]) (use e3 in simp)
  then have t2: "told h3 (if class_of i h = InputOutput \<and> mapped_at i h then expose_on i i (configureNotify i h3) else configureNotify i h3)"
    using t told_trans [OF t] by auto
  have "configure i m ch h = (if class_of i h = InputOutput \<and> mapped_at i h then expose_on i i (configureNotify i h3) else configureNotify i h3)"
    using assms(4,5) p1 by (simp add: configure_def Let_def h3_def h2_def h1_def f_def width_def height_def)
  then show ?thesis using c3 same_tree_reads(2) [OF told_same_tree [OF t2]] by simp
qed

lemma resize_reads:
  assumes "windows h i \<noteq> None"
  shows "left_of i (resize_window i wd ht h) = left_of i h" "top_of i (resize_window i wd ht h) = top_of i h"
    "width_of i (resize_window i wd ht h) = wd" "height_of i (resize_window i wd ht h) = ht"
  unfolding same_tree_reads(3-6) [OF painted_same_tree [OF resize_painted]]
  using assms by (auto simp: left_of_def top_of_def width_of_def height_of_def)

text \<open>Moving and resizing in one request sets the size and leaves the position where it was.\<close>

theorem moveResize_keeps_position:
  assumes "windows h i \<noteq> None"
  shows "left_of i (moveResize i x y wd ht h) = left_of i h \<and> top_of i (moveResize i x y wd ht h) = top_of i h \<and>
    width_of i (moveResize i x y wd ht h) = wd \<and> height_of i (moveResize i x y wd ht h) = ht"
proof -
  define h1 where "h1 = (if wd \<noteq> width_of i h \<or> ht \<noteq> height_of i h
         then resize_window i wd ht h else h)"
  have t: "told h1 (configureNotify i h1)" by simp
  have r: "left_of i h1 = left_of i h" "top_of i h1 = top_of i h" "width_of i h1 = wd" "height_of i h1 = ht"
    using resize_reads [OF assms] by (auto simp: h1_def)
  show ?thesis
  proof (cases "left_of i h = x \<and> top_of i h = y \<and> width_of i h = wd \<and> height_of i h = ht")
    case False
    have "moveResize i x y wd ht h = configureNotify i h1" unfolding moveResize_def h1_def if_not_P [OF False] by (rule refl)
    then show ?thesis using r same_tree_reads(3-6) [OF told_same_tree [OF t]] by simp
  qed (simp add: moveResize_def)
qed

section \<open>Cycles\<close>

lemma walk_cycle:
  "(\<And>x. x \<in> S \<Longrightarrow> \<exists>y \<in> S. parent_of x h = Some y) \<Longrightarrow> x \<in> S \<Longrightarrow> walk_up n (\<lambda>_. False) (Some x) h = None"
proof (induction n arbitrary: x)
  case (Suc n)
  then obtain y where "y \<in> S" "parent_of x h = Some y" by blast
  then show ?case using Suc by simp
qed simp

text \<open>C19: nothing stops a window from being moved under one of its own descendants; the parents then form a
  cycle and no walk from the window towards the root ends.\<close>

theorem reparent_cycle:
  assumes "windows h i \<noteq> None" "\<not> mapped_at i h" "parent_of i h \<noteq> None" "class_of p h \<noteq> InputOnly" "(p, i) \<in> (up h)\<^sup>*"
  shows "getAncestorTree i (snd (reparentWindow i p x y h)) = None \<and>
    windowToScreen i q (snd (reparentWindow i p x y h)) = None"
proof -
  obtain old where old: "parent_of i h = Some old" using assms(3) by blast
  define h2 where "h2 = addToParent i p (upd_window i (\<lambda>w. w\<lparr>w_parent := Some p, w_left := x, w_top := y\<rparr>) (removeFromParent i old h))"
  define h3 where "h3 = tell_self i ReparentNotify (\<lambda>q. [i, p, x, y, override_of i h])
      (tell_parent (Some p) ReparentNotify (\<lambda>q. [i, p, x, y, override_of i h]) h2)"
  have e: "snd (reparentWindow i p x y h) = h3"
    using assms(2,4) old by (simp add: reparentWindow_def Let_def h3_def h2_def)
  have t: "told h2 h3" unfolding h3_def by (rule told_trans [OF told_tell(1) told_tell(2)])
  have P: "parent_of j h2 = (if j = i then Some p else parent_of j h)" for j
    using assms(1) by (auto simp: h2_def addToParent_def removeFromParent_def links_upd parent_of_def split: option.split)
  then have P3: "parent_of j h3 = (if j = i then Some p else parent_of j h)" for j
    using same_tree_reads(1) [OF told_same_tree [OF t]] by simp
  let ?S = "{x. (x, i) \<in> (up h)\<^sup>*}"
  have step: "\<exists>y \<in> ?S. parent_of x h3 = Some y" if "x \<in> ?S" for x
  proof (cases "x = i")
    case False
    from that have "(x, i) \<in> (up h)\<^sup>*" by simp
    then show ?thesis
    proof (cases rule: converse_rtranclE)
      case (step y)
      then show ?thesis using False by (auto simp: P3 up_def)
    qed (use False in simp)
  qed (use assms(5) P3 in auto)
  have "walk_up n (\<lambda>_. False) (Some i) h3 = None" for n by (rule walk_cycle [OF step]) simp_all
  then have "getAncestorTree i h3 = None" by (simp add: getAncestorTree_def walk_def)
  then show ?thesis by (simp add: e windowToScreen_def)
qed


section \<open>Birth and death of a window\<close>

lemma ungrab_same_tree: "good h \<Longrightarrow> same_tree h (ungrabPointer h)"
proof -
  assume g: "good h"
  have "nextId (ungrabPointer h) = nextId h \<and> root (ungrabPointer h) = root h"
  proof -
    let ?h1 = "h\<lparr>grabbedId := 0, grabbedDisplayId := 0, grabbedConfinedId := 0, isGrabbed := False\<rparr>"
    have g1: "good ?h1" by (rule good_same_tree [OF g]) (simp_all add: same_tree_def goodD(3) [OF g])
    have r: "windows ?h1 (root ?h1) \<noteq> None" by (rule tree_okD(6) [OF goodD(1) [OF g1]])
    have e: "windows h w \<noteq> None" if "getWindowFromPoint (root ?h1) p ?h1 = Some w" for w p
      using getWindowFromPoint_exists [OF goodD(1,2) [OF g1] r that] by simp
    have "told (?h1\<lparr>pointerWindow := b\<rparr>) (pointerMoved a b p mode (?h1\<lparr>pointerWindow := b\<rparr>))"
      if "windows h a \<noteq> None" "windows h b \<noteq> None" for a b p mode
      by (rule pointerMoved_told) (use goodD(1) [OF good_set_pointer [OF g1]] that in simp_all)
    from told_fields [OF this] show ?thesis using e
      by (auto simp: ungrabPointer_def Let_def mark_stuck_def getWindow_def split: option.splits if_splits)
  qed
  then show ?thesis using windows_ungrab [OF g] by (simp add: same_tree_def)
qed

text \<open>Destroying a window takes it out of the table and out of its parent's children and does nothing to
  its own children: they stay in the table, below a parent that is gone.\<close>

theorem destroy_orphans:
  assumes "good h" "getWindow w h \<noteq> None" "destroyWindow w h = (r, h')"
  shows "r = 0 \<and> (\<forall>j. getWindow j h' = None \<longleftrightarrow> j = w \<or> getWindow j h = None) \<and>
    (\<forall>j. children_of j h' = (if Some j = parent_of w h then remove1 w (children_of j h) else children_of j h)) \<and>
    (\<forall>c \<in> set (children_of w h). getWindow c h' \<noteq> None \<and> parent_of c h' = Some w)"
proof -
  note g = assms(1)
  define h3 where "h3 = upd_window w (\<lambda>win. win\<lparr>w_listed := False\<rparr>) (onDestroy w h)"
  note d = destroy_state [OF g assms(2), folded h3_def]
  have e: "r = 0" "h' = (if w = grabbedId h3 then ungrabPointer h3 else h3)"
    using assms(2,3) by (auto simp: destroyWindow_def Let_def h3_def split: if_splits)
  have s: "same_tree h3 h'" using e ungrab_same_tree [OF d(1)] by simp
  note rd = same_tree_reads [OF s]
  have "getWindow c h' \<noteq> None \<and> parent_of c h' = Some w" if c: "c \<in> set (children_of w h)" for c
  proof -
    have p: "parent_of c h = Some w" "getWindow c h \<noteq> None" using tree_okD(4) [OF goodD(1) [OF g]] c by blast+
    then have "c \<noteq> w" using tree_okD(3) [OF goodD(1) [OF g]] by (auto simp: acyclic_def up_def)
    then show ?thesis using p by (simp add: rd d)
  qed
  then show ?thesis by (simp add: e(1) rd d)
qed

lemma create_links:
  assumes "good h" "getWindow p h \<noteq> None" "nextId h + 1 \<noteq> 0" "createNewWindow i p wd ht dep x y cls b v h = (w, h')"
  shows "w = nextId h + 1" "getWindow w h = None" "getWindow w h' \<noteq> None" "parent_of w h' = Some p"
    "children_of j h' = (if j = w then [] else if j = p then children_of p h @ [w] else children_of j h)"
    "left_of w h' = x \<and> top_of w h' = y \<and> width_of w h' = wd \<and> height_of w h' = ht \<and> \<not> mapped_at w h'"
proof -
  note g = assms(1)
  let ?w = "new_window i p wd ht dep x y cls b v h"
  let ?h1 = "h\<lparr>nextId := nextId h + 1, buffers := (buffers h)(nextId h + 1 := new_buffer v wd ht h), windows := (windows h)(nextId h + 1 \<mapsto> ?w)\<rparr>"
  have lt: "nextId h < nextId h + 1" using unatSuc [of "nextId h"] assms(3) by (simp add: word_less_nat_alt add.commute)
  have fresh: "windows h (nextId h + 1) = None" using tree_okD(1) [OF goodD(1) [OF g], of "nextId h + 1"] lt by fastforce
  have pw: "p \<noteq> nextId h + 1" "windows h p \<noteq> None" using listed_exists [OF assms(2)] fresh by auto
  have nw: "w_parent ?w = Some p" "w_children ?w = []" "w_listed ?w" "w_left ?w = x" "w_top ?w = y" "w_width ?w = wd"
    "w_height ?w = ht" "\<not> w_mapped ?w" by (simp_all add: new_window_def)
  show w: "w = nextId h + 1" using assms(4) by (simp add: createNewWindow_def Let_def)
  have h': "told (addToParent w p ?h1) h'"
    using assms(4) by (auto simp: createNewWindow_def onCreate_def Let_def nw w)
  note rd = same_tree_reads [OF told_same_tree [OF h']]
  show "getWindow w h = None" using fresh by (simp add: getWindow_def w)
  show "getWindow w h' \<noteq> None" "parent_of w h' = Some p"
    using pw nw by (simp_all add: rd addToParent_def links_upd w) (simp_all add: getWindow_def parent_of_def nw)
  show "children_of j h' = (if j = w then [] else if j = p then children_of p h @ [w] else children_of j h)"
    using pw nw by (auto simp: rd addToParent_def links_upd w) (auto simp: children_of_def nw)
  show "left_of w h' = x \<and> top_of w h' = y \<and> width_of w h' = wd \<and> height_of w h' = ht \<and> \<not> mapped_at w h'"
    unfolding rd using pw nw by (simp add: addToParent_def left_of_def top_of_def width_of_def height_of_def mapped_at_def w)
qed

text \<open>C18: a new window has an id of its own, stands unmapped in front of its siblings with the geometry asked for,
  and destroying it again leaves the parent's children as they were.\<close>

theorem create_destroy_roundtrip:
  assumes "good h" "getWindow p h \<noteq> None" "nextId h + 1 \<noteq> 0"
    and "createNewWindow i p wd ht dep x y cls b v h = (w, h1)" "destroyWindow w h1 = (r, h2)"
  shows "getWindow w h = None \<and> children_of p h1 = children_of p h @ [w] \<and>
    left_of w h1 = x \<and> top_of w h1 = y \<and> width_of w h1 = wd \<and> height_of w h1 = ht \<and> \<not> mapped_at w h1 \<and>
    r = 0 \<and> getWindow w h2 = None \<and> children_of p h2 = children_of p h"
proof -
  note c = create_links [OF assms(1-4)]
  have g1: "good h1" using good_create [OF assms(1-3)] assms(4) by (metis snd_conv)
  have pw: "p \<noteq> w" using c(2) assms(2) by auto
  have wn: "w \<notin> set (children_of p h)" using tree_okD(4) [OF goodD(1) [OF assms(1)]] c(2) by blast
  show ?thesis using destroy_orphans [OF g1 c(3) assms(5)] c pw wn by (simp add: remove1_append)
qed


section \<open>Who is told\<close>

lemma fold_told_cong:
  assumes "\<And>x g. told h g \<Longrightarrow> f x g = f' x g" "\<And>x g. told g (f' x g)"
  shows "fold f xs h = fold f' xs h"
proof -
  have "told h g \<Longrightarrow> fold f xs g = fold f' xs g" for g
  proof (induction xs arbitrary: g)
    case (Cons x xs)
    have "told h (f' x g)" using Cons.prems assms(2) told_trans by blast
    then show ?case using Cons assms(1) by simp
  qed simp
  then show ?thesis by simp
qed

text \<open>The table of displays and the order in which it is walked name the same displays.\<close>

definition displays_ok :: "xserver \<Rightarrow> bool" where
  "displays_ok h \<longleftrightarrow> distinct (displayOrder h) \<and> (\<forall>i. i \<in> set (displayOrder h) \<longleftrightarrow> displays h i \<noteq> None)"

text \<open>What a notification does to one display.\<close>

definition deliver :: "u32 \<Rightarrow> u32 \<Rightarrow> (display_data \<Rightarrow> u32 \<Rightarrow> u32 list) \<Rightarrow> display_data \<Rightarrow> display_data" where
  "deliver w m mk d = (if getEventMask w d AND m \<noteq> 0 then queue_event mk d else d)"

lemma fold_displays:
  "distinct xs \<Longrightarrow> displays (fold (\<lambda>i h. case displays h i of None \<Rightarrow> h
       | Some d \<Rightarrow> if Q d then upd_display i g h else h) xs h) j =
     map_option (\<lambda>d. if j \<in> set xs \<and> Q d then g d else d) (displays h j)"
proof (induction xs arbitrary: h)
  case (Cons x xs)
  let ?s = "case displays h x of None \<Rightarrow> h | Some d \<Rightarrow> if Q d then upd_display x g h else h"
  have "displays ?s j = map_option (\<lambda>d. if j = x \<and> Q d then g d else d) (displays h j)"
    by (cases "displays h x"; cases "displays h j"; cases "j = x") (auto simp: upd_display_def set_display_def)
  then show ?case using Cons by (auto simp: option.map_comp o_def intro!: option.map_cong0)
qed (simp add: option.map_ident)

lemma displays_notify:
  "displays_ok h \<Longrightarrow> displays (notify w m mk h) i = map_option (deliver w m mk) (displays h i)"
  unfolding notify_def iterateEventMask_def
  by (subst fold_displays) (auto simp: displays_ok_def deliver_def intro!: option.map_cong)

lemma displayOrder_notify [simp]: "displayOrder (notify w m mk h) = displayOrder h"
  using told_notify [of h w m mk] by (auto simp: told_def)

lemma displays_ok_notify: "displays_ok h \<Longrightarrow> displays_ok (notify w m mk h)"
  using displays_notify [of h w m mk] by (simp add: displays_ok_def) 

lemma displays_upd [simp]: "displays (upd_window i f h) = displays h" "displayOrder (upd_window i f h) = displayOrder h"
  "eventTime (upd_window i f h) = eventTime h" "selectionWindow (upd_window i f h) = selectionWindow h"
  by (simp_all add: upd_window_def)

lemma displays_ok_upd [simp]: "displays_ok (upd_window i f h) = displays_ok h" "displays_ok (setDirty i h) = displays_ok h"
  by (simp_all add: displays_ok_def)

text \<open>The events of a map request for a window without children, in the order in which they are queued.\<close>

definition map_events :: "u32 \<Rightarrow> u32 \<Rightarrow> xserver \<Rightarrow> display_data \<Rightarrow> display_data" where
  "map_events i p h =
     deliver i (ucast ExposureMask) (\<lambda>d serial. [Expose, serial, 0, 0, i, 0, 0, width_of i h, height_of i h, 0]) \<circ>
     deliver i (ucast StructureNotifyMask) (\<lambda>d serial. [MapNotify, serial, 0, 0, i, i, override_of i h]) \<circ>
     deliver p (ucast SubstructureNotifyMask) (\<lambda>d serial. [MapNotify, serial, 0, 0, p, i, override_of i h]) \<circ>
     deliver i (ucast PropertyChangeMask) (\<lambda>d serial. [PropertyNotify, serial, 0, 0, i, WM_STATE, eventTime h, PropertyNewValue])"



section \<open>On the concrete server\<close>

lemma server0_windows [simp]:
  "windows server0 i = (if i = 2 then Some (window0 3 (Some 1) [] 100 50) else if i = 1 then Some (window0 0 None [2] 800 600) else None)"
  "root server0 = 1" "nextId server0 = 2" "pointerWindow server0 = 1" "stuck server0 = False" "displays server0 = (\<lambda>_. None)"
  "displayOrder server0 = []" "selectionWindow server0 = None"
  by (simp_all add: server0_def)

lemma window0_fields [simp]:
  "w_parent (window0 i p cs w h) = p" "w_children (window0 i p cs w h) = cs" "w_listed (window0 i p cs w h)"
  "w_transients (window0 i p cs w h) = []" "w_transientCached (window0 i p cs w h) = None" "w_class (window0 i p cs w h) = 1"
  "w_left (window0 i p cs w h) = 0" "w_top (window0 i p cs w h) = 0" "w_width (window0 i p cs w h) = w"
  "w_height (window0 i p cs w h) = h" "w_mapped (window0 i p cs w h)"
  by (simp_all add: window0_def)

lemma server0_reads:
  "parent_of i server0 = (if i = 2 then Some 1 else None)" "children_of i server0 = (if i = 1 then [2] else [])"
  "(getWindow i server0 = None) = (i \<noteq> 1 \<and> i \<noteq> 2)"
  by (auto simp: parent_of_def children_of_def getWindow_def)

lemma server0_good: "good server0"
proof -
  have u: "up server0 = {(2, 1)}" by (auto simp: up_def server0_reads split: if_splits)
  have "acyclic (up server0)" unfolding u by (simp add: acyclic_insert) (simp add: acyclic_def)
  then have "tree_ok server0" by (auto simp: tree_ok_def server0_reads split: if_splits)
  then show ?thesis by (simp add: good_def no_transients_def)
qed

lemma server0_displays: "displays_ok server0" by (simp add: displays_ok_def)

lemma coordinates_roundtrip_witness:
  "\<exists>q r. windowToScreen 2 (3, 4) server0 = Some q \<and> screenToWindow 1 q server0 = Some r \<and>
    windowToScreen 1 r server0 = Some q \<and> screenToWindow 2 q server0 = Some (3, 4)"
  using coordinates_roundtrip [of server0 2 1 "(3, 4)"] goodD(1) [OF server0_good] by simp

definition changes0 :: window_changes where
  "changes0 = \<lparr>ch_x = 0, ch_y = 0, ch_width = 0, ch_height = 0, ch_border_width = 0, ch_sibling = 0, ch_stack_mode = Below\<rparr>"

lemma restacking_raises_witness: "children_of 1 (configure 2 CWStackMode changes0 server0) = [2]"
  using restacking_raises [OF server0_good, of 2 1 CWStackMode changes0]
  by (simp add: server0_reads CWStackMode_def CWSibling_def)

lemma moveResize_keeps_position_witness:
  "left_of 2 (moveResize 2 30 40 5 6 server0) = 0 \<and> width_of 2 (moveResize 2 30 40 5 6 server0) = 5"
  using moveResize_keeps_position [of server0 2 30 40 5 6] by (simp add: left_of_def)

lemma reparent_cycle_witness:
  "getAncestorTree 2 (snd (reparentWindow 2 2 0 0 (upd_window 2 (\<lambda>w. w\<lparr>w_mapped := False\<rparr>) server0))) = None"
  using reparent_cycle [of "upd_window 2 (\<lambda>w. w\<lparr>w_mapped := False\<rparr>) server0" 2 2 0 0 "(0, 0)"]
  by (simp add: mapped_at_def class_of_def parent_of_def InputOnly_def)

lemma destroy_orphans_witness:
  "getWindow 2 (snd (destroyWindow 1 server0)) \<noteq> None \<and> getWindow 1 (snd (destroyWindow 1 server0)) = None"
  using destroy_orphans [OF server0_good, of 1 "fst (destroyWindow 1 server0)" "snd (destroyWindow 1 server0)"]
  by (simp add: server0_reads)

lemma create_destroy_roundtrip_witness:
  "case createNewWindow 3 1 10 10 32 0 0 1 0 None server0 of (w, h1) \<Rightarrow>
     children_of 1 h1 = [2, w] \<and> children_of 1 (snd (destroyWindow w h1)) = [2]"
proof -
  obtain w h1 where c: "createNewWindow 3 1 10 10 32 0 0 1 0 None server0 = (w, h1)" by force
  obtain r h2 where d: "destroyWindow w h1 = (r, h2)" by force
  show ?thesis using create_destroy_roundtrip [OF server0_good _ _ c d] by (simp add: server0_reads c d)
qed

definition server1 :: xserver where
  "server1 = upd_window 2 (\<lambda>w. w\<lparr>w_mapped := False\<rparr>) (server0\<lparr>displayOrder := [3], displays := [3 \<mapsto>
     \<lparr>displayAddress64 = 8192, d_root = 1, clientFd = 5, serverFd = 6, eventQueue = [], eventQueueIsLocked = False,
      wakeBytes = 0, perWindowEventMask = [2 \<mapsto> ucast StructureNotifyMask], requestCounter = 0\<rparr>]\<rparr>)"



lemma session0: "window_session server0 (snd (snd (op_DESTROY_WINDOW (call_for all_pages [0, 2] (\<lambda>_. 0)) server0)))"
  by (rule window_session.request [OF window_session.start, of op_DESTROY_WINDOW])
    (simp_all add: window_ops_def prod_eq_iff)




section \<open>Crossing events\<close>

text \<open>The words of an EnterNotify or LeaveNotify event: the point in the window and on the screen, the mode, the
  detail, the same-screen and focus flags and the modifiers.\<close>

definition crossing_words :: "c_int \<Rightarrow> u32 \<Rightarrow> c_int \<times> c_int \<Rightarrow> u32 \<Rightarrow> u32 \<Rightarrow> xserver \<Rightarrow> display_data \<Rightarrow> u32 \<Rightarrow> u32 list" where
  "crossing_words type w p mode detail h d serial =
     (case (screenToWindow w p h, doesThisOrAncestorHaveFocus w h) of
        (Some (x, y), Some focus) \<Rightarrow>
          [type, serial, 0, 0, w, d_root d, 0, eventTime h, x, y, fst p, snd p, mode, detail, 1, of_bool focus, getInputModifiers h]
      | _ \<Rightarrow> [])"

lemma told_focus: "told h h' \<Longrightarrow> doesThisOrAncestorHaveFocus w h' = doesThisOrAncestorHaveFocus w h"
  using same_tree_walks(1) [OF told_same_tree] by (auto simp: doesThisOrAncestorHaveFocus_def told_def split: option.split)

lemma told_inputs:
  assumes "told h g"
  shows "eventTime g = eventTime h" "getInputModifiers g = getInputModifiers h"
proof -
  have n: "eventTime g = eventTime h" "nativeModifiers g = nativeModifiers h" using assms by (auto simp: told_def)
  show "eventTime g = eventTime h" "getInputModifiers g = getInputModifiers h" by (simp_all only: getInputModifiers_def n)
qed

lemma crossing_notify:
  assumes "tree_ok h" "windows h w \<noteq> None" "told h g"
  shows "crossingNotify ins w p mode detail i g =
    upd_display i (queue_event (crossing_words (if ins then EnterNotify else LeaveNotify) w p mode detail h)) g"
proof -
  have "walk st (Some w) h \<noteq> None" for st by (rule walk_returns [OF assms(1)]) (use assms(2) in simp)
  then have "doesThisOrAncestorHaveFocus w h \<noteq> None" by (cases "inputFocus h") (auto simp: doesThisOrAncestorHaveFocus_def)
  then obtain f where f: "doesThisOrAncestorHaveFocus w h = Some f" by blast
  obtain q where q: "screenToWindow w p h = Some q" using walks_return(2) [OF assms(1,2)] by blast
  note e = told_inputs [OF assms(3)]
  obtain x y where xy: "q = (x, y)" by (cases q)
  have c: "crossing_words t w p mode detail h = (\<lambda>d serial.
      [t, serial, 0, 0, w, d_root d, 0, eventTime h, x, y, fst p, snd p, mode, detail, 1, of_bool f, getInputModifiers h])" for t
    by (rule ext)+ (simp add: crossing_words_def f q xy)
  show ?thesis
    unfolding crossingNotify_def told_focus [OF assms(3)] same_tree_walks(3) [OF told_same_tree [OF assms(3)]] f q xy e c
    by simp
qed

lemma leave_notify:
  assumes "tree_ok h" "windows h w \<noteq> None"
  shows "leave w p mode detail h = notify w (ucast LeaveWindowMask) (crossing_words LeaveNotify w p mode detail h) h"
    "enter w p mode detail h = notify w (ucast EnterWindowMask) (crossing_words EnterNotify w p mode detail h) h"
  unfolding leave_def enter_def notify_def iterateEventMask_def
  by (rule fold_told_cong; auto simp: crossing_notify [OF assms] split: option.split)+

lemma told_words: "told h g \<Longrightarrow> crossing_words t w p mode detail g = crossing_words t w p mode detail h"
proof -
  assume t: "told h g"
  note e = told_inputs [OF t]
  show ?thesis
    unfolding crossing_words_def [abs_def] same_tree_walks(3) [OF told_same_tree [OF t]] told_focus [OF t] e ..
qed

lemma between_child: "parent_of b h = Some a \<Longrightarrow> between b a h = Some []"
  by (cases "unat (nextId h)") (simp_all add: between_def walk_def)


text \<open>A client watching the child for the pointer.\<close>

definition server2 :: xserver where
  "server2 = server0\<lparr>displayOrder := [3], displays := [3 \<mapsto>
     \<lparr>displayAddress64 = 8192, d_root = 1, clientFd = 5, serverFd = 6, eventQueue = [], eventQueueIsLocked = False,
      wakeBytes = 0, perWindowEventMask = [2 \<mapsto> ucast EnterWindowMask], requestCounter = 0\<rparr>]\<rparr>"


end
