(* ===== verification/XRandr.thy ===== *)
theory XRandr
  imports X11Drawing HostRandr
begin

text \<open>
  The guest's libXrandr (\<^verbatim>\<open>tools/x11-64/xrandr.c\<close>): one fixed output on one controller, with the
  host's mode list, served as blocks of guest memory in the layout the client was compiled against.
  The static data of the library (a counter, the tables of the RandR 1.0 calls, their lock) is a
  record of its own that the functions take and return beside the process.
\<close>

section \<open>Layout\<close>

definition XRRScreenResources_size :: nat where "XRRScreenResources_size = 64"
definition rs_timestamp :: nat where "rs_timestamp = 0"
definition rs_configTimestamp :: nat where "rs_configTimestamp = 8"
definition rs_ncrtc :: nat where "rs_ncrtc = 16"
definition rs_crtcs :: nat where "rs_crtcs = 24"
definition rs_noutput :: nat where "rs_noutput = 32"
definition rs_outputs :: nat where "rs_outputs = 40"
definition rs_nmode :: nat where "rs_nmode = 48"
definition rs_modes :: nat where "rs_modes = 56"

definition XRRModeInfo_size :: nat where "XRRModeInfo_size = 80"
definition mi_id :: nat where "mi_id = 0"
definition mi_width :: nat where "mi_width = 8"
definition mi_height :: nat where "mi_height = 12"
definition mi_dotClock :: nat where "mi_dotClock = 16"
definition mi_hSyncStart :: nat where "mi_hSyncStart = 24"
definition mi_hSyncEnd :: nat where "mi_hSyncEnd = 28"
definition mi_hTotal :: nat where "mi_hTotal = 32"
definition mi_hSkew :: nat where "mi_hSkew = 36"
definition mi_vSyncStart :: nat where "mi_vSyncStart = 40"
definition mi_vSyncEnd :: nat where "mi_vSyncEnd = 44"
definition mi_vTotal :: nat where "mi_vTotal = 48"
definition mi_name :: nat where "mi_name = 56"
definition mi_nameLength :: nat where "mi_nameLength = 64"
definition mi_modeFlags :: nat where "mi_modeFlags = 72"

definition XRROutputInfo_size :: nat where "XRROutputInfo_size = 96"
definition oi_timestamp :: nat where "oi_timestamp = 0"
definition oi_crtc :: nat where "oi_crtc = 8"
definition oi_name :: nat where "oi_name = 16"
definition oi_nameLen :: nat where "oi_nameLen = 24"
definition oi_mm_width :: nat where "oi_mm_width = 32"
definition oi_mm_height :: nat where "oi_mm_height = 40"
definition oi_connection :: nat where "oi_connection = 48"
definition oi_subpixel_order :: nat where "oi_subpixel_order = 50"
definition oi_ncrtc :: nat where "oi_ncrtc = 52"
definition oi_crtcs :: nat where "oi_crtcs = 56"
definition oi_nclone :: nat where "oi_nclone = 64"
definition oi_clones :: nat where "oi_clones = 72"
definition oi_nmode :: nat where "oi_nmode = 80"
definition oi_npreferred :: nat where "oi_npreferred = 84"
definition oi_modes :: nat where "oi_modes = 88"

definition XRRCrtcInfo_size :: nat where "XRRCrtcInfo_size = 64"
definition ci_timestamp :: nat where "ci_timestamp = 0"
definition ci_x :: nat where "ci_x = 8"
definition ci_y :: nat where "ci_y = 12"
definition ci_width :: nat where "ci_width = 16"
definition ci_height :: nat where "ci_height = 20"
definition ci_mode :: nat where "ci_mode = 24"
definition ci_rotation :: nat where "ci_rotation = 32"
definition ci_noutput :: nat where "ci_noutput = 36"
definition ci_outputs :: nat where "ci_outputs = 40"
definition ci_rotations :: nat where "ci_rotations = 48"
definition ci_npossible :: nat where "ci_npossible = 52"
definition ci_possible :: nat where "ci_possible = 56"

definition XRRProviderResources_size :: nat where "XRRProviderResources_size = 24"

definition XRRScreenConfiguration_size :: nat where "XRRScreenConfiguration_size = 8"
definition sc_sizeIndex :: nat where "sc_sizeIndex = 0"
definition sc_rate :: nat where "sc_rate = 4"
definition sc_rotation :: nat where "sc_rotation = 6"

lemmas rs_offsets = XRRScreenResources_size_def rs_timestamp_def rs_configTimestamp_def rs_ncrtc_def rs_crtcs_def
  rs_noutput_def rs_outputs_def rs_nmode_def rs_modes_def
lemmas mi_offsets = XRRModeInfo_size_def mi_id_def mi_width_def mi_height_def mi_dotClock_def mi_hSyncStart_def
  mi_hSyncEnd_def mi_hTotal_def mi_hSkew_def mi_vSyncStart_def mi_vSyncEnd_def mi_vTotal_def mi_name_def
  mi_nameLength_def mi_modeFlags_def
lemmas oi_offsets = XRROutputInfo_size_def oi_timestamp_def oi_crtc_def oi_name_def oi_nameLen_def oi_mm_width_def
  oi_mm_height_def oi_connection_def oi_subpixel_order_def oi_ncrtc_def oi_crtcs_def oi_nclone_def oi_clones_def
  oi_nmode_def oi_npreferred_def oi_modes_def
lemmas ci_offsets = XRRCrtcInfo_size_def ci_timestamp_def ci_x_def ci_y_def ci_width_def ci_height_def ci_mode_def
  ci_rotation_def ci_noutput_def ci_outputs_def ci_rotations_def ci_npossible_def ci_possible_def

section \<open>Identities\<close>

definition BW_RANDR_OUTPUT :: u64 where "BW_RANDR_OUTPUT = 0x1001"
definition BW_RANDR_CRTC :: u64 where "BW_RANDR_CRTC = 0x1101"
definition BW_RANDR_MODE_BASE :: u64 where "BW_RANDR_MODE_BASE = 0x2000"
definition BW_RANDR_OUTPUT_NAME :: string where "BW_RANDR_OUTPUT_NAME = ''BoxedVN''"
definition BW_RANDR_EVENT_BASE :: c_int where "BW_RANDR_EVENT_BASE = 64"
definition BW_RANDR_ERROR_BASE :: c_int where "BW_RANDR_ERROR_BASE = 152"
definition BW_RANDR_MAJOR :: c_int where "BW_RANDR_MAJOR = 1"
definition BW_RANDR_MINOR :: c_int where "BW_RANDR_MINOR = 4"
definition RR_Rotate_0 :: u16 where "RR_Rotate_0 = 1"
definition RR_Connected :: u16 where "RR_Connected = 0"
definition BadRequest :: c_int where "BadRequest = 1"

section \<open>Host state\<close>

text \<open>\<^verbatim>\<open>struct bw_randr_state\<close>: the twelve words of the header and the records, four words each.\<close>

record bw_randr_state =
  st_version :: u32
  st_currentWidth :: u32
  st_currentHeight :: u32
  st_currentRate :: u32
  st_currentMode :: u32
  st_mmWidth :: u32
  st_mmHeight :: u32
  st_minWidth :: u32
  st_minHeight :: u32
  st_maxWidth :: u32
  st_maxHeight :: u32
  st_modes :: "(u32 \<times> u32 \<times> u32 \<times> u32) list"

definition randr_state_size :: nat where "randr_state_size = 48"
definition randr_mode_size :: nat where "randr_mode_size = 16"

definition mode_at :: "u8 list \<Rightarrow> nat \<Rightarrow> u32 \<times> u32 \<times> u32 \<times> u32" where
  "mode_at raw i = (let a = randr_state_size + randr_mode_size * i in
     (get32 raw a, get32 raw (a + 4), get32 raw (a + 8), get32 raw (a + 12)))"

definition state_at :: "u8 list \<Rightarrow> bw_randr_state" where
  "state_at raw =
     \<lparr>st_version = get32 raw 0, st_currentWidth = get32 raw 8, st_currentHeight = get32 raw 12,
      st_currentRate = get32 raw 16, st_currentMode = get32 raw 20, st_mmWidth = get32 raw 24,
      st_mmHeight = get32 raw 28, st_minWidth = get32 raw 32, st_minHeight = get32 raw 36,
      st_maxWidth = get32 raw 40, st_maxHeight = get32 raw 44,
      st_modes = map (mode_at raw) [0..<min (unat (get32 raw 4)) RANDR_MAX_MODES]\<rparr>"

definition randr_blob :: nat where "randr_blob = randr_state_size + RANDR_MAX_MODES * randr_mode_size"

text \<open>One call with a buffer that holds the longest list; \<^verbatim>\<open>None\<close> when the host refuses, speaks another
  version or has no mode.\<close>

definition bw_randr_fetch :: "'h syscall \<Rightarrow> nat \<Rightarrow> 'h world \<Rightarrow> bw_randr_state option \<times> 'h world" where
  "bw_randr_fetch sys dpy \<sigma> =
     (if dpy = 0 then (None, \<sigma>)
      else with_bytes (replicate randr_blob 0) (\<lambda>blob \<sigma>.
        case BW sys OP_RANDR_GET_STATE [P dpy, P blob, of_nat randr_blob] \<sigma> of (result, \<sigma>1) \<Rightarrow>
          if sint result < 0 then (None, \<sigma>1)
          else
            let out = state_at (rd (mem \<sigma>1) blob randr_blob) in
            (if st_version out \<noteq> RANDR_STATE_VERSION then None
             else if st_modes out \<noteq> [] then Some out else None, \<sigma>1)) \<sigma>)"

definition bw_randr_set :: "'h syscall \<Rightarrow> nat \<Rightarrow> u32 \<Rightarrow> u32 \<Rightarrow> u32 \<Rightarrow> 'h world \<Rightarrow> c_int \<times> 'h world" where
  "bw_randr_set sys dpy width height rate \<sigma> =
     (case BW sys OP_RANDR_SET_MODE [P dpy, A_uint width, A_uint height, A_uint rate] \<sigma> of
        (result, \<sigma>1) \<Rightarrow> (ucast (if result = RRSetConfigSuccess then RRSetConfigSuccess else RRSetConfigFailed), \<sigma>1))"

record xrr_size =
  sz_width :: c_int
  sz_height :: c_int
  sz_mwidth :: c_int
  sz_mheight :: c_int

record xrandr_lib =
  stamp_counter :: u64
  bw_sizes :: "xrr_size list"
  bw_rates :: "u16 list"
  bw_sizes_ready :: bool
  bw_sizes_locked :: bool

definition xrandr_lib0 :: xrandr_lib where
  "xrandr_lib0 = \<lparr>stamp_counter = 0, bw_sizes = [], bw_rates = [], bw_sizes_ready = False, bw_sizes_locked = False\<rparr>"

definition bw_randr_stamp :: "xrandr_lib \<Rightarrow> u64 \<times> xrandr_lib" where
  "bw_randr_stamp L = (stamp_counter L + 1, L\<lparr>stamp_counter := stamp_counter L + 1\<rparr>)"

section \<open>Presence\<close>

text \<open>A store through a pointer that may be null.\<close>

definition store_opt :: "nat \<Rightarrow> nat \<Rightarrow> 'a::len word \<Rightarrow> 'h world \<Rightarrow> 'h world" where
  "store_opt n a v \<sigma> = (if a = 0 then \<sigma> else store n a v \<sigma>)"

definition XRRQueryExtension :: "'h syscall \<Rightarrow> nat \<Rightarrow> nat \<Rightarrow> nat \<Rightarrow> 'h world \<Rightarrow> c_int \<times> 'h world" where
  "XRRQueryExtension sys dpy event_base_return error_base_return \<sigma> =
     (case bw_randr_fetch sys dpy \<sigma> of
        (None, \<sigma>1) \<Rightarrow> (0, \<sigma>1)
      | (Some st, \<sigma>1) \<Rightarrow> (1, store_opt 4 error_base_return BW_RANDR_ERROR_BASE
                              (store_opt 4 event_base_return BW_RANDR_EVENT_BASE \<sigma>1)))"

definition XRRQueryVersion :: "'h syscall \<Rightarrow> nat \<Rightarrow> nat \<Rightarrow> nat \<Rightarrow> 'h world \<Rightarrow> c_int \<times> 'h world" where
  "XRRQueryVersion sys dpy major_version_return minor_version_return \<sigma> =
     (case bw_randr_fetch sys dpy \<sigma> of
        (None, \<sigma>1) \<Rightarrow> (0, \<sigma>1)
      | (Some st, \<sigma>1) \<Rightarrow> (1, store_opt 4 minor_version_return BW_RANDR_MINOR
                              (store_opt 4 major_version_return BW_RANDR_MAJOR \<sigma>1)))"

definition XRRSelectInput :: "nat \<Rightarrow> u64 \<Rightarrow> c_int \<Rightarrow> 'h world \<Rightarrow> unit \<times> 'h world" where
  "XRRSelectInput dpy window msk \<sigma> = ((), \<sigma>)"

section \<open>Resources\<close>

definition BW_MODE_NAME_BYTES :: nat where "BW_MODE_NAME_BYTES = 16"

text \<open>\<^verbatim>\<open>snprintf(name, 16, "%ux%u", width, height)\<close>: at most fifteen characters and a terminator; the
  result is the length the whole text has.\<close>

fun dec_digits :: "nat \<Rightarrow> u8 list" where
  "dec_digits n = (if n < 10 then [of_nat (48 + n)] else dec_digits (n div 10) @ [of_nat (48 + n mod 10)])"

declare dec_digits.simps [simp del]

definition mode_text :: "u32 \<Rightarrow> u32 \<Rightarrow> u8 list" where
  "mode_text width height = dec_digits (unat width) @ [120] @ dec_digits (unat height)"

definition bw_build_mode :: "nat \<Rightarrow> nat \<Rightarrow> nat \<Rightarrow> u32 \<times> u32 \<times> u32 \<times> u32 \<Rightarrow> 'h world \<Rightarrow> 'h world" where
  "bw_build_mode modes names i m \<sigma>0 =
     (case m of (width, height, rate, flags) \<Rightarrow>
        let a = modes + XRRModeInfo_size * i;
            name = names + BW_MODE_NAME_BYTES * i;
            txt = mode_text width height;
            shown = take (BW_MODE_NAME_BYTES - 1) txt;
            \<sigma>1 = store 8 (a + mi_id) (BW_RANDR_MODE_BASE + of_nat i) \<sigma>0;
            \<sigma>2 = store 4 (a + mi_height) height (store 4 (a + mi_width) width \<sigma>1);
            \<sigma>3 = store 4 (a + mi_hSyncEnd) width (store 4 (a + mi_hSyncStart) width \<sigma>2);
            \<sigma>4 = store 4 (a + mi_hSkew) (0 :: u32) (store 4 (a + mi_hTotal) width \<sigma>3);
            \<sigma>5 = store 4 (a + mi_vSyncEnd) height (store 4 (a + mi_vSyncStart) height \<sigma>4);
            \<sigma>6 = store 4 (a + mi_vTotal) height \<sigma>5;
            \<sigma>7 = store 8 (a + mi_dotClock) (ucast width * ucast height * ucast rate :: u64) \<sigma>6;
            \<sigma>8 = store 8 (a + mi_name) (P name) (store 8 (a + mi_modeFlags) (0 :: u64) \<sigma>7);
            \<sigma>9 = st_bytes name (shown @ [0]) \<sigma>8
        in store 4 (a + mi_nameLength)
             (of_nat (if length txt < BW_MODE_NAME_BYTES then length txt else length shown) :: u32) \<sigma>9)"

primrec bw_build_modes :: "nat \<Rightarrow> nat \<Rightarrow> nat \<Rightarrow> (u32 \<times> u32 \<times> u32 \<times> u32) list \<Rightarrow> 'h world \<Rightarrow> 'h world" where
  "bw_build_modes modes names i [] \<sigma> = \<sigma>"
| "bw_build_modes modes names i (m # ms) \<sigma> =
     bw_build_modes modes names (Suc i) ms (bw_build_mode modes names i m \<sigma>)"

text \<open>One block: the structure, the controller, the output, the modes and their names.\<close>

definition bw_build_resources :: "bw_randr_state \<Rightarrow> xrandr_lib \<times> 'h world \<Rightarrow> nat \<times> xrandr_lib \<times> 'h world" where
  "bw_build_resources st = (\<lambda>(L, \<sigma>).
     let count = length (st_modes st);
         crtcsOffset = XRRScreenResources_size;
         outputsOffset = crtcsOffset + 8;
         modesOffset = outputsOffset + 8;
         namesOffset = modesOffset + count * XRRModeInfo_size;
         total = namesOffset + count * BW_MODE_NAME_BYTES in
     case calloc 1 total \<sigma> of (block, \<sigma>1) \<Rightarrow>
       if block = 0 then (0, L, \<sigma>1)
       else case bw_randr_stamp L of (t, L1) \<Rightarrow>
         let \<sigma>2 = store 8 (block + rs_configTimestamp) t (store 8 (block + rs_timestamp) t \<sigma>1);
             \<sigma>3 = store 8 (block + rs_crtcs) (P (block + crtcsOffset)) (store 4 (block + rs_ncrtc) (1 :: c_int) \<sigma>2);
             \<sigma>4 = store 8 (block + crtcsOffset) BW_RANDR_CRTC \<sigma>3;
             \<sigma>5 = store 8 (block + rs_outputs) (P (block + outputsOffset)) (store 4 (block + rs_noutput) (1 :: c_int) \<sigma>4);
             \<sigma>6 = store 8 (block + outputsOffset) BW_RANDR_OUTPUT \<sigma>5;
             \<sigma>7 = store 8 (block + rs_modes) (P (block + modesOffset))
                    (store 4 (block + rs_nmode) (of_nat count :: c_int) \<sigma>6)
         in (block, L1, bw_build_modes (block + modesOffset) (block + namesOffset) 0 (st_modes st) \<sigma>7))"

definition bw_get_resources :: "'h syscall \<Rightarrow> nat \<Rightarrow> xrandr_lib \<times> 'h world \<Rightarrow> nat \<times> xrandr_lib \<times> 'h world" where
  "bw_get_resources sys dpy = (\<lambda>(L, \<sigma>).
     case bw_randr_fetch sys dpy \<sigma> of
       (None, \<sigma>1) \<Rightarrow> (0, L, \<sigma>1)
     | (Some st, \<sigma>1) \<Rightarrow> bw_build_resources st (L, \<sigma>1))"

definition XRRGetScreenResources :: "'h syscall \<Rightarrow> nat \<Rightarrow> u64 \<Rightarrow> xrandr_lib \<times> 'h world \<Rightarrow> nat \<times> xrandr_lib \<times> 'h world" where
  "XRRGetScreenResources sys dpy window = bw_get_resources sys dpy"

definition XRRGetScreenResourcesCurrent :: "'h syscall \<Rightarrow> nat \<Rightarrow> u64 \<Rightarrow> xrandr_lib \<times> 'h world \<Rightarrow> nat \<times> xrandr_lib \<times> 'h world" where
  "XRRGetScreenResourcesCurrent sys dpy window = bw_get_resources sys dpy"

definition XRRFreeScreenResources :: "nat \<Rightarrow> 'h world \<Rightarrow> 'h world" where "XRRFreeScreenResources resources = free resources"

primrec store_modes :: "nat \<Rightarrow> nat \<Rightarrow> nat \<Rightarrow> 'h world \<Rightarrow> 'h world" where
  "store_modes a i 0 \<sigma> = \<sigma>"
| "store_modes a i (Suc n) \<sigma> = store_modes a (Suc i) n (store 8 (a + 8 * i) (BW_RANDR_MODE_BASE + of_nat i) \<sigma>)"

definition XRRGetOutputInfo ::
  "'h syscall \<Rightarrow> nat \<Rightarrow> nat \<Rightarrow> u64 \<Rightarrow> xrandr_lib \<times> 'h world \<Rightarrow> nat \<times> xrandr_lib \<times> 'h world" where
  "XRRGetOutputInfo sys dpy resources output = (\<lambda>(L, \<sigma>).
     if output \<noteq> BW_RANDR_OUTPUT then (0, L, \<sigma>)
     else case bw_randr_fetch sys dpy \<sigma> of
       (None, \<sigma>1) \<Rightarrow> (0, L, \<sigma>1)
     | (Some st, \<sigma>1) \<Rightarrow>
         let count = length (st_modes st);
             crtcsOffset = XRROutputInfo_size;
             modesOffset = crtcsOffset + 8;
             nameOffset = modesOffset + count * 8;
             total = nameOffset + length (cstr BW_RANDR_OUTPUT_NAME) in
         (case calloc 1 total \<sigma>1 of (block, \<sigma>2) \<Rightarrow>
            if block = 0 then (0, L, \<sigma>2)
            else case bw_randr_stamp L of (t, L1) \<Rightarrow>
              let \<sigma>3 = store 8 (block + oi_crtc) BW_RANDR_CRTC (store 8 (block + oi_timestamp) t \<sigma>2);
                  \<sigma>4 = st_bytes (block + nameOffset) (cstr BW_RANDR_OUTPUT_NAME)
                         (store 8 (block + oi_name) (P (block + nameOffset)) \<sigma>3);
                  \<sigma>5 = store 4 (block + oi_nameLen) (of_nat (length BW_RANDR_OUTPUT_NAME) :: c_int) \<sigma>4;
                  \<sigma>6 = store 8 (block + oi_mm_height) (ucast (st_mmHeight st) :: u64)
                         (store 8 (block + oi_mm_width) (ucast (st_mmWidth st) :: u64) \<sigma>5);
                  \<sigma>7 = store 2 (block + oi_subpixel_order) (0 :: u16) (store 2 (block + oi_connection) RR_Connected \<sigma>6);
                  \<sigma>8 = store 8 (block + oi_crtcs) (P (block + crtcsOffset)) (store 4 (block + oi_ncrtc) (1 :: c_int) \<sigma>7);
                  \<sigma>9 = store 8 (block + crtcsOffset) BW_RANDR_CRTC \<sigma>8;
                  \<sigma>10 = store 8 (block + oi_clones) (0 :: u64) (store 4 (block + oi_nclone) (0 :: c_int) \<sigma>9);
                  \<sigma>11 = store 4 (block + oi_npreferred) (if count \<noteq> 0 then 1 else 0 :: c_int)
                          (store 4 (block + oi_nmode) (of_nat count :: c_int) \<sigma>10);
                  \<sigma>12 = store 8 (block + oi_modes) (P (block + modesOffset)) \<sigma>11
              in (block, L1, store_modes (block + modesOffset) 0 count \<sigma>12)))"

definition XRRFreeOutputInfo :: "nat \<Rightarrow> 'h world \<Rightarrow> 'h world" where "XRRFreeOutputInfo outputInfo = free outputInfo"

definition XRRGetCrtcInfo ::
  "'h syscall \<Rightarrow> nat \<Rightarrow> nat \<Rightarrow> u64 \<Rightarrow> xrandr_lib \<times> 'h world \<Rightarrow> nat \<times> xrandr_lib \<times> 'h world" where
  "XRRGetCrtcInfo sys dpy resources crtc = (\<lambda>(L, \<sigma>).
     if crtc \<noteq> BW_RANDR_CRTC then (0, L, \<sigma>)
     else case bw_randr_fetch sys dpy \<sigma> of
       (None, \<sigma>1) \<Rightarrow> (0, L, \<sigma>1)
     | (Some st, \<sigma>1) \<Rightarrow>
         let outputsOffset = XRRCrtcInfo_size;
             possibleOffset = outputsOffset + 8;
             total = possibleOffset + 8 in
         (case calloc 1 total \<sigma>1 of (block, \<sigma>2) \<Rightarrow>
            if block = 0 then (0, L, \<sigma>2)
            else case bw_randr_stamp L of (t, L1) \<Rightarrow>
              let \<sigma>3 = store 4 (block + ci_y) (0 :: c_int) (store 4 (block + ci_x) (0 :: c_int)
                         (store 8 (block + ci_timestamp) t \<sigma>2));
                  \<sigma>4 = store 4 (block + ci_height) (st_currentHeight st) (store 4 (block + ci_width) (st_currentWidth st) \<sigma>3);
                  \<sigma>5 = store 8 (block + ci_mode) (if st_currentMode st = RANDR_NO_MODE then 0
                         else BW_RANDR_MODE_BASE + ucast (st_currentMode st)) \<sigma>4;
                  \<sigma>6 = store 2 (block + ci_rotations) RR_Rotate_0 (store 2 (block + ci_rotation) RR_Rotate_0 \<sigma>5);
                  \<sigma>7 = store 8 (block + ci_outputs) (P (block + outputsOffset)) (store 4 (block + ci_noutput) (1 :: c_int) \<sigma>6);
                  \<sigma>8 = store 8 (block + outputsOffset) BW_RANDR_OUTPUT \<sigma>7;
                  \<sigma>9 = store 8 (block + ci_possible) (P (block + possibleOffset)) (store 4 (block + ci_npossible) (1 :: c_int) \<sigma>8)
              in (block, L1, store 8 (block + possibleOffset) BW_RANDR_OUTPUT \<sigma>9)))"

definition XRRFreeCrtcInfo :: "nat \<Rightarrow> 'h world \<Rightarrow> 'h world" where "XRRFreeCrtcInfo crtcInfo = free crtcInfo"

definition XRRGetOutputPrimary :: "nat \<Rightarrow> u64 \<Rightarrow> u64" where "XRRGetOutputPrimary dpy window = BW_RANDR_OUTPUT"

definition XRRGetScreenSizeRange ::
  "'h syscall \<Rightarrow> nat \<Rightarrow> u64 \<Rightarrow> nat \<Rightarrow> nat \<Rightarrow> nat \<Rightarrow> nat \<Rightarrow> 'h world \<Rightarrow> c_int \<times> 'h world" where
  "XRRGetScreenSizeRange sys dpy window minWidth minHeight maxWidth maxHeight \<sigma> =
     (case bw_randr_fetch sys dpy \<sigma> of
        (None, \<sigma>1) \<Rightarrow> (0, \<sigma>1)
      | (Some st, \<sigma>1) \<Rightarrow>
          (1, store_opt 4 maxHeight (st_maxHeight st) (store_opt 4 maxWidth (st_maxWidth st)
                (store_opt 4 minHeight (st_minHeight st) (store_opt 4 minWidth (st_minWidth st) \<sigma>1)))))"

definition XRRSetScreenSize :: "nat \<Rightarrow> u64 \<Rightarrow> c_int \<Rightarrow> c_int \<Rightarrow> c_int \<Rightarrow> c_int \<Rightarrow> 'h world \<Rightarrow> unit \<times> 'h world" where
  "XRRSetScreenSize dpy window width height mmWidth mmHeight \<sigma> = ((), \<sigma>)"

definition rr_success :: c_int where "rr_success = ucast RRSetConfigSuccess"
definition rr_failed :: c_int where "rr_failed = ucast RRSetConfigFailed"

text \<open>The index is the difference cut to 32 bits.\<close>

definition XRRSetCrtcConfig ::
  "'h syscall \<Rightarrow> nat \<Rightarrow> nat \<Rightarrow> u64 \<Rightarrow> u64 \<Rightarrow> c_int \<Rightarrow> c_int \<Rightarrow> u64 \<Rightarrow> u16 \<Rightarrow> nat \<Rightarrow> c_int \<Rightarrow> 'h world \<Rightarrow> c_int \<times> 'h world" where
  "XRRSetCrtcConfig sys dpy resources crtc timestamp x y mode rotation outputs noutputs \<sigma> =
     (if crtc \<noteq> BW_RANDR_CRTC then (rr_failed, \<sigma>)
      else if mode = 0 then (rr_success, \<sigma>)
      else if rotation \<noteq> 0 \<and> rotation \<noteq> RR_Rotate_0 then (rr_failed, \<sigma>)
      else case bw_randr_fetch sys dpy \<sigma> of
        (None, \<sigma>1) \<Rightarrow> (rr_failed, \<sigma>1)
      | (Some st, \<sigma>1) \<Rightarrow>
          if mode < BW_RANDR_MODE_BASE then (rr_failed, \<sigma>1)
          else
            let index = unat (ucast (mode - BW_RANDR_MODE_BASE) :: u32) in
            if length (st_modes st) \<le> index then (rr_failed, \<sigma>1)
            else (case st_modes st ! index of (w, h, r, f) \<Rightarrow> bw_randr_set sys dpy w h r \<sigma>1))"

section \<open>Properties and providers\<close>

definition XRRGetOutputProperty ::
  "nat \<Rightarrow> u64 \<Rightarrow> u64 \<Rightarrow> nat \<Rightarrow> nat \<Rightarrow> nat \<Rightarrow> nat \<Rightarrow> nat \<Rightarrow> 'h world \<Rightarrow> c_int \<times> 'h world" where
  "XRRGetOutputProperty dpy output property actual_type actual_format nitems bytes_after prop \<sigma> =
     (BadRequest,
      store_opt 8 prop (0 :: u64) (store_opt 8 bytes_after (0 :: u64) (store_opt 8 nitems (0 :: u64)
        (store_opt 4 actual_format (0 :: c_int) (store_opt 8 actual_type (0 :: u64) \<sigma>)))))"

definition XRRGetProviderResources :: "nat \<Rightarrow> u64 \<Rightarrow> xrandr_lib \<times> 'h world \<Rightarrow> nat \<times> xrandr_lib \<times> 'h world" where
  "XRRGetProviderResources dpy window = (\<lambda>(L, \<sigma>).
     case calloc 1 XRRProviderResources_size \<sigma> of (p, \<sigma>1) \<Rightarrow>
       if p = 0 then (0, L, \<sigma>1)
       else case bw_randr_stamp L of (t, L1) \<Rightarrow>
         (p, L1, store 8 (p + 16) (0 :: u64) (store 4 (p + 8) (0 :: c_int) (store 8 p t \<sigma>1))))"

definition XRRFreeProviderResources :: "nat \<Rightarrow> 'h world \<Rightarrow> 'h world" where "XRRFreeProviderResources resources = free resources"

definition XRRGetProviderInfo :: "nat \<Rightarrow> nat \<Rightarrow> u64 \<Rightarrow> nat" where "XRRGetProviderInfo dpy resources provider = 0"

definition XRRFreeProviderInfo :: "nat \<Rightarrow> 'h world \<Rightarrow> 'h world" where "XRRFreeProviderInfo provider = free provider"

section \<open>RandR 1.0\<close>

text \<open>A size or rate is appended when it is not yet there and the table has room.\<close>

definition add_entry :: "('a \<Rightarrow> bool) \<Rightarrow> 'a \<Rightarrow> 'a list \<Rightarrow> 'a list" where
  "add_entry known x xs = (if list_ex known xs \<or> RANDR_MAX_MODES \<le> length xs then xs else xs @ [x])"

definition size_of_mode :: "u32 \<Rightarrow> u32 \<Rightarrow> xrr_size" where
  "size_of_mode w h = \<lparr>sz_width = w, sz_height = h, sz_mwidth = w * 265 div 1000, sz_mheight = h * 265 div 1000\<rparr>"

definition collect_mode :: "u32 \<times> u32 \<times> u32 \<times> u32 \<Rightarrow> xrandr_lib \<Rightarrow> xrandr_lib" where
  "collect_mode m L = (case m of (w, h, r, f) \<Rightarrow>
     L\<lparr>bw_sizes := add_entry (\<lambda>s. sz_width s = w \<and> sz_height s = h) (size_of_mode w h) (bw_sizes L),
       bw_rates := add_entry (\<lambda>q. q = ucast r) (ucast r) (bw_rates L)\<rparr>)"

definition lock_sizes :: "xrandr_lib \<Rightarrow> xrandr_lib" where "lock_sizes L = L\<lparr>bw_sizes_locked := True\<rparr>"
definition unlock_sizes :: "xrandr_lib \<Rightarrow> xrandr_lib" where "unlock_sizes L = L\<lparr>bw_sizes_locked := False\<rparr>"

definition bw_build_sizes :: "'h syscall \<Rightarrow> nat \<Rightarrow> xrandr_lib \<times> 'h world \<Rightarrow> nat \<times> xrandr_lib \<times> 'h world" where
  "bw_build_sizes sys dpy = (\<lambda>(L0, \<sigma>).
     let L = lock_sizes L0 in
     if bw_sizes_ready L then (length (bw_sizes L), unlock_sizes L, \<sigma>)
     else case bw_randr_fetch sys dpy \<sigma> of
       (None, \<sigma>1) \<Rightarrow> (0, unlock_sizes L, \<sigma>1)
     | (Some st, \<sigma>1) \<Rightarrow>
         let L1 = fold collect_mode (st_modes st) L;
             L2 = L1\<lparr>bw_sizes_ready := bw_sizes L1 \<noteq> []\<rparr>
         in (length (bw_sizes L2), unlock_sizes L2, \<sigma>1))"

text \<open>The static table the call returns a pointer to, or \<^verbatim>\<open>None\<close> for \<^verbatim>\<open>NULL\<close>.\<close>

definition XRRSizes :: "'h syscall \<Rightarrow> nat \<Rightarrow> c_int \<Rightarrow> nat \<Rightarrow> xrandr_lib \<times> 'h world \<Rightarrow> xrr_size list option \<times> xrandr_lib \<times> 'h world" where
  "XRRSizes sys dpy screen nsizes s =
     (case bw_build_sizes sys dpy s of (count, L, \<sigma>) \<Rightarrow>
        (if count \<noteq> 0 then Some (bw_sizes L) else None, L, store_opt 4 nsizes (of_nat count :: c_int) \<sigma>))"

definition XRRRates :: "'h syscall \<Rightarrow> nat \<Rightarrow> c_int \<Rightarrow> c_int \<Rightarrow> nat \<Rightarrow> xrandr_lib \<times> 'h world \<Rightarrow> u16 list option \<times> xrandr_lib \<times> 'h world" where
  "XRRRates sys dpy screen sizeID nrates s =
     (case bw_build_sizes sys dpy s of (count, L, \<sigma>) \<Rightarrow>
        if sint sizeID < 0 \<or> int count \<le> sint sizeID then (None, L, store_opt 4 nrates (0 :: c_int) \<sigma>)
        else (if bw_rates L \<noteq> [] then Some (bw_rates L) else None, L,
              store_opt 4 nrates (of_nat (length (bw_rates L)) :: c_int) \<sigma>))"

definition XRRGetScreenInfo :: "'h syscall \<Rightarrow> nat \<Rightarrow> u64 \<Rightarrow> xrandr_lib \<times> 'h world \<Rightarrow> nat \<times> xrandr_lib \<times> 'h world" where
  "XRRGetScreenInfo sys dpy window = (\<lambda>(L, \<sigma>).
     case bw_randr_fetch sys dpy \<sigma> of
       (None, \<sigma>1) \<Rightarrow> (0, L, \<sigma>1)
     | (Some st, \<sigma>1) \<Rightarrow>
         (case bw_build_sizes sys dpy (L, \<sigma>1) of (count, L1, \<sigma>2) \<Rightarrow>
            (case calloc 1 XRRScreenConfiguration_size \<sigma>2 of (config, \<sigma>3) \<Rightarrow>
               if config = 0 then (0, L1, \<sigma>3)
               else
                 let index = (case index_where (\<lambda>s. sz_width s = st_currentWidth st \<and> sz_height s = st_currentHeight st) 0
                                     (take count (bw_sizes L1)) of
                                None \<Rightarrow> 0 | Some i \<Rightarrow> i)
                 in (config, L1, store 4 (config + sc_sizeIndex) (of_nat index :: c_int)
                       (store 2 (config + sc_rotation) RR_Rotate_0
                         (store 2 (config + sc_rate) (ucast (st_currentRate st) :: u16) \<sigma>3))))))"

definition XRRFreeScreenConfigInfo :: "nat \<Rightarrow> 'h world \<Rightarrow> 'h world" where "XRRFreeScreenConfigInfo config = free config"

definition XRRConfigCurrentConfiguration :: "nat \<Rightarrow> nat \<Rightarrow> 'h world \<Rightarrow> u16 \<times> 'h world" where
  "XRRConfigCurrentConfiguration config rotation \<sigma> =
     (let \<sigma>1 = store_opt 2 rotation RR_Rotate_0 \<sigma> in
      (if config \<noteq> 0 then ucast (ld 4 (config + sc_sizeIndex) \<sigma>1 :: c_int) else 0, \<sigma>1))"

definition XRRConfigCurrentRate :: "nat \<Rightarrow> 'h world \<Rightarrow> u16" where
  "XRRConfigCurrentRate config \<sigma> = (if config \<noteq> 0 then ld 2 (config + sc_rate) \<sigma> else 0)"

definition bw_set_by_size_index ::
  "'h syscall \<Rightarrow> nat \<Rightarrow> c_int \<Rightarrow> u16 \<Rightarrow> xrandr_lib \<times> 'h world \<Rightarrow> c_int \<times> xrandr_lib \<times> 'h world" where
  "bw_set_by_size_index sys dpy sizeIndex rate s =
     (case bw_build_sizes sys dpy s of (count, L, \<sigma>) \<Rightarrow>
        if sint sizeIndex < 0 \<or> int count \<le> sint sizeIndex then (rr_failed, L, \<sigma>)
        else
          let sz = bw_sizes L ! nat (sint sizeIndex) in
          (case bw_randr_set sys dpy (sz_width sz) (sz_height sz) (if 0 < sint rate then ucast rate else 0) \<sigma> of
             (r, \<sigma>1) \<Rightarrow> (r, L, \<sigma>1)))"

definition XRRSetScreenConfig ::
  "'h syscall \<Rightarrow> nat \<Rightarrow> nat \<Rightarrow> u64 \<Rightarrow> c_int \<Rightarrow> u16 \<Rightarrow> u64 \<Rightarrow> xrandr_lib \<times> 'h world \<Rightarrow> c_int \<times> xrandr_lib \<times> 'h world" where
  "XRRSetScreenConfig sys dpy config draw size_index rotation timestamp = (\<lambda>(L, \<sigma>).
     bw_set_by_size_index sys dpy size_index (if config \<noteq> 0 then ld 2 (config + sc_rate) \<sigma> else 0) (L, \<sigma>))"

definition XRRSetScreenConfigAndRate ::
  "'h syscall \<Rightarrow> nat \<Rightarrow> nat \<Rightarrow> u64 \<Rightarrow> c_int \<Rightarrow> u16 \<Rightarrow> u16 \<Rightarrow> u64 \<Rightarrow> xrandr_lib \<times> 'h world \<Rightarrow> c_int \<times> xrandr_lib \<times> 'h world" where
  "XRRSetScreenConfigAndRate sys dpy config draw size_index rotation rate timestamp =
     bw_set_by_size_index sys dpy size_index rate"

end
