(* ===== verification/RandrModes.thy ===== *)
theory RandrModes
  imports HostRandr "HOL-Library.Product_Lexorder" "HOL-Library.Multiset"
begin

text \<open>
  The mode list of \<^verbatim>\<open>source/x11/xrandr.cpp\<close> against its specification: the two bubble sorts are
  interpretations of one locale of comparisons, and the list is the sorted list of a set.
\<close>

section \<open>The exchanges sort\<close>

lemma length_exchange [simp]: "length (exchange gt j xs) = length xs"
  by (simp add: exchange_def)

lemma mset_exchange: "Suc j < length xs \<Longrightarrow> mset (exchange gt j xs) = mset xs"
  by (simp add: exchange_def mset_swap)

lemma length_fold_exchange [simp]: "length (fold (exchange gt) js xs) = length xs"
  by (induction js arbitrary: xs) auto

lemma mset_fold_exchange:
  "\<forall>j \<in> set js. Suc j < length xs \<Longrightarrow> mset (fold (exchange gt) js xs) = mset xs"
  by (induction js arbitrary: xs) (auto simp: mset_exchange)

lemma length_bubble_pass [simp]: "length (bubble_pass gt i xs) = length xs"
  by (simp add: bubble_pass_def)

lemma mset_bubble_pass: "mset (bubble_pass gt i xs) = mset xs"
  unfolding bubble_pass_def by (rule mset_fold_exchange) auto

lemma mset_bubble: "mset (bubble gt xs) = mset xs"
proof -
  have "mset (fold (bubble_pass gt) is ys) = mset ys" for "is" ys
    by (induction "is" arbitrary: ys) (auto simp: mset_bubble_pass)
  then show ?thesis by (simp add: bubble_def)
qed


locale comparison =
  fixes gt :: "'a \<Rightarrow> 'a \<Rightarrow> bool" and key :: "'a \<Rightarrow> 'k::linorder"
  assumes gt_key: "gt x y \<longleftrightarrow> key y < key x"
begin

text \<open>After \<^verbatim>\<open>k\<close> exchanges of a pass the greatest of the first \<^verbatim>\<open>k + 1\<close> elements is at \<^verbatim>\<open>k\<close>, and
  nothing after it has moved.\<close>

lemma exchanges_max:
  assumes "k < length xs"
  defines "ys \<equiv> fold (exchange gt) [0..<k] xs"
  shows "(\<forall>j \<le> k. key (ys ! j) \<le> key (ys ! k)) \<and> (\<forall>j. k < j \<longrightarrow> ys ! j = xs ! j) \<and>
    (\<forall>j \<le> k. \<exists>i \<le> k. ys ! j = xs ! i)"
  using assms(1) unfolding ys_def
proof (induction k)
  case (Suc k)
  let ?ys = "fold (exchange gt) [0..<k] xs"
  have l: "k < length xs" "length ?ys = length xs" using Suc.prems by simp_all
  note IH = Suc.IH [OF l(1)]
  have k1: "?ys ! Suc k = xs ! Suc k" using IH by simp
  have e: "exchange gt k ?ys ! j = (if gt (?ys ! k) (?ys ! Suc k)
      then (if j = k then ?ys ! Suc k else if j = Suc k then ?ys ! k else ?ys ! j) else ?ys ! j)" for j
    using l Suc.prems by (simp add: exchange_def nth_list_update)
  have "key (exchange gt k ?ys ! j) \<le> key (exchange gt k ?ys ! Suc k)" if "j \<le> Suc k" for j
    using that IH unfolding e gt_key by (cases "j = Suc k") (auto simp: le_Suc_eq not_less intro: order_trans)
  moreover have "\<exists>i \<le> Suc k. exchange gt k ?ys ! j = xs ! i" if "j \<le> Suc k" for j
    using that IH k1 unfolding e by (auto simp: le_Suc_eq)
  ultimately show ?case using IH by (simp add: e)
qed auto

text \<open>What is in place after \<^verbatim>\<open>i\<close> passes.\<close>

definition tail_sorted :: "nat \<Rightarrow> 'a list \<Rightarrow> bool" where
  "tail_sorted i xs \<longleftrightarrow> (\<forall>p q. p < q \<longrightarrow> q < length xs \<longrightarrow> length xs - i \<le> q \<longrightarrow> key (xs ! p) \<le> key (xs ! q))"

lemma pass_tail_sorted:
  assumes "tail_sorted i xs" "Suc i < length xs"
  shows "tail_sorted (Suc i) (bubble_pass gt i xs)"
  unfolding tail_sorted_def
proof (intro allI impI)
  fix p q
  let ?k = "length xs - i - 1" and ?ys = "bubble_pass gt i xs"
  assume pq: "p < q" "q < length ?ys" "length ?ys - Suc i \<le> q"
  note m = exchanges_max [of ?k xs, folded bubble_pass_def]
  show "key (?ys ! p) \<le> key (?ys ! q)"
  proof (cases "q = ?k")
    case True
    then show ?thesis using m pq(1) assms(2) by simp
  next
    case False
    then have q: "?k < q" "length xs - i \<le> q" "?ys ! q = xs ! q" using m pq assms(2) by auto
    obtain p' where "?ys ! p = xs ! p'" "p' < q"
    proof (cases "p \<le> ?k")
      case True
      moreover have "?k < length xs" using assms(2) by simp
      ultimately obtain p' where "p' \<le> ?k" "?ys ! p = xs ! p'" using m by blast
      then show ?thesis using that q(1) by force
    next
      case False
      then show ?thesis using that [of p] m pq(1) assms(2) by auto
    qed
    then show ?thesis using assms(1) q pq(2) by (simp add: tail_sorted_def)
  qed
qed

theorem sorted_bubble: "sorted (map key (bubble gt xs))"
proof -
  have "i \<le> length xs - 1 \<Longrightarrow> tail_sorted i (fold (bubble_pass gt) [0..<i] xs) \<and>
      length (fold (bubble_pass gt) [0..<i] xs) = length xs" for i
  proof (induction i)
    case (Suc i)
    then show ?case using pass_tail_sorted [of i "fold (bubble_pass gt) [0..<i] xs"] by simp
  qed (simp add: tail_sorted_def)
  from this [of "length xs - 1"] have t: "tail_sorted (length xs - 1) (bubble gt xs)" "length (bubble gt xs) = length xs"
    by (simp_all add: bubble_def)
  then show ?thesis by (auto simp: sorted_iff_nth_mono_less tail_sorted_def)
qed

end

interpretation sizes: comparison size_after "\<lambda>s. s"
  by unfold_locales (auto simp: size_after_def less_prod_def')

interpretation rates: comparison rate_after "\<lambda>r. r"
  by unfold_locales (simp add: rate_after_def)

section \<open>The list is the sorted list of the modes\<close>

lemma add_sizes:
  "distinct acc \<Longrightarrow> length acc + length xs \<le> n \<Longrightarrow>
   distinct (fold (add_size n) xs acc) \<and> set (fold (add_size n) xs acc) = set acc \<union> set xs \<and>
   length (fold (add_size n) xs acc) \<le> length acc + length xs"
proof (induction xs arbitrary: acc)
  case (Cons x xs)
  have "distinct (add_size n x acc)" "length (add_size n x acc) \<le> Suc (length acc)"
    "set (add_size n x acc) = insert x (set acc)"
    using Cons.prems by (auto simp: add_size_def)
  with Cons.IH [of "add_size n x acc"] Cons.prems show ?case by auto
qed simp

definition desktop_sizes :: "u32 \<Rightarrow> u32 \<Rightarrow> (u32 \<times> u32) set" where
  "desktop_sizes w h = set kStandardModeSizes \<union> (if w \<noteq> 0 \<and> h \<noteq> 0 then {(w, h)} else {})"

definition offered_rates :: "u32 \<Rightarrow> u32 set" where
  "offered_rates r = {60, 120} \<union> (if r \<noteq> 0 then {r} else {})"

lemma mode_sizes_result:
  "distinct (mode_sizes w h)" "set (mode_sizes w h) = desktop_sizes w h" "length (mode_sizes w h) \<le> 9"
  using add_sizes [of "if w \<noteq> 0 \<and> h \<noteq> 0 then [(w, h)] else []" kStandardModeSizes "length kStandardModeSizes + 1"]
  by (auto simp: mode_sizes_def desktop_sizes_def kStandardModeSizes_def)

lemma mode_rates_result:
  "distinct (mode_rates r)" "set (mode_rates r) = offered_rates r" "length (mode_rates r) \<le> 3"
  by (auto simp: mode_rates_def offered_rates_def XRR_MODE_RATE_PRIMARY_def XRR_MODE_RATE_HIGH_def)

lemma sorted_modes:
  assumes "sorted ss" "distinct ss" "sorted rs" "distinct rs"
  shows "sorted (concat (map (\<lambda>(w, h). map (\<lambda>r. (w, h, r)) rs) ss)) \<and>
    distinct (concat (map (\<lambda>(w, h). map (\<lambda>r. (w, h, r)) rs) ss))"
  using assms(1,2)
proof (induction ss)
  case (Cons s ss)
  obtain w h where s: "s = (w, h)" by (cases s)
  let ?A = "map (\<lambda>r. (w, h, r)) rs" and ?B = "concat (map (\<lambda>(w, h). map (\<lambda>r. (w, h, r)) rs) ss)"
  have A: "sorted ?A" "distinct ?A"
    using assms(3,4) by (simp_all add: sorted_wrt_map less_eq_prod_def distinct_map inj_on_def)
  have B: "sorted ?B" "distinct ?B" using Cons.IH Cons.prems by simp_all
  have lt: "x \<le> y \<and> x \<noteq> y" if xy: "x \<in> set ?A" "y \<in> set ?B" for x y
  proof -
    obtain r w' h' r' where x: "x = (w, h, r)" "y = (w', h', r')" "(w', h') \<in> set ss"
      using xy by (cases y) auto
    then have "(w, h) \<le> (w', h')" "(w, h) \<noteq> (w', h')" using Cons.prems s by auto
    then show ?thesis unfolding x(1,2) by (auto simp: less_eq_prod_def)
  qed
  have "sorted (?A @ ?B)" using A(1) B(1) lt by (subst sorted_append) blast
  moreover have "distinct (?A @ ?B)" using A(2) B(2) lt by (subst distinct_append) blast
  ultimately show ?case by (simp add: s)
qed simp

text \<open>C21: the mode list is the sorted list, without repetitions, of every offered size (the standard ones
  and the desktop's) at every offered rate, cut to the caller's array.\<close>

theorem mode_list_reference:
  "XrrStandardModeList w h r n = take n (sorted_list_of_set
     {(a, b, c). (a, b) \<in> desktop_sizes w h \<and> c \<in> offered_rates r})"
proof -
  let ?ss = "bubble size_after (mode_sizes w h)" and ?rs = "bubble rate_after (mode_rates r)"
  let ?l = "concat (map (\<lambda>(w, h). map (\<lambda>r. (w, h, r)) ?rs) ?ss)"
  note ms = mset_bubble [of size_after "mode_sizes w h"] and mr = mset_bubble [of rate_after "mode_rates r"]
  have s: "sorted ?ss" "distinct ?ss" "set ?ss = desktop_sizes w h"
    using sizes.sorted_bubble [of "mode_sizes w h"] mset_eq_imp_distinct_iff [OF ms] mset_eq_setD [OF ms]
    by (simp_all add: mode_sizes_result(1,2))
  have r: "sorted ?rs" "distinct ?rs" "set ?rs = offered_rates r"
    using rates.sorted_bubble [of "mode_rates r"] mset_eq_imp_distinct_iff [OF mr] mset_eq_setD [OF mr]
    by (simp_all add: mode_rates_result(1,2))
  have "set ?l = {(a, b, c). (a, b) \<in> desktop_sizes w h \<and> c \<in> offered_rates r}" by (auto simp: s(3) r(3))
  then have "?l = sorted_list_of_set {(a, b, c). (a, b) \<in> desktop_sizes w h \<and> c \<in> offered_rates r}"
    using sorted_modes [OF s(1,2) r(1,2)] by (metis sorted_list_of_set.idem_if_sorted_distinct)
  then show ?thesis by (simp add: XrrStandardModeList_def)
qed

lemma length_modes: "length (concat (map (\<lambda>(w, h). map (\<lambda>r. (w, h, r)) rs) ss)) = length ss * length rs"
  by (induction ss) auto

lemma length_bubble: "length (bubble gt xs) = length xs"
  by (metis mset_bubble size_mset)

lemma mode_list_length: "length (XrrStandardModeList w h r n) \<le> 27"
proof -
  have "length (mode_sizes w h) * length (mode_rates r) \<le> 9 * 3"
    by (rule mult_le_mono [OF mode_sizes_result(3) mode_rates_result(3)])
  then show ?thesis by (simp add: XrrStandardModeList_def length_modes length_bubble)
qed

lemma mode_list_set:
  assumes "27 \<le> n"
  shows "set (XrrStandardModeList w h r n) = {(a, b, c). (a, b) \<in> desktop_sizes w h \<and> c \<in> offered_rates r}"
    (is "_ = ?S")
proof -
  have f: "finite ?S"
  proof -
    have "?S = (\<lambda>(s, c). (fst s, snd s, c)) ` (desktop_sizes w h \<times> offered_rates r)" by force
    then show ?thesis by (simp add: desktop_sizes_def offered_rates_def)
  qed
  have "length (sorted_list_of_set ?S) \<le> 27"
    using mode_list_length [of w h r "length (sorted_list_of_set ?S)"] unfolding mode_list_reference by simp
  then show ?thesis using assms f by (simp add: mode_list_reference)
qed

end
