(* ===== verification/RandrSession.thy ===== *)
theory RandrSession
  imports XRandr HostQueue RandrModes
begin

text \<open>
  Display modes end to end: what a change of the screen size leaves alone, the two operations behind
  the bridge, and the guest's libXrandr over them: the state a client reads is the host's, the
  resources it enumerates are the host's modes, and a switch is what the controller reports next.
\<close>

section \<open>What the change of the screen leaves alone\<close>

text \<open>The clients and the mode policy are as they were.\<close>

definition same_clients :: "xserver \<Rightarrow> xserver \<Rightarrow> bool" where
  "same_clients h h' \<longleftrightarrow> screenWidth h' = screenWidth h \<and> screenHeight h' = screenHeight h \<and>
     screenRate h' = screenRate h \<and> randrModes h' = randrModes h \<and> randrRequest h' = randrRequest h \<and>
     displayOrder h' = displayOrder h \<and>
     (\<forall>i. map_option displayAddress64 (displays h' i) = map_option displayAddress64 (displays h i))"

lemma same_clients_refl [simp, intro]: "same_clients h h" by (simp add: same_clients_def)
lemma same_clients_trans [trans]: "same_clients a b \<Longrightarrow> same_clients b c \<Longrightarrow> same_clients a c"
  by (simp add: same_clients_def)

lemma same_clients_upd_window [simp]: "same_clients h (upd_window i f h)"
  by (simp add: same_clients_def upd_window_def)

lemma queue_event_address [simp]: "displayAddress64 (queue_event mk d) = displayAddress64 d"
  by (simp add: queue_event_def getNextEventSerial_def putEvent_def)

lemma same_clients_queue [simp]: "same_clients h (upd_display i (queue_event mk) h)"
  by (auto simp: same_clients_def upd_display_def set_display_def split: option.splits)

lemma same_clients_fold: "(\<And>x h. same_clients h (f x h)) \<Longrightarrow> same_clients h (fold f xs h)"
  by (induction xs arbitrary: h) (auto intro: same_clients_trans)

lemma same_clients_notify [simp]: "same_clients h (notify w m mk h)"
  unfolding notify_def iterateEventMask_def
  by (rule same_clients_fold) (auto split: option.splits)

lemma same_clients_tell [simp]: "same_clients h (tell_parent p t mk h)" "same_clients h (tell_self i t mk h)"
  by (simp_all add: tell_parent_def tell_self_def split: option.split)

lemma same_clients_configureNotify [simp]: "same_clients h (configureNotify i h)"
  unfolding configureNotify_def Let_def
  by (auto split: option.splits intro: same_clients_trans same_clients_tell)

lemma same_clients_buffer [simp]: "same_clients h (set_buffer i b h)" "same_clients h (h\<lparr>wild := x\<rparr>)"
  by (simp_all add: same_clients_def set_buffer_def)

lemma same_clients_put [simp]: "same_clients h (put_surface i s h)"
proof -
  have b: "same_clients h (set_buffer i \<lparr>b_size = s_size s, b_data = s_data s\<rparr> (h\<lparr>wild := (wild h \<or> s_wild s)\<rparr>))"
    by (rule same_clients_trans [OF same_clients_buffer(2) same_clients_buffer(1)])
  show ?thesis unfolding put_surface_def Let_def using b same_clients_trans [OF b same_clients_upd_window] by simp
qed

lemma same_clients_fill [simp]: "same_clients h (fillWithBackground i h)"
  unfolding fillWithBackground_def Let_def
  by (auto split: option.split intro: same_clients_trans [OF same_clients_upd_window same_clients_put])

lemma same_clients_resize [simp]: "same_clients h (resize_window i w v h)"
  unfolding resize_window_def setSize_def
  by (intro same_clients_trans [OF same_clients_trans [OF same_clients_trans [OF same_clients_upd_window same_clients_buffer(1)]
        same_clients_upd_window] same_clients_fill])

lemma same_clients_moveResize [simp]: "same_clients h (moveResize i x y w v h)"
  unfolding moveResize_def
  by (auto intro: same_clients_trans [OF same_clients_resize same_clients_configureNotify])

lemma same_clients_property_notify [simp]: "same_clients h (property_notify w a s h)"
  by (simp add: property_notify_def)

lemma same_clients_deleteProperty [simp]: "same_clients h (deleteProperty w a h)"
  unfolding deleteProperty_def Let_def
  by (auto split: option.split intro: same_clients_trans [OF same_clients_upd_window same_clients_property_notify])

lemma same_clients_setProperty [simp]: "same_clients h (setProperty w a t f bs h)"
  unfolding setProperty_def Let_def
  by (auto intro: same_clients_trans [OF same_clients_upd_window same_clients_property_notify]
      same_clients_trans [OF same_clients_trans [OF same_clients_upd_window same_clients_property_notify] same_clients_deleteProperty])

lemma same_clients_internAtom: "internAtom name f h = (a, h') \<Longrightarrow> same_clients h h'"
  by (auto simp: internAtom_def same_clients_def Let_def split: option.splits if_splits)

section \<open>The clients' copies of the screen\<close>

text \<open>The address of the screen structure a display points to, as the host reads it.\<close>

definition screen_at :: "memory \<Rightarrow> display_data \<Rightarrow> nat" where
  "screen_at m d = unat (le_word (rd m (unat (displayAddress64 d + of_nat dpy_screens)) 8) :: u64)"

definition screen_bytes :: "memory \<Rightarrow> xserver \<Rightarrow> nat set" where
  "screen_bytes m h = (\<Union>i \<in> {i. displays h i \<noteq> None}. {screen_at m (the (displays h i))..<screen_at m (the (displays h i)) + Screen_size})"

text \<open>The screen structures lie in the heap and overlap neither the pointers to them nor the bytes
  \<^verbatim>\<open>own\<close>.\<close>

definition screens_apart :: "nat set \<Rightarrow> memory \<Rightarrow> xserver \<Rightarrow> bool" where
  "screens_apart own m h \<longleftrightarrow> (\<forall>i d. displays h i = Some d \<longrightarrow>
     unat (displayAddress64 d + of_nat dpy_screens) + 8 \<le> heap_top \<and> screen_at m d + Screen_size \<le> heap_top \<and>
     (\<forall>k \<in> screen_bytes m h. k \<notin> own \<and>
        (k < unat (displayAddress64 d + of_nat dpy_screens) \<or> unat (displayAddress64 d + of_nat dpy_screens) + 8 \<le> k)))"

lemma update_screen:
  assumes u: "x11Bridge64UpdateScreenSize (displayAddress64 d) w v c = (r, c')"
  shows "\<exists>m. c' = c\<lparr>c_mem := m\<rparr> \<and> (\<forall>k. k < screen_at (c_mem c) d \<or> screen_at (c_mem c) d + Screen_size \<le> k \<longrightarrow> m k = c_mem c k)"
proof (cases "c' = c")
  case True
  then show ?thesis by (intro exI [of _ "c_mem c"]) simp
next
  case False
  define s where "s = (le_word (rd (c_mem c) (unat (displayAddress64 d + of_nat dpy_screens)) 8) :: u64)"
  have s: "screen_at (c_mem c) d = unat s" by (simp add: screen_at_def s_def)
  have e: "c' = put_guest32 (s + of_nat scr_mheight) (screen_mm v) (put_guest32 (s + of_nat scr_mwidth) (screen_mm w)
      (put_guest32 (s + of_nat scr_height) v (put_guest32 (s + of_nat scr_width) w c)))"
    and pr: "probed s Screen_size True c" and nz: "s \<noteq> 0"
    using u False unfolding x11Bridge64UpdateScreenSize_def s_def [symmetric] Let_def by (auto split: if_splits)
  have "unat s + Screen_size \<le> 2 ^ 47"
    using pr nz by (simp add: probed_def x11Bridge64RangeAccessible_iff Screen_size_def)
  then have a: "unat (s + of_nat k) = unat s + k" if "k \<le> 128" for k
    using that by (simp add: unat_word_ariths(1) unat_of_nat Screen_size_def take_bit_nat_def)
  have a': "unat (s + 24) = unat s + 24" "unat (s + 28) = unat s + 28" "unat (s + 32) = unat s + 32" "unat (s + 36) = unat s + 36"
    using a [of 24] a [of 28] a [of 32] a [of 36] by simp_all
  show ?thesis
    by (rule exI [of _ "c_mem c'"])
      (auto simp: e put_guest32_def s a' scr_offsets wr_def)
qed

lemma screens_apart_cong:
  assumes A: "screens_apart own m h" and e: "\<And>k. k \<notin> screen_bytes m h \<Longrightarrow> k < heap_top \<Longrightarrow> m' k = m k"
  shows "displays h i = Some d \<Longrightarrow> screen_at m' d = screen_at m d"
    and "screen_bytes m' h = screen_bytes m h" and "screens_apart own m' h"
proof -
  show s: "screen_at m' d = screen_at m d" if "displays h i = Some d" for i d
  proof -
    let ?a = "unat (displayAddress64 d + of_nat dpy_screens)"
    have "rd m' ?a 8 = rd m ?a 8"
    proof (rule nth_equalityI)
      fix k assume "k < length (rd m' ?a 8)"
      then have k: "k < 8" by simp
      have "?a + k \<notin> screen_bytes m h" "?a + k < heap_top"
        using A k that unfolding screens_apart_def by fastforce+
      then show "rd m' ?a 8 ! k = rd m ?a 8 ! k" using e k by simp
    qed simp
    then show ?thesis by (simp add: screen_at_def)
  qed
  then show b: "screen_bytes m' h = screen_bytes m h" by (auto simp: screen_bytes_def)
  show "screens_apart own m' h"
    using A s unfolding screens_apart_def b by auto
qed

lemma update_screens:
  assumes A: "screens_apart own (c_mem c) h"
  shows "\<exists>m. updateDisplayScreenSize w v h c = c\<lparr>c_mem := m\<rparr> \<and> (\<forall>k. k \<notin> screen_bytes (c_mem c) h \<longrightarrow> m k = c_mem c k)"
proof -
  let ?f = "\<lambda>i c. case displays h i of None \<Rightarrow> c
     | Some d \<Rightarrow> snd (x11Bridge64UpdateScreenSize (displayAddress64 d) w v c)"
  have "\<exists>m. fold ?f is c = c\<lparr>c_mem := m\<rparr> \<and> (\<forall>k. k \<notin> screen_bytes (c_mem c) h \<longrightarrow> m k = c_mem c k)"
    if "screens_apart own (c_mem c) h" for "is" c
    using that
  proof (induction "is" arbitrary: c)
    case Nil
    then show ?case by (intro exI [of _ "c_mem c"]) simp
  next
    case (Cons i "is")
    obtain m where m: "?f i c = c\<lparr>c_mem := m\<rparr>" "\<forall>k. k \<notin> screen_bytes (c_mem c) h \<longrightarrow> m k = c_mem c k"
    proof (cases "displays h i")
      case None
      then show ?thesis by (intro that [of "c_mem c"]) simp_all
    next
      case (Some d)
      obtain r c' where u: "x11Bridge64UpdateScreenSize (displayAddress64 d) w v c = (r, c')" by fastforce
      obtain m where m: "c' = c\<lparr>c_mem := m\<rparr>"
        "\<forall>k. k < screen_at (c_mem c) d \<or> screen_at (c_mem c) d + Screen_size \<le> k \<longrightarrow> m k = c_mem c k"
        using update_screen [OF u] by blast
      have sub: "\<And>k. k \<notin> screen_bytes (c_mem c) h \<Longrightarrow> k < screen_at (c_mem c) d \<or> screen_at (c_mem c) d + Screen_size \<le> k"
        using Some unfolding screen_bytes_def by (auto simp: not_less dest!: spec [of _ i])
      have "\<forall>k. k \<notin> screen_bytes (c_mem c) h \<longrightarrow> m k = c_mem c k" using sub m(2) by blast
      then show ?thesis using m(1) by (intro that [of m]) (simp_all add: Some u)
    qed
    have A': "screens_apart own m h" "screen_bytes m h = screen_bytes (c_mem c) h"
      using screens_apart_cong [OF Cons.prems, of m] m(2) by blast+
    then obtain m' where "fold ?f is (c\<lparr>c_mem := m\<rparr>) = c\<lparr>c_mem := m'\<rparr>" "\<forall>k. k \<notin> screen_bytes m h \<longrightarrow> m' k = m k"
      using Cons.IH [of "c\<lparr>c_mem := m\<rparr>"] by auto
    then show ?case using m A'(2) by (intro exI [of _ m']) simp
  qed
  then show ?thesis unfolding updateDisplayScreenSize_def using A by blast
qed

lemma screens_apart_addresses:
  assumes A: "screens_apart own m h"
    and e: "\<And>i. map_option displayAddress64 (displays h' i) = map_option displayAddress64 (displays h i)"
  shows "screens_apart own m h'"
proof -
  have d: "\<exists>d'. displays h i = Some d' \<and> displayAddress64 d' = displayAddress64 d" if "displays h' i = Some d" for i d
    using e [of i] that by (cases "displays h i") auto
  have sa: "screen_at m d' = screen_at m d" if "displayAddress64 d' = displayAddress64 d" for d d'
    using that by (simp add: screen_at_def)
  have sub: "screen_bytes m h' \<subseteq> screen_bytes m h"
  proof
    fix k assume "k \<in> screen_bytes m h'"
    then obtain i d where i: "displays h' i = Some d" "screen_at m d \<le> k" "k < screen_at m d + Screen_size"
      by (auto simp: screen_bytes_def)
    from d [OF i(1)] obtain d' where "displays h i = Some d'" "screen_at m d' = screen_at m d" using sa by blast
    then show "k \<in> screen_bytes m h" using i(2,3) unfolding screen_bytes_def by (intro UN_I [of i]) auto
  qed
  show ?thesis
    unfolding screens_apart_def
  proof (intro allI impI)
    fix i d assume "displays h' i = Some d"
    from d [OF this] obtain d' where d': "displays h i = Some d'" "displayAddress64 d' = displayAddress64 d" by blast
    show "unat (displayAddress64 d + of_nat dpy_screens) + 8 \<le> heap_top \<and> screen_at m d + Screen_size \<le> heap_top \<and>
      (\<forall>k \<in> screen_bytes m h'. k \<notin> own \<and>
        (k < unat (displayAddress64 d + of_nat dpy_screens) \<or> unat (displayAddress64 d + of_nat dpy_screens) + 8 \<le> k))"
      using A [unfolded screens_apart_def, rule_format, OF d'(1)] sub unfolding d'(2) sa [OF d'(2)] by blast
  qed
qed

lemma change_screen:
  assumes A: "screens_apart own (c_mem c) h" and c: "changeScreen w v c h = (c', h')"
  shows "same_clients (h\<lparr>screenWidth := w, screenHeight := v\<rparr>) h'"
    and "\<exists>m. c' = c\<lparr>c_mem := m\<rparr> \<and> (\<forall>k \<in> own. m k = c_mem c k)"
proof -
  let ?h1 = "h\<lparr>screenWidth := w, screenHeight := v\<rparr>"
  define h2 where "h2 = moveResize (root ?h1) 0 0 w v ?h1"
  obtain a h3 where ia: "internAtom GTK_WORKAREAS False h2 = (a, h3)" by fastforce
  have s2: "same_clients ?h1 h2" unfolding h2_def by simp
  have e: "c' = updateDisplayScreenSize w v h2 c" "h' = setProperty (root h3) a XA_CARDINAL 32 (words32_bytes [0, 0, w, v]) h3"
    using c ia unfolding changeScreen_def Let_def h2_def by simp_all
  have "same_clients h3 h'" unfolding e by simp
  then show "same_clients ?h1 h'" using same_clients_internAtom [OF ia] s2 by (blast intro: same_clients_trans)
  have addr: "map_option displayAddress64 (displays h2 i) = map_option displayAddress64 (displays h i)" for i
    using s2 by (simp add: same_clients_def)
  have A2: "screens_apart own (c_mem c) h2" using screens_apart_addresses [OF A] addr by blast
  from update_screens [OF A2, of w v] obtain m where m: "updateDisplayScreenSize w v h2 c = c\<lparr>c_mem := m\<rparr>"
    "\<forall>k. k \<notin> screen_bytes (c_mem c) h2 \<longrightarrow> m k = c_mem c k" by blast
  have "k \<notin> screen_bytes (c_mem c) h2" if "k \<in> own" for k
    using A2 that unfolding screens_apart_def screen_bytes_def by fastforce
  then show "\<exists>m. c' = c\<lparr>c_mem := m\<rparr> \<and> (\<forall>k \<in> own. m k = c_mem c k)" using e(1) m by blast
qed


section \<open>The two operations behind the bridge\<close>

lemma kOps_randr:
  "kOps other OP_RANDR_GET_STATE = op_RANDR_GET_STATE" "kOps other OP_RANDR_SET_MODE = op_RANDR_SET_MODE"
  by (simp_all add: kOps_def)

lemma randrModeList_same: "randrModeList h = (modes, h1) \<Longrightarrow>
    randrModes h1 = Some modes \<and> displays h1 = displays h \<and> screenWidth h1 = screenWidth h \<and>
    screenHeight h1 = screenHeight h \<and> screenRate h1 = screenRate h \<and> randrRequest h1 = randrRequest h \<and>
    displayOrder h1 = displayOrder h"
  by (auto simp: randrModeList_def Let_def split: option.splits)

lemma same_clients_display_at:
  assumes "display_at pr dpy i m h d" "same_clients h1 h'" "displays h1 = displays h"
  shows "\<exists>d'. display_at pr dpy i m h' d'"
proof -
  have "map_option displayAddress64 (displays h' i) = Some (P dpy)"
    using assms by (simp add: same_clients_def display_at_def)
  then show ?thesis using assms(1) by (auto simp: display_at_def)
qed

lemma set_mode_handler:
  assumes D: "display_at pr dpy i m0 h d" "\<And>k. k \<in> display_own dpy \<Longrightarrow> m k = m0 k"
    and c: "c = call_for pr [P dpy, A_uint w, A_uint v, A_uint r] m"
    and L: "randrModeList h = (modes, h1)" and w: "(w, v, r) \<in> set modes" "w \<noteq> 0" "v \<noteq> 0"
    and A: "screens_apart (display_own dpy) m h"
  shows "\<exists>m' h'. op_RANDR_SET_MODE c h = (0, c\<lparr>c_mem := m'\<rparr>, h') \<and> (\<forall>k \<in> display_own dpy. m' k = m k) \<and>
    same_clients (h1\<lparr>randrRequest := (w, v, r), screenWidth := w, screenHeight := v\<rparr>) h'"
proof -
  have own: "rd m (dpy + DISPLAY_ID_OFFSET) 4 = rd m0 (dpy + DISPLAY_ID_OFFSET) 4"
    by (rule nth_equalityI) (use D(2) in \<open>auto simp: display_own_def\<close>)
  have dF: "displayFor (P dpy) c h = (Some (i, d), c)"
    by (rule displayFor_known [OF D(1)]) (simp_all add: c own)
  have a: "arg c 0 = P dpy" "uarg c 1 = w" "uarg c 2 = v" "uarg c 3 = r" "c_count c = 4" "c_mem c = m"
    by (simp_all add: c arg_def uarg_def call_for_def A_uint_def numeral_2_eq_2 numeral_3_eq_3)
  have listed: "\<not> (w = 0 \<or> v = 0 \<or> (\<forall>m \<in> set modes. \<not> (fst m = w \<and> fst (snd m) = v)))" using w by force
  let ?h2 = "h1\<lparr>randrRequest := (w, v, r)\<rparr>"
  show ?thesis
  proof (cases "w \<noteq> screenWidth h1 \<or> v \<noteq> screenHeight h1")
    case False
    then have "same_clients (h1\<lparr>randrRequest := (w, v, r), screenWidth := w, screenHeight := v\<rparr>) ?h2"
      by (simp add: same_clients_def)
    moreover have "op_RANDR_SET_MODE c h = (0, c, ?h2)"
      unfolding op_RANDR_SET_MODE_def require_args_def require_display_def a dF option.case prod.case L Let_def if_not_P [OF listed] if_not_P [OF False]
      by (simp add: RRSetConfigSuccess_def)
    ultimately show ?thesis by (intro exI [of _ m] exI [of _ ?h2]) (simp add: a(6) [symmetric])
  next
    case True
    obtain c' h3 where ch: "changeScreen w v c ?h2 = (c', h3)" by fastforce
    have "screens_apart (display_own dpy) (c_mem c) ?h2"
      unfolding a(6) by (rule screens_apart_addresses [OF A]) (use randrModeList_same [OF L] in simp)
    note cs = change_screen [OF this ch]
    obtain m' where m': "c' = c\<lparr>c_mem := m'\<rparr>" "\<forall>k \<in> display_own dpy. m' k = m k" using cs(2) unfolding a(6) by blast
    have "op_RANDR_SET_MODE c h = (0, c', h3)"
      unfolding op_RANDR_SET_MODE_def require_args_def require_display_def a dF option.case prod.case L Let_def
        if_not_P [OF listed] if_P [OF True] ch
      by (simp add: RRSetConfigSuccess_def)
    then show ?thesis using m' cs(1) by (intro exI [of _ m'] exI [of _ h3]) simp
  qed
qed

text \<open>Switching to a listed mode through the bridge.\<close>

lemma set_mode_call:
  assumes D: "display_at pr dpy i (mem \<sigma>) (server \<sigma>) d" and S: "stack_ok \<sigma>"
    and L: "randrModeList (server \<sigma>) = (modes, h1)" and w: "(w, v, r) \<in> set modes" "w \<noteq> 0" "v \<noteq> 0"
    and A: "screens_apart (display_own dpy) (mem \<sigma>) (server \<sigma>)"
  shows "\<exists>m h d'. bw_randr_set (x11Bridge64 pr (kOps other)) dpy w v r \<sigma> = (0, \<sigma>\<lparr>mem := m, server := h\<rparr>) \<and>
    same_clients (h1\<lparr>randrRequest := (w, v, r), screenWidth := w, screenHeight := v\<rparr>) h \<and>
    display_at pr dpy i m h d'"
proof -
  let ?args = "[P dpy, A_uint w, A_uint v, A_uint r]" and ?p = "sp \<sigma> - 32"
  let ?m = "wr (mem \<sigma>) ?p (words_bytes ?args)"
  let ?c = "call_for pr ?args ?m"
  have p: "heap_top \<le> ?p" "?p + 32 = sp \<sigma>" using S by (auto simp: stack_ok_def)
  have own: "?m k = mem \<sigma> k" if "k \<in> display_own dpy" for k
    using display_own_heap [OF D that] p(1) by simp
  have A': "screens_apart (display_own dpy) ?m (server \<sigma>)"
    by (rule screens_apart_cong(3) [OF A]) (use p(1) in simp)
  from set_mode_handler [where m = ?m, OF D own refl L w A']
  obtain m' h' where H: "op_RANDR_SET_MODE ?c (server \<sigma>) = (0, ?c\<lparr>c_mem := m'\<rparr>, h')"
    and m': "\<forall>k \<in> display_own dpy. m' k = ?m k"
    and s: "same_clients (h1\<lparr>randrRequest := (w, v, r), screenWidth := w, screenHeight := v\<rparr>) h'" by blast
  let ?m' = "wr m' ?p (words_bytes ?args)"
  have "BW (x11Bridge64 pr (kOps other)) OP_RANDR_SET_MODE ?args \<sigma> = (0, \<sigma>\<lparr>mem := ?m', server := h'\<rparr>)"
    by (rule BW_x11Bridge64 [where H = "kOps other" and c = "?c\<lparr>c_mem := m'\<rparr>"])
      (use D S H in \<open>simp_all add: display_at_def kOps_randr MAX_ARGS_def call_for_def\<close>)
  then have "bw_randr_set (x11Bridge64 pr (kOps other)) dpy w v r \<sigma> = (0, \<sigma>\<lparr>mem := ?m', server := h'\<rparr>)"
    by (simp add: bw_randr_set_def RRSetConfigSuccess_def)
  moreover have "\<exists>d'. display_at pr dpy i ?m' h' d'"
  proof (rule same_clients_display_at [OF display_at_own [OF D] s])
    show "?m' k = mem \<sigma> k" if "k \<in> display_own dpy" for k
      using own [OF that] m' that display_own_heap [OF D that] p(1) by simp
  qed (use randrModeList_same [OF L] in simp)
  ultimately show ?thesis using s by blast
qed


section \<open>What a client reads\<close>

text \<open>The state a client decodes: the modes in the order of the list, each with its flags.\<close>

definition client_state :: "mode list \<Rightarrow> u32 \<Rightarrow> u32 \<Rightarrow> u32 \<Rightarrow> bw_randr_state" where
  "client_state modes w v r =
     (let current = randrCurrentModeIndex modes w v r in
      \<lparr>st_version = RANDR_STATE_VERSION, st_currentWidth = w, st_currentHeight = v, st_currentRate = r,
       st_currentMode = current, st_mmWidth = screen_mm w, st_mmHeight = screen_mm v,
       st_minWidth = 320, st_minHeight = 200, st_maxWidth = 8192, st_maxHeight = 8192,
       st_modes = map (\<lambda>(i, a, b, c). (a, b, c, mode_flags i current w v (a, b, c))) (enumerate 0 modes)\<rparr>)"

lemma length_words32_bytes [simp]: "length (words32_bytes ws) = 4 * length ws"
  by (induction ws) (simp_all add: words32_bytes_def)

lemma words32_bytes_Cons: "words32_bytes (x # ws) = le_bytes 4 x @ words32_bytes ws"
  by (simp add: words32_bytes_def)

lemma get32_words: "i < length ws \<Longrightarrow> get32 (words32_bytes ws @ z) (4 * i) = ws ! i"
proof (induction ws arbitrary: i)
  case (Cons x ws)
  show ?case
  proof (cases i)
    case 0
    then show ?thesis by (simp add: get32_def words32_bytes_Cons)
  next
    case (Suc j)
    have "get32 (words32_bytes (x # ws) @ z) (4 * Suc j) = get32 (words32_bytes ws @ z) (4 * j)"
      by (simp add: get32_def words32_bytes_Cons)
    then show ?thesis using Cons Suc by simp
  qed
qed simp

lemma concat_nth4:
  assumes "\<And>x. length (f x) = 4" "i < length xs" "j < 4"
  shows "concat (map f xs) ! (4 * i + j) = f (xs ! i) ! j"
  using assms(2)
proof (induction xs arbitrary: i)
  case (Cons x xs)
  then show ?case using assms(1,3) by (cases i) (auto simp: nth_append)
qed simp

lemma length_concat4: "(\<And>x. length (f x) = 4) \<Longrightarrow> length (concat (map f xs)) = 4 * length xs"
  by (induction xs) simp_all

lemma length_randr_record [simp]: "length (randr_record c w v x) = 4"
  by (simp add: randr_record_def split: prod.split)

lemma length_randr_bytes: "length (randr_bytes modes w v r) = 48 + 16 * length modes"
  by (simp add: randr_bytes_def Let_def randr_header_def length_concat4)

text \<open>The client decodes what the host encoded, whatever the rest of its buffer holds.\<close>

lemma state_at_randr_bytes:
  assumes "length modes \<le> RANDR_MAX_MODES"
  shows "state_at (randr_bytes modes w v r @ z) = client_state modes w v r"
proof -
  let ?cur = "randrCurrentModeIndex modes w v r"
  let ?recs = "concat (map (randr_record ?cur w v) (enumerate 0 modes))"
  let ?ws = "randr_header (length modes) w v r ?cur @ ?recs"
  have lr: "length ?recs = 4 * length modes" by (simp add: length_concat4)
  have lh: "length (randr_header (length modes) w v r ?cur) = 12" by (simp add: randr_header_def)
  have g: "get32 (randr_bytes modes w v r @ z) (4 * i) = ?ws ! i" if "i < 12 + 4 * length modes" for i
    using that unfolding randr_bytes_def Let_def by (intro get32_words) (simp add: randr_header_def lr)
  have h: "get32 (randr_bytes modes w v r @ z) (4 * i) = randr_header (length modes) w v r ?cur ! i" if "i < 12" for i
    using g [of i] that lh by (simp only: nth_append) simp
  have n: "unat (of_nat (length modes) :: u32) = length modes"
    using assms by (simp add: RANDR_MAX_MODES_def unat_of_nat take_bit_nat_eq_self)
  have rec: "mode_at (randr_bytes modes w v r @ z) i =
      (case modes ! i of (a, b, c) \<Rightarrow> (a, b, c, mode_flags i ?cur w v (a, b, c)))" if i: "i < length modes" for i
  proof -
    have "get32 (randr_bytes modes w v r @ z) (48 + 16 * i + 4 * j) = randr_record ?cur w v (i, modes ! i) ! j" if "j < 4" for j
    proof -
      have e: "48 + 16 * i + 4 * j = 4 * (12 + (4 * i + j))" by simp
      have "?ws ! (12 + (4 * i + j)) = ?recs ! (4 * i + j)" by (simp add: nth_append randr_header_def)
      also have "\<dots> = randr_record ?cur w v (enumerate 0 modes ! i) ! j"
        by (rule concat_nth4) (use i that in simp_all)
      also have "enumerate 0 modes ! i = (i, modes ! i)" using i by (simp add: nth_enumerate_eq)
      finally have "?ws ! (12 + (4 * i + j)) = randr_record ?cur w v (i, modes ! i) ! j" .
      moreover have "12 + (4 * i + j) < 12 + 4 * length modes" using i that by simp
      ultimately show ?thesis unfolding e by (simp only: g)
    qed
    from this [of 0] this [of 1] this [of 2] this [of 3] show ?thesis
      by (simp add: mode_at_def randr_state_size_def randr_mode_size_def randr_record_def Let_def split: prod.splits)
  qed
  have ms: "map (mode_at (randr_bytes modes w v r @ z)) [0..<min (unat (get32 (randr_bytes modes w v r @ z) 4)) RANDR_MAX_MODES] =
      map (\<lambda>(i, a, b, c). (a, b, c, mode_flags i ?cur w v (a, b, c))) (enumerate 0 modes)"
    using h [of 1] rec n assms
    by (intro nth_equalityI) (auto simp: randr_header_def nth_enumerate_eq split: prod.splits)
  show ?thesis
    unfolding state_at_def client_state_def Let_def ms
    using h [of 0] h [of 2] h [of 3] h [of 4] h [of 5] h [of 6] h [of 7] h [of 8] h [of 9] h [of 10] h [of 11]
    by (simp add: randr_header_def)
qed


lemma get_state_call:
  assumes D: "display_at pr dpy i (mem \<sigma>) (server \<sigma>) d" and S: "stack_ok \<sigma>"
    and L: "randrModeList (server \<sigma>) = (modes, h1)" and n: "length modes \<le> RANDR_MAX_MODES"
    and p: "sp \<sigma> \<le> p" "p + randr_blob \<le> stack_top"
  defines "bs \<equiv> randr_bytes modes (screenWidth h1) (screenHeight h1) (randrCurrentRate (screenWidth h1) (screenHeight h1) h1)"
  shows "\<exists>m. BW (x11Bridge64 pr (kOps other)) OP_RANDR_GET_STATE [P dpy, P p, of_nat randr_blob] \<sigma> =
      (of_nat (length modes), \<sigma>\<lparr>mem := m, server := h1\<rparr>) \<and>
    rd m p randr_blob = bs @ drop (length bs) (rd (mem \<sigma>) p randr_blob) \<and>
    (\<forall>j. j < heap_top \<or> sp \<sigma> \<le> j \<longrightarrow> j < p \<or> p + randr_blob \<le> j \<longrightarrow> m j = mem \<sigma> j)"
proof -
  let ?args = "[P dpy, P p, of_nat randr_blob]" and ?q = "sp \<sigma> - 24"
  let ?m = "wr (mem \<sigma>) ?q (words_bytes ?args)"
  let ?c = "call_for pr ?args ?m"
  have q: "heap_top \<le> ?q" "?q + 24 = sp \<sigma>" using S by (auto simp: stack_ok_def)
  have "rd ?m (dpy + DISPLAY_ID_OFFSET) 4 = rd (mem \<sigma>) (dpy + DISPLAY_ID_OFFSET) 4"
    using D q(1) by (intro rd_wr_other) (auto simp: display_at_def DISPLAY_PRIVATE_BYTES_def DISPLAY_ID_OFFSET_def)
  then have dF: "displayFor (P dpy) ?c (server \<sigma>) = (Some (i, d), ?c)" by (intro displayFor_known [OF D]) simp_all
  have a: "arg ?c 0 = P dpy" "arg ?c 1 = P p" "arg ?c 2 = of_nat randr_blob" "c_count ?c = 3"
    by (simp_all add: arg_def call_for_def numeral_2_eq_2)
  have lb: "length bs \<le> randr_blob"
    using n by (simp add: bs_def length_randr_bytes randr_blob_def randr_state_size_def randr_mode_size_def RANDR_MAX_MODES_def)
  have blob: "randr_blob = 1072" by (simp add: randr_blob_def randr_state_size_def RANDR_MAX_MODES_def randr_mode_size_def)
  have m: "mapped pr" using D by (simp add: display_at_def)
  have pb: "4096 \<le> p" "p + length bs \<le> 2 ^ 47" "p < 2 ^ 64" "p \<noteq> 0"
    using p S lb by (auto simp: stack_ok_def heap_top_def stack_top_def blob)
  let ?c1 = "setArg 2 (of_nat (length bs)) ?c"
  let ?c2 = "?c1\<lparr>c_mem := wr ?m p bs\<rparr>"
  have nb: "bs \<noteq> []" using length_randr_bytes by (metis bs_def add_is_0 length_0_conv zero_neq_numeral)
  have w: "h_write (P p) bs ?c1 = (True, ?c2)"
    using mapped_range [OF m pb(1,2), of True] pb(3) nb by (simp add: h_write_def setArg_def call_for_def)
  have sr: "sizedResult 1 bs ?c = (Inr (), ?c2)"
  proof -
    have "unat (of_nat randr_blob :: u64) = randr_blob" by (simp add: blob)
    then have fits: "\<not> (P p = 0 \<or> unat (of_nat randr_blob :: u64) < length bs)"
      using pb(3,4) lb by (simp add: P_eq_0)
    have s2: "(1::nat) + 1 = 2" by simp
    show ?thesis unfolding sizedResult_def Let_def s2 a(2,3) if_not_P [OF fits] w by simp
  qed
  have H: "kOps other OP_RANDR_GET_STATE ?c (server \<sigma>) = (of_nat (length modes), ?c2, h1)"
    unfolding kOps_randr op_RANDR_GET_STATE_def require_args_def require_display_def a(1,4) dF option.case prod.case L Let_def
      bs_def [symmetric] sr sum.case by simp
  let ?m2 = "wr (wr ?m p bs) ?q (words_bytes [P dpy, P p, of_nat (length bs)])"
  have "BW (x11Bridge64 pr (kOps other)) OP_RANDR_GET_STATE ?args \<sigma> =
      (of_nat (length modes), \<sigma>\<lparr>mem := ?m2, server := h1\<rparr>)"
    by (rule BW_x11Bridge64 [where H = "kOps other", OF m S _ _ _ H])
      (simp_all add: MAX_ARGS_def call_for_def setArg_def numeral_2_eq_2 numeral_3_eq_3)
  moreover have "rd ?m2 p randr_blob = bs @ drop (length bs) (rd (mem \<sigma>) p randr_blob)"
  proof (rule nth_equalityI)
    fix k assume "k < length (rd ?m2 p randr_blob)"
    then show "rd ?m2 p randr_blob ! k = (bs @ drop (length bs) (rd (mem \<sigma>) p randr_blob)) ! k"
      using p q lb by (simp add: nth_append wr_def)
  qed (use lb in simp)
  moreover have "?m2 j = mem \<sigma> j" if "j < heap_top \<or> sp \<sigma> \<le> j" "j < p \<or> p + randr_blob \<le> j" for j
  proof -
    have "j < ?q \<or> ?q + 24 \<le> j" "j < p \<or> p + length bs \<le> j" using that q lb by linarith+
    then show ?thesis by simp
  qed
  ultimately show ?thesis by (intro exI [of _ ?m2]) simp
qed


lemma fetch_result:
  assumes D: "display_at pr dpy i (mem \<sigma>) (server \<sigma>) d" and S: "stack_deep \<sigma>"
    and L: "randrModeList (server \<sigma>) = (modes, h1)" and n: "length modes \<le> RANDR_MAX_MODES" "modes \<noteq> []"
  shows "\<exists>m. bw_randr_fetch (x11Bridge64 pr (kOps other)) dpy \<sigma> =
      (Some (client_state modes (screenWidth h1) (screenHeight h1) (randrCurrentRate (screenWidth h1) (screenHeight h1) h1)),
       \<sigma>\<lparr>mem := m, server := h1\<rparr>) \<and> quiet (sp \<sigma>) (mem \<sigma>) m"
proof -
  let ?p = "sp \<sigma> - randr_blob"
  let ?\<sigma> = "st_bytes ?p (replicate randr_blob 0) (\<sigma>\<lparr>sp := ?p\<rparr>)"
  let ?st = "client_state modes (screenWidth h1) (screenHeight h1) (randrCurrentRate (screenWidth h1) (screenHeight h1) h1)"
  have blob: "randr_blob = 1072" by (simp add: randr_blob_def randr_state_size_def RANDR_MAX_MODES_def randr_mode_size_def)
  have p: "heap_top + 4096 \<le> ?p" "?p + randr_blob = sp \<sigma>" "sp \<sigma> \<le> stack_top" using S by (auto simp: stack_deep_def blob)
  have D': "display_at pr dpy i (mem ?\<sigma>) (server ?\<sigma>) d"
  proof -
    have "mem ?\<sigma> k = mem \<sigma> k" if "k \<in> display_own dpy" for k
    proof -
      have "k < ?p" using p(1) display_own_heap [OF D that] by linarith
      then show ?thesis by (simp add: st_bytes_def)
    qed
    from display_at_own [OF D this] show ?thesis by simp
  qed
  have S': "stack_ok ?\<sigma>" using p by (simp add: stack_ok_def)
  have nz: "dpy \<noteq> 0" using D by (simp add: display_at_def)
  have L': "randrModeList (server ?\<sigma>) = (modes, h1)" using L by simp
  have p': "sp ?\<sigma> \<le> ?p" "?p + randr_blob \<le> stack_top" using p by simp_all
  from get_state_call [OF D' S' L' n(1) p', of other] obtain m where
    call: "BW (x11Bridge64 pr (kOps other)) OP_RANDR_GET_STATE [P dpy, P ?p, of_nat randr_blob] ?\<sigma> =
      (of_nat (length modes), ?\<sigma>\<lparr>mem := m, server := h1\<rparr>)"
    and raw: "\<exists>z. rd m ?p randr_blob = randr_bytes modes (screenWidth h1) (screenHeight h1)
        (randrCurrentRate (screenWidth h1) (screenHeight h1) h1) @ z"
    and rest: "\<forall>j. j < heap_top \<or> ?p \<le> j \<longrightarrow> j < ?p \<or> ?p + randr_blob \<le> j \<longrightarrow> m j = mem ?\<sigma> j" by auto
  have st: "state_at (rd m ?p randr_blob) = ?st" using raw state_at_randr_bytes [OF n(1)] by auto
  have "sint (of_nat (length modes) :: s64) = int (length modes)" by (rule sint_nat64) (use n(1) in \<open>simp add: RANDR_MAX_MODES_def\<close>)
  then have ok: "\<not> sint (of_nat (length modes) :: s64) < 0" by simp
  have ms: "st_modes ?st \<noteq> []" "\<not> st_version ?st \<noteq> RANDR_STATE_VERSION"
    using n(2) by (cases modes; simp add: client_state_def Let_def)+
  have "bw_randr_fetch (x11Bridge64 pr (kOps other)) dpy \<sigma> = (Some ?st, \<sigma>\<lparr>mem := m, server := h1\<rparr>)"
    unfolding bw_randr_fetch_def with_bytes_def with_local_def length_replicate Let_def if_not_P [OF nz] call prod.case if_not_P [OF ok]
    using ms by (simp add: st)
  moreover have "quiet (sp \<sigma>) (mem \<sigma>) m"
    unfolding quiet_def
  proof (intro allI impI)
    fix j assume j: "j < heap_top \<or> sp \<sigma> \<le> j"
    then have o: "j < ?p \<or> ?p + randr_blob \<le> j" "j < heap_top \<or> ?p \<le> j" using p by linarith+
    then have "m j = mem ?\<sigma> j" using rest by blast
    also have "\<dots> = mem \<sigma> j" using o(1) by (simp add: st_bytes_def)
    finally show "m j = mem \<sigma> j" .
  qed
  ultimately show ?thesis by blast
qed

section \<open>The policy's invariant\<close>

text \<open>The list, once built, is a standard mode list.\<close>

definition randr_ok :: "xserver \<Rightarrow> bool" where
  "randr_ok h \<longleftrightarrow> (\<forall>modes. randrModes h = Some modes \<longrightarrow> (\<exists>w v r. modes = XrrStandardModeList w v r RANDR_MAX_MODES))"

lemma standard_list:
  assumes "modes = XrrStandardModeList w v r RANDR_MAX_MODES"
  shows "distinct modes" "length modes \<le> 27" "modes \<noteq> []" "(a, b, c) \<in> set modes \<Longrightarrow> a \<noteq> 0 \<and> b \<noteq> 0 \<and> c \<noteq> 0"
proof -
  have s: "set modes = {(a, b, c). (a, b) \<in> desktop_sizes w v \<and> c \<in> offered_rates r}"
    using mode_list_set [of RANDR_MAX_MODES w v r] assms by (simp add: RANDR_MAX_MODES_def)
  show "distinct modes" unfolding assms mode_list_reference by simp
  show "length modes \<le> 27" unfolding assms by (rule mode_list_length)
  have "(640, 480, 60) \<in> set modes" by (simp add: s desktop_sizes_def kStandardModeSizes_def offered_rates_def)
  then show "modes \<noteq> []" by auto
  show "(a, b, c) \<in> set modes \<Longrightarrow> a \<noteq> 0 \<and> b \<noteq> 0 \<and> c \<noteq> 0"
    by (auto simp: s desktop_sizes_def kStandardModeSizes_def offered_rates_def split: if_splits)
qed

lemma randr_list:
  assumes "randr_ok h" "randrModeList h = (modes, h1)"
  obtains w v r where "modes = XrrStandardModeList w v r RANDR_MAX_MODES"
  using assms by (auto simp: randr_ok_def randrModeList_def Let_def split: option.splits)

lemma index_where_nth:
  "k < length xs \<Longrightarrow> Q (xs ! k) \<Longrightarrow> (\<And>j. j < k \<Longrightarrow> \<not> Q (xs ! j)) \<Longrightarrow> index_where Q i xs = Some (i + k)"
proof (induction xs arbitrary: i k)
  case (Cons x xs)
  show ?case
  proof (cases k)
    case 0
    then show ?thesis using Cons.prems by simp
  next
    case (Suc j)
    have "\<not> Q x" using Cons.prems(3) [of 0] Suc by simp
    moreover have "index_where Q (Suc i) xs = Some (Suc i + j)"
      by (rule Cons.IH) (use Cons.prems(1,2) Cons.prems(3) [of "Suc _"] Suc in auto)
    ultimately show ?thesis using Suc by simp
  qed
qed simp

lemma current_index:
  assumes "distinct modes" "k < length modes" "modes ! k = (w, v, r)"
  shows "randrCurrentModeIndex modes w v r = of_nat k"
proof -
  have "index_where (\<lambda>(a, b, c). a = w \<and> b = v \<and> c = r) 0 modes = Some (0 + k)"
  proof (rule index_where_nth [OF assms(2)])
    show "\<not> (case modes ! j of (a, b, c) \<Rightarrow> a = w \<and> b = v \<and> c = r)" if "j < k" for j
    proof -
      have "modes ! j \<noteq> modes ! k" using assms(1,2) that by (simp add: nth_eq_iff_index_eq)
      then show ?thesis using assms(3) by (auto split: prod.split)
    qed
  qed (use assms(3) in simp)
  then show ?thesis using assms(2) by (auto simp: randrCurrentModeIndex_def)
qed


text \<open>C22: the shim's fixed buffer always holds the host's answer: a client of a known display gets every
  mode of the host's list, at most 27 of the 64 the buffer has room for, and the host's current size.\<close>

theorem randr_fetch_complete:
  assumes D: "display_at pr dpy i (mem \<sigma>) (server \<sigma>) d" and S: "stack_deep \<sigma>" and R: "randr_ok (server \<sigma>)"
    and call: "bw_randr_fetch (x11Bridge64 pr (kOps other)) dpy \<sigma> = (st, \<sigma>')"
  shows "\<exists>s. st = Some s \<and> map (\<lambda>(a, b, c, f). (a, b, c)) (st_modes s) = fst (randrModeList (server \<sigma>)) \<and>
    length (st_modes s) \<le> 27 \<and> st_currentWidth s = screenWidth (server \<sigma>) \<and> st_currentHeight s = screenHeight (server \<sigma>)"
proof -
  obtain modes h1 where L: "randrModeList (server \<sigma>) = (modes, h1)" by fastforce
  obtain w v r where st: "modes = XrrStandardModeList w v r RANDR_MAX_MODES" by (rule randr_list [OF R L])
  note sl = standard_list [OF st]
  have "length modes \<le> RANDR_MAX_MODES" using sl(2) by (simp add: RANDR_MAX_MODES_def)
  from fetch_result [OF D S L this sl(3), where other = other] obtain m where
    f: "st = Some (client_state modes (screenWidth h1) (screenHeight h1) (randrCurrentRate (screenWidth h1) (screenHeight h1) h1))"
    using call by auto
  have "map (\<lambda>(a, b, c, f). (a, b, c)) (map (\<lambda>(i, a, b, c). (a, b, c, g i a b c)) (enumerate 0 modes)) = modes" for g :: "_ \<Rightarrow> _ \<Rightarrow> _ \<Rightarrow> _ \<Rightarrow> u32"
    by (rule nth_equalityI) (auto simp: nth_enumerate_eq split: prod.split)
  then show ?thesis using f sl(2) randrModeList_same [OF L] L by (simp add: client_state_def Let_def)
qed

section \<open>Switching modes\<close>

lemma crtc_info:
  assumes f: "bw_randr_fetch sys dpy \<sigma> = (Some st, \<sigma>1)" and H: "heap_ok \<sigma>1" and a: "\<not> alloc_fails 80 \<sigma>1"
    and call: "XRRGetCrtcInfo sys dpy rs BW_RANDR_CRTC (L, \<sigma>) = (p, L', \<sigma>')"
  shows "p \<noteq> 0 \<and> ld 4 (p + ci_width) \<sigma>' = st_currentWidth st \<and> ld 4 (p + ci_height) \<sigma>' = st_currentHeight st \<and>
    ld 8 (p + ci_mode) \<sigma>' = (if st_currentMode st = RANDR_NO_MODE then 0 else BW_RANDR_MODE_BASE + ucast (st_currentMode st)) \<and>
    server \<sigma>' = server \<sigma>1"
proof -
  obtain q \<sigma>2 where m: "malloc 80 \<sigma>1 = (q, \<sigma>2)" by fastforce
  have q: "q \<noteq> 0" using malloc_null [of 80 \<sigma>1] m a H by (simp add: heap_ok_def)
  have s: "server \<sigma>2 = server \<sigma>1" using malloc_frameD [OF m] by simp
  show ?thesis
    using call f m q s
    by (auto simp: XRRGetCrtcInfo_def calloc_def ci_offsets Let_def bw_randr_stamp_def ld_st_other add.assoc)
qed


lemma set_crtc_config:
  assumes f: "bw_randr_fetch sys dpy \<sigma> = (Some st, \<sigma>1)" and k: "k < length (st_modes st)" "k < 2 ^ 31"
    and m: "st_modes st ! k = (w, v, r, fl)"
  shows "XRRSetCrtcConfig sys dpy rs BW_RANDR_CRTC t x y (BW_RANDR_MODE_BASE + of_nat k) RR_Rotate_0 outs n \<sigma> =
    bw_randr_set sys dpy w v r \<sigma>1"
proof -
  have u: "unat (BW_RANDR_MODE_BASE + of_nat k) = 0x2000 + k"
    using k(2) by (simp add: BW_RANDR_MODE_BASE_def unat_word_ariths(1) unat_of_nat take_bit_eq_mod)
  then have b: "\<not> BW_RANDR_MODE_BASE + of_nat k < BW_RANDR_MODE_BASE" "BW_RANDR_MODE_BASE + of_nat k \<noteq> 0"
    by (auto simp: word_less_nat_alt BW_RANDR_MODE_BASE_def)
  have i: "unat (ucast (BW_RANDR_MODE_BASE + of_nat k - BW_RANDR_MODE_BASE) :: u32) = k"
    using k(2) by (simp add: ucast_of_nat_down unat_of_nat take_bit_nat_eq_self)
  show ?thesis
    unfolding XRRSetCrtcConfig_def f Let_def i using b k(1) m by simp
qed

text \<open>C23: switching the controller to any mode of the host's list succeeds, the screen takes that size,
  and asking the controller right after it reports exactly that mode and size.\<close>

theorem mode_switch_roundtrip:
  assumes D: "display_at pr dpy i (mem \<sigma>) (server \<sigma>) d" and S: "stack_deep \<sigma>" and H: "heap_ok \<sigma>"
    and R: "randr_ok (server \<sigma>)" and A: "screens_apart (display_own dpy) (mem \<sigma>) (server \<sigma>)"
    and k: "k < length (fst (randrModeList (server \<sigma>)))" "fst (randrModeList (server \<sigma>)) ! k = (w, v, r)"
    and set: "XRRSetCrtcConfig (x11Bridge64 pr (kOps other)) dpy rs BW_RANDR_CRTC t x y
      (BW_RANDR_MODE_BASE + of_nat k) RR_Rotate_0 outs n \<sigma> = (s, \<sigma>1)"
    and info: "XRRGetCrtcInfo (x11Bridge64 pr (kOps other)) dpy rs' BW_RANDR_CRTC (L, \<sigma>1) = (p, L', \<sigma>2)"
    and a: "\<not> alloc_fails 80 \<sigma>"
  shows "s = rr_success \<and> p \<noteq> 0 \<and> ld 8 (p + ci_mode) \<sigma>2 = BW_RANDR_MODE_BASE + (of_nat k :: u64) \<and>
    ld 4 (p + ci_width) \<sigma>2 = w \<and> ld 4 (p + ci_height) \<sigma>2 = v \<and>
    screenWidth (server \<sigma>2) = w \<and> screenHeight (server \<sigma>2) = v"
proof -
  let ?sys = "x11Bridge64 pr (kOps other)"
  obtain modes h1 where L: "randrModeList (server \<sigma>) = (modes, h1)" by fastforce
  obtain dw dv dr where st: "modes = XrrStandardModeList dw dv dr RANDR_MAX_MODES" by (rule randr_list [OF R L])
  note sl = standard_list [OF st]
  have n: "length modes \<le> RANDR_MAX_MODES" using sl(2) by (simp add: RANDR_MAX_MODES_def)
  have kk: "k < length modes" "modes ! k = (w, v, r)" "k < 27" using k L sl(2) by simp_all
  then have wv: "(w, v, r) \<in> set modes" by (metis nth_mem)
  with sl(4) have nz: "w \<noteq> 0" "v \<noteq> 0" "r \<noteq> 0" by blast+
  note h1 = randrModeList_same [OF L]
  let ?rate = "randrCurrentRate (screenWidth h1) (screenHeight h1) h1"
  let ?st = "client_state modes (screenWidth h1) (screenHeight h1) ?rate"
  obtain m1 where f1: "bw_randr_fetch ?sys dpy \<sigma> = (Some ?st, \<sigma>\<lparr>mem := m1, server := h1\<rparr>)" and q1: "quiet (sp \<sigma>) (mem \<sigma>) m1"
    using fetch_result [OF D S L n sl(3)] by blast
  let ?\<tau> = "\<sigma>\<lparr>mem := m1, server := h1\<rparr>"
  have msk: "k < length (st_modes ?st)" "\<exists>fl. st_modes ?st ! k = (w, v, r, fl)"
    using kk by (simp_all add: client_state_def Let_def nth_enumerate_eq)
  then obtain fl where "XRRSetCrtcConfig ?sys dpy rs BW_RANDR_CRTC t x y (BW_RANDR_MODE_BASE + of_nat k) RR_Rotate_0 outs n \<sigma> =
      bw_randr_set ?sys dpy w v r ?\<tau>"
    using set_crtc_config [OF f1 msk(1)] kk(3) by fastforce
  then have set': "bw_randr_set ?sys dpy w v r ?\<tau> = (s, \<sigma>1)" using set by simp
  have keep: "m1 k = mem \<sigma> k" if "k < heap_top" for k using q1 that by (simp add: quiet_def)
  have "\<exists>d'. display_at pr dpy i m1 h1 d'"
    by (rule same_clients_display_at [OF display_at_own [OF D] same_clients_refl]) (use keep display_own_heap [OF D] h1 in auto)
  then obtain d1 where D1: "display_at pr dpy i (mem ?\<tau>) (server ?\<tau>) d1" by auto
  have A1: "screens_apart (display_own dpy) (mem ?\<tau>) (server ?\<tau>)"
    using screens_apart_addresses [OF screens_apart_cong(3) [OF A], of m1 h1] keep h1 by auto
  have S1: "stack_ok ?\<tau>" using S by (simp add: stack_deep_def stack_ok_def)
  have L1: "randrModeList (server ?\<tau>) = (modes, h1)" using h1 by (simp add: randrModeList_def)
  from set_mode_call [OF D1 S1 L1 wv nz(1,2) A1, of other] obtain m2 h2 d2 where
    s1: "s = 0" "\<sigma>1 = \<sigma>\<lparr>mem := m2, server := h2\<rparr>" and D2: "display_at pr dpy i m2 h2 d2"
    and same: "same_clients (h1\<lparr>randrRequest := (w, v, r), screenWidth := w, screenHeight := v\<rparr>) h2"
    using set' by auto
  have h2: "randrModes h2 = Some modes" "screenWidth h2 = w" "screenHeight h2 = v" "randrRequest h2 = (w, v, r)"
    using same h1 by (simp_all add: same_clients_def)
  have L2: "randrModeList (server \<sigma>1) = (modes, h2)" using h2(1) s1(2) by (simp add: randrModeList_def)
  have D2': "display_at pr dpy i (mem \<sigma>1) (server \<sigma>1) d2" and S2: "stack_deep \<sigma>1"
    using D2 S s1(2) by (simp_all add: stack_deep_def)
  have rate: "randrCurrentRate w v h2 = r" using h2(4) nz(3) by (simp add: randrCurrentRate_def)
  obtain m3 where f2: "bw_randr_fetch ?sys dpy \<sigma>1 = (Some (client_state modes w v r), \<sigma>1\<lparr>mem := m3, server := h2\<rparr>)"
    using fetch_result [OF D2' S2 L2 n sl(3), where other = other] unfolding h2(2,3) rate by blast
  have H2: "heap_ok (\<sigma>1\<lparr>mem := m3, server := h2\<rparr>)" "\<not> alloc_fails 80 (\<sigma>1\<lparr>mem := m3, server := h2\<rparr>)"
    using H a s1(2) by (simp_all add: heap_ok_def alloc_fails_def)
  note ci = crtc_info [OF f2 H2 info]
  have cur: "st_currentMode (client_state modes w v r) = of_nat k"
    using current_index [OF sl(1) kk(1,2)] by (simp add: client_state_def Let_def)
  have "(of_nat k :: u32) \<noteq> RANDR_NO_MODE"
    using kk(3) by (auto simp: RANDR_NO_MODE_def unat_of_nat dest!: arg_cong [of _ _ unat])
  moreover have "(ucast (of_nat k :: u32) :: u64) = of_nat k"
    using kk(3) by (simp add: ucast_nat unat_of_nat take_bit_nat_eq_self)
  ultimately show ?thesis
    using ci s1 h2 unfolding cur by (simp add: client_state_def Let_def rr_success_def RRSetConfigSuccess_def)
qed


section \<open>The resources a client enumerates\<close>

record mode_info =
  m_id :: u64
  m_width :: u32
  m_height :: u32
  m_dotClock :: u64
  m_hTotal :: u32
  m_vTotal :: u32
  m_name :: "u8 list"
  m_nameLength :: u32

text \<open>What a client finds at \<^verbatim>\<open>a\<close>; the name is followed through its pointer up to the terminator.\<close>

definition read_name :: "nat \<Rightarrow> 'h world \<Rightarrow> u8 list" where
  "read_name a \<sigma> = takeWhile (\<lambda>b. b \<noteq> 0) (rd (mem \<sigma>) a BW_MODE_NAME_BYTES)"

definition read_mode_info :: "nat \<Rightarrow> 'h world \<Rightarrow> mode_info" where
  "read_mode_info a \<sigma> = \<lparr>m_id = ld 8 (a + mi_id) \<sigma>, m_width = ld 4 (a + mi_width) \<sigma>, m_height = ld 4 (a + mi_height) \<sigma>,
     m_dotClock = ld 8 (a + mi_dotClock) \<sigma>, m_hTotal = ld 4 (a + mi_hTotal) \<sigma>, m_vTotal = ld 4 (a + mi_vTotal) \<sigma>,
     m_name = read_name (unat (ld 8 (a + mi_name) \<sigma> :: u64)) \<sigma>, m_nameLength = ld 4 (a + mi_nameLength) \<sigma>\<rparr>"

definition mode_info_of :: "nat \<Rightarrow> u32 \<times> u32 \<times> u32 \<times> u32 \<Rightarrow> mode_info" where
  "mode_info_of k m = (case m of (w, v, r, f) \<Rightarrow>
     \<lparr>m_id = BW_RANDR_MODE_BASE + of_nat k, m_width = w, m_height = v, m_dotClock = ucast w * ucast v * ucast r,
      m_hTotal = w, m_vTotal = v, m_name = take 15 (mode_text w v),
      m_nameLength = of_nat (min 15 (length (mode_text w v)))\<rparr>)"

lemma dec_digits_nonzero: "b \<in> set (dec_digits n) \<Longrightarrow> b \<noteq> 0"
proof (induction n rule: dec_digits.induct)
  case (1 n)
  have d: "(of_nat (48 + k) :: u8) \<noteq> 0" if "k < 10" for k
  proof -
    have "unat (of_nat (48 + k) :: u8) = 48 + k"
      unfolding unat_of_nat by (rule mod_less) (use that in simp)
    then show ?thesis by (metis add_eq_0_iff_both_eq_0 unat_0 zero_neq_numeral)
  qed
  show ?case
  proof (cases "n < 10")
    case True
    then show ?thesis using 1(2) d [of n] by (simp add: dec_digits.simps [of n])
  next
    case False
    then show ?thesis using 1 d [of "n mod 10"] by (auto simp: dec_digits.simps [of n])
  qed
qed

lemma mode_text_nonzero: "b \<in> set (mode_text w v) \<Longrightarrow> b \<noteq> 0"
  by (auto simp: mode_text_def dest: dec_digits_nonzero)

lemma build_mode_frame:
  assumes "j < modes + 80 * i \<or> modes + 80 * i + 80 \<le> j" "j < names + 16 * i \<or> names + 16 * i + 16 \<le> j"
  shows "mem (bw_build_mode modes names i m \<sigma>) j = mem \<sigma> j"
proof -
  obtain w v r f where m: "m = (w, v, r, f)" by (cases m)
  have "j < names + 16 * i \<or> names + 16 * i + length (take 15 (mode_text w v) @ [0]) \<le> j"
    using assms(2) by auto
  then show ?thesis using assms(1)
    by (auto simp: bw_build_mode_def m Let_def store_def st_bytes_def mi_offsets BW_MODE_NAME_BYTES_def)
qed

lemma build_mode_live [simp]:
  "live (bw_build_mode modes names i m \<sigma>) = live \<sigma>" "server (bw_build_mode modes names i m \<sigma>) = server \<sigma>"
  by (simp_all add: bw_build_mode_def Let_def split: prod.split)

lemma read_mode_info_cong:
  assumes "\<And>j. a \<le> j \<Longrightarrow> j < a + 80 \<Longrightarrow> mem \<sigma>' j = mem \<sigma> j"
    and "\<And>j. unat (ld 8 (a + mi_name) \<sigma> :: u64) \<le> j \<Longrightarrow> j < unat (ld 8 (a + mi_name) \<sigma> :: u64) + 16 \<Longrightarrow> mem \<sigma>' j = mem \<sigma> j"
  shows "read_mode_info a \<sigma>' = read_mode_info a \<sigma>"
proof -
  have l: "rd (mem \<sigma>') (a + k) n = rd (mem \<sigma>) (a + k) n" if "k + n \<le> 80" for k n
    by (rule nth_equalityI) (use assms(1) that in auto)
  have n: "rd (mem \<sigma>') (unat (ld 8 (a + mi_name) \<sigma> :: u64)) 16 = rd (mem \<sigma>) (unat (ld 8 (a + mi_name) \<sigma> :: u64)) 16"
    by (rule nth_equalityI) (use assms(2) in auto)
  have l0: "rd (mem \<sigma>') a 8 = rd (mem \<sigma>) a 8" using l [of 0 8] by simp
  show ?thesis using n
    by (simp add: read_mode_info_def read_name_def BW_MODE_NAME_BYTES_def ld_def l l0 mi_offsets)
qed

lemma read_build_mode:
  assumes "modes + 80 * i + 80 \<le> names" "names + 16 * i + 16 < 2 ^ 64"
  shows "read_mode_info (modes + 80 * i) (bw_build_mode modes names i m \<sigma>) = mode_info_of i m"
proof -
  obtain w v r f where m: "m = (w, v, r, f)" by (cases m)
  define a where "a = modes + 80 * i"
  define n where "n = names + 16 * i"
  let ?t = "take 15 (mode_text w v) @ [0]"
  have ap: "a + 80 \<le> n" using assms(1) by (simp add: a_def n_def)
  have o: "ld k (a + c) (st_bytes n ?t \<tau>) = ld k (a + c) \<tau>" if "c + k \<le> 80" for c k and \<tau> :: "'a world"
    using ap that by (intro ld_st_bytes_other) simp
  have o0: "ld 8 a (st_bytes n ?t \<tau>) = ld 8 a \<tau>" for \<tau> :: "'a world"
    using o [of 0 8] by simp
  have nm: "takeWhile (\<lambda>b. b \<noteq> 0) (rd (mem (store 4 (a + 64) (l :: u32) (st_bytes n ?t \<tau>))) n 16) = take 15 (mode_text w v)"
    for l and \<tau> :: "'a world"
  proof -
    let ?m' = "mem (store 4 (a + 64) l (st_bytes n ?t \<tau>))"
    have "length ?t \<le> 16" by simp
    then have "rd ?m' n 16 = rd ?m' n (length ?t) @ rd ?m' (n + length ?t) (16 - length ?t)"
      using rd_append [of ?m' n "length ?t" "16 - length ?t"] by (simp only: le_add_diff_inverse)
    also have "rd ?m' n (length ?t) = ?t"
      using ap by (simp add: store_def st_bytes_def rd_wr_other)
    finally show ?thesis using mode_text_nonzero [of _ w v] by (auto simp: takeWhile_append dest: in_set_takeD)
  qed
  have len: "(if length (mode_text w v) < 16 then length (mode_text w v) else length (take 15 (mode_text w v))) = min 15 (length (mode_text w v))"
    by auto
  have u: "unat (P n) = n" using assms(2) by (simp add: n_def)
  show ?thesis
    unfolding read_mode_info_def mode_info_of_def m prod.case bw_build_mode_def Let_def BW_MODE_NAME_BYTES_def mi_offsets read_name_def a_def [symmetric] n_def [symmetric]
    by (simp add: ld_st_other o o0 u nm len)
qed


lemma build_modes_frame:
  assumes "j < modes + 80 * i \<or> modes + 80 * (i + length ms) \<le> j" "j < names + 16 * i \<or> names + 16 * (i + length ms) \<le> j"
  shows "mem (bw_build_modes modes names i ms \<sigma>) j = mem \<sigma> j"
  using assms
proof (induction ms arbitrary: i \<sigma>)
  case (Cons m ms)
  have "mem (bw_build_modes modes names (Suc i) ms (bw_build_mode modes names i m \<sigma>)) j = mem (bw_build_mode modes names i m \<sigma>) j"
    by (rule Cons.IH) (use Cons.prems in auto)
  also have "\<dots> = mem \<sigma> j" by (rule build_mode_frame) (use Cons.prems in auto)
  finally show ?case by simp
qed simp

lemma build_modes_live [simp]:
  "live (bw_build_modes modes names i ms \<sigma>) = live \<sigma>" "server (bw_build_modes modes names i ms \<sigma>) = server \<sigma>"
  by (induction ms arbitrary: i \<sigma>) auto

lemma build_mode_name_ptr:
  assumes "modes + 80 * i + 80 \<le> names" "names + 16 * i + 16 < 2 ^ 64"
  shows "unat (ld 8 (modes + 80 * i + mi_name) (bw_build_mode modes names i m \<sigma>) :: u64) = names + 16 * i"
proof -
  obtain w v r f where m: "m = (w, v, r, f)" by (cases m)
  define a where "a = modes + 80 * i"
  define n where "n = names + 16 * i"
  have "a + 80 \<le> n" using assms(1) by (simp add: a_def n_def)
  then have o: "ld 8 (a + 56) (st_bytes n bs \<tau>) = ld 8 (a + 56) \<tau>" for bs and \<tau> :: "'a world"
    by (intro ld_st_bytes_other) simp
  have u: "unat (P n) = n" using assms(2) by (simp add: n_def)
  show ?thesis
    unfolding m bw_build_mode_def prod.case Let_def BW_MODE_NAME_BYTES_def mi_offsets a_def [symmetric] n_def [symmetric]
    by (simp add: ld_st_other o u)
qed

lemma read_build_modes:
  assumes "k < length ms" "modes + 80 * (i + length ms) \<le> names" "names + 16 * (i + length ms) < 2 ^ 64"
  shows "read_mode_info (modes + 80 * (i + k)) (bw_build_modes modes names i ms \<sigma>) = mode_info_of (i + k) (ms ! k)"
  using assms
proof (induction ms arbitrary: i k \<sigma>)
  case (Cons m ms)
  show ?case
  proof (cases k)
    case 0
    let ?\<sigma>1 = "bw_build_mode modes names i m \<sigma>"
    have b: "modes + 80 * i + 80 \<le> names" "names + 16 * i + 16 < 2 ^ 64" using Cons.prems by auto
    note np = build_mode_name_ptr [OF b, where m = m and \<sigma> = \<sigma>]
    have "read_mode_info (modes + 80 * i) (bw_build_modes modes names (Suc i) ms ?\<sigma>1) = read_mode_info (modes + 80 * i) ?\<sigma>1"
    proof (rule read_mode_info_cong)
      fix j assume "modes + 80 * i \<le> j" "j < modes + 80 * i + 80"
      then show "mem (bw_build_modes modes names (Suc i) ms ?\<sigma>1) j = mem ?\<sigma>1 j"
        by (intro build_modes_frame) (use Cons.prems in auto)
    next
      fix j assume "unat (ld 8 (modes + 80 * i + mi_name) ?\<sigma>1 :: u64) \<le> j"
        "j < unat (ld 8 (modes + 80 * i + mi_name) ?\<sigma>1 :: u64) + 16"
      then show "mem (bw_build_modes modes names (Suc i) ms ?\<sigma>1) j = mem ?\<sigma>1 j"
        unfolding np by (intro build_modes_frame) (use Cons.prems in auto)
    qed
    then show ?thesis using read_build_mode [OF b, of m \<sigma>] 0 by simp
  next
    case (Suc l)
    then show ?thesis using Cons.IH [of l "Suc i" "bw_build_mode modes names i m \<sigma>"] Cons.prems by simp
  qed
qed simp

text \<open>The frequency a client derives from the timings.\<close>

definition frequency :: "mode_info \<Rightarrow> nat" where
  "frequency m = (let dots = unat (m_hTotal m) * unat (m_vTotal m) in (unat (m_dotClock m) + dots div 2) div dots)"

lemma frequency_exact:
  assumes "w \<noteq> 0" "v \<noteq> 0" "unat w * unat v * unat r < 2 ^ 64"
  shows "frequency (mode_info_of k (w, v, r, f)) = unat r"
proof -
  have d: "unat (ucast w * ucast v * ucast r :: u64) = unat w * unat v * unat r"
  proof -
    have "(ucast w * ucast v * ucast r :: u64) = of_nat (unat w * unat v * unat r)" by (simp only: ucast_nat of_nat_mult)
    then show ?thesis using assms(3) by (simp add: unat_of_nat take_bit_nat_eq_self del: of_nat_mult)
  qed
  let ?dots = "unat w * unat v"
  have pos: "0 < ?dots" using assms(1,2) by (simp add: unat_gt_0)
  then have "?dots div 2 < ?dots" by simp
  then have "(?dots * unat r + ?dots div 2) div ?dots = unat r" using pos by (simp add: div_mult_self2)
  then show ?thesis by (simp add: frequency_def mode_info_of_def Let_def d)
qed

lemma build_resources:
  assumes H: "heap_ok \<sigma>" and n: "length (st_modes st) \<le> RANDR_MAX_MODES"
    and a: "\<not> alloc_fails (80 + 96 * length (st_modes st)) \<sigma>"
    and call: "bw_build_resources st (L, \<sigma>) = (p, L', \<sigma>')"
  shows "live \<sigma> p = None \<and> live \<sigma>' = (live \<sigma>)(p \<mapsto> 80 + 96 * length (st_modes st)) \<and>
    ld 4 (p + rs_nmode) \<sigma>' = (of_nat (length (st_modes st)) :: c_int) \<and>
    (\<forall>k < length (st_modes st).
       read_mode_info (unat (ld 8 (p + rs_modes) \<sigma>' :: u64) + XRRModeInfo_size * k) \<sigma>' = mode_info_of k (st_modes st ! k))"
proof -
  let ?ms = "st_modes st" and ?n = "length (st_modes st)"
  obtain q \<sigma>m where m: "malloc (80 + 96 * ?n) \<sigma> = (q, \<sigma>m)" by fastforce
  have q: "q \<noteq> 0" using malloc_null [of "80 + 96 * ?n" \<sigma>] m a H by (simp add: heap_ok_def)
  note fr = malloc_fresh [OF H m q]
  have tot: "XRRScreenResources_size + 8 + 8 + ?n * XRRModeInfo_size + ?n * BW_MODE_NAME_BYTES = 80 + 96 * ?n"
    by (simp add: rs_offsets mi_offsets BW_MODE_NAME_BYTES_def)
  have off: "XRRScreenResources_size + 8 + 8 = 80" "?n * XRRModeInfo_size = 80 * ?n" by (simp_all add: rs_offsets mi_offsets)
  obtain \<tau> where \<tau>: "p = q" "\<sigma>' = bw_build_modes (q + 80) (q + (80 + 80 * ?n)) 0 ?ms \<tau>"
    and t: "live \<tau> = live \<sigma>m" "ld 4 (q + 48) \<tau> = (of_nat ?n :: c_int)" "ld 8 (q + 56) \<tau> = P (q + 80)"
    using call unfolding bw_build_resources_def Let_def prod.case tot calloc_def mult_1
    unfolding m prod.case if_not_P [OF q] bw_randr_stamp_def off
    using q by (auto simp: rs_offsets ld_st_other)
  have keep: "rd (mem \<sigma>') (q + c) k = rd (mem \<tau>) (q + c) k" if "c + k \<le> 80" for c k
    by (rule nth_equalityI) (use that in \<open>auto simp: \<tau>(2) intro!: build_modes_frame\<close>)
  have top: "q + 80 < 2 ^ 64" "q + (80 + 96 * ?n) < 2 ^ 64" using fr(4) by (simp_all add: heap_top_def)
  have "read_mode_info (q + 80 + 80 * k) \<sigma>' = mode_info_of k (?ms ! k)" if "k < ?n" for k
    using read_build_modes [of k ?ms "q + 80" 0 "q + (80 + 80 * ?n)" \<tau>] that top unfolding \<tau>(2) by simp
  moreover have "ld 4 (p + rs_nmode) \<sigma>' = (of_nat ?n :: c_int)"
    unfolding \<tau>(1) rs_offsets using keep [of 48 4] t(2) by (simp add: ld_def)
  moreover have e: "(ld 8 (p + rs_modes) \<sigma>' :: u64) = P (q + 80)"
    unfolding \<tau>(1) rs_offsets using keep [of 56 8] t(3) by (simp add: ld_def)
  moreover have "live \<sigma> p = None" "live \<sigma>' = (live \<sigma>)(p \<mapsto> 80 + 96 * ?n)"
    using fr t(1) \<tau> by simp_all
  ultimately show ?thesis unfolding e unat_P [OF top(1)] by (simp add: mi_offsets)
qed

text \<open>C24: a client that asks for the screen resources gets one fresh block in which it finds every mode of
  the host's list, in order, under its id, with its size and name; and the refresh rate it derives from the
  timings is exactly the rate the host named, as long as the dot clock fits 64 bits.\<close>

theorem screen_resources_result:
  assumes D: "display_at pr dpy i (mem \<sigma>) (server \<sigma>) d" and S: "stack_deep \<sigma>" and H: "heap_ok \<sigma>" and R: "randr_ok (server \<sigma>)"
    and M: "fst (randrModeList (server \<sigma>)) = modes" and a: "\<not> alloc_fails (80 + 96 * length modes) \<sigma>"
    and call: "XRRGetScreenResources (x11Bridge64 pr (kOps other)) dpy window (L, \<sigma>) = (p, L', \<sigma>')"
  shows "live \<sigma> p = None \<and> live \<sigma>' = (live \<sigma>)(p \<mapsto> 80 + 96 * length modes) \<and>
    ld 4 (p + rs_nmode) \<sigma>' = (of_nat (length modes) :: c_int) \<and>
    (\<forall>k < length modes. case modes ! k of (w, v, r) \<Rightarrow>
       let info = read_mode_info (unat (ld 8 (p + rs_modes) \<sigma>' :: u64) + XRRModeInfo_size * k) \<sigma>' in
       m_id info = BW_RANDR_MODE_BASE + of_nat k \<and> m_width info = w \<and> m_height info = v \<and>
       m_name info = take 15 (mode_text w v) \<and>
       (unat w * unat v * unat r < 2 ^ 64 \<longrightarrow> frequency info = unat r))"
proof -
  obtain h1 where L: "randrModeList (server \<sigma>) = (modes, h1)" using M by (cases "randrModeList (server \<sigma>)") simp
  obtain dw dv dr where st: "modes = XrrStandardModeList dw dv dr RANDR_MAX_MODES" by (rule randr_list [OF R L])
  note sl = standard_list [OF st]
  have n: "length modes \<le> RANDR_MAX_MODES" using sl(2) by (simp add: RANDR_MAX_MODES_def)
  let ?st = "client_state modes (screenWidth h1) (screenHeight h1) (randrCurrentRate (screenWidth h1) (screenHeight h1) h1)"
  obtain m where f: "bw_randr_fetch (x11Bridge64 pr (kOps other)) dpy \<sigma> = (Some ?st, \<sigma>\<lparr>mem := m, server := h1\<rparr>)"
    using fetch_result [OF D S L n sl(3), where other = other] by blast
  let ?\<tau> = "\<sigma>\<lparr>mem := m, server := h1\<rparr>"
  have len: "length (st_modes ?st) = length modes" by (simp add: client_state_def Let_def)
  have "bw_build_resources ?st (L, ?\<tau>) = (p, L', \<sigma>')"
    using call by (simp add: XRRGetScreenResources_def bw_get_resources_def f)
  note br = build_resources [OF _ _ _ this, unfolded len]
  have H': "heap_ok ?\<tau>" "\<not> alloc_fails (80 + 96 * length modes) ?\<tau>" using H a by (simp_all add: heap_ok_def alloc_fails_def)
  note br = br [OF H'(1) n H'(2)]
  have each: "\<exists>f. st_modes ?st ! k = (w, v, r, f)" if "k < length modes" "modes ! k = (w, v, r)" for k w v r
    using that by (simp add: client_state_def Let_def nth_enumerate_eq)
  have nz: "w \<noteq> 0 \<and> v \<noteq> 0" if "k < length modes" "modes ! k = (w, v, r)" for k w v r
    using sl(4) that by (metis nth_mem)
  have "case modes ! k of (w, v, r) \<Rightarrow>
       let info = read_mode_info (unat (ld 8 (p + rs_modes) \<sigma>' :: u64) + XRRModeInfo_size * k) \<sigma>' in
       m_id info = BW_RANDR_MODE_BASE + of_nat k \<and> m_width info = w \<and> m_height info = v \<and>
       m_name info = take 15 (mode_text w v) \<and> (unat w * unat v * unat r < 2 ^ 64 \<longrightarrow> frequency info = unat r)"
    if k: "k < length modes" for k
  proof -
    obtain w v r where w: "modes ! k = (w, v, r)" by (cases "modes ! k")
    obtain fl where "st_modes ?st ! k = (w, v, r, fl)" using each [OF k w] by blast
    then have info: "read_mode_info (unat (ld 8 (p + rs_modes) \<sigma>' :: u64) + XRRModeInfo_size * k) \<sigma>' = mode_info_of k (w, v, r, fl)"
      using br k by auto
    show ?thesis using frequency_exact [of w v r k fl] nz [OF k w] unfolding w prod.case Let_def info
      by (simp add: mode_info_of_def)
  qed
  then show ?thesis using br by simp
qed


section \<open>A client that switches\<close>

lemma first_modes: "XrrStandardModeList 800 600 60 64 =
   [(640, 480, 60), (640, 480, 120), (800, 600, 60), (800, 600, 120), (1024, 768, 60), (1024, 768, 120),
    (1280, 720, 60), (1280, 720, 120), (1280, 800, 60), (1280, 800, 120), (1366, 768, 60), (1366, 768, 120),
    (1600, 900, 60), (1600, 900, 120), (1920, 1080, 60), (1920, 1080, 120)]"
  by code_simp

lemma process1_modes: "fst (randrModeList (server process1)) = XrrStandardModeList 800 600 60 64"
proof -
  have "randrModes (server process1) = None" "screenWidth (server process1) = 800" "screenHeight (server process1) = 600"
    "screenRate (server process1) = 60"
    by (simp_all add: process1_def set_display_def) (simp_all add: server0_def)
  then show ?thesis by (simp add: randrModeList_def RANDR_MAX_MODES_def Let_def)
qed

lemma process1_randr: "randr_ok (server process1)"
  by (simp add: randr_ok_def process1_def set_display_def) (simp add: server0_def)

lemma process1_screens: "screens_apart (display_own 8192) (mem process1) (server process1)"
proof -
  let ?m = "mem process1" and ?h = "server process1"
  have d: "displays ?h j = Some d \<Longrightarrow> d = display1" for j d
    by (simp add: process1_def set_display_def split: if_splits) (simp add: server0_def)
  have a: "unat (displayAddress64 display1 + of_nat dpy_screens) = 8192 + dpy_screens"
    by (simp add: display1_def P_def dpy_offsets)
  have "rd ?m (8192 + dpy_screens) 8 = replicate 8 0"
    by (simp add: process1_def dpy_offsets DISPLAY_ID_OFFSET_def rd_wr_other list_eq_iff_nth_eq)
  then have s: "screen_at ?m display1 = 0" unfolding screen_at_def a by (simp add: numeral_eq_Suc)
  have b: "screen_bytes ?m ?h \<subseteq> {0..<Screen_size}" using d s by (force simp: screen_bytes_def)
  show ?thesis
    unfolding screens_apart_def
  proof (intro allI impI)
    fix j e assume "displays ?h j = Some e"
    then have e: "e = display1" by (rule d)
    have "\<And>k. k \<in> screen_bytes ?m ?h \<Longrightarrow> k < Screen_size" using b by auto
    then show "unat (displayAddress64 e + of_nat dpy_screens) + 8 \<le> heap_top \<and> screen_at ?m e + Screen_size \<le> heap_top \<and>
      (\<forall>k \<in> screen_bytes ?m ?h. k \<notin> display_own 8192 \<and> (k < unat (displayAddress64 e + of_nat dpy_screens) \<or>
         unat (displayAddress64 e + of_nat dpy_screens) + 8 \<le> k))"
      unfolding e a s by (force simp: dpy_offsets heap_top_def Screen_size_def display_own_def)
  qed
qed

lemma process1_heap: "heap_ok process1" "n < 4096 \<Longrightarrow> \<not> alloc_fails n process1"
  by (simp_all add: heap_ok_def alloc_fails_def process1_def process0_def heap_top_def)

lemma randr_fetch_complete_witness:
  "\<exists>s. fst (bw_randr_fetch (x11Bridge64 all_pages (kOps refuse)) 8192 process1) = Some s \<and> length (st_modes s) = 16"
proof -
  from randr_fetch_complete [OF process1_ready(1,4) process1_randr surjective_pairing, where other = refuse]
  obtain s where "fst (bw_randr_fetch (x11Bridge64 all_pages (kOps refuse)) 8192 process1) = Some s"
    "map (\<lambda>(a, b, c, f). (a, b, c)) (st_modes s) = XrrStandardModeList 800 600 60 64"
    unfolding process1_modes by blast
  moreover from this(2) have "length (st_modes s) = 16" unfolding first_modes by (auto dest: arg_cong [of _ _ length])
  ultimately show ?thesis by blast
qed

lemma mode_switch_roundtrip_witness:
  "let sys = x11Bridge64 all_pages (kOps refuse);
       (s, \<sigma>1) = XRRSetCrtcConfig sys 8192 0 BW_RANDR_CRTC 0 0 0 (BW_RANDR_MODE_BASE + of_nat 5) RR_Rotate_0 0 1 process1;
       (p, L, \<sigma>2) = XRRGetCrtcInfo sys 8192 0 BW_RANDR_CRTC (xrandr_lib0, \<sigma>1)
   in ld 4 (p + ci_width) \<sigma>2 = (1024 :: u32) \<and> screenHeight (server \<sigma>2) = 768"
proof -
  let ?sys = "x11Bridge64 all_pages (kOps refuse)"
  obtain s \<sigma>1 where set: "XRRSetCrtcConfig ?sys 8192 0 BW_RANDR_CRTC 0 0 0 (BW_RANDR_MODE_BASE + of_nat 5) RR_Rotate_0 0 1 process1 = (s, \<sigma>1)"
    by fastforce
  obtain p L \<sigma>2 where info: "XRRGetCrtcInfo ?sys 8192 0 BW_RANDR_CRTC (xrandr_lib0, \<sigma>1) = (p, L, \<sigma>2)" by (metis surj_pair)
  have k: "5 < length (fst (randrModeList (server process1)))" "fst (randrModeList (server process1)) ! 5 = (1024, 768, 120)"
    unfolding process1_modes first_modes by simp_all
  show ?thesis
    using mode_switch_roundtrip [OF process1_ready(1,4) process1_heap(1) process1_randr process1_screens k set info process1_heap(2)]
    by (simp only: Let_def set info prod.case)
qed

lemma screen_resources_result_witness:
  "let (p, L, \<sigma>) = XRRGetScreenResources (x11Bridge64 all_pages (kOps refuse)) 8192 1 (xrandr_lib0, process1)
   in ld 4 (p + rs_nmode) \<sigma> = (16 :: c_int)"
proof -
  obtain p L \<sigma> where call: "XRRGetScreenResources (x11Bridge64 all_pages (kOps refuse)) 8192 1 (xrandr_lib0, process1) = (p, L, \<sigma>)"
    by (metis surj_pair)
  have "\<not> alloc_fails (80 + 96 * length (XrrStandardModeList 800 600 60 64)) process1"
    unfolding first_modes by (rule process1_heap(2)) simp
  from screen_resources_result [OF process1_ready(1,4) process1_heap(1) process1_randr process1_modes this call]
  show ?thesis unfolding call Let_def prod.case first_modes by simp
qed

end
