(* ===== verification/DisplaySession.thy ===== *)
theory DisplaySession
  imports HostQueue X11Visuals
begin

text \<open>
  Opening a display end to end: \<^verbatim>\<open>XOpenDisplay\<close> of \<^verbatim>\<open>tools/x11-64/X11.c\<close> over \<^verbatim>\<open>x11Bridge64\<close> and the
  handler \<^verbatim>\<open>op_OPEN_DISPLAY\<close>.  The host's serialiser of the arena (tables of depths, visuals and pixmap
  formats, Screen, Display) is proved right against the readers the client uses: the accessors of
  \<^verbatim>\<open>X11Display\<close>, the walk over the visuals of \<^verbatim>\<open>X11Visuals\<close> and \<^verbatim>\<open>XListPixmapFormats\<close>.
\<close>

section \<open>The grouping of the visuals\<close>

definition ungroup :: "(u32 \<times> xvisual list) list \<Rightarrow> (u32 \<times> xvisual) list" where
  "ungroup groups = concat (map (\<lambda>(d, vs). map (\<lambda>v. (d, v)) vs) groups)"

lemma ungroup_append [simp]: "ungroup (xs @ ys) = ungroup xs @ ungroup ys" by (simp add: ungroup_def)

lemma ungroup_add: "ungroup (add_visual x groups) = ungroup groups @ [x]"
proof (cases "groups = [] \<or> fst (last groups) \<noteq> fst x")
  case True
  then show ?thesis by (auto simp: add_visual_def) (simp_all add: ungroup_def)
next
  case False
  then obtain gs d vs where g: "groups = gs @ [(d, vs)]" by (metis append_butlast_last_id surj_pair)
  then show ?thesis using False by (cases x) (simp add: add_visual_def, simp add: ungroup_def)
qed

lemma ungroup_depthVisuals: "ungroup (depthVisuals vs) = vs"
proof -
  have "ungroup (fold add_visual vs groups) = ungroup groups @ vs" for groups
    by (induction vs arbitrary: groups) (simp_all add: ungroup_add)
  then show ?thesis by (simp add: depthVisuals_def) (simp add: ungroup_def)
qed

lemma length_ungroup: "length (ungroup groups) = sum_list (map (\<lambda>(d, vs). length vs) groups)"
  by (induction groups) (auto simp: ungroup_def)

lemma length_group: "g \<in> set gs \<Longrightarrow> length (snd g) \<le> length (ungroup gs)"
  by (induction gs) (auto simp: ungroup_def)

section \<open>What is written where\<close>

lemma rd_bput32 [simp]: "rd (bput32 a v b) a 4 = le_bytes 4 v" by (simp add: bput32_def)
lemma rd_bput64 [simp]: "rd (bput64 a v b) a 8 = le_bytes 8 v" by (simp add: bput64_def)
lemma rd_bput_other:
  "a + n \<le> x \<or> x + 4 \<le> a \<Longrightarrow> rd (bput32 x v b) a n = rd b a n"
  "a + n \<le> x \<or> x + 8 \<le> a \<Longrightarrow> rd (bput64 x u b) a n = rd b a n"
  by (simp_all add: bput32_def bput64_def rd_wr_other)
lemma bput_outside:
  "k < x \<or> x + 4 \<le> k \<Longrightarrow> bput32 x v b k = b k"
  "k < x \<or> x + 8 \<le> k \<Longrightarrow> bput64 x u b k = b k"
  by (simp_all add: bput32_def bput64_def)

lemma put_visual_outside: "k < a \<or> a + 56 \<le> k \<Longrightarrow> put_visual a v b k = b k"
  by (auto simp: put_visual_def Let_def bput_outside vis_offsets)

lemma put_visuals_outside: "k < a \<or> a + 56 * length vs \<le> k \<Longrightarrow> put_visuals a vs b k = b k"
  by (induction vs arbitrary: a b) (auto simp: put_visual_outside Visual_size_def)

lemma put_depths_outside:
  assumes "k < a \<or> a + 16 * length gs \<le> k" "k < c \<or> c + 56 * length (ungroup gs) \<le> k"
  shows "put_depths arena a c gs b k = b k"
  using assms
proof (induction gs arbitrary: a c b)
  case (Cons g gs)
  obtain d vs where g: "g = (d, vs)" by (cases g)
  have l: "length (ungroup (g # gs)) = length vs + length (ungroup gs)" by (simp add: ungroup_def g)
  have "put_depths arena a c (g # gs) b k = put_visuals c vs (bput64 (a + 8) (arena + of_nat c)
      (bput32 (a + 4) (of_nat (length vs)) (bput32 a d b))) k"
    using Cons.prems unfolding l by (simp add: g Let_def vis_offsets, intro Cons.IH) auto
  also have "\<dots> = b k"
  proof -
    have "k < c \<or> c + 56 * length vs \<le> k" "k < a \<or> a + 16 \<le> k" using Cons.prems unfolding l by auto
    then show ?thesis by (auto simp: put_visuals_outside bput_outside)
  qed
  finally show ?case .
qed simp

lemma put_formats_outside: "k < a \<or> a + 24 * length fs \<le> k \<Longrightarrow> put_formats a fs b k = b k"
  by (induction fs arbitrary: a b)
     (auto simp: bput_outside ScreenFormat_size_def sf_depth_def sf_bits_per_pixel_def sf_scanline_pad_def)

lemma put_screen_outside: "k < al_screen l \<or> al_screen l + 128 \<le> k \<Longrightarrow> put_screen h arena l n d v b k = b k"
  by (auto simp: put_screen_def Let_def bput_outside scr_offsets scr_max_maps_def scr_min_maps_def scr_backing_store_def
      scr_save_unders_def scr_root_input_mask_def)

lemma put_display_outside: "300 \<le> k \<Longrightarrow> put_display h arena l n cfd i b k = b k"
  by (auto simp: put_display_def Let_def bput_outside dpy_offsets DISPLAY_ID_OFFSET_def)

section \<open>Reading the tables\<close>

text \<open>A visual, a run of visuals and the table of depths as they lie in memory; the pointers are to
  \<^verbatim>\<open>arena\<close>, the bytes are read at \<^verbatim>\<open>off\<close>.\<close>

definition visual_at :: "memory \<Rightarrow> nat \<Rightarrow> xvisual" where
  "visual_at m a = \<lparr>v_visualid = ucast (le_word (rd m (a + 8) 8) :: u64), v_class = le_word (rd m (a + 16) 4),
     v_red_mask = ucast (le_word (rd m (a + 24) 8) :: u64), v_green_mask = ucast (le_word (rd m (a + 32) 8) :: u64),
     v_blue_mask = ucast (le_word (rd m (a + 40) 8) :: u64), v_bits_per_rgb = le_word (rd m (a + 48) 4),
     v_map_entries = le_word (rd m (a + 52) 4)\<rparr>"

lemma ucast_ucast [simp]: "(ucast (ucast (x :: u32) :: u64) :: u32) = x"
  by (rule bit_word_eqI) (simp add: bit_simps)

lemma visual_at_put: "visual_at (put_visual a v b) a = v"
  by (cases v) (simp add: visual_at_def put_visual_def Let_def vis_offsets rd_bput_other)

lemma visual_at_cong: "(\<And>k. a \<le> k \<Longrightarrow> k < a + 56 \<Longrightarrow> m' (off + k) = m k) \<Longrightarrow> visual_at m' (off + a) = visual_at m a"
proof -
  assume e: "\<And>k. a \<le> k \<Longrightarrow> k < a + 56 \<Longrightarrow> m' (off + k) = m k"
  have "rd m' (off + a + k) n = rd m (a + k) n" if "k + n \<le> 56" for k n
    by (rule nth_equalityI) (use e that in \<open>auto simp: add.assoc\<close>)
  then show ?thesis by (simp add: visual_at_def)
qed

primrec visuals_in :: "memory \<Rightarrow> nat \<Rightarrow> xvisual list \<Rightarrow> bool" where
  "visuals_in m a [] = True"
| "visuals_in m a (v # vs) = (visual_at m a = v \<and> visuals_in m (a + Visual_size) vs)"

primrec depths_in :: "memory \<Rightarrow> nat \<Rightarrow> nat \<Rightarrow> nat \<Rightarrow> nat \<Rightarrow> (u32 \<times> xvisual list) list \<Rightarrow> bool" where
  "depths_in m off arena a c [] = True"
| "depths_in m off arena a c (g # gs) =
     (le_word (rd m (off + a) 4) = fst g \<and> le_word (rd m (off + a + 4) 4) = (of_nat (length (snd g)) :: u32) \<and>
      le_word (rd m (off + a + 8) 8) = P (arena + c) \<and> visuals_in m (off + c) (snd g) \<and>
      depths_in m off arena (a + Depth_size) (c + Visual_size * length (snd g)) gs)"

lemma visuals_in_cong:
  "(\<And>k. a \<le> k \<Longrightarrow> k < a + 56 * length vs \<Longrightarrow> m' (off + k) = m k) \<Longrightarrow> visuals_in m' (off + a) vs = visuals_in m a vs"
proof (induction vs arbitrary: a)
  case (Cons v vs)
  have "visual_at m' (off + a) = visual_at m a" by (rule visual_at_cong) (use Cons.prems in auto)
  moreover have "visuals_in m' (off + (a + 56)) vs = visuals_in m (a + 56) vs" by (rule Cons.IH) (use Cons.prems in auto)
  ultimately show ?case by (simp add: Visual_size_def add.assoc)
qed simp

lemma put_visuals_in: "visuals_in (put_visuals a vs b) a vs"
proof (induction vs arbitrary: a b)
  case (Cons v vs)
  have "visual_at (put_visuals (a + 56) vs (put_visual a v b)) (0 + a) = visual_at (put_visual a v b) a"
    by (rule visual_at_cong) (simp add: put_visuals_outside)
  then show ?case using Cons.IH by (simp add: Visual_size_def visual_at_put)
qed simp

lemma depths_in_cong:
  assumes "\<And>k. a \<le> k \<Longrightarrow> k < a + 16 * length gs \<Longrightarrow> m' (off + k) = m k"
    and "\<And>k. c \<le> k \<Longrightarrow> k < c + 56 * length (ungroup gs) \<Longrightarrow> m' (off + k) = m k"
  shows "depths_in m' off arena a c gs = depths_in m 0 arena a c gs"
  using assms
proof (induction gs arbitrary: a c)
  case (Cons g gs)
  have l: "length (ungroup (g # gs)) = length (snd g) + length (ungroup gs)" by (cases g) (simp add: ungroup_def)
  have r: "rd m' (off + a + j) n = rd m (a + j) n" if "j + n \<le> 16" for j n
    by (rule nth_equalityI) (use Cons.prems(1) that in \<open>auto simp: add.assoc\<close>)
  have r0: "rd m' (off + a) 4 = rd m a 4" using r [of 0 4] by simp
  have v: "visuals_in m' (off + c) (snd g) = visuals_in m c (snd g)"
    by (rule visuals_in_cong) (use Cons.prems(2) l in auto)
  have "depths_in m' off arena (a + 16) (c + 56 * length (snd g)) gs = depths_in m 0 arena (a + 16) (c + 56 * length (snd g)) gs"
    by (rule Cons.IH) (use Cons.prems l in auto)
  then show ?case by (simp add: r r0 v vis_offsets)
qed simp

lemma put_depths_in:
  assumes "a + 16 * length gs \<le> c"
  shows "depths_in (put_depths (P arena) a c gs b) 0 arena a c gs"
  using assms
proof (induction gs arbitrary: a c b)
  case (Cons g gs)
  obtain d vs where g: "g = (d, vs)" by (cases g)
  let ?b = "put_visuals c vs (bput64 (a + 8) (P arena + of_nat c) (bput32 (a + 4) (of_nat (length vs)) (bput32 a d b)))"
  let ?r = "put_depths (P arena) (a + 16) (c + 56 * length vs) gs ?b"
  have out: "?r k = ?b k" if "a \<le> k \<and> k < a + 16 \<or> c \<le> k \<and> k < c + 56 * length vs" for k
    by (rule put_depths_outside) (use that Cons.prems in auto)
  have h: "rd ?r (a + j) n = rd (bput64 (a + 8) (P arena + of_nat c) (bput32 (a + 4) (of_nat (length vs)) (bput32 a d b))) (a + j) n"
    if "j + n \<le> 16" for j n
    by (rule nth_equalityI) (use out that Cons.prems in \<open>auto simp: put_visuals_outside\<close>)
  have h0: "rd ?r a 4 = rd (bput64 (a + 8) (P arena + of_nat c) (bput32 (a + 4) (of_nat (length vs)) (bput32 a d b))) a 4"
    using h [of 0 4] by simp
  have "visuals_in ?r (0 + c) vs = visuals_in ?b c vs" by (rule visuals_in_cong) (use out in auto)
  then have v: "visuals_in ?r c vs" using put_visuals_in by simp
  have "depths_in ?r 0 arena (a + 16) (c + 56 * length vs) gs" by (rule Cons.IH) (use Cons.prems in auto)
  then show ?case using v
    by (simp add: g Let_def vis_offsets h h0 rd_bput_other) (simp add: P_def)
qed simp


lemma visuals_in_nth: "visuals_in m a vs \<Longrightarrow> k < length vs \<Longrightarrow> visual_at m (a + 56 * k) = vs ! k"
proof (induction vs arbitrary: a k)
  case (Cons v vs)
  then show ?case using Cons.IH [of "a + 56" "k - 1"] by (cases k) (simp_all add: Visual_size_def algebra_simps)
qed simp

lemma depth_walk:
  assumes "depths_in (mem \<sigma>) arena arena a c gs" "arena + c + 56 * length (ungroup gs) < 2 ^ 64"
    and "\<And>g. g \<in> set gs \<Longrightarrow> length (snd g) < 2 ^ 31"
  shows "map (\<lambda>(d, v). (ld 4 (d + dep_depth) \<sigma> :: u32, visual_at (mem \<sigma>) v))
      (concat (map (\<lambda>d. map (\<lambda>v. (d, v)) (visuals_of_depth d \<sigma>)) (map (\<lambda>k. arena + a + 16 * k) [0..<length gs]))) = ungroup gs"
  using assms
proof (induction gs arbitrary: a c)
  case (Cons g gs)
  obtain d vs where g: "g = (d, vs)" by (cases g)
  have l: "length (ungroup (g # gs)) = length vs + length (ungroup gs)" by (simp add: ungroup_def g)
  have D: "le_word (rd (mem \<sigma>) (arena + a) 4) = d" "le_word (rd (mem \<sigma>) (arena + a + 4) 4) = (of_nat (length vs) :: u32)"
    "le_word (rd (mem \<sigma>) (arena + a + 8) 8) = P (arena + c)" "visuals_in (mem \<sigma>) (arena + c) vs"
    "depths_in (mem \<sigma>) arena arena (a + 16) (c + 56 * length vs) gs"
    using Cons.prems(1) by (simp_all add: g vis_offsets)
  have n: "nat (sint (of_nat (length vs) :: u32)) = length vs"
    using Cons.prems(3) [of g] by (simp add: g signed_of_nat signed_take_bit_int_eq_self)
  have u: "unat (P (arena + c)) = arena + c" using Cons.prems(2) by (intro unat_P) simp
  have vd: "visuals_of_depth (arena + a) \<sigma> = map (\<lambda>v. arena + c + 56 * v) [0..<length vs]"
    using D(2,3) n u by (simp add: visuals_of_depth_def vis_offsets ld_def)
  have first: "map (\<lambda>(d, v). (ld 4 (d + dep_depth) \<sigma> :: u32, visual_at (mem \<sigma>) v)) (map (\<lambda>v. (arena + a, v)) (visuals_of_depth (arena + a) \<sigma>)) =
      map (\<lambda>v. (d, v)) vs"
    unfolding vd by (rule nth_equalityI) (use D(1) visuals_in_nth [OF D(4)] in \<open>simp_all add: vis_offsets ld_def\<close>)
  have rest: "map (\<lambda>k. arena + a + 16 * k) (map Suc [0..<length gs]) = map (\<lambda>k. arena + (a + 16) + 16 * k) [0..<length gs]"
    by simp
  have up: "[0..<Suc (length gs)] = 0 # map Suc [0..<length gs]" by (simp only: upt_conv_Cons map_Suc_upt)
  have IH: "map (\<lambda>(d, v). (ld 4 (d + dep_depth) \<sigma> :: u32, visual_at (mem \<sigma>) v))
      (concat (map (\<lambda>d. map (\<lambda>v. (d, v)) (visuals_of_depth d \<sigma>)) (map (\<lambda>k. arena + (a + 16) + 16 * k) [0..<length gs]))) = ungroup gs"
    by (rule Cons.IH [OF D(5)]) (use Cons.prems(2,3) l in auto)
  have "ungroup (g # gs) = map (\<lambda>v. (d, v)) vs @ ungroup gs" by (simp add: ungroup_def g)
  then show ?case
    using first IH unfolding length_Cons up list.map rest concat.simps map_append by simp
qed (simp add: ungroup_def)


section \<open>The operation\<close>

definition server_formats :: "xserver \<Rightarrow> XPixmapFormatEntry list" where
  "server_formats h = xBuildPixmapFormats (visual_formats (depthVisuals (visuals h)))"

definition server_layout :: "xserver \<Rightarrow> arena_layout" where
  "server_layout h = arena_layout_of (depthVisuals (visuals h)) (server_formats h)"

text \<open>Everything the client is shown fits in its arena.\<close>

definition arena_fits :: "xserver \<Rightarrow> bool" where
  "arena_fits h \<longleftrightarrow> al_end (server_layout h) \<le> DISPLAY_ARENA_BYTES"

definition arena_of :: "xserver \<Rightarrow> nat \<Rightarrow> u32 \<Rightarrow> u32 \<Rightarrow> memory" where
  "arena_of h arena cfd i = put_display h (P arena) (server_layout h) (length (server_formats h)) cfd i
     (arena_tables h (P arena) (depthVisuals (visuals h)) (server_formats h) (server_layout h))"

lemma kOps_open: "kOps other OP_OPEN_DISPLAY = op_OPEN_DISPLAY" by (simp add: kOps_def)

lemma open_handler:
  assumes m: "mapped pr" and a: "4096 \<le> arena" "arena + DISPLAY_ARENA_BYTES \<le> 2 ^ 47" and f: "arena_fits h"
    and c: "c = call_for pr [P arena, of_nat DISPLAY_ARENA_BYTES, A_int x, A_int y] mm"
  shows "op_OPEN_DISPLAY c h =
    (ucast (nextId h + 1), c\<lparr>c_mem := wr mm arena (rd (arena_of h arena x (nextId h + 1)) 0 DISPLAY_ARENA_BYTES)\<rparr>,
     snd (registerDisplay64 (P arena) x y h))"
proof -
  have AB: "DISPLAY_ARENA_BYTES = 16384" by (simp add: DISPLAY_ARENA_BYTES_def)
  have ar: "arg c 0 = P arena" "arg c 1 = of_nat DISPLAY_ARENA_BYTES" "uarg c 2 = x" "uarg c 3 = y" "c_count c = 4" "c_mem c = mm" "c_probe c = pr"
    by (simp_all add: c arg_def uarg_def call_for_def numeral_2_eq_2 numeral_3_eq_3 A_int_def)
  have up: "unat (P arena) = arena" using a(2) by (intro unat_P) simp
  have u: "unat (of_nat DISPLAY_ARENA_BYTES :: u64) = DISPLAY_ARENA_BYTES" by (simp add: AB)
  have rng: "x11Bridge64RangeAccessible pr (P arena) (of_nat DISPLAY_ARENA_BYTES) True" by (rule mapped_range [OF m a])
  then have ok: "\<not> (unat (of_nat DISPLAY_ARENA_BYTES :: u64) < DISPLAY_ARENA_BYTES \<or>
      \<not> x11Bridge64RangeAccessible pr (P arena) (of_nat DISPLAY_ARENA_BYTES) True)" using u by simp
  have fit: "\<not> DISPLAY_ARENA_BYTES < al_end (arena_layout_of (depthVisuals (visuals h)) (xBuildPixmapFormats (visual_formats (depthVisuals (visuals h)))))"
    using f by (simp add: arena_fits_def server_layout_def server_formats_def)
  obtain h1 where reg: "registerDisplay64 (P arena) x y h = (nextId h + 1, h1)" by (simp add: registerDisplay64_def Let_def)
  let ?bs = "rd (arena_of h arena x (nextId h + 1)) 0 DISPLAY_ARENA_BYTES"
  have "?bs \<noteq> []" by (simp add: AB flip: length_greater_0_conv)
  then have w: "h_write (P arena) ?bs c = (True, c\<lparr>c_mem := wr mm arena ?bs\<rparr>)"
    using rng up by (simp add: h_write_def ar)
  show ?thesis
    unfolding op_OPEN_DISPLAY_def require_args_def ar Let_def if_not_P [OF ok] if_not_P [OF fit] reg prod.case
    using w by (simp add: arena_of_def server_layout_def server_formats_def)
qed


section \<open>What the client finds\<close>

lemma layout_simps:
  "al_screen (server_layout h) = 320" "al_depths (server_layout h) = 448"
  "al_visuals (server_layout h) = 448 + 16 * length (depthVisuals (visuals h))"
  "al_formats (server_layout h) = 448 + 16 * length (depthVisuals (visuals h)) + 56 * length (visuals h)"
  "al_vendor (server_layout h) = 448 + 16 * length (depthVisuals (visuals h)) + 56 * length (visuals h) + 24 * length (server_formats h)"
  "al_name (server_layout h) = al_vendor (server_layout h) + 14" "al_end (server_layout h) = al_vendor (server_layout h) + 17"
proof -
  have "sum_list (map (\<lambda>(d, vs). length vs) (depthVisuals (visuals h))) = length (visuals h)"
    by (metis length_ungroup ungroup_depthVisuals)
  then show "al_screen (server_layout h) = 320" "al_depths (server_layout h) = 448"
    "al_visuals (server_layout h) = 448 + 16 * length (depthVisuals (visuals h))"
    "al_formats (server_layout h) = 448 + 16 * length (depthVisuals (visuals h)) + 56 * length (visuals h)"
    "al_vendor (server_layout h) = 448 + 16 * length (depthVisuals (visuals h)) + 56 * length (visuals h) + 24 * length (server_formats h)"
    "al_name (server_layout h) = al_vendor (server_layout h) + 14" "al_end (server_layout h) = al_vendor (server_layout h) + 17"
    by (simp_all add: server_layout_def arena_layout_of_def Let_def DISPLAY_PRIVATE_BYTES_def vis_offsets ScreenFormat_size_def
        Screen_size_def vendor_string_def display_string_def)
qed

lemma arena_tables_visuals:
  "depths_in (arena_tables h (P arena) (depthVisuals (visuals h)) fs (server_layout h)) 0 arena 448
     (448 + 16 * length (depthVisuals (visuals h))) (depthVisuals (visuals h))"
proof -
  let ?gs = "depthVisuals (visuals h)" and ?l = "server_layout h"
  define b where "b = wr (wr (\<lambda>_. 0 :: u8) (al_vendor ?l) vendor_string) (al_name ?l) display_string"
  let ?d = "put_depths (P arena) 448 (448 + 16 * length ?gs) ?gs b"
  have len: "length (ungroup ?gs) = length (visuals h)" by (simp add: ungroup_depthVisuals)
  have "depths_in (arena_tables h (P arena) ?gs fs ?l) 0 arena 448 (448 + 16 * length ?gs) ?gs =
      depths_in ?d 0 arena 448 (448 + 16 * length ?gs) ?gs"
  proof (rule depths_in_cong)
    fix k assume "448 \<le> k" "k < 448 + 16 * length ?gs"
    then show "arena_tables h (P arena) ?gs fs ?l (0 + k) = ?d k"
      by (simp add: arena_tables_def Let_def put_screen_outside put_formats_outside layout_simps b_def)
  next
    fix k assume "448 + 16 * length ?gs \<le> k" "k < 448 + 16 * length ?gs + 56 * length (ungroup ?gs)"
    then show "arena_tables h (P arena) ?gs fs ?l (0 + k) = ?d k"
      by (simp add: arena_tables_def Let_def put_screen_outside put_formats_outside layout_simps b_def len)
  qed
  also have "\<dots>" by (rule put_depths_in) simp
  finally show ?thesis .
qed

lemma arena_display:
  "le_word (rd (arena_of h arena cfd i) 16 4) = cfd" "le_word (rd (arena_of h arena cfd i) 224 4) = (0 :: u32)"
  "le_word (rd (arena_of h arena cfd i) 228 4) = (1 :: u32)" "le_word (rd (arena_of h arena cfd i) 232 8) = P (arena + 320)"
  "le_word (rd (arena_of h arena cfd i) 256 4) = minKeycode h" "le_word (rd (arena_of h arena cfd i) 260 4) = maxKeycode h"
  "le_word (rd (arena_of h arena cfd i) 296 4) = i"
  "le_word (rd (arena_of h arena cfd i) 96 4) = (of_nat (length (server_formats h)) :: u32)"
  "le_word (rd (arena_of h arena cfd i) 104 8) = P (arena + al_formats (server_layout h))"
  by (simp_all add: arena_of_def put_display_def Let_def dpy_offsets DISPLAY_ID_OFFSET_def rd_bput_other layout_simps(1))
     (simp_all add: P_def)

lemma arena_screen:
  "le_word (rd (arena_of h arena cfd i) 336 8) = (ucast (root h) :: u64)"
  "le_word (rd (arena_of h arena cfd i) 344 4) = screenWidth h" "le_word (rd (arena_of h arena cfd i) 348 4) = screenHeight h"
  "le_word (rd (arena_of h arena cfd i) 352 4) = screen_mm (screenWidth h)" "le_word (rd (arena_of h arena cfd i) 356 4) = screen_mm (screenHeight h)"
  "le_word (rd (arena_of h arena cfd i) 360 4) = (of_nat (length (depthVisuals (visuals h))) :: u32)"
  "le_word (rd (arena_of h arena cfd i) 368 8) = P (arena + 448)"
  "le_word (rd (arena_of h arena cfd i) 400 8) = (ucast (defaultColorMap h) :: u64)"
proof -
  let ?t = "arena_tables h (P arena) (depthVisuals (visuals h)) (server_formats h) (server_layout h)"
  have e: "rd (arena_of h arena cfd i) k n = rd ?t k n" if "300 \<le> k" for k n
    by (rule nth_equalityI) (use that in \<open>simp_all add: arena_of_def put_display_outside\<close>)
  show "le_word (rd (arena_of h arena cfd i) 336 8) = (ucast (root h) :: u64)"
    "le_word (rd (arena_of h arena cfd i) 344 4) = screenWidth h" "le_word (rd (arena_of h arena cfd i) 348 4) = screenHeight h"
    "le_word (rd (arena_of h arena cfd i) 352 4) = screen_mm (screenWidth h)" "le_word (rd (arena_of h arena cfd i) 356 4) = screen_mm (screenHeight h)"
    "le_word (rd (arena_of h arena cfd i) 360 4) = (of_nat (length (depthVisuals (visuals h))) :: u32)"
    "le_word (rd (arena_of h arena cfd i) 368 8) = P (arena + 448)"
    "le_word (rd (arena_of h arena cfd i) 400 8) = (ucast (defaultColorMap h) :: u64)"
    by (simp_all add: e arena_tables_def put_screen_def Let_def layout_simps(1,2) scr_offsets scr_max_maps_def scr_min_maps_def
        scr_backing_store_def scr_save_unders_def scr_root_input_mask_def rd_bput_other)
       (simp_all add: P_def)
qed


text \<open>The process after a successful call: the arena is the one the host laid out, but for the client's own
  word at 300.\<close>

definition opened :: "nat \<Rightarrow> u32 \<Rightarrow> u32 \<Rightarrow> xserver \<Rightarrow> xserver world \<Rightarrow> bool" where
  "opened dpy cfd sfd h \<sigma> \<longleftrightarrow> 4096 \<le> dpy \<and> dpy + DISPLAY_ARENA_BYTES \<le> heap_top \<and> heap_ok \<sigma> \<and>
     dpy + DISPLAY_ARENA_BYTES \<le> brk \<sigma> \<and> server \<sigma> = snd (registerDisplay64 (P dpy) cfd sfd h) \<and>
     (\<forall>k < DISPLAY_ARENA_BYTES. k < 300 \<or> 304 \<le> k \<longrightarrow> mem \<sigma> (dpy + k) = arena_of h dpy cfd (nextId h + 1) k)"

lemma open_call:
  assumes H: "heap_ok \<sigma>" and S: "stack_ok \<sigma>" and pr: "mapped pr"
    and sock: "socketpair \<sigma> = (Some (fd0, fd1), \<sigma>s)" and a: "\<not> alloc_fails DISPLAY_ARENA_BYTES \<sigma>"
    and f: "arena_fits (server \<sigma>)" and i: "nextId (server \<sigma>) + 1 \<noteq> 0"
    and call: "XOpenDisplay (x11Bridge64 pr (kOps other)) \<sigma> = (dpy, \<sigma>')"
  shows "opened dpy (of_nat fd0) (of_nat fd1) (server \<sigma>) \<sigma>' \<and> oom \<sigma>' = tl (oom \<sigma>) \<and> brk \<sigma>' \<le> brk \<sigma> + 2 * DISPLAY_ARENA_BYTES"
proof -
  have AB: "DISPLAY_ARENA_BYTES = 16384" by (simp add: DISPLAY_ARENA_BYTES_def)
  have s: "mem \<sigma>s = mem \<sigma>" "live \<sigma>s = live \<sigma>" "brk \<sigma>s = brk \<sigma>" "sp \<sigma>s = sp \<sigma>" "oom \<sigma>s = oom \<sigma>" "server \<sigma>s = server \<sigma>"
    using sock by (auto simp: socketpair_def split: list.splits option.splits if_splits)
  have Hs: "heap_ok \<sigma>s" using H s by (simp add: heap_ok_def)
  obtain p \<sigma>m where m: "malloc DISPLAY_ARENA_BYTES \<sigma>s = (p, \<sigma>m)" by fastforce
  have p0: "p \<noteq> 0" using malloc_null [of DISPLAY_ARENA_BYTES \<sigma>s] m a Hs s by (simp add: alloc_fails_def heap_ok_def)
  note fr = malloc_fresh [OF Hs m p0] and mf = malloc_frameD [OF m]
  have p: "4096 \<le> p" "p + DISPLAY_ARENA_BYTES \<le> heap_top" "p + DISPLAY_ARENA_BYTES \<le> 2 ^ 47"
    using fr(4,5) Hs by (simp_all add: heap_ok_def heap_top_def)
  define z where "z = replicate DISPLAY_ARENA_BYTES (0 :: u8)"
  define \<sigma>3 where "\<sigma>3 = st_bytes p z (st_bytes p z \<sigma>m)"
  have s3: "sp \<sigma>3 = sp \<sigma>" "server \<sigma>3 = server \<sigma>" using mf s by (simp_all add: \<sigma>3_def)
  let ?args = "[P p, of_nat DISPLAY_ARENA_BYTES, A_int (of_nat fd0), A_int (of_nat fd1)]" and ?q = "sp \<sigma> - 32"
  let ?mm = "wr (mem \<sigma>3) ?q (words_bytes ?args)"
  let ?c = "call_for pr ?args ?mm" and ?bs = "rd (arena_of (server \<sigma>) p (of_nat fd0) (nextId (server \<sigma>) + 1)) 0 DISPLAY_ARENA_BYTES"
  let ?h1 = "snd (registerDisplay64 (P p) (of_nat fd0) (of_nat fd1) (server \<sigma>))"
  have q: "heap_top \<le> ?q" using S by (auto simp: stack_ok_def)
  have h: "op_OPEN_DISPLAY ?c (server \<sigma>) = (ucast (nextId (server \<sigma>) + 1), ?c\<lparr>c_mem := wr ?mm p ?bs\<rparr>, ?h1)"
    by (rule open_handler [OF pr p(1,3) f refl])
  let ?M = "wr (wr ?mm p ?bs) ?q (words_bytes ?args)"
  have S3: "stack_ok \<sigma>3" using S s3 by (simp add: stack_ok_def)
  have h': "kOps other OP_OPEN_DISPLAY ?c (server \<sigma>3) = (ucast (nextId (server \<sigma>) + 1), ?c\<lparr>c_mem := wr ?mm p ?bs\<rparr>, ?h1)"
    unfolding kOps_open s3 by (rule h)
  have bw: "BW (x11Bridge64 pr (kOps other)) OP_OPEN_DISPLAY ?args \<sigma>3 =
      (ucast (nextId (server \<sigma>) + 1), \<sigma>3\<lparr>mem := ?M, server := ?h1\<rparr>)"
    by (rule BW_x11Bridge64 [where H = "kOps other", OF pr S3 _ _ _ h']) (simp_all add: s3 MAX_ARGS_def call_for_def)
  have pos: "\<not> sint (ucast (nextId (server \<sigma>) + 1) :: s64) \<le> 0"
  proof -
    let ?i = "nextId (server \<sigma>) + 1"
    have "unat ?i < 2 ^ LENGTH(32)" by (rule unsigned_less)
    then have "sint (of_nat (unat ?i) :: s64) = int (unat ?i)" by (intro sint_nat64) simp
    then have "sint (ucast ?i :: s64) = int (unat ?i)" by (simp only: ucast_nat)
    moreover have "unat ?i \<noteq> 0" using i by (simp only: unat_eq_0 not_False_eq_True)
    then have "0 < int (unat ?i)" by (simp only: of_nat_0_less_iff neq0_conv)
    ultimately show ?thesis by linarith
  qed
  have o: "dpy = p" "\<sigma>' = store 4 (p + 300) (of_nat fd1 :: c_int) (\<sigma>3\<lparr>mem := ?M, server := ?h1\<rparr>)"
    using call unfolding XOpenDisplay_def sock prod.case option.case calloc_def mult_1 m Let_def if_not_P [OF p0]
      z_def [symmetric] \<sigma>3_def [symmetric] bw if_not_P [OF pos] display_server_fd_def BW_DISPLAY_SERVER_FD_OFFSET_def DISPLAY_ID_OFFSET_def
    by auto
  have mem': "mem \<sigma>' (p + k) = arena_of (server \<sigma>) p (of_nat fd0) (nextId (server \<sigma>) + 1) k"
    if k: "k < DISPLAY_ARENA_BYTES" "k < 300 \<or> 304 \<le> k" for k
  proof -
    have "mem \<sigma>' (p + k) = ?M (p + k)" using k(2) by (auto simp: o(2) store_def)
    also have "\<dots> = wr ?mm p ?bs (p + k)" using k(1) q p(2) by simp
    also have "\<dots> = ?bs ! k" using k(1) by (simp add: wr_def)
    finally show ?thesis using k(1) by simp
  qed
  have "live \<sigma>m p = Some DISPLAY_ARENA_BYTES" using fr(2) by simp
  moreover have "heap_ok \<sigma>m" using malloc_heap_ok [OF Hs, of DISPLAY_ARENA_BYTES] m by simp
  ultimately have "p + DISPLAY_ARENA_BYTES \<le> brk \<sigma>m" using heap_okD(2) by fastforce
  moreover have "heap_ok \<sigma>'" "brk \<sigma>' = brk \<sigma>m"
    using \<open>heap_ok \<sigma>m\<close> by (simp_all add: o(2) \<sigma>3_def heap_ok_def store_def st_bytes_def)
  moreover have "server \<sigma>' = ?h1" by (simp add: o(2))
  moreover have "oom \<sigma>' = oom \<sigma>m" by (simp add: o(2) \<sigma>3_def store_def st_bytes_def)
  moreover have "oom \<sigma>m = tl (oom \<sigma>)" "brk \<sigma>m \<le> brk \<sigma> + 2 * DISPLAY_ARENA_BYTES"
    using m p0 s(3,5) by (auto simp: malloc_def AB split: if_splits)
  ultimately show ?thesis using p(1,2) mem' unfolding opened_def o(1) by simp
qed

lemma register_lookup:
  "displays (snd (registerDisplay64 a x y h)) (nextId h + 1) = Some \<lparr>displayAddress64 = a, d_root = root h, clientFd = x,
     serverFd = y, eventQueue = [], eventQueueIsLocked = False, wakeBytes = 0, perWindowEventMask = (\<lambda>_. None), requestCounter = 0\<rparr>"
  by (simp add: registerDisplay64_def Let_def)

section \<open>An opened display\<close>

lemma openedD:
  assumes "opened dpy cfd sfd h \<sigma>"
  shows "4096 \<le> dpy" "dpy + 16384 \<le> heap_top" "dpy + 16384 < 2 ^ 64" "heap_ok \<sigma>" "dpy + 16384 \<le> brk \<sigma>"
    "server \<sigma> = snd (registerDisplay64 (P dpy) cfd sfd h)"
    "\<And>k. k < 16384 \<Longrightarrow> k < 300 \<or> 304 \<le> k \<Longrightarrow> mem \<sigma> (dpy + k) = arena_of h dpy cfd (nextId h + 1) k"
  using assms by (auto simp: opened_def DISPLAY_ARENA_BYTES_def heap_top_def)

lemma opened_rd:
  assumes "opened dpy cfd sfd h \<sigma>" "k + n \<le> 300 \<or> 304 \<le> k" "k + n \<le> 16384"
  shows "rd (mem \<sigma>) (dpy + k) n = rd (arena_of h dpy cfd (nextId h + 1)) k n"
proof (rule nth_equalityI)
  fix j assume "j < length (rd (mem \<sigma>) (dpy + k) n)"
  then show "rd (mem \<sigma>) (dpy + k) n ! j = rd (arena_of h dpy cfd (nextId h + 1)) k n ! j"
    using openedD(7) [OF assms(1), of "k + j"] assms(2,3) by (auto simp: add.assoc)
qed simp

lemma opened_rd':
  assumes "opened dpy cfd sfd h \<sigma>" "k + n \<le> 300 \<or> 304 \<le> k" "k + n \<le> 16384"
  shows "rd (mem \<sigma>) (k + dpy) n = rd (arena_of h dpy cfd (nextId h + 1)) k n"
  using opened_rd [OF assms] by (simp add: add.commute)

lemma opened_display:
  assumes "mapped pr" "opened dpy cfd sfd h \<sigma>"
  shows "display_at pr dpy (nextId h + 1) (mem \<sigma>) (server \<sigma>) \<lparr>displayAddress64 = P dpy, d_root = root h, clientFd = cfd,
      serverFd = sfd, eventQueue = [], eventQueueIsLocked = False, wakeBytes = 0, perWindowEventMask = (\<lambda>_. None),
      requestCounter = 0\<rparr>"
  using assms(1) openedD [OF assms(2)] opened_rd [OF assms(2), of 296 4] arena_display(7)
  by (simp add: display_at_def DISPLAY_PRIVATE_BYTES_def DISPLAY_ID_OFFSET_def register_lookup)

lemma opened_screen:
  assumes "opened dpy cfd sfd h \<sigma>"
  shows "XScreenOfDisplay dpy 0 \<sigma> = dpy + 320" "XScreenCount dpy \<sigma> = 1" "XDefaultScreen dpy \<sigma> = 0"
  using opened_rd [OF assms, of 232 8] opened_rd [OF assms, of 228 4] opened_rd [OF assms, of 224 4] arena_display(2-4)
    openedD(3) [OF assms]
  by (simp_all add: XScreenOfDisplay_def XScreenCount_def XDefaultScreen_def ld_def dpy_offsets)

lemma arena_fits_bound: "arena_fits h \<Longrightarrow>
    448 + 16 * length (depthVisuals (visuals h)) + 56 * length (visuals h) + 24 * length (server_formats h) \<le> 16384"
  using layout_simps(5,7) [of h] by (simp add: arena_fits_def DISPLAY_ARENA_BYTES_def)

lemma opened_tables:
  assumes O: "opened dpy cfd sfd h \<sigma>" and f: "arena_fits h"
  shows "depths_in (mem \<sigma>) dpy dpy 448 (448 + 16 * length (depthVisuals (visuals h))) (depthVisuals (visuals h))"
proof -
  let ?gs = "depthVisuals (visuals h)"
  let ?t = "arena_tables h (P dpy) ?gs (server_formats h) (server_layout h)"
  have "depths_in (mem \<sigma>) dpy dpy 448 (448 + 16 * length ?gs) ?gs = depths_in ?t 0 dpy 448 (448 + 16 * length ?gs) ?gs"
    by (rule depths_in_cong)
       (use openedD(7) [OF O] arena_fits_bound [OF f] in \<open>simp_all add: arena_of_def put_display_outside ungroup_depthVisuals\<close>)
  then show ?thesis using arena_tables_visuals by simp
qed

lemma opened_depths:
  assumes O: "opened dpy cfd sfd h \<sigma>" and f: "arena_fits h"
  shows "depths_of_screen (dpy + 320) \<sigma> = map (\<lambda>k. dpy + 448 + 16 * k) [0..<length (depthVisuals (visuals h))]"
proof -
  have "nat (sint (of_nat (length (depthVisuals (visuals h))) :: u32)) = length (depthVisuals (visuals h))"
    using arena_fits_bound [OF f] by (simp add: signed_of_nat signed_take_bit_int_eq_self)
  moreover have e: "dpy + 320 + scr_ndepths = dpy + 360" "dpy + 320 + scr_depths = dpy + 368" by (simp_all add: scr_offsets)
  moreover have "unat (P (dpy + 448)) = dpy + 448" using openedD(3) [OF O] by (intro unat_P) simp
  ultimately show ?thesis using opened_rd [OF O, of 360 4] opened_rd [OF O, of 368 8] arena_screen(6,7)
    unfolding depths_of_screen_def ld_def e by (simp add: vis_offsets)
qed

lemma opened_visuals:
  assumes O: "opened dpy cfd sfd h \<sigma>" and f: "arena_fits h"
  shows "map (\<lambda>(s, d, v). (ld 4 (d + dep_depth) \<sigma>, visual_at (mem \<sigma>) v)) (visuals_of_display dpy \<sigma>) = visuals h"
proof -
  let ?gs = "depthVisuals (visuals h)"
  note fit = arena_fits_bound [OF f] and len = arg_cong [where f = length, OF ungroup_depthVisuals [of "visuals h"]]
  have each: "length (snd g) < 2 ^ 31" if "g \<in> set ?gs" for g
    using length_group [OF that] fit len by simp
  have "dpy + (448 + 16 * length ?gs) + 56 * length (ungroup ?gs) < 2 ^ 64"
    using openedD(3) [OF O] fit len by simp
  from depth_walk [OF opened_tables [OF O f] this each]
  have walk: "map (\<lambda>(d, v). (ld 4 (d + dep_depth) \<sigma> :: u32, visual_at (mem \<sigma>) v)) (visuals_of_screen (dpy + 320) \<sigma>) = visuals h"
    by (simp add: visuals_of_screen_def opened_depths [OF O f] ungroup_depthVisuals add.assoc)
  show ?thesis using walk by (simp add: visuals_of_display_def opened_screen [OF O] comp_def case_prod_beta')
qed

section \<open>The pixmap formats\<close>

text \<open>A \<^verbatim>\<open>ScreenFormat\<close> of the arena and an \<^verbatim>\<open>XPixmapFormatValues\<close> of the client.\<close>

definition screen_format_at :: "memory \<Rightarrow> nat \<Rightarrow> XPixmapFormatEntry" where
  "screen_format_at m a = \<lparr>f_depth = le_word (rd m (a + 8) 4), f_bitsPerPixel = le_word (rd m (a + 12) 4),
     f_scanlinePad = le_word (rd m (a + 16) 4)\<rparr>"

definition format_value_at :: "memory \<Rightarrow> nat \<Rightarrow> XPixmapFormatEntry" where
  "format_value_at m a = \<lparr>f_depth = le_word (rd m a 4), f_bitsPerPixel = le_word (rd m (a + 4) 4),
     f_scanlinePad = le_word (rd m (a + 8) 4)\<rparr>"

lemma screen_format_at_cong:
  "(\<And>k. a \<le> k \<Longrightarrow> k < a + 24 \<Longrightarrow> m' (off + k) = m k) \<Longrightarrow> screen_format_at m' (off + a) = screen_format_at m a"
proof -
  assume e: "\<And>k. a \<le> k \<Longrightarrow> k < a + 24 \<Longrightarrow> m' (off + k) = m k"
  have "rd m' (off + a + k) n = rd m (a + k) n" if "k + n \<le> 24" for k n
    by (rule nth_equalityI) (use e that in \<open>auto simp: add.assoc\<close>)
  then show ?thesis by (simp add: screen_format_at_def)
qed

lemma put_formats_at: "k < length fs \<Longrightarrow> screen_format_at (put_formats a fs b) (a + 24 * k) = fs ! k"
proof (induction fs arbitrary: a b k)
  case (Cons f fs)
  let ?b = "bput32 (a + sf_scanline_pad) (f_scanlinePad f) (bput32 (a + sf_bits_per_pixel) (f_bitsPerPixel f)
      (bput32 (a + sf_depth) (f_depth f) (bput64 a 0 b)))"
  have "screen_format_at (put_formats (a + 24) fs ?b) (0 + a) = screen_format_at ?b a"
    by (rule screen_format_at_cong) (simp add: put_formats_outside)
  also have "\<dots> = f"
    by (cases f) (simp add: screen_format_at_def sf_depth_def sf_bits_per_pixel_def sf_scanline_pad_def rd_bput_other)
  finally have first: "screen_format_at (put_formats (a + 24) fs ?b) a = f" by simp
  show ?case
  proof (cases k)
    case 0
    then show ?thesis using first by (simp add: ScreenFormat_size_def)
  next
    case (Suc j)
    then show ?thesis using Cons.IH [of j "a + 24" ?b] Cons.prems by (simp add: ScreenFormat_size_def algebra_simps)
  qed
qed simp

lemma arena_formats:
  assumes "k < length (server_formats h)"
  shows "screen_format_at (arena_of h arena cfd i) (al_formats (server_layout h) + 24 * k) = server_formats h ! k"
proof -
  let ?l = "server_layout h"
  have "screen_format_at (arena_of h arena cfd i) (0 + (al_formats ?l + 24 * k)) =
      screen_format_at (put_formats (al_formats ?l) (server_formats h)
        (put_depths (P arena) (al_depths ?l) (al_visuals ?l) (depthVisuals (visuals h))
          (wr (wr (\<lambda>_. 0) (al_vendor ?l) vendor_string) (al_name ?l) display_string))) (al_formats ?l + 24 * k)"
    by (rule screen_format_at_cong)
       (simp add: arena_of_def arena_tables_def Let_def put_display_outside put_screen_outside layout_simps)
  then show ?thesis using put_formats_at assms by simp
qed

text \<open>What the list holds.\<close>

lemma add_format_depths [simp]: "f_depth ` set (add_format f gs) = insert (f_depth f) (f_depth ` set gs)"
  by (simp add: add_format_def insert_absorb) (metis image_eqI insert_absorb)

lemma add_format_distinct: "distinct (map f_depth gs) \<Longrightarrow> distinct (map f_depth (add_format f gs))"
  by (auto simp: add_format_def)

lemma fold_add_format:
  "f_depth ` set (fold add_format fs gs) = f_depth ` set fs \<union> f_depth ` set gs"
  "distinct (map f_depth gs) \<Longrightarrow> distinct (map f_depth (fold add_format fs gs))"
  by (induction fs arbitrary: gs) (simp_all add: add_format_distinct)

lemma formats_depths: "f_depth ` set (xBuildPixmapFormats fs) = {1, 4} \<union> f_depth ` set fs"
  unfolding xBuildPixmapFormats_def set_sort fold_add_format NON_VISUAL_FORMATS_def by simp

lemma formats_ascending: "sorted_wrt (<) (map f_depth (xBuildPixmapFormats fs))"
proof -
  have "distinct (map f_depth (fold add_format NON_VISUAL_FORMATS (fold add_format fs [])))"
    by (simp add: fold_add_format(2))
  then have "distinct (map f_depth (xBuildPixmapFormats fs))"
    by (simp add: xBuildPixmapFormats_def distinct_map) 
  then show ?thesis by (simp add: xBuildPixmapFormats_def strict_sorted_iff)
qed

lemma depthVisuals_entries: "\<forall>g \<in> set (depthVisuals vs). snd g \<noteq> []"
proof -
  have step: "\<forall>g \<in> set (add_visual x gs). snd g \<noteq> []" if "\<forall>g \<in> set gs. snd g \<noteq> []" for x and gs :: "(u32 \<times> xvisual list) list"
    unfolding add_visual_def using that by (auto dest: in_set_butlastD)
  have "\<forall>g \<in> set gs. snd g \<noteq> [] \<Longrightarrow> \<forall>g \<in> set (fold add_visual vs gs). snd g \<noteq> []" for gs
  proof (induction vs arbitrary: gs)
    case (Cons v vs)
    show ?case using Cons.IH [OF step [OF Cons.prems]] by simp
  qed simp
  from this [of "[]"] show ?thesis by (simp add: depthVisuals_def)
qed

lemma ungroup_depths: "\<forall>g \<in> set gs. snd g \<noteq> [] \<Longrightarrow> fst ` set (ungroup gs) = fst ` set gs"
proof (induction gs)
  case (Cons g gs)
  have "ungroup (g # gs) = map (Pair (fst g)) (snd g) @ ungroup gs" by (simp add: ungroup_def case_prod_beta')
  then show ?case using Cons by (cases "snd g") (auto simp: image_Un image_image)
qed (simp add: ungroup_def)

lemma depthVisuals_depths: "fst ` set (depthVisuals vs) = fst ` set vs"
  using ungroup_depths [OF depthVisuals_entries] by (simp add: ungroup_depthVisuals)

lemma server_formats_depths: "f_depth ` set (server_formats h) = {1, 4} \<union> fst ` set (visuals h)"
proof -
  have "f_depth ` set (visual_formats gs) = fst ` {g \<in> set gs. snd g \<noteq> []}" for gs
    by (simp add: visual_formats_def case_prod_beta' image_image)
  moreover have "{g \<in> set (depthVisuals (visuals h)). snd g \<noteq> []} = set (depthVisuals (visuals h))"
    using depthVisuals_entries by blast
  ultimately show ?thesis by (simp add: server_formats_def formats_depths depthVisuals_depths)
qed

section \<open>The formats as the client reads them\<close>

lemma copy_formats_other: "k < a + 12 * i \<or> a + 12 * (i + n) \<le> k \<Longrightarrow> mem (copy_formats dpy a i n \<sigma>) k = mem \<sigma> k"
proof (induction n arbitrary: i \<sigma>)
  case (Suc n)
  have "k < a + 12 * Suc i \<or> a + 12 * (Suc i + n) \<le> k" "k < a + 12 * i \<or> a + 12 * i + 12 \<le> k" using Suc.prems by auto
  then show ?case using Suc.IH [of "Suc i"] by (auto simp: Let_def store_def XPixmapFormatValues_size_def)
qed simp

lemma copy_formats_at:
  assumes "dpy + 112 \<le> b" "b \<le> lst" "unat (ld 8 (dpy + dpy_pixmap_format) \<sigma> :: u64) = fo" "fo + 24 * (i + n) \<le> b" "j < n"
  shows "format_value_at (mem (copy_formats dpy lst i n \<sigma>)) (lst + 12 * (i + j)) = screen_format_at (mem \<sigma>) (fo + 24 * (i + j))"
  using assms(3-5)
proof (induction n arbitrary: i j \<sigma>)
  case (Suc n)
  let ?d = "lst + 12 * i"
  let ?s = "store 4 (?d + 8) (ld 4 (fo + 24 * i + 16) \<sigma> :: c_int) (store 4 (?d + 4) (ld 4 (fo + 24 * i + 12) \<sigma> :: c_int)
      (store 4 ?d (ld 4 (fo + 24 * i + 8) \<sigma> :: c_int) \<sigma>))"
  have e: "copy_formats dpy lst i (Suc n) \<sigma> = copy_formats dpy lst (Suc i) n ?s"
    using Suc.prems assms(1,2)
    by (simp add: Let_def ScreenFormat_size_def XPixmapFormatValues_size_def ld_st_other dpy_offsets)
  show ?case
  proof (cases j)
    case 0
    have "rd (mem (copy_formats dpy lst (Suc i) n ?s)) (?d + k) m = rd (mem ?s) (?d + k) m" if "k + m \<le> 12" for k m
      by (rule nth_equalityI) (use that in \<open>simp_all add: copy_formats_other\<close>)
    from this [of 0 4] this [of 4 4] this [of 8 4] show ?thesis unfolding e 0
      by (simp add: format_value_at_def screen_format_at_def) (simp add: store_def rd_wr_other ld_def)
  next
    case (Suc j')
    have "format_value_at (mem (copy_formats dpy lst (Suc i) n ?s)) (lst + 12 * (Suc i + j')) =
        screen_format_at (mem ?s) (fo + 24 * (Suc i + j'))"
      by (rule Suc.IH) (use Suc.prems \<open>j = Suc j'\<close> assms(1,2) in \<open>simp_all add: ld_st_other dpy_offsets\<close>)
    also have "\<dots> = screen_format_at (mem \<sigma>) (fo + 24 * (Suc i + j'))"
      using Suc.prems assms(2) \<open>j = Suc j'\<close> by (simp add: screen_format_at_def store_def rd_wr_other)
    finally show ?thesis unfolding e Suc by simp
  qed
qed simp


lemma opened_formats:
  assumes O: "opened dpy cfd sfd h \<sigma>" and f: "arena_fits h" and k: "k < length (server_formats h)"
  shows "screen_format_at (mem \<sigma>) (dpy + (al_formats (server_layout h) + 24 * k)) = server_formats h ! k"
proof -
  have "screen_format_at (mem \<sigma>) (dpy + (al_formats (server_layout h) + 24 * k)) =
      screen_format_at (arena_of h dpy cfd (nextId h + 1)) (al_formats (server_layout h) + 24 * k)"
    by (rule screen_format_at_cong) (use openedD(7) [OF O] arena_fits_bound [OF f] k in \<open>simp_all add: layout_simps\<close>)
  then show ?thesis using arena_formats [OF k] by simp
qed

text \<open>C26: on a display just opened the client's list of pixmap formats is the host's: one format for every
  depth of a visual and for the depths 1 and 4 that every server supports, and no other, in ascending order
  of depth without repetition.  (The client indexes its table by depth, so a depth that is missing would be a
  null dereference.)\<close>

theorem XListPixmapFormats_complete:
  assumes H: "heap_ok \<sigma>" and S: "stack_ok \<sigma>" and pr: "mapped pr"
    and sock: "socketpair \<sigma> = (Some (fd0, fd1), \<sigma>s)" and room: "oom \<sigma> = []" "brk \<sigma> + 2 ^ 16 \<le> heap_top"
    and f: "arena_fits (server \<sigma>)" and i: "nextId (server \<sigma>) + 1 \<noteq> 0"
    and call: "XOpenDisplay (x11Bridge64 pr (kOps other)) \<sigma> = (dpy, \<sigma>1)"
    and lc: "XListPixmapFormats dpy ret \<sigma>1 = (lst, \<sigma>2)" and ret: "heap_top \<le> ret"
  shows "\<exists>fs. lst \<noteq> 0 \<and> map (\<lambda>k. format_value_at (mem \<sigma>2) (lst + 12 * k)) [0..<length fs] = fs \<and>
    ld 4 ret \<sigma>2 = (of_nat (length fs) :: c_int) \<and> sorted_wrt (<) (map f_depth fs) \<and>
    f_depth ` set fs = {1, 4} \<union> fst ` set (visuals (server \<sigma>))"
proof (intro exI conjI)
  let ?fs = "server_formats (server \<sigma>)" and ?h = "server \<sigma>" and ?n = "length (server_formats (server \<sigma>))"
  have a: "\<not> alloc_fails DISPLAY_ARENA_BYTES \<sigma>" using room by (simp add: alloc_fails_def DISPLAY_ARENA_BYTES_def)
  note oc = open_call [OF H S pr sock a f i call]
  then have O: "opened dpy (of_nat fd0) (of_nat fd1) ?h \<sigma>1" by simp
  note r = opened_rd [OF O] and od = openedD [OF O] and fit = arena_fits_bound [OF f]
  have n: "ld 4 (dpy + dpy_nformats) \<sigma>1 = (of_nat ?n :: c_int)"
    using r [of 96 4] arena_display(8) by (simp add: ld_def dpy_offsets)
  have sn: "sint (of_nat ?n :: c_int) = int ?n" using fit by (simp add: signed_of_nat signed_take_bit_int_eq_self)
  define fo where "fo = dpy + al_formats (server_layout ?h)"
  have pf: "ld 8 (dpy + dpy_pixmap_format) \<sigma>1 = P fo"
    using r [of 104 8] arena_display(9) by (simp add: ld_def dpy_offsets fo_def)
  have fo: "unat (P fo) = fo" "P fo \<noteq> 0" "fo + 24 * ?n \<le> dpy + 16384"
    using od(1,3) fit by (auto simp: fo_def layout_simps P_eq_0)
  have np: "0 < ?n"
    using server_formats_depths [of ?h] by (cases ?fs) auto
  obtain q \<sigma>m where m: "malloc (?n * 12) \<sigma>1 = (q, \<sigma>m)" by fastforce
  have "\<not> alloc_fails (?n * 12) \<sigma>1"
    using oc room fit by (simp add: alloc_fails_def DISPLAY_ARENA_BYTES_def)
  then have q0: "q \<noteq> 0" using malloc_null [of "?n * 12" \<sigma>1] m od(4) by (simp add: heap_ok_def)
  note fr = malloc_fresh [OF od(4) m q0] and mf = malloc_frameD [OF m]
  let ?c = "st_bytes q (replicate (?n * 12) 0) \<sigma>m"
  have o: "lst = q" "\<sigma>2 = store 4 ret (of_nat ?n :: c_int) (copy_formats dpy q 0 ?n ?c)"
    using lc n sn np m pf fo(2) q0 by (auto simp: XListPixmapFormats_def calloc_def Let_def XPixmapFormatValues_size_def)
  have q: "dpy + 16384 \<le> q" "q + 12 * ?n \<le> heap_top" using fr(4,5) od(5) by auto
  have pc: "unat (ld 8 (dpy + dpy_pixmap_format) ?c :: u64) = fo"
    using pf fo(1) q(1) mf(1) by (simp add: ld_st_bytes_other dpy_offsets) (simp add: ld_def)
  have at: "format_value_at (mem (copy_formats dpy q 0 ?n ?c)) (q + 12 * (0 + j)) = screen_format_at (mem ?c) (fo + 24 * (0 + j))"
    if "j < ?n" for j
    by (rule copy_formats_at [where b = "dpy + 16384", OF _ q(1) pc _ that]) (use fo(3) in simp_all)
  have src: "screen_format_at (mem ?c) (fo + 24 * j) = ?fs ! j" if "j < ?n" for j
    using opened_formats [OF O f that] that q(1) fo(3) mf(1)
    by (simp add: screen_format_at_def st_bytes_def rd_wr_other fo_def add.assoc)
  have out: "format_value_at (mem \<sigma>2) (q + 12 * j) = format_value_at (mem (copy_formats dpy q 0 ?n ?c)) (q + 12 * j)"
    if "j < ?n" for j
    using that q(2) ret by (simp add: o(2) format_value_at_def store_def rd_wr_other)
  show "lst \<noteq> 0" using o(1) q0 by simp
  show "map (\<lambda>k. format_value_at (mem \<sigma>2) (lst + 12 * k)) [0..<length ?fs] = ?fs"
    by (rule nth_equalityI) (use at src out in \<open>simp_all add: o(1)\<close>)
  show "ld 4 ret \<sigma>2 = (of_nat (length ?fs) :: c_int)" by (simp add: o(2))
  show "sorted_wrt (<) (map f_depth ?fs)" by (simp add: server_formats_def formats_ascending)
  show "f_depth ` set ?fs = {1, 4} \<union> fst ` set (visuals ?h)" by (rule server_formats_depths)
qed

section \<open>The display as the client sees it\<close>


section \<open>A concrete display\<close>

definition process_new :: "xserver world" where
  "process_new = process0\<lparr>socks := [Some (5, 6)]\<rparr>"

lemma process_new_ready: "heap_ok process_new" "stack_ok process_new" "socketpair process_new = (Some (5, 6), process_new\<lparr>socks := [], fds := [5, 6, 1]\<rparr>)"
    "n < 65536 \<Longrightarrow> \<not> alloc_fails n process_new" "server process_new = server0"
  using process0_ready by (simp_all add: process_new_def stack_ok_def heap_ok_def socketpair_def process0_def alloc_fails_def heap_top_def)

lemma server0_formats: "length (server_formats server0) = 3"
  by (simp add: server_formats_def xBuildPixmapFormats_def visual_formats_def depthVisuals_def add_visual_def server0_def
      NON_VISUAL_FORMATS_def add_format_def)

lemma server0_fits: "arena_fits server0"
proof -
  have "length (visuals server0) = 1" by (simp add: server0_def)
  moreover have "length (depthVisuals (visuals server0)) = 1"
    by (simp add: server0_def depthVisuals_def add_visual_def)
  ultimately show ?thesis by (simp add: arena_fits_def layout_simps server0_formats DISPLAY_ARENA_BYTES_def)
qed


text \<open>Depths 1, 4 and 32.\<close>

lemma XListPixmapFormats_complete_witness:
  "\<exists>fs. map f_depth fs = [1, 4, 32] \<and>
     (case XOpenDisplay (x11Bridge64 all_pages (kOps refuse)) process_new of (dpy, \<sigma>1) \<Rightarrow>
        case XListPixmapFormats dpy stack_top \<sigma>1 of (lst, \<sigma>2) \<Rightarrow>
          map (\<lambda>k. format_value_at (mem \<sigma>2) (lst + 12 * k)) [0..<length fs] = fs)"
proof -
  obtain dpy \<sigma>1 where c1: "XOpenDisplay (x11Bridge64 all_pages (kOps refuse)) process_new = (dpy, \<sigma>1)" by fastforce
  obtain lst \<sigma>2 where c2: "XListPixmapFormats dpy stack_top \<sigma>1 = (lst, \<sigma>2)" by fastforce
  have i: "arena_fits (server process_new)" "nextId (server process_new) + 1 \<noteq> 0" "oom process_new = []"
    "brk process_new + 2 ^ 16 \<le> heap_top" "heap_top \<le> stack_top"
    using server0_fits by (simp_all add: process_new_ready heap_top_def stack_top_def)
      (simp_all add: server0_def process_new_def process0_def)
  obtain fs where fs: "map (\<lambda>k. format_value_at (mem \<sigma>2) (lst + 12 * k)) [0..<length fs] = fs"
    "sorted_wrt (<) (map f_depth fs)" "f_depth ` set fs = {1, 4} \<union> fst ` set (visuals server0)"
    using XListPixmapFormats_complete [OF process_new_ready(1,2) process0_ready(1) process_new_ready(3) i(3,4,1,2) c1 c2 i(5)]
    by (auto simp: process_new_ready)
  have "set (map f_depth fs) = {1, 4, 32}" using fs(3) by (simp add: server0_def) auto
  then have "map f_depth fs = [1, 4, 32]"
    using fs(2) by (intro strict_sorted_equal) auto
  then show ?thesis using fs(1) c1 c2 by (intro exI [of _ fs]) simp
qed

end
