(* ===== verification/SurfaceDrawing.thy ===== *)
theory SurfaceDrawing
  imports HostSurface
begin

text \<open>
  What the drawing operations of \<^verbatim>\<open>HostSurface\<close> do to pixels: the raster operations are the sixteen truth
  tables, a solid fill paints exactly its rectangle and a window remembers it as still to show; a horizontal
  line lands in the wrong place and a fill that starts left of the drawable writes outside its buffer.
\<close>

section \<open>Raster operations\<close>

lemma all_ones: "bit (4294967295 :: int) k \<longleftrightarrow> k < 32"
proof -
  have "(4294967295 :: int) = mask 32" by (simp add: mask_eq_exp_minus_1)
  then have "bit (4294967295 :: int) k = bit (mask 32 :: int) k" by (simp only:)
  then show ?thesis by (simp only: bit_mask_iff possible_bit_int simp_thms)
qed

text \<open>C27: the sixteen raster operations are the sixteen truth tables: on every plane of the mask the result is the
  bit of the function code selected by the bits of source and destination, on the others the destination.\<close>

theorem raster_truth_table:
  assumes "f < 16" "k < 32"
  shows "bit (x11ApplyRasterOperation s d f m) k =
    (if bit m k then bit f (2 * of_bool (\<not> bit s k) + of_bool (\<not> bit d k)) else bit d k)"
proof -
  have "unat f < 16" using assms(1) by (simp add: word_less_nat_alt)
  moreover have "f = of_nat (unat f)" by simp
  ultimately obtain n where n: "f = of_nat n" "n < 16" by blast
  then have "n \<in> {0..<16}" by simp
  then have "n \<in> {0, 1, 2, 3, 4, 5, 6, 7, 8, 9, 10, 11, 12, 13, 14, 15}" by (simp add: atLeastLessThan_nat_numeral) blast
  then show ?thesis unfolding n(1) using assms(2)
    by (elim insertE) (simp_all add: x11ApplyRasterOperation_def GX_defs bit_simps all_ones)
qed

lemma raster_truth_table_witness: "bit (x11ApplyRasterOperation 12 10 GXxor 15) 1"
  using raster_truth_table [of GXxor 1 12 10 15] by (simp add: GX_defs)


section \<open>Pixels\<close>

text \<open>A drawable with one word per pixel whose size did not wrap, as \<^verbatim>\<open>setSize\<close> leaves it.\<close>

definition surface_ok :: "surface \<Rightarrow> bool" where
  "surface_ok s \<longleftrightarrow> s_bpp s = 32 \<and> unat (s_pitch s) = 4 * unat (s_w s) \<and> s_size s = 4 * unat (s_w s) * unat (s_h s) \<and>
     s_size s < 2 ^ 32 \<and> unat (s_w s) < 2 ^ 26 \<and> unat (s_h s) < 2 ^ 31"

definition same_shape :: "surface \<Rightarrow> surface \<Rightarrow> bool" where
  "same_shape s t \<longleftrightarrow> s_w t = s_w s \<and> s_h t = s_h s \<and> s_bpp t = s_bpp s \<and> s_pitch t = s_pitch s \<and> s_size t = s_size s \<and>
     s_isWindow t = s_isWindow s"

lemma surface_okD:
  assumes "surface_ok s"
  shows "s_bpp s = 32" "unat (s_pitch s) = 4 * unat (s_w s)" "s_size s = 4 * unat (s_w s) * unat (s_h s)"
    "s_size s < 2 ^ 32" "unat (s_w s) < 2 ^ 26" "unat (s_h s) < 2 ^ 31"
  using assms unfolding surface_ok_def by blast+

lemma same_shape_refl [simp]: "same_shape s s" by (simp add: same_shape_def)
lemma same_shape_trans [trans]: "same_shape s t \<Longrightarrow> same_shape t u \<Longrightarrow> same_shape s u" by (simp add: same_shape_def)

lemma same_shape_ok: "same_shape s t \<Longrightarrow> surface_ok t = surface_ok s" by (simp add: same_shape_def surface_ok_def)

lemma same_shape_poke [simp]: "same_shape s (poke a bs s)" by (simp add: poke_def same_shape_def)
lemma same_shape_wild [simp]: "same_shape s (s\<lparr>s_wild := b\<rparr>)" by (simp add: same_shape_def)
lemma same_shape_dirty [simp]: "same_shape s (setDirtyRect x y w h s)" by (simp add: setDirtyRect_def same_shape_def Let_def)

lemma dirty_data [simp]: "s_data (setDirtyRect x y w h s) = s_data s" "s_wild (setDirtyRect x y w h s) = s_wild s"
  by (simp_all add: setDirtyRect_def Let_def)

text \<open>The pixel at an index of the buffer, and at a position.\<close>

definition word_at :: "surface \<Rightarrow> nat \<Rightarrow> u32" where "word_at s k = le_word (rd (s_data s) (4 * k) 4)"
definition pixel :: "surface \<Rightarrow> nat \<Rightarrow> nat \<Rightarrow> u32" where "pixel s x y = word_at s (unat (s_w s) * y + x)"

lemma dirty_pixel [simp]: "pixel (setDirtyRect x y w h s) = pixel s"
  by (intro ext) (simp add: pixel_def word_at_def setDirtyRect_def Let_def)

lemma store_pixel_inside:
  assumes "4 * k + 4 \<le> s_size s"
  shows "word_at (store_pixel (int k) c s) j = (if j = k then c else word_at s j)" "s_wild (store_pixel (int k) c s) = s_wild s"
proof -
  have p: "store_pixel (int k) c s = s\<lparr>s_data := wr (s_data s) (4 * k) (le_bytes 4 c)\<rparr>"
    using assms by (simp add: store_pixel_def poke_def nat_mult_distrib)
  show "s_wild (store_pixel (int k) c s) = s_wild s" by (simp add: p)
  show "word_at (store_pixel (int k) c s) j = (if j = k then c else word_at s j)"
  proof (cases "j = k")
    case False
    then have "4 * j + 4 \<le> 4 * k \<or> 4 * k + 4 \<le> 4 * j" by linarith
    then show ?thesis using False by (simp add: p word_at_def rd_wr_other)
  qed (simp add: p word_at_def)
qed

lemma store_pixel_shape [simp]: "same_shape s (store_pixel k c s)" by (simp add: store_pixel_def)

lemma store_pixel_outside: "k < 0 \<or> int (s_size s) < 4 * k + 4 \<Longrightarrow> store_pixel k c s = s\<lparr>s_wild := True\<rparr>"
  by (auto simp: store_pixel_def poke_def)

text \<open>A run of pixels.\<close>

lemma pixel_run_inside:
  assumes "\<And>i. i < n \<Longrightarrow> 4 * (k + step * i) + 4 \<le> s_size s"
  shows "word_at (pixel_run n (int k) (int step) c s) j = (if \<exists>i < n. j = k + step * i then c else word_at s j) \<and>
    s_wild (pixel_run n (int k) (int step) c s) = s_wild s \<and> same_shape s (pixel_run n (int k) (int step) c s)"
  using assms
proof (induction n arbitrary: k s)
  case (Suc n)
  let ?s = "store_pixel (int k) c s"
  have k: "4 * k + 4 \<le> s_size s" using Suc.prems [of 0] by simp
  have sz: "s_size ?s = s_size s" using store_pixel_shape [of s "int k" c] by (simp only: same_shape_def)
  have b: "4 * ((k + step) + step * i) + 4 \<le> s_size ?s" if "i < n" for i
    using Suc.prems [of "Suc i"] that sz by (simp add: algebra_simps)
  note IH = Suc.IH [of "k + step" ?s, OF b]
  have ex: "(\<exists>i < Suc n. j = k + step * i) \<longleftrightarrow> j = k \<or> (\<exists>i < n. j = k + step + step * i)"
    by (auto simp: less_Suc_eq_0_disj algebra_simps)
  have "same_shape s (pixel_run n (int (k + step)) (int step) c ?s)"
    using IH same_shape_trans [OF store_pixel_shape [of s "int k" c]] by blast
  then show ?case using IH store_pixel_inside [OF k, of c] unfolding ex pixel_run.simps by auto
qed simp


lemma sint_unat31: "unat (x :: u32) < 2 ^ 31 \<Longrightarrow> sint x = int (unat x)"
proof -
  assume "unat x < 2 ^ 31"
  then have "sint (of_nat (unat x) :: u32) = int (unat x)"
    using signed_take_bit_int_eq_self [of 31 "int (unat x)"] by (subst signed_of_nat) (simp del: of_nat_unat)
  then show ?thesis unfolding of_nat_unat ucast_id .
qed

section \<open>What is still to show\<close>

definition in_box :: "dirty_box \<Rightarrow> nat \<Rightarrow> nat \<Rightarrow> bool" where
  "in_box box px py = (case box of None \<Rightarrow> False
     | Some (l, t, r, b) \<Rightarrow> sint l \<le> int px \<and> int px < sint r \<and> sint t \<le> int py \<and> int py < sint b)"

lemma sint_smin: "sint (smin a b) = min (sint a) (sint b)" by (simp add: smin_def word_sless_alt min_def)
lemma sint_smax: "sint (smax a b) = max (sint a) (sint b)" by (simp add: smax_def word_sless_alt max_def)

lemma dirty_covers:
  assumes win: "s_isWindow s" and lim: "unat (s_w s) < 2 ^ 31" "unat (s_h s) < 2 ^ 31"
    and fit: "unat x + unat w \<le> unat (s_w s)" "unat y + unat h \<le> unat (s_h s)"
    and px: "unat x \<le> px" "px < unat x + unat w" and py: "unat y \<le> py" "py < unat y + unat h"
  shows "in_box (s_dirty (setDirtyRect x y w h s)) px py"
proof -
  have ne: "w \<noteq> 0" "h \<noteq> 0" using px py by auto
  have "unat (x + w) = unat x + unat w" using fit(1) lim(1) by (subst unat_add_lem [symmetric]) simp
  then have sxw: "sint (x + w) = int (unat x + unat w)" using fit(1) lim(1) by (subst sint_unat31) simp_all
  have "unat (y + h) = unat y + unat h" using fit(2) lim(2) by (subst unat_add_lem [symmetric]) simp
  then have syh: "sint (y + h) = int (unat y + unat h)" using fit(2) lim(2) by (subst sint_unat31) simp_all
  have sx: "sint x = int (unat x)" "sint y = int (unat y)" "sint (s_w s) = int (unat (s_w s))" "sint (s_h s) = int (unat (s_h s))"
    using sint_unat31 [of x] sint_unat31 [of y] sint_unat31 [OF lim(1)] sint_unat31 [OF lim(2)] fit lim by linarith+
  let ?l = "smax 0 x" and ?t = "smax 0 y" and ?r = "smin (s_w s) (x + w)" and ?b = "smin (s_h s) (y + h)"
  have e: "sint ?l = int (unat x)" "sint ?t = int (unat y)" "sint ?r = int (unat x + unat w)" "sint ?b = int (unat y + unat h)"
    using sx sxw syh fit by (simp_all add: sint_smin sint_smax del: of_nat_unat)
  then have "\<not> (?r \<le>s ?l \<or> ?b \<le>s ?t)" using px py by (simp add: word_sle_eq del: of_nat_unat)
  then have d: "s_dirty (setDirtyRect x y w h s) = Some (case s_dirty s of None \<Rightarrow> (?l, ?t, ?r, ?b)
      | Some (l', t', r', b') \<Rightarrow> (smin l' ?l, smin t' ?t, smax r' ?r, smax b' ?b))"
    using win ne by (simp add: setDirtyRect_def extend_dirty_def Let_def)
  show ?thesis using e px py unfolding d in_box_def
    by (auto simp: sint_smin sint_smax simp del: of_nat_unat split: option.splits)
qed


lemma base_product:
  assumes ok: "surface_ok s" and y: "unat y \<le> unat (s_h s)"
  shows "unat (s_pitch s div 4) = unat (s_w s)" "unat (s_pitch s div 4 * y) = unat (s_w s) * unat y"
    "unat (s_pitch s * y) = 4 * (unat (s_w s) * unat y)"
proof -
  let ?w = "unat (s_w s)"
  show p4: "unat (s_pitch s div 4) = ?w" using surface_okD(2) [OF ok] by (simp add: unat_div)
  have "?w * unat y \<le> ?w * unat (s_h s)" using y by (rule mult_le_mono2)
  then have lt: "4 * (?w * unat y) < 2 ^ 32" using surface_okD(3,4) [OF ok] by linarith
  then have lt1: "?w * unat y < 2 ^ 32" by linarith
  then have "unat (s_pitch s div 4) * unat y < 2 ^ LENGTH(32)" using lt1 unfolding p4 by simp
  from unat_mult_lem [THEN iffD1, OF this] show "unat (s_pitch s div 4 * y) = ?w * unat y" unfolding p4 .
  have "unat (s_pitch s) * unat y < 2 ^ LENGTH(32)" using lt surface_okD(2) [OF ok] by simp
  from unat_mult_lem [THEN iffD1, OF this] show "unat (s_pitch s * y) = 4 * (?w * unat y)"
    unfolding surface_okD(2) [OF ok] by simp
qed

section \<open>Filled rectangles\<close>

lemma unat_add_index: "unat (x :: u32) + n < 2 ^ 32 \<Longrightarrow> unat (x + of_nat n) = unat x + n"
  by (subst unat_word_ariths) (simp add: unat_of_nat take_bit_nat_eq_self)

lemma fill_row:
  assumes "unat x + n < 2 ^ 32" "4 * (b + unat x + n) \<le> s_size s"
    and t_def: "t = fold (fill_pixel gc (\<lambda>_. None) x y (int b) dy) [0..<n] s"
  shows "word_at t j = (if b + unat x \<le> j \<and> j < b + unat x + n then g_foreground gc else word_at s j) \<and>
    s_wild t = s_wild s \<and> same_shape s t"
  using assms(1,2) unfolding t_def
proof (induction n)
  case (Suc n)
  let ?t = "fold (fill_pixel gc (\<lambda>_. None) x y (int b) dy) [0..<n] s"
  have IH: "word_at ?t j = (if b + unat x \<le> j \<and> j < b + unat x + n then g_foreground gc else word_at s j) \<and>
      s_wild ?t = s_wild s \<and> same_shape s ?t"
    by (rule Suc.IH) (use Suc.prems in simp_all)
  then have sz: "s_size ?t = s_size s" by (simp add: same_shape_def)
  have u: "unat (x + of_nat n) = unat x + n" using Suc.prems by (intro unat_add_index) simp
  have e: "fill_pixel gc (\<lambda>_. None) x y (int b) dy n ?t = store_pixel (int (b + unat x + n)) (g_foreground gc) ?t"
    by (simp add: fill_pixel_def u add.assoc)
  have k: "4 * (b + unat x + n) + 4 \<le> s_size ?t" using Suc.prems sz by simp
  have "same_shape s (store_pixel (int (b + unat x + n)) (g_foreground gc) ?t)"
    using IH same_shape_trans [OF _ store_pixel_shape] by blast
  then show ?case using IH store_pixel_inside [OF k, of "g_foreground gc"] by (auto simp: e)
qed auto

lemma fill_rows_words:
  assumes "unat x + n < 2 ^ 32" "unat (s_pitch s div 4) = w" "m = 0 \<or> 4 * (b + w * (m - 1) + unat x + n) \<le> s_size s"
    and t_def: "t = fill_rows m gc (\<lambda>_. None) x y n (int b) dy s"
  shows "word_at t j = (if \<exists>i < m. b + w * i + unat x \<le> j \<and> j < b + w * i + unat x + n then g_foreground gc else word_at s j) \<and>
    s_wild t = s_wild s \<and> same_shape s t"
  using assms(1-3) unfolding t_def
proof (induction m arbitrary: b dy s)
  case (Suc m)
  let ?s = "fold (fill_pixel gc (\<lambda>_. None) x y (int b) dy) [0..<n] s"
  have R: "word_at ?s j = (if b + unat x \<le> j \<and> j < b + unat x + n then g_foreground gc else word_at s j) \<and>
      s_wild ?s = s_wild s \<and> same_shape s ?s"
    by (rule fill_row [OF _ _ refl]) (use Suc.prems in auto)
  have sh: "s_pitch ?s = s_pitch s" "s_size ?s = s_size s" using R by (simp_all add: same_shape_def)
  let ?t = "fill_rows m gc (\<lambda>_. None) x y n (int (b + w)) (Suc dy) ?s"
  have "m = 0 \<or> 4 * (b + w + w * (m - 1) + unat x + n) \<le> s_size ?s"
    using Suc.prems(3) sh(2) by (cases m) (simp_all add: algebra_simps)
  from Suc.IH [OF Suc.prems(1) _ this] have IH:
    "word_at ?t j = (if \<exists>i < m. b + w + w * i + unat x \<le> j \<and> j < b + w + w * i + unat x + n then g_foreground gc else word_at ?s j) \<and>
      s_wild ?t = s_wild ?s \<and> same_shape ?s ?t" using sh Suc.prems(2) by simp
  have e: "fill_rows (Suc m) gc (\<lambda>_. None) x y n (int b) dy s = ?t" using sh Suc.prems(2) by simp
  have ex: "(\<exists>i < Suc m. b + w * i + unat x \<le> j \<and> j < b + w * i + unat x + n) \<longleftrightarrow>
      (b + unat x \<le> j \<and> j < b + unat x + n) \<or> (\<exists>i < m. b + w + w * i + unat x \<le> j \<and> j < b + w + w * i + unat x + n)"
    by (auto simp: less_Suc_eq_0_disj algebra_simps)
  have "same_shape s ?t" using IH R same_shape_trans by blast
  then show ?case using IH R unfolding e ex by auto
qed simp

text \<open>Positions and indices.\<close>

lemma row_interval:
  fixes w :: nat
  assumes "px < w" "X + n \<le> w"
  shows "w * q + X \<le> w * py + px \<and> w * py + px < w * q + X + n \<longleftrightarrow> py = q \<and> X \<le> px \<and> px < X + n"
proof -
  consider "py < q" | "py = q" | "q < py" by linarith
  then show ?thesis
  proof cases
    case 1
    then have "w * Suc py \<le> w * q" by (intro mult_le_mono2) simp
    then show ?thesis using 1 assms by simp
  next
    case 3
    then have "w * Suc q \<le> w * py" by (intro mult_le_mono2) simp
    then show ?thesis using 3 assms by simp
  qed simp
qed



section \<open>Lines\<close>

text \<open>A horizontal line between two columns is painted from the left edge of the drawable, of the right length
  and in one fixed colour, whatever the foreground is; and a window does not remember it as still to show.\<close>

theorem horizontal_line_misplaced:
  assumes ok: "surface_ok s" and y: "unat y < unat (s_h s)" and x: "unat x1 < unat x2" "unat x2 \<le> unat (s_w s)"
  shows "\<exists>t. drawLine gc x1 y x2 y s = Some (Success64, t) \<and> s_wild t = s_wild s \<and> s_dirty t = s_dirty s \<and>
    (\<forall>px py. px < unat (s_w s) \<and> py < unat (s_h s) \<longrightarrow>
       pixel t px py = (if py = unat y \<and> px < unat x2 - unat x1 then 0xFF00 else pixel s px py))"
proof -
  let ?w = "unat (s_w s)" and ?n = "unat x2 - unat x1"
  define t where "t = pixel_run ?n (int (?w * unat y)) (int 1) 0xFF00 s"
  note small = surface_okD(5,6) [OF ok]
  have "unat x1 < 2 ^ 31" "unat x2 < 2 ^ 31" "?w < 2 ^ 31" "unat y < 2 ^ 31" using small x y by simp_all
  note si = this [THEN sint_unat31] sint_unat31 [OF small(2)]
  have "?w * Suc (unat y) \<le> ?w * unat (s_h s)" using y by (intro mult_le_mono2) simp
  then have "4 * (?w * unat y + 1 * i) + 4 \<le> s_size s" if "i < ?n" for i
    using that x surface_okD(3) [OF ok] by simp
  from pixel_run_inside [OF this, where c = "0xFF00"]
  have R: "word_at t j = (if \<exists>i < ?n. j = ?w * unat y + i then 0xFF00 else word_at s j) \<and> s_wild t = s_wild s \<and> same_shape s t" for j
    by (simp add: t_def)
  have "x1 \<noteq> x2" "\<not> s_h s \<le>s y" using x(1) y si by (auto simp: word_sle_eq simp del: of_nat_unat)
  moreover have "nat (min (sint x2) (sint (s_w s)) - sint x1) = ?n" using x unfolding si by (simp del: of_nat_unat)
  ultimately have e: "drawLine gc x1 y x2 y s = Some (Success64, t)"
    using surface_okD(1) [OF ok] base_product(2) [OF ok, of y] y by (simp add: drawLine_def Let_def t_def del: of_nat_unat)
  have "s_dirty (pixel_run n k st c u) = s_dirty u" for n k st c u
    by (induction n arbitrary: k u) (simp_all add: store_pixel_def poke_def)
  then have "s_dirty t = s_dirty s" by (simp only: t_def)
  moreover have "pixel t px py = (if py = unat y \<and> px < ?n then 0xFF00 else pixel s px py)"
    if "px < ?w" "py < unat (s_h s)" for px py
  proof -
    have w: "s_w t = s_w s" using R by (simp add: same_shape_def)
    have "(\<exists>i < ?n. ?w * py + px = ?w * unat y + i) \<longleftrightarrow>
        ?w * unat y + 0 \<le> ?w * py + px \<and> ?w * py + px < ?w * unat y + 0 + ?n"
      by (auto intro!: exI [of _ "?w * py + px - ?w * unat y"])
    also have "\<dots> \<longleftrightarrow> py = unat y \<and> 0 \<le> px \<and> px < 0 + ?n" by (rule row_interval [OF that(1)]) (use x in simp)
    finally have "(\<exists>i < ?n. ?w * py + px = ?w * unat y + i) \<longleftrightarrow> py = unat y \<and> px < ?n" by simp
    then show ?thesis using R [of "?w * py + px"] by (simp add: pixel_def w)
  qed
  ultimately show ?thesis using e R by blast
qed

section \<open>Writes outside the buffer\<close>

lemma wild_stays [simp]:
  "s_wild s \<Longrightarrow> s_wild (poke a bs s)" "s_wild s \<Longrightarrow> s_wild (store_pixel k c s)" "s_wild s \<Longrightarrow> s_wild (fill_pixel gc st x y b dy dx s)"
  by (simp_all add: poke_def store_pixel_def fill_pixel_def Let_def split: option.split)

lemma wild_fill:
  "s_wild s \<Longrightarrow> s_wild (fold (fill_pixel gc st x y b dy) xs s)" "s_wild s \<Longrightarrow> s_wild (fill_rows n gc st x y w b' dy' s)"
proof -
  show f: "s_wild s \<Longrightarrow> s_wild (fold (fill_pixel gc st x y b dy) xs s)" for s b dy xs
    by (induction xs arbitrary: s) simp_all
  show "s_wild s \<Longrightarrow> s_wild (fill_rows n gc st x y w b' dy' s)"
    by (induction n arbitrary: s b' dy') (simp_all add: f)
qed

text \<open>C29: a fill that starts left of the drawable is not clipped there: it writes outside the host's buffer,
  whatever the drawable.\<close>

theorem fillRectangle_left_overflow:
  assumes ok: "surface_ok s" and solid: "g_tile gc = 0" "g_fill_style gc = FillSolid"
    and x: "x <s 0" and y: "unat y < unat (s_h s)" and ne: "width \<noteq> 0" "height \<noteq> 0"
  shows "\<exists>t. fillRectangle gc st x y width height s = Some (Success64, t) \<and> s_wild t"
proof -
  define n where "n = unat (if s_w s - x < width then s_w s - x else width)"
  define m where "m = unat (if s_h s - y < height then s_h s - y else height)"
  have ux: "2 ^ 31 \<le> unat x"
  proof (rule ccontr)
    assume "\<not> 2 ^ 31 \<le> unat x"
    then have "sint x = int (unat x)" by (intro sint_unat31) simp
    then show False using x by (simp add: word_sless_alt)
  qed
  have "s_w s - x \<noteq> 0" using ux surface_okD(5) [OF ok] by auto
  then have n0: "n \<noteq> 0" using ne(1) by (simp add: n_def unat_eq_0)
  have m0: "m \<noteq> 0" using ne(2) y by (auto simp: m_def unat_eq_0)
  let ?b = "int (unat (s_pitch s div 4 * y))"
  have "fill_pixel gc (\<lambda>_. None) x y ?b 0 0 s = s\<lparr>s_wild := True\<rparr>"
  proof -
    have "int (s_size s) < 4 * (?b + int (unat x)) + 4" using ux surface_okD(4) [OF ok] by (simp del: of_nat_unat)
    then have "store_pixel (?b + int (unat x)) c s = s\<lparr>s_wild := True\<rparr>" for c by (intro store_pixel_outside) simp
    then show ?thesis by (simp add: fill_pixel_def)
  qed
  then have "s_wild (fold (fill_pixel gc (\<lambda>_. None) x y ?b 0) [0..<n] s)"
    using n0 by (simp add: upt_conv_Cons wild_fill)
  then have "s_wild (fill_rows m gc (\<lambda>_. None) x y n ?b 0 s)"
    using m0 by (cases m) (simp_all add: wild_fill)
  then show ?thesis using solid surface_okD(1) [OF ok] by (simp add: fillRectangle_def Let_def n_def m_def)
qed




section \<open>A concrete drawable\<close>

text \<open>Four pixels by four, all zero, in a window.\<close>

definition surface0 :: surface where
  "surface0 = \<lparr>s_w = 4, s_h = 4, s_bpp = 32, s_pitch = 16, s_size = 64, s_data = (\<lambda>_. 0), s_wild = False, s_isWindow = True,
     s_dirty = None\<rparr>"

lemma surface0_ok: "surface_ok surface0" by (simp add: surface_ok_def surface0_def)

lemma surface0_shape: "s_w surface0 = 4" "s_h surface0 = 4" "s_isWindow surface0" "pixel surface0 x y = 0"
  by (simp_all add: surface0_def pixel_def word_at_def rd_def numeral_eq_Suc)

definition red :: XGCValues where "red = default_values\<lparr>g_foreground := 0xFF0000\<rparr>"

lemma red_values: "g_tile red = 0" "g_fill_style red = FillSolid" "g_foreground red = 0xFF0000"
  by (simp_all add: red_def default_values_def)


lemma horizontal_line_misplaced_witness:
  "\<exists>t. drawLine red 2 1 4 1 surface0 = Some (Success64, t) \<and> pixel t 0 1 = 0xFF00 \<and> pixel t 2 1 = 0"
  using horizontal_line_misplaced [OF surface0_ok, of 1 2 4 red] by (auto simp: surface0_shape)

lemma fillRectangle_left_overflow_witness:
  "\<exists>t. fillRectangle red (\<lambda>_. None) (- 1) 0 2 2 surface0 = Some (Success64, t) \<and> s_wild t"
  using fillRectangle_left_overflow [OF surface0_ok red_values(1,2), of "- 1" 0 2 2 "\<lambda>_. None"]
  by (simp add: surface0_shape word_sless_alt)

end
