(* ===== verification/SurfaceImages.thy ===== *)
theory SurfaceImages
  imports SurfaceDrawing
begin

text \<open>
  Transfers of pixels into a drawable (\<^verbatim>\<open>source/x11/xdrawable.cpp\<close>): an image put into a drawable, the
  agreement of the two ways the 32-bit lane blends a pixel, and the box a window remembers to show.
\<close>

section \<open>Putting an image\<close>

text \<open>The pixel of an image whose rows are \<^verbatim>\<open>stride\<close> bytes apart.\<close>

definition image_pixel :: "u8 list \<Rightarrow> nat \<Rightarrow> nat \<Rightarrow> nat \<Rightarrow> u32" where
  "image_pixel src stride x y = le_word (take 4 (drop (stride * y + 4 * x) src))"

lemma poke_words:
  assumes "4 * k + length bs \<le> s_size s" "length bs = 4 * n"
  shows "word_at (poke (int (4 * k)) bs s) j = (if k \<le> j \<and> j < k + n then le_word (take 4 (drop (4 * (j - k)) bs)) else word_at s j) \<and>
    s_wild (poke (int (4 * k)) bs s) = s_wild s"
proof -
  have p: "poke (int (4 * k)) bs s = s\<lparr>s_data := wr (s_data s) (4 * k) bs\<rparr>"
    using assms(1) by (simp add: poke_def nat_mult_distrib)
  show ?thesis
  proof (cases "k \<le> j \<and> j < k + n")
    case True
    then have "rd (wr (s_data s) (4 * k) bs) (4 * j) 4 = take 4 (drop (4 * j - 4 * k) bs)"
      using assms(2) by (intro rd_wr_inside) auto
    then show ?thesis using True unfolding p word_at_def by (simp add: diff_mult_distrib2)
  next
    case False
    then have "4 * j + 4 \<le> 4 * k \<or> 4 * k + length bs \<le> 4 * j" using assms(2) by auto
    then have "rd (wr (s_data s) (4 * k) bs) (4 * j) 4 = rd (s_data s) (4 * j) 4" by (rule rd_wr_other)
    then show ?thesis using False unfolding p word_at_def by auto
  qed
qed

lemma put_rows_words:
  assumes "unat (s_pitch s) = 4 * w" "m = 0 \<or> 4 * (b + w * (m - 1) + n) \<le> s_size s" "m = 0 \<or> off + stride * (m - 1) + 4 * n \<le> length src"
  shows "fst (put_rows m src stride (4 * n) off (int (4 * b)) s) = None \<and>
    (\<forall>j. (n \<le> w \<longrightarrow> word_at (snd (put_rows m src stride (4 * n) off (int (4 * b)) s)) j =
       (if \<exists>i < m. b + w * i \<le> j \<and> j < b + w * i + n
        then le_word (take 4 (drop (off + stride * ((j - b) div w) + 4 * ((j - b) mod w)) src)) else word_at s j))) \<and>
    s_wild (snd (put_rows m src stride (4 * n) off (int (4 * b)) s)) = s_wild s \<and>
    same_shape s (snd (put_rows m src stride (4 * n) off (int (4 * b)) s))"
  using assms
proof (induction m arbitrary: b off s)
  case (Suc m)
  let ?bs = "take (4 * n) (drop off src)" and ?s = "poke (int (4 * b)) (take (4 * n) (drop off src)) s"
  have len: "length ?bs = 4 * n" using Suc.prems(3) by simp
  have fit: "4 * b + length ?bs \<le> s_size s" using Suc.prems(2) len by simp
  have sh: "s_pitch ?s = s_pitch s" "s_size ?s = s_size s" using same_shape_poke [of s "int (4 * b)" ?bs] by (simp_all only: same_shape_def)
  note P = poke_words [OF fit len]
  let ?r = "put_rows m src stride (4 * n) (off + stride) (int (4 * (b + w))) ?s"
  have e: "put_rows (Suc m) src stride (4 * n) off (int (4 * b)) s = ?r"
    using Suc.prems(1,3) sh by (simp add: algebra_simps)
  have "m = 0 \<or> 4 * (b + w + w * (m - 1) + n) \<le> s_size ?s" "m = 0 \<or> off + stride + stride * (m - 1) + 4 * n \<le> length src"
    using Suc.prems(2,3) sh by (cases m; simp add: algebra_simps)+
  from Suc.IH [OF _ this] have IH: "fst ?r = None" "s_wild (snd ?r) = s_wild ?s" "same_shape ?s (snd ?r)"
    "\<And>j. n \<le> w \<Longrightarrow> word_at (snd ?r) j = (if \<exists>i < m. b + w + w * i \<le> j \<and> j < b + w + w * i + n
        then le_word (take 4 (drop (off + stride + stride * ((j - (b + w)) div w) + 4 * ((j - (b + w)) mod w)) src)) else word_at ?s j)"
    using Suc.prems(1) sh by auto
  have "word_at (snd ?r) j = (if \<exists>i < Suc m. b + w * i \<le> j \<and> j < b + w * i + n
      then le_word (take 4 (drop (off + stride * ((j - b) div w) + 4 * ((j - b) mod w)) src)) else word_at s j)" if nw: "n \<le> w" for j
  proof -
    have ex: "(\<exists>i < Suc m. b + w * i \<le> j \<and> j < b + w * i + n) \<longleftrightarrow>
        (b \<le> j \<and> j < b + n) \<or> (\<exists>i < m. b + w + w * i \<le> j \<and> j < b + w + w * i + n)"
      by (auto simp: less_Suc_eq_0_disj algebra_simps)
    show ?thesis
    proof (cases "\<exists>i < m. b + w + w * i \<le> j \<and> j < b + w + w * i + n")
      case True
      then have "b + w \<le> j" "0 < w" using nw by auto
      then have "(j - b) div w = Suc ((j - (b + w)) div w)" "(j - b) mod w = (j - (b + w)) mod w"
        by (simp_all add: le_div_geq le_mod_geq)
      then show ?thesis using IH(4) [OF nw, of j] True unfolding ex by (simp add: algebra_simps)
    next
      case False
      have r: "word_at (snd ?r) j = word_at ?s j" using IH(4) [OF nw, of j] unfolding if_not_P [OF False] .
      show ?thesis
      proof (cases "b \<le> j \<and> j < b + n")
        case True
        then have "j - b < w" using nw by linarith
        then have "(j - b) div w = 0" "(j - b) mod w = j - b" by simp_all
        moreover have "take 4 (drop (4 * (j - b)) ?bs) = take 4 (drop (off + 4 * (j - b)) src)"
        proof -
          have "4 \<le> 4 * n - 4 * (j - b)" using True by auto
          then show ?thesis by (simp add: drop_take add.commute)
        qed
        ultimately show ?thesis using True P [THEN conjunct1, of j] unfolding r ex by simp
      next
        case f: False
        then show ?thesis using False P [THEN conjunct1, of j] unfolding r ex by auto
      qed
    qed
  qed
  moreover have "same_shape s (snd ?r)" using IH(3) same_shape_trans same_shape_poke by blast
  ultimately show ?case using IH(1,2) P unfolding e by simp
qed simp


definition plain_copy :: "XGCValues option \<Rightarrow> bool" where
  "plain_copy gc \<longleftrightarrow> (case gc of None \<Rightarrow> True | Some v \<Rightarrow> g_function v = GXcopy \<and> g_plane_mask v = 0xFFFFFFFF)"

lemma clip_width_inside:
  assumes "unat d \<le> unat w" "unat w < 2 ^ 31" "unat d + unat n < 2 ^ 32"
  shows "\<exists>n'. clip_width w d n = Some n' \<and> unat n' = min (unat n) (unat w - unat d)"
proof -
  have s: "unat (d + n) = unat d + unat n" using assms(3) by (subst unat_add_lem [symmetric]) simp
  have "unat d < 2 ^ 31" using assms by linarith
  then have "\<not> w <s d" using assms(1) sint_unat31 [OF assms(2)] sint_unat31 [of d] by (simp add: word_sless_alt del: of_nat_unat)
  moreover have "unat (w - d) = unat w - unat d" using assms(1) by (simp add: unat_sub word_le_nat_alt)
  ultimately show ?thesis using s by (auto simp: clip_width_def word_less_nat_alt min_def)
qed

lemma clip_height_inside:
  assumes "unat d \<le> unat h" "unat h < 2 ^ 31" "unat d + unat n < 2 ^ 31"
  shows "\<exists>n'. clip_height h d n = Some n' \<and> unat n' = min (unat n) (unat h - unat d)"
proof -
  have s: "unat (d + n) = unat d + unat n" using assms(3) by (subst unat_add_lem [symmetric]) simp
  have "unat d < 2 ^ 31" using assms by linarith
  then have "sint (d + n) = int (unat d + unat n)" "sint d = int (unat d)" "sint h = int (unat h)"
    using sint_unat31 [of "d + n"] sint_unat31 [of d] sint_unat31 [OF assms(2)] assms(3) unfolding s by simp_all
  moreover have "unat (h - d) = unat h - unat d" using assms(1) by (simp add: unat_sub word_le_nat_alt)
  ultimately show ?thesis using s assms(1) by (auto simp: clip_height_def word_sless_alt min_def simp del: of_nat_unat)
qed

lemma column32:
  assumes "unat x < 2 ^ 26"
  shows "column 32 x = int (4 * unat x)" "unat (scast (32 * x + 7 :: c_int) :: u64) div 8 = 4 * unat x"
proof -
  have u: "unat (32 * x + 7) = 32 * unat x + 7"
    using assms by (subst unat_word_ariths, subst unat_word_ariths) simp
  then have s: "sint (32 * x + 7) = int (32 * unat x + 7)" using sint_unat31 [of "32 * x + 7"] assms by simp
  have "int (32 * unat x + 7) sdiv 8 = int (32 * unat x + 7) div 8" by (simp add: signed_divide_int_def del: of_nat_unat)
  also have "\<dots> = int (4 * unat x)" by (simp del: of_nat_unat)
  finally show "column 32 x = int (4 * unat x)" unfolding column_def s .
  have "(scast (32 * x + 7) :: u64) = of_int (sint (32 * x + 7))" by simp
  also have "\<dots> = of_nat (32 * unat x + 7)" unfolding s by (rule of_int_of_nat_eq)
  finally have e: "(scast (32 * x + 7) :: u64) = of_nat (32 * unat x + 7)" .
  have "unat (of_nat (32 * unat x + 7) :: u64) = 32 * unat x + 7"
    using assms by (subst unat_of_nat) (rule mod_less, simp)
  then have "unat (scast (32 * x + 7) :: u64) = 32 * unat x + 7" unfolding e .
  then show "unat (scast (32 * x + 7 :: c_int) :: u64) div 8 = 4 * unat x" by simp
qed

lemma line32: "unat n < 2 ^ 27 \<Longrightarrow> unat ((32 * n + 7) div 8 :: u32) = 4 * unat n"
proof -
  assume n: "unat n < 2 ^ 27"
  then have "unat (32 * n + 7) = 32 * unat n + 7" by (subst unat_word_ariths, subst unat_word_ariths) simp
  then show ?thesis by (simp add: unat_div)
qed


text \<open>Where the words of the rows land.\<close>

lemma placed_pixel:
  assumes W: "\<And>j. word_at t j = (if \<exists>i < m. w * Y + X + w * i \<le> j \<and> j < w * Y + X + w * i + n
      then le_word (take 4 (drop (st * sy + 4 * sx + st * ((j - (w * Y + X)) div w) + 4 * ((j - (w * Y + X)) mod w)) src))
      else word_at s j)"
    and w: "unat (s_w t) = w" "unat (s_w s) = w" and px: "px < w" and n: "X + n \<le> w"
  shows "pixel t px py = (if X \<le> px \<and> px < X + n \<and> Y \<le> py \<and> py < Y + m
    then image_pixel src st (sx + (px - X)) (sy + (py - Y)) else pixel s px py)"
proof -
  let ?j = "w * py + px" and ?b = "w * Y + X"
  have r: "?b + w * i \<le> ?j \<and> ?j < ?b + w * i + n \<longleftrightarrow> py = Y + i \<and> X \<le> px \<and> px < X + n" for i
    using row_interval [OF px n, of "Y + i" py] by (simp add: algebra_simps)
  have c: "(\<exists>i < m. py = Y + i \<and> X \<le> px \<and> px < X + n) \<longleftrightarrow> X \<le> px \<and> px < X + n \<and> Y \<le> py \<and> py < Y + m"
    by (auto intro!: exI [of _ "py - Y"])
  show ?thesis
  proof (cases "X \<le> px \<and> px < X + n \<and> Y \<le> py \<and> py < Y + m")
    case True
    have "w * Y \<le> w * py" using True by (intro mult_le_mono2) simp
    then have "?j - ?b = w * (py - Y) + (px - X)" using True by (simp add: diff_mult_distrib2)
    then have dm: "(?j - ?b) div w = py - Y" "(?j - ?b) mod w = px - X" using px by simp_all
    have idx: "st * sy + 4 * sx + st * (py - Y) + 4 * (px - X) = st * (sy + (py - Y)) + 4 * (sx + (px - X))"
      by (simp only: distrib_left ac_simps)
    show ?thesis using W [of ?j] unfolding pixel_def w r c image_pixel_def dm idx if_P [OF True] .
  next
    case False
    show ?thesis using W [of ?j] unfolding pixel_def w r c if_not_P [OF False] .
  qed
qed

text \<open>C30: a plain copy of an image to a place in the drawable: every pixel of the target rectangle that lies in the
  drawable is the pixel of the image, every other pixel is what it was, no byte outside the buffer is written and
  a window remembers what changed.\<close>

theorem copyHostImageData_pixels:
  assumes ok: "surface_ok s" and plain: "plain_copy gc" and src: "src \<noteq> []"
    and sx: "unat src_x < 2 ^ 26" and sy: "unat src_y < 2 ^ 31"
    and dx: "unat dst_x \<le> unat (s_w s)" and dy: "unat dst_y \<le> unat (s_h s)"
    and size: "unat width < 2 ^ 31" "unat dst_y + unat height < 2 ^ 31"
    and enough: "\<And>i. i < unat height \<Longrightarrow>
      unat stride * (unat src_y + i) + 4 * (unat src_x + unat width) \<le> length src"
  shows "\<exists>t. copyHostImageData gc src stride 32 src_x src_y dst_x dst_y width height s = (Success64, t) \<and>
    s_wild t = s_wild s \<and> same_shape s t \<and>
    (\<forall>px py. px < unat (s_w s) \<and> py < unat (s_h s) \<longrightarrow>
       pixel t px py =
         (if unat dst_x \<le> px \<and> px < unat dst_x + unat width \<and> unat dst_y \<le> py \<and> py < unat dst_y + unat height
          then image_pixel src (unat stride) (unat src_x + (px - unat dst_x)) (unat src_y + (py - unat dst_y))
          else pixel s px py) \<and>
       (s_isWindow s \<and> pixel t px py \<noteq> pixel s px py \<longrightarrow> in_box (s_dirty t) px py))"
proof -
  let ?w = "unat (s_w s)" and ?h = "unat (s_h s)" and ?b = "unat (s_w s) * unat dst_y + unat dst_x" and ?st = "unat stride"
  let ?off = "?st * unat src_y + 4 * unat src_x"
  have lim: "?w < 2 ^ 31" "?h < 2 ^ 31" using surface_okD(5,6) [OF ok] by simp_all
  have wsum: "unat dst_x + unat width < 2 ^ 32" using dx size(1) lim(1) by simp
  obtain width' where w': "clip_width (s_w s) dst_x width = Some width'" "unat width' = min (unat width) (?w - unat dst_x)"
    using clip_width_inside [OF dx lim(1) wsum] by blast
  obtain height' where h': "clip_height (s_h s) dst_y height = Some height'" "unat height' = min (unat height) (?h - unat dst_y)"
    using clip_height_inside [OF dy lim(2) size(2)] by blast
  let ?n = "unat width'" and ?m = "unat height'"
  have small: "?n < 2 ^ 27" "unat dst_x < 2 ^ 26" using w'(2) dx surface_okD(5) [OF ok] by simp_all
  note line = line32 [OF small(1)] and dcol = column32(1) [OF small(2)] and scol = column32(2) [OF sx]
  have bpp: "s_bpp s = 32" and pitch: "unat (s_pitch s) = 4 * ?w" by (rule surface_okD [OF ok])+
  have neg: "\<not> (src = [] \<or> src_x <s 0 \<or> src_y <s 0 \<or> dst_x <s 0 \<or> dst_y <s 0)"
  proof -
    have "unat src_x < 2 ^ 31" "unat dst_x < 2 ^ 31" "unat dst_y < 2 ^ 31" using sx small(2) size(2) by simp_all
    then show ?thesis using src sint_unat31 [of src_x] sint_unat31 [of src_y] sint_unat31 [of dst_x] sint_unat31 [of dst_y] sy
      by (simp add: word_sless_alt del: of_nat_unat)
  qed
  have dst: "int (unat (s_pitch s * dst_y)) + column 32 dst_x = int (4 * ?b)"
    unfolding base_product(3) [OF ok dy] dcol by simp
  let ?R = "put_rows ?m src ?st (4 * ?n) ?off (int (4 * ?b)) s"
  have fit: "?m = 0 \<or> 4 * (?b + ?w * (?m - 1) + ?n) \<le> s_size s"
  proof (cases "?m = 0")
    case False
    have "?w * unat dst_y + ?w * (?m - 1) + ?w = ?w * (unat dst_y + ?m)" using False by (cases ?m) (simp_all add: algebra_simps)
    also have "\<dots> \<le> ?w * ?h" using h'(2) dy by (intro mult_le_mono2) simp
    finally have "?w * unat dst_y + ?w * (?m - 1) + (unat dst_x + ?n) \<le> ?w * ?h" using w'(2) dx by linarith
    then show ?thesis using surface_okD(3) [OF ok] by simp
  qed simp
  have rows: "?m = 0 \<or> ?off + ?st * (?m - 1) + 4 * ?n \<le> length src"
  proof (cases "?m = 0")
    case False
    then have "?m - 1 < unat height" using h'(2) by linarith
    have "?n \<le> unat width" using w'(2) by simp
    then have "?off + ?st * (?m - 1) + 4 * ?n \<le> ?st * (unat src_y + (?m - 1)) + 4 * (unat src_x + unat width)"
      unfolding distrib_left by simp
    then show ?thesis using enough [OF \<open>?m - 1 < unat height\<close>] by (intro disjI2) (rule le_trans)
  qed simp
  note PR = put_rows_words [OF pitch fit rows]
  obtain t1 where t1: "?R = (None, t1)" using PR by (cases ?R) auto
  have nw: "?n \<le> ?w" using w'(2) by simp
  have W: "word_at t1 j = (if \<exists>i < ?m. ?b + ?w * i \<le> j \<and> j < ?b + ?w * i + ?n
      then le_word (take 4 (drop (?off + ?st * ((j - ?b) div ?w) + 4 * ((j - ?b) mod ?w)) src)) else word_at s j)"
    and keep: "s_wild t1 = s_wild s" "same_shape s t1" for j
    using PR nw unfolding t1 by simp_all
  have "\<exists>v. gc = Some v \<and> g_function v = GXcopy \<and> g_plane_mask v = 0xFFFFFFFF \<or> gc = None"
    using plain by (auto simp: plain_copy_def split: option.splits)
  then have e: "copyHostImageData gc src stride 32 src_x src_y dst_x dst_y width height s =
      (Success64, setDirtyRect dst_x dst_y width' height' t1)"
    using neg t1 unfolding copyHostImageData_def bpp w'(1) h'(1) option.case Let_def dst line scol by auto
  have sh: "s_w t1 = s_w s" "s_h t1 = s_h s" "s_isWindow t1 = s_isWindow s" using keep(2) by (simp_all add: same_shape_def)
  have fitw: "unat dst_x + ?n \<le> ?w" "unat dst_y + ?m \<le> ?h" using w'(2) h'(2) dx dy by simp_all
  have px: "pixel t1 px py = (if unat dst_x \<le> px \<and> px < unat dst_x + ?n \<and> unat dst_y \<le> py \<and> py < unat dst_y + ?m
      then image_pixel src ?st (unat src_x + (px - unat dst_x)) (unat src_y + (py - unat dst_y)) else pixel s px py)"
    if "px < ?w" for px py
    by (rule placed_pixel [OF W _ _ that fitw(1)]) (simp_all add: sh)
  have box: "in_box (s_dirty (setDirtyRect dst_x dst_y width' height' t1)) px py"
    if "px < ?w" "s_isWindow s" "pixel t1 px py \<noteq> pixel s px py" for px py
    using px [OF that(1), of py] that(3) fitw lim that(2)
    by (intro dirty_covers) (auto simp: sh split: if_splits)
  have px': "pixel t1 px py = (if unat dst_x \<le> px \<and> px < unat dst_x + unat width \<and> unat dst_y \<le> py \<and> py < unat dst_y + unat height
      then image_pixel src ?st (unat src_x + (px - unat dst_x)) (unat src_y + (py - unat dst_y)) else pixel s px py)"
    if "px < ?w" "py < ?h" for px py
  proof -
    have "(unat dst_x \<le> px \<and> px < unat dst_x + ?n \<and> unat dst_y \<le> py \<and> py < unat dst_y + ?m) \<longleftrightarrow>
        (unat dst_x \<le> px \<and> px < unat dst_x + unat width \<and> unat dst_y \<le> py \<and> py < unat dst_y + unat height)"
      unfolding w'(2) h'(2) using that by auto
    then show ?thesis unfolding px [OF that(1)] by (simp only:)
  qed
  have "same_shape s (setDirtyRect a b c d t1)" for a b c d using keep(2) same_shape_trans same_shape_dirty by blast
  then show ?thesis unfolding e using keep(1) px' box
    by (intro exI [of _ "setDirtyRect dst_x dst_y width' height' t1"]) (simp only: dirty_pixel dirty_data, blast)
qed

section \<open>Blending byte by byte\<close>

lemma raster_byte:
  "(ucast (drop_bit n (x11ApplyRasterOperation s d f m)) :: u8) =
     ucast (x11ApplyRasterOperation (ucast (ucast (drop_bit n s) :: u8)) (ucast (ucast (drop_bit n d) :: u8)) f
       (ucast (ucast (drop_bit n m) :: u8)))" if "n \<le> 24"
proof (rule bit_word_eqI)
  fix k assume k: "k < LENGTH(8)"
  then have "n + k < 32" "k < 32" using that by simp_all
  then show "bit (ucast (drop_bit n (x11ApplyRasterOperation s d f m)) :: u8) k =
      bit (ucast (x11ApplyRasterOperation (ucast (ucast (drop_bit n s) :: u8)) (ucast (ucast (drop_bit n d) :: u8)) f
       (ucast (ucast (drop_bit n m) :: u8))) :: u8) k"
    using k by (simp add: x11ApplyRasterOperation_def Let_def bit_simps all_ones)
qed

lemma byte_of_word:
  "k < 4 \<Longrightarrow> length bs = 4 \<Longrightarrow> (ucast (drop_bit (8 * k) (le_word bs :: u32)) :: u8) = bs ! k"
  by (rule bit_word_eqI) (simp add: bit_simps bit_le_word)

lemma wr_singles:
  "wr (wr (wr (wr m a [b0]) (a + 1) [b1]) (a + 2) [b2]) (a + 3) [b3] = wr m a [b0, b1, b2, b3]"
  by (rule ext) (auto simp: wr_def nth_Cons' less_Suc_eq)


text \<open>The two ways of the 32-bit lane to blend a pixel of 32 bits agree, as the comment in the code claims:
  applying the operation to the four bytes of the pixel, each with its byte of the plane mask, is applying it to the
  word.\<close>

theorem raster_bytewise:
  assumes "0 \<le> dst" "dst + 4 * int x + 4 \<le> int (s_size s)"
  shows "blend_bytes guest f m src dst 4 x s = blend_pixel guest f m src dst x s"
proof -
  obtain a where a: "dst + 4 * int x = int a" using assms(1) by (metis add_nonneg_nonneg mult_nonneg_nonneg nonneg_int_cases of_nat_0_le_iff zero_le_numeral)
  have size: "a + 4 \<le> s_size s" using assms(2) a by linarith
  define v where "v k = (ucast (x11ApplyRasterOperation (ucast (guest (src + of_nat x * 4 + of_nat k))) (ucast (s_data s (a + k))) f
      (ucast (ucast (drop_bit (8 * k) m) :: u8))) :: u8)" for k
  have ad: "dst + int (x * 4 + k) = int (a + k)" for k using a by simp
  have B: "blend_byte guest f m src dst 4 x k u = u\<lparr>s_data := wr (s_data u) (a + k) [v k]\<rparr>"
    if "k < 4" "s_size u = s_size s" "s_data u (a + k) = s_data s (a + k)" for k u
    using that size unfolding blend_byte_def ad
    by (simp add: peek_def poke_def rd_def v_def nat_add_distrib Let_def)
  have "blend_bytes guest f m src dst 4 x s =
      s\<lparr>s_data := wr (wr (wr (wr (s_data s) a [v 0]) (a + 1) [v 1]) (a + 2) [v 2]) (a + 3) [v 3]\<rparr>"
  proof -
    have l: "[0..<4] = [0, 1, 2, 3 :: nat]" by (simp add: upt_rec)
    show ?thesis unfolding blend_bytes_def l
      by (simp add: B [of 0 s, simplified] B [of 1, simplified] B [of 2, simplified] B [of 3, simplified])
  qed
  moreover have "blend_pixel guest f m src dst x s = s\<lparr>s_data := wr (s_data s) a [v 0, v 1, v 2, v 3]\<rparr>"
  proof -
    let ?r = "x11ApplyRasterOperation (le_word (rd32 guest (src + of_nat x * 4) 4)) (le_word (rd (s_data s) a 4)) f m :: u32"
    have "(ucast (drop_bit (8 * k) ?r) :: u8) = v k" if "k < 4" for k
      using that raster_byte [of "8 * k" "le_word (rd32 guest (src + of_nat x * 4) 4)" "le_word (rd (s_data s) a 4)" f m]
      by (simp add: byte_of_word rd32_def v_def)
    from this [of 0] this [of 1] this [of 2] this [of 3] have "le_bytes 4 ?r = [v 0, v 1, v 2, v 3]"
      by (simp add: numeral_eq_Suc)
    then show ?thesis using size unfolding blend_pixel_def a by (simp add: peek_def poke_def)
  qed
  ultimately show ?thesis unfolding wr_singles by simp
qed


section \<open>A concrete image\<close>

text \<open>Two rows of two pixels: 1, 2 and 3, 4.\<close>

definition image0 :: "u8 list" where
  "image0 = concat (map (le_bytes 4) [1, 2, 3, 4 :: u32])"

lemma copyHostImageData_pixels_witness:
  "\<exists>t. copyHostImageData None image0 8 32 1 0 3 1 1 2 surface0 = (Success64, t) \<and> pixel t 3 1 = 2 \<and> pixel t 3 2 = 4 \<and> pixel t 2 1 = 0"
proof -
  have i: "image0 \<noteq> []" "length image0 = 16" by (simp_all add: image0_def numeral_eq_Suc)
  have "plain_copy None" "unat (1 :: u32) < 2 ^ 26" "unat (0 :: u32) < 2 ^ 31" "unat (3 :: u32) \<le> unat (s_w surface0)"
    "unat (1 :: u32) \<le> unat (s_h surface0)" "unat (1 :: u32) < 2 ^ 31" "unat (1 :: u32) + unat (2 :: u32) < 2 ^ 31"
    by (simp_all add: plain_copy_def surface0_shape)
  note c = copyHostImageData_pixels [OF surface0_ok this(1) i(1) this(2-7), of 8]
  have "unat (8 :: u32) * (unat (0 :: u32) + k) + 4 * (unat (1 :: u32) + unat (1 :: u32)) \<le> length image0"
    if "k < unat (2 :: u32)" for k using that i(2) by simp
  from c [OF this] show ?thesis by (rule ex_forward) (simp_all add: surface0_shape image_pixel_def image0_def)
qed

lemma raster_bytewise_witness:
  "blend_bytes (\<lambda>a. ucast a) GXxor 0xFF00FF 16 4 4 2 surface0 = blend_pixel (\<lambda>a. ucast a) GXxor 0xFF00FF 16 4 2 surface0"
  by (rule raster_bytewise) (simp_all add: surface0_def)

end
