(* ===== verification/KeyLookups.thy ===== *)
theory KeyLookups
  imports HostInput
begin

text \<open>
  What the lookups of the keyboard give for the keys of the table: which key a keysym names, and the text of a key
  event.  Two rows are exceptions, and the theorems say how: the rows that share the key code 0x4c, and the key 2,
  whose shifted keysym is that of the key 7.
\<close>

section \<open>Which row a lookup finds\<close>

text \<open>A value that occurs once comes from one row.\<close>

lemma unique_source:
  "distinct (concat (map f ks)) \<Longrightarrow> k \<in> set ks \<Longrightarrow> k' \<in> set ks \<Longrightarrow> x \<in> set (f k) \<Longrightarrow> x \<in> set (f k') \<Longrightarrow> k = k'"
  by (induction ks) auto

text \<open>The keysyms that name one row only.\<close>

definition own_syms :: "KeyInfo \<Rightarrow> u16 list" where
  "own_syms k = filter (\<lambda>x. x \<noteq> 0 \<and> x \<noteq> XK_ampersand) (remdups [ki_keySym k, ki_keySymWithShift k, ki_keySymWithNum k])"

lemma codes_distinct: "distinct (concat (map (\<lambda>k. [unat (ki_keyCode k)]) (filter (\<lambda>k. ki_keyCode k \<noteq> 0x4c) usKeyBoard)))"
  by (simp add: usKeyBoard_def kbd_key_def)
lemma scans_distinct: "distinct (concat (map (\<lambda>k. [unat (ki_sdlScanCode k)]) usKeyBoard))"
  by (simp add: usKeyBoard_def kbd_key_def)
lemma syms_distinct: "distinct (concat (map (\<lambda>k. map unat (own_syms k)) usKeyBoard))"
  by (simp add: usKeyBoard_def kbd_key_def own_syms_def)

lemma last_with_only:
  assumes "k \<in> set usKeyBoard" "test k" "\<And>k'. k' \<in> set usKeyBoard \<Longrightarrow> test k' \<Longrightarrow> k' = k"
  shows "last_with test = Some k"
proof -
  obtain k' where k': "last_with test = Some k'"
    using assms(1,2) by (cases "last_with test") (auto simp: last_with_def find_None_iff)
  then have "k' \<in> set (rev usKeyBoard)" "test k'" by (auto simp: last_with_def find_Some_iff simp del: set_rev)
  with assms(3) k' show ?thesis by simp
qed

lemma last_with_code:
  "k \<in> set usKeyBoard \<Longrightarrow> ki_keyCode k \<noteq> 0x4c \<Longrightarrow> last_with (\<lambda>q. ki_keyCode q = ki_keyCode k) = Some k"
  by (rule last_with_only) (auto intro: unique_source [OF codes_distinct])

lemma last_with_scan:
  "k \<in> set usKeyBoard \<Longrightarrow> last_with (\<lambda>q. ki_sdlScanCode q = ki_sdlScanCode k) = Some k"
  by (rule last_with_only) (auto intro: unique_source [OF scans_distinct])

lemma last_with_sym:
  assumes "k \<in> set usKeyBoard" "names_key x k" "x \<noteq> 0" "x \<noteq> XK_ampersand"
  shows "last_with (names_key x) = Some k"
proof (rule last_with_only [where test = "names_key x", OF assms(1,2)])
  have own: "unat x \<in> set (map unat (own_syms q))" if "names_key x q" for q
    using that assms(3,4) by (auto simp: own_syms_def names_key_def)
  show "q = k" if "q \<in> set usKeyBoard" "names_key x q" for q
    using unique_source [OF syms_distinct that(1) assms(1) own [OF that(2)] own [OF assms(2)]] .
qed

lemma last_with_ampersand: "last_with (names_key XK_ampersand) = Some (kbd_key 0x10 0x08 SDL_SCANCODE_7 XK_7 XK_ampersand 0 (Some [55]) (Some [38]) None)"
  by (simp add: last_with_def usKeyBoard_def kbd_key_def names_key_def)

lemma last_with_shared: "last_with (\<lambda>q. ki_keyCode q = 0x4c) = Some (kbd_key 0x4c 0x45 SDL_SCANCODE_PRINTSCREEN XK_Print XK_Print 0 None None None)"
  by (simp add: last_with_def usKeyBoard_def kbd_key_def)

lemma narrow16: "ucast (ucast (x :: u16) :: u32) = x" 
  by (rule ucast_up_ucast_id) (simp add: is_up)

lemma widen16_eq: "(ucast (a :: u16) :: u32) = ucast b \<longleftrightarrow> a = b" by (metis narrow16)

section \<open>Key codes and keysyms\<close>

text \<open>C37: on the keyboard that initialisation builds, with any hash function and any allocator that grants what it asks
  for, a scan code gives the key code of its row, a key code its keysyms on every level and each keysym its key code
  again, for every row; except that the key code 0x4c, shared by F10 and Print, reads as Print, and that the ampersand
  is always the key 7, although the table also names it as the shifted key 2.\<close>

theorem keysym_roundtrip:
  assumes "XKeyboard_init alloc hash = Some (Inr kb)" "k \<in> set usKeyBoard"
  shows "kb_sdl2x11 hash kb (ucast (ki_sdlScanCode k)) = ucast (ki_keyCode k) \<and>
    (ki_keyCode k \<noteq> 0x4c \<longrightarrow>
       kb_keycodeToKeysym hash kb (ucast (ki_keyCode k)) 0 = ucast (ki_keySym k) \<and>
       kb_keycodeToKeysym hash kb (ucast (ki_keyCode k)) 1 = ucast (ki_keySymWithShift k) \<and>
       kb_keycodeToKeysym hash kb (ucast (ki_keyCode k)) 5 = ucast (ki_keySymWithNum k)) \<and>
    (\<forall>x \<in> {ki_keySym k, ki_keySymWithShift k, ki_keySymWithNum k} - {0, XK_ampersand}.
       kb_keysymToKeycode hash kb (ucast x) = ucast (ki_keyCode k)) \<and>
    kb_keysymToKeycode hash kb (ucast XK_ampersand) = 0x10 \<and> kb_keycodeToKeysym hash kb 0x4c 0 = ucast XK_Print"
proof -
  note get = init_tables [OF assms(1)]
  have "last_with (names_key x) = Some k"
    if "x \<in> {ki_keySym k, ki_keySymWithShift k, ki_keySymWithNum k} - {0, XK_ampersand}" for x
    by (rule last_with_sym [OF assms(2)]) (use that in \<open>auto simp: names_key_def\<close>)
  then show ?thesis
    using last_with_code [OF assms(2)] last_with_scan [OF assms(2)] last_with_ampersand last_with_shared
    by (simp add: kb_sdl2x11_def kb_keycodeToKeysym_def kb_keysymToKeycode_def get narrow16 kbd_key_def)
qed

section \<open>The text of a key event\<close>

text \<open>The text of a key, as the keysyms its event is read through give it.\<close>

definition typed :: "KeyInfo \<Rightarrow> bool \<Rightarrow> u8 list option" where
  "typed k shift = (if shift then if ki_keyCode k = 0x0b then Some [38] else ki_chShift k else ki_ch k)"

lemma texts_of_keys: "list_all (\<lambda>k. 
   (ki_keySym k = 0 \<longrightarrow> ki_ch k = None) \<and> (ki_keySymWithShift k = 0 \<longrightarrow> ki_chShift k = None) \<and>
   ki_keySym k \<noteq> XK_ampersand \<and> (ki_keySym k = ki_keySymWithShift k \<longrightarrow> ki_ch k = ki_chShift k) \<and>
   (ki_keySymWithShift k = XK_ampersand \<longrightarrow> ki_keyCode k = 0x0b \<or> ki_chShift k = Some [38]) \<and> 
   (ki_keyCode k = 0x0b \<longrightarrow> ki_keySymWithShift k = XK_ampersand) \<and>
   (\<forall>t. ki_ch k = Some t \<or> ki_chShift k = Some t \<longrightarrow> length t = 1 \<and> t \<noteq> [0])) usKeyBoard"
  by (simp add: usKeyBoard_def kbd_key_def conj_disj_distribR all_conj_distrib)

lemma key_facts: "k \<in> set usKeyBoard \<Longrightarrow>
    (ki_keySym k = 0 \<longrightarrow> ki_ch k = None) \<and> (ki_keySymWithShift k = 0 \<longrightarrow> ki_chShift k = None) \<and>
     ki_keySym k \<noteq> XK_ampersand \<and> (ki_keySym k = ki_keySymWithShift k \<longrightarrow> ki_ch k = ki_chShift k) \<and>
     (ki_keySymWithShift k = XK_ampersand \<longrightarrow> ki_keyCode k = 0x0b \<or> ki_chShift k = Some [38]) \<and> 
     (ki_keyCode k = 0x0b \<longrightarrow> ki_keySymWithShift k = XK_ampersand) \<and>
     (\<forall>t. ki_ch k = Some t \<or> ki_chShift k = Some t \<longrightarrow> length t = 1 \<and> t \<noteq> [0])"
  using texts_of_keys by (simp add: list_all_iff)

lemma sym_of_key:
  assumes "k \<in> set usKeyBoard" "names_key x k" "x \<noteq> 0" "x = XK_ampersand \<Longrightarrow> ki_keyCode k = 0x0b \<or> ki_chShift k = Some [38]"
  shows "\<exists>q. last_with (names_key x) = Some q \<and>
     (x \<noteq> XK_ampersand \<longrightarrow> q = k) \<and> (x = XK_ampersand \<longrightarrow> ki_keySymWithShift q = x \<and> ki_chShift q = Some [38])"
  using last_with_sym [OF assms(1-3)] last_with_ampersand by (cases "x = XK_ampersand") (auto simp: kbd_key_def)

lemma key_lookup:
  fixes h :: xserver
  assumes "XKeyboard_init alloc hash = Some (Inr kb)" "k \<in> set usKeyBoard" "ki_keyCode k \<noteq> 0x4c"
    "state AND NumMask = 0" "state AND 2 = 0"
  defines "ksym \<equiv> event_keysym state (ucast (ki_keyCode k)) (install_keyboard hash kb h)"
  shows "ksym = ucast (if state AND ShiftMask \<noteq> 0 then ki_keySymWithShift k else ki_keySym k)"
    "ksym \<noteq> 0 \<Longrightarrow> kb_translate hash kb ksym state TEXT_BUFFER =
       (case typed k (state AND ShiftMask \<noteq> 0) of None \<Rightarrow> (0, ksym, []) | Some t \<Rightarrow> (1, ksym, t))"
    "ksym = 0 \<Longrightarrow> typed k (state AND ShiftMask \<noteq> 0) = None"
proof -
  note get = init_tables [OF assms(1)]
  let ?shift = "state AND ShiftMask \<noteq> 0"
  let ?x = "if ?shift then ki_keySymWithShift k else ki_keySym k"
  note k = key_facts [OF assms(2)]
  show ksym: "ksym = ucast ?x"
    using assms(4) last_with_code [OF assms(2,3)]
    by (simp add: ksym_def event_keysym_def install_keyboard_def kb_keycodeToKeysym_def get narrow16)
  then have zero: "ksym = 0 \<longleftrightarrow> ?x = 0" using widen16_eq [of ?x 0] by simp
  show "ksym = 0 \<Longrightarrow> typed k ?shift = None" using zero k by (auto simp: typed_def split: if_splits)
  assume "ksym \<noteq> 0"
  define x where "x = ?x"
  have x: "x \<noteq> 0" "names_key x k" "ksym = ucast x" using zero \<open>ksym \<noteq> 0\<close> ksym by (simp_all add: x_def names_key_def)
  have amp: "x = XK_ampersand \<Longrightarrow> ?shift \<and> ki_keySymWithShift k = XK_ampersand"
    and two: "ki_keyCode k = 0x0b \<Longrightarrow> ?shift \<Longrightarrow> x = XK_ampersand"
    using k by (auto simp: x_def split: if_splits)
  obtain q where q: "last_with (names_key x) = Some q"
      "x \<noteq> XK_ampersand \<longrightarrow> q = k" "x = XK_ampersand \<longrightarrow> ki_keySymWithShift q = x \<and> ki_chShift q = Some [38]"
    using sym_of_key [OF assms(2) x(2,1)] amp k by blast
  note eqs = kb_translate_def x(3) get narrow16 IS_SHIFT_def widen16_eq typed_def put_text_def TEXT_BUFFER_def
  have one: "length t = 1 \<and> take 16 t = t" if "ki_ch k = Some t \<or> ki_chShift k = Some t" for t using that k by auto
  show "kb_translate hash kb ksym state TEXT_BUFFER =
       (case typed k ?shift of None \<Rightarrow> (0, ksym, []) | Some t \<Rightarrow> (1, ksym, t))"
  proof (cases "x = XK_ampersand")
    case True
    then show ?thesis using q amp k assms(4,5) by (auto simp: eqs)
  next
    case False
    have "ki_chShift k = ki_ch k" if "x = ki_keySymWithShift k" "\<not> ?shift" using that k by (auto simp: x_def)
    moreover have "x = ki_keySymWithShift k" if ?shift using that by (simp add: x_def)
    moreover have "x = ki_keySym k" if "\<not> ?shift" using that by (simp add: x_def)
    ultimately show ?thesis using False two q(1,2) assms(4,5) one by (auto simp: eqs split: option.splits)
  qed
qed


definition row_A :: KeyInfo where "row_A = kbd_key 0x26 0x1E SDL_SCANCODE_A XK_a XK_A 0 (Some [97]) (Some [65]) None"
definition row_2 :: KeyInfo where "row_2 = kbd_key 0x0b 0x03 SDL_SCANCODE_2 XK_2 XK_ampersand 0 (Some [50]) (Some [64]) None"

lemma rows: "row_A \<in> set usKeyBoard" "row_2 \<in> set usKeyBoard"
  by (simp_all add: usKeyBoard_def row_A_def row_2_def)

theorem keysym_roundtrip_witness:
  "\<exists>kb. XKeyboard_init (\<lambda>_. True) ucast = Some (Inr kb) \<and> kb_sdl2x11 ucast kb 4 = 0x26 \<and> kb_keysymToKeycode ucast kb 0x61 = 0x26"
proof -
  obtain kb where kb: "XKeyboard_init (\<lambda>_. True) ucast = Some (Inr kb)" using init_succeeds by blast
  from keysym_roundtrip [OF kb rows(1)] have "kb_sdl2x11 ucast kb 4 = 0x26 \<and> kb_keysymToKeycode ucast kb 0x61 = 0x26"
    by (simp add: row_A_def kbd_key_def insert_Diff_if)
  with kb show ?thesis by blast
qed

text \<open>The event of the key 2 with Shift.\<close>

definition key_call :: hcall where
  "key_call = call_for (\<lambda>_ _. True) [0x1000, 0x2000, 16, 0] (wr (wr (\<lambda>_. 0) (0x1000 + key_state) (le_bytes 4 (1 :: u32)))
     (0x1000 + key_keycode) (le_bytes 4 (0x0b :: u32)))"

lemma key_call_args: "arg key_call 0 = 0x1000" "arg key_call 1 = 0x2000" "arg key_call 2 = 16" "arg key_call 3 = 0" "c_count key_call = 4"
  by (simp_all add: key_call_def call_for_def arg_def)

lemma key_call_read:
  "h_read (arg key_call 0) XEvent_size key_call = (Some (rd (c_mem key_call) 0x1000 XEvent_size), key_call)"
  "get32 (rd (c_mem key_call) 0x1000 XEvent_size) key_state = 1"
  "get32 (rd (c_mem key_call) 0x1000 XEvent_size) key_keycode = 0x0b"
proof -
  have "x11Bridge64RangeAccessible (c_probe key_call) 0x1000 (of_nat XEvent_size) False"
    by (simp add: x11Bridge64RangeAccessible_iff bytes_accessible_def key_call_def call_for_def XEvent_size_def)
  then show "h_read (arg key_call 0) XEvent_size key_call = (Some (rd (c_mem key_call) 0x1000 XEvent_size), key_call)"
    by (simp add: key_call_args h_read_def XEvent_size_def)
  show "get32 (rd (c_mem key_call) 0x1000 XEvent_size) key_state = 1"
    "get32 (rd (c_mem key_call) 0x1000 XEvent_size) key_keycode = 0x0b"
    by (simp_all add: get32_def drop_rd take_rd XEvent_size_def key_state_def key_keycode_def key_call_def call_for_def rd_wr_other)
qed

end
