(* ===== verification/ColorSession.thy ===== *)
theory ColorSession
  imports HostQueue
begin

text \<open>
  Colormaps over whole sessions: when a cell is allocated, how long a colour that was allocated stays what it is, and
  what sharing does to a cell that a client holds for itself.
\<close>

section \<open>What can happen to a cell\<close>

text \<open>A display shares an allocated cell, claims a free one with its colour, takes a free one for itself, gives one up
  (only those of \<^verbatim>\<open>F\<close>), or paints one that is writable.\<close>

inductive cell_step :: "u32 set \<Rightarrow> color_cell \<Rightarrow> color_cell \<Rightarrow> bool" for F where
  share: "cell_allocated x \<Longrightarrow> cell_step F x ((add_use d x)\<lparr>cc_flags := COLOR_ALLOCATED\<rparr>)"
| claim: "\<not> cell_allocated x \<Longrightarrow> cell_step F x ((add_use d x)\<lparr>cc_r := r, cc_g := g, cc_b := b, cc_flags := COLOR_ALLOCATED\<rparr>)"
| own: "\<not> cell_allocated x \<Longrightarrow> cell_step F x (add_use d (x\<lparr>cc_flags := cc_flags x OR (COLOR_ALLOCATED OR COLOR_WRITE)\<rparr>))"
| give_up: "d \<in> F \<Longrightarrow> cell_step F x (free_cell d x)"
| paint: "cell_writable x \<Longrightarrow> cell_step F x (x\<lparr>cc_r := r, cc_g := g, cc_b := b\<rparr>)"

definition cell_ok :: "color_cell \<Rightarrow> bool" where
  "cell_ok x \<longleftrightarrow> (cell_allocated x \<longleftrightarrow> cc_uses x \<noteq> []) \<and> (cell_writable x \<longrightarrow> cell_allocated x) \<and> distinct (cc_uses x)"

text \<open>A cell that a display shares.\<close>

definition shared_by :: "u32 \<Rightarrow> u8 \<times> u8 \<times> u8 \<Rightarrow> color_cell \<Rightarrow> bool" where
  "shared_by d rgb x \<longleftrightarrow> d \<in> set (cc_uses x) \<and> cell_allocated x \<and> \<not> cell_writable x \<and> (cc_r x, cc_g x, cc_b x) = rgb"

lemmas cell_flags = cell_allocated_def cell_writable_def COLOR_ALLOCATED_def COLOR_WRITE_def

lemma flag_bits: "(x OR 3) AND 1 = (1 :: u8)" "(x OR 3) AND 2 = (2 :: u8)"
  by (rule bit_word_eqI; auto simp: bit_simps numeral_3_eq_3)+
lemma cell_step_ok: "cell_step F x y \<Longrightarrow> cell_ok x \<Longrightarrow> cell_ok y"
  by (induction rule: cell_step.induct)
     (auto simp: cell_ok_def cell_flags add_use_def free_cell_def Let_def List.insert_def flag_bits distinct_removeAll)

lemma cell_step_shared: "cell_step F x y \<Longrightarrow> d \<notin> F \<Longrightarrow> shared_by d rgb x \<Longrightarrow> shared_by d rgb y"
  by (induction rule: cell_step.induct)
     (auto simp: shared_by_def cell_flags add_use_def free_cell_def Let_def List.insert_def
       removeAll_filter_not_eq filter_empty_conv intro: bexI [where x = d])

definition cells_step :: "u32 set \<Rightarrow> xcolormap \<Rightarrow> xcolormap \<Rightarrow> bool" where
  "cells_step F m m' \<longleftrightarrow> length (cm_colors m') = length (cm_colors m) \<and>
     (\<forall>j < length (cm_colors m). (cell_step F)\<^sup>*\<^sup>* (cm_colors m ! j) (cm_colors m' ! j))"

lemma cells_step_refl: "cells_step F m m" by (simp add: cells_step_def)
lemma cells_step_trans: "cells_step F m1 m2 \<Longrightarrow> cells_step F m2 m3 \<Longrightarrow> cells_step F m1 m3"
  unfolding cells_step_def by (metis rtranclp_trans)
lemma cells_step_upd: "cell_step F (cm_colors m ! i) (f (cm_colors m ! i)) \<Longrightarrow> cells_step F m (upd_cell i f m)"
  by (cases "i < length (cm_colors m)") (auto simp: cells_step_def upd_cell_def nth_list_update)
lemma cells_step_dirty: "cells_step F m (m'\<lparr>cm_dirty := b\<rparr>) = cells_step F m m'" by (simp add: cells_step_def)

lemma cells_step_all:
  assumes "cells_step F m m'" "\<And>x y. cell_step F x y \<Longrightarrow> good x \<Longrightarrow> good y"
  shows "j < length (cm_colors m) \<Longrightarrow> good (cm_colors m ! j) \<Longrightarrow> good (cm_colors m' ! j)"
proof -
  have "(cell_step F)\<^sup>*\<^sup>* x y \<Longrightarrow> good x \<Longrightarrow> good y" for x y by (induction rule: rtranclp_induct) (auto intro: assms(2))
  then show "j < length (cm_colors m) \<Longrightarrow> good (cm_colors m ! j) \<Longrightarrow> good (cm_colors m' ! j)"
    using assms(1) by (auto simp: cells_step_def)
qed

lemma alloc_cells_step: "cells_step F m (snd (snd (alloc_cells js d pixels n c m)))"
proof (induction js arbitrary: pixels n c m)
  case (Cons j js)
  show ?case
  proof (cases "n = 0 \<or> cell_allocated (cm_colors m ! j)")
    case True
    then show ?thesis using Cons by (auto simp: cells_step_refl)
  next
    case False
    then have "cells_step F m (upd_cell j (\<lambda>x. add_use d (x\<lparr>cc_flags := cc_flags x OR (COLOR_ALLOCATED OR COLOR_WRITE)\<rparr>)) m)"
      by (intro cells_step_upd own) simp
    then show ?thesis using False Cons by (auto simp: Let_def split: prod.splits bool.splits intro: cells_step_trans)
  qed
qed (simp add: cells_step_refl)

lemma free_colors_step: "d \<in> F \<Longrightarrow> cells_step F m (snd (snd (free_colors n d pixels result c m)))"
proof (induction n arbitrary: pixels result c m)
  case (Suc n)
  have "cells_step F m (upd_cell i (free_cell d) m)" for i by (intro cells_step_upd give_up Suc.prems)
  from cells_step_trans [OF this Suc.IH [OF Suc.prems]] show ?case
    by (auto simp: cells_step_refl split: prod.splits option.splits)
qed (simp add: cells_step_refl)


section \<open>Sessions\<close>

text \<open>Requests of any clients, in any order; only the displays of \<^verbatim>\<open>F\<close> free colours, a new map gets an id that is
  not in use, and requests that do not touch the maps come in between.\<close>

definition color_ops :: "xserver handler list" where
  "color_ops = [op_FREE_COLORMAP, op_ALLOC_COLOR, op_ALLOC_COLOR_CELLS, op_QUERY_COLOR, op_QUERY_COLORS, op_STORE_COLOR]"

inductive color_session :: "u32 set \<Rightarrow> xserver \<Rightarrow> xserver \<Rightarrow> bool" for F h0 where
  start: "color_session F h0 h0"
| request: "color_session F h0 h \<Longrightarrow> H \<in> set color_ops \<Longrightarrow> H c h = (s, c', h') \<Longrightarrow> color_session F h0 h'"
| creation: "color_session F h0 h \<Longrightarrow> colorMaps h (nextId h + 1) = None \<Longrightarrow> op_CREATE_COLORMAP c h = (s, c', h') \<Longrightarrow>
    color_session F h0 h'"
| freeing: "color_session F h0 h \<Longrightarrow> (\<And>d dd. fst (displayFor (arg c 0) c h) = Some (d, dd) \<Longrightarrow> d \<in> F) \<Longrightarrow>
    op_FREE_COLORS c h = (s, c', h') \<Longrightarrow> color_session F h0 h'"
| other: "color_session F h0 h \<Longrightarrow> colorMaps h' = colorMaps h \<Longrightarrow> color_session F h0 h'"

text \<open>What a request does to the maps.\<close>

definition maps_step :: "u32 set \<Rightarrow> xserver \<Rightarrow> xserver \<Rightarrow> bool" where
  "maps_step F h h' \<longleftrightarrow> (\<forall>i m. colorMaps h i = Some m \<longrightarrow> (\<exists>m'. colorMaps h' i = Some m' \<and> cells_step F m m')) \<and>
     (\<forall>i. colorMaps h i = None \<longrightarrow> colorMaps h' i = None)"

lemma maps_step_refl: "colorMaps h' = colorMaps h \<Longrightarrow> maps_step F h h'"
  by (auto simp: maps_step_def intro: cells_step_refl)

lemma maps_step_put: "getColorMap i h = Some m \<Longrightarrow> cells_step F m m' \<Longrightarrow> maps_step F h (put_colormap i m' h)"
  by (auto simp: maps_step_def put_colormap_def getColorMap_def intro: cells_step_refl)

lemma first_cell_Some: "first_cell q m = Some i \<Longrightarrow> i < MAX_COLORMAP_SIZE \<and> q (cm_colors m ! i)"
  by (auto simp: first_cell_def find_Some_iff)

lemma alloc_color_step: "maps_step F h (snd (snd (op_ALLOC_COLOR c h)))"
proof -
  have "cells_step F m (upd_cell i (\<lambda>x. (add_use d x)\<lparr>cc_flags := COLOR_ALLOCATED\<rparr>) m)"
    if "first_cell (same_color r g b) m = Some i" for m i d r g b
    by (intro cells_step_upd share) (use first_cell_Some [OF that] in \<open>simp add: same_color_def\<close>)
  moreover have "cells_step F m ((upd_cell i (\<lambda>x. (add_use d x)\<lparr>cc_r := r, cc_g := g, cc_b := b, cc_flags := COLOR_ALLOCATED\<rparr>) m)\<lparr>cm_dirty := True\<rparr>)"
    if "first_cell (\<lambda>x. \<not> cell_allocated x) m = Some i" for m i d r g b
    unfolding cells_step_dirty by (intro cells_step_upd claim) (use first_cell_Some [OF that] in simp)
  ultimately show ?thesis
    by (auto simp: op_ALLOC_COLOR_def require_args_def require_display_def Let_def split: prod.splits option.splits
        intro: maps_step_refl maps_step_put)
qed

lemma alloc_cells_done: "alloc_cells js d pixels n c m = (s, c', m') \<Longrightarrow> cells_step F m m'"
  using alloc_cells_step [of F m js d pixels n c] by simp

lemma free_colors_done: "free_colors n d pixels result c m = (s, c', m') \<Longrightarrow> d \<in> F \<Longrightarrow> cells_step F m m'"
  using free_colors_step [of d F m n pixels result c] by simp

lemma store_step:
  assumes "cell_writable (cm_colors m ! i)"
  shows "cells_step F m ((upd_cell i (\<lambda>x. x\<lparr>cc_r := r, cc_g := g, cc_b := b\<rparr>) m)\<lparr>cm_dirty := True\<rparr>)"
  unfolding cells_step_dirty by (intro cells_step_upd paint assms)

lemmas color_op_simps = require_args_def require_display_def Let_def
lemmas color_op_steps = maps_step_refl maps_step_put alloc_cells_done free_colors_done store_step

lemma alloc_color_cells_step: "maps_step F h (snd (snd (op_ALLOC_COLOR_CELLS c h)))"
  by (simp add: op_ALLOC_COLOR_CELLS_def color_op_simps split: prod.split option.split)
     (blast intro: color_op_steps refl)

lemma query_color_step: "maps_step F h (snd (snd (op_QUERY_COLOR c h)))" "maps_step F h (snd (snd (op_QUERY_COLORS c h)))"
  by (auto simp: op_QUERY_COLOR_def op_QUERY_COLORS_def color_op_simps split: prod.split option.split intro: maps_step_refl)

lemma store_color_step: "maps_step F h (snd (snd (op_STORE_COLOR c h)))"
  by (simp add: op_STORE_COLOR_def color_op_simps split: prod.split option.split)
     (blast intro: color_op_steps refl)

lemma request_step: "H \<in> set color_ops \<Longrightarrow> maps_step F h (snd (snd (H c h)))"
  using alloc_color_step alloc_color_cells_step query_color_step store_color_step
  by (auto simp: color_ops_def op_FREE_COLORMAP_def maps_step_refl)

lemma freeing_step:
  assumes "\<And>d dd. fst (displayFor (arg c 0) c h) = Some (d, dd) \<Longrightarrow> d \<in> F"
  shows "maps_step F h (snd (snd (op_FREE_COLORS c h)))"
proof -
  have "d \<in> F" if "displayFor (arg c 0) c h = (Some (d, dd), c1)" for d dd c1 using assms that by simp
  then show ?thesis
    by (simp add: op_FREE_COLORS_def color_op_simps split: prod.split option.split) (blast intro: color_op_steps refl)
qed

lemma create_colormap_cases:
  assumes "op_CREATE_COLORMAP c h = (s, c', h')"
  obtains "colorMaps h' = colorMaps h" | "colorMaps h' = (colorMaps h)(nextId h + 1 \<mapsto> new_colormap)"
    | d where "colorMaps h' = (colorMaps h)(nextId h + 1 \<mapsto> new_colormap\<lparr>cm_colors := map (\<lambda>x. add_use d
         (x\<lparr>cc_flags := cc_flags x OR (COLOR_ALLOCATED OR COLOR_WRITE)\<rparr>)) (cm_colors new_colormap)\<rparr>)"
  using assms
  by (auto simp: op_CREATE_COLORMAP_def color_op_simps createColorMap_def put_colormap_def split: prod.splits option.splits if_splits)

definition maps_ok :: "xserver \<Rightarrow> bool" where
  "maps_ok h \<longleftrightarrow> (\<forall>i m. colorMaps h i = Some m \<longrightarrow> length (cm_colors m) = MAX_COLORMAP_SIZE \<and> (\<forall>x \<in> set (cm_colors m). cell_ok x))"

lemma new_colormap_ok:
  "length (cm_colors new_colormap) = MAX_COLORMAP_SIZE" "x \<in> set (cm_colors new_colormap) \<Longrightarrow> cell_ok x"
  "x \<in> set (cm_colors new_colormap) \<Longrightarrow> cell_ok (add_use d (x\<lparr>cc_flags := cc_flags x OR (COLOR_ALLOCATED OR COLOR_WRITE)\<rparr>))"
  by (simp_all add: new_colormap_def cell_ok_def cell_flags new_cell_def add_use_def)

lemma maps_stepD:
  "maps_step F h h' \<Longrightarrow> colorMaps h i = Some m \<Longrightarrow> \<exists>m'. colorMaps h' i = Some m' \<and> cells_step F m m'"
  "maps_step F h h' \<Longrightarrow> colorMaps h' i = Some m' \<Longrightarrow> \<exists>m. colorMaps h i = Some m \<and> cells_step F m m'"
  unfolding maps_step_def by blast (metis option.exhaust option.distinct(1) option.inject)

lemma maps_step_ok:
  assumes "maps_step F h h'" "maps_ok h"
  shows "maps_ok h'"
  unfolding maps_ok_def
proof (intro allI impI)
  fix i m' assume m': "colorMaps h' i = Some m'"
  from maps_stepD(2) [OF assms(1) m'] obtain m where m: "colorMaps h i = Some m" "cells_step F m m'" by blast
  then have "length (cm_colors m) = MAX_COLORMAP_SIZE" "\<forall>x \<in> set (cm_colors m). cell_ok x" using assms(2) by (auto simp: maps_ok_def)
  moreover have "length (cm_colors m') = length (cm_colors m)" using m(2) by (simp add: cells_step_def)
  moreover have "cell_ok (cm_colors m' ! j)" if "j < length (cm_colors m')" for j
    by (rule cells_step_all [where good = cell_ok, OF m(2) cell_step_ok]) (use calculation that in simp_all)
  ultimately show "length (cm_colors m') = MAX_COLORMAP_SIZE \<and> (\<forall>x \<in> set (cm_colors m'). cell_ok x)"
    by (simp add: all_set_conv_all_nth)
qed

lemma session_ok:
  assumes "color_session F h0 h" "maps_ok h0"
  shows "maps_ok h"
  using assms(1)
proof (induction rule: color_session.induct)
  case start
  show ?case by (rule assms(2))
next
  case (request h H c s c' h')
  then show ?case using maps_step_ok [OF request_step [of H F h c]] by simp
next
  case (creation h c s c' h')
  then have "maps_ok h" by simp
  then show ?case
    by (cases rule: create_colormap_cases [OF creation.hyps(3)]) (auto simp: maps_ok_def new_colormap_ok)
next
  case (freeing h c s c' h')
  then show ?case using freeing_step [of c h F] maps_step_ok by simp
next
  case (other h h')
  then show ?case by (simp add: maps_ok_def)
qed

lemma maps_step_shared:
  assumes "maps_step F h h'" "d \<notin> F"
    "\<exists>m. colorMaps h i = Some m \<and> j < length (cm_colors m) \<and> shared_by d rgb (cm_colors m ! j)"
  shows "\<exists>m'. colorMaps h' i = Some m' \<and> j < length (cm_colors m') \<and> shared_by d rgb (cm_colors m' ! j)"
proof -
  obtain m where m: "colorMaps h i = Some m" "j < length (cm_colors m)" "shared_by d rgb (cm_colors m ! j)" using assms(3) by blast
  from maps_stepD(1) [OF assms(1) m(1)] obtain m' where m': "colorMaps h' i = Some m'" "cells_step F m m'" by blast
  from cells_step_all [where good = "shared_by d rgb", OF m'(2) cell_step_shared [OF _ assms(2)] m(2,3)] m' m(2) show ?thesis by (simp add: cells_step_def)
qed

lemma session_shared:
  assumes "color_session F h1 h2" "d \<notin> F" "colorMaps h1 i = Some m" "j < length (cm_colors m)" "shared_by d rgb (cm_colors m ! j)"
  shows "\<exists>m'. colorMaps h2 i = Some m' \<and> j < length (cm_colors m') \<and> shared_by d rgb (cm_colors m' ! j)"
  using assms(1)
proof (induction rule: color_session.induct)
  case start
  then show ?case using assms(3-5) by blast
next
  case (request h H c s c' h')
  then show ?case using maps_step_shared [where i = i and j = j and rgb = rgb, OF request_step [of H F h c] assms(2)] by simp
next
  case (creation h c s c' h')
  then obtain m' where "colorMaps h i = Some m'" "j < length (cm_colors m') \<and> shared_by d rgb (cm_colors m' ! j)" by blast
  moreover from this creation.hyps(2) have "i \<noteq> nextId h + 1" by auto
  ultimately show ?case by (cases rule: create_colormap_cases [OF creation.hyps(3)]) auto
next
  case (freeing h c s c' h')
  then show ?case using maps_step_shared [where i = i and j = j and rgb = rgb, OF freeing_step [of c h F] assms(2)] by simp
qed simp

text \<open>C35: in every session from a server without colormaps, a map has 256 cells, a cell is allocated exactly as long as
  some display uses it, only allocated cells are writable, and no display is recorded twice.\<close>

theorem color_cells_invariant:
  assumes "color_session UNIV h0 h" "colorMaps h0 = Map.empty" "colorMaps h i = Some m"
  shows "length (cm_colors m) = MAX_COLORMAP_SIZE \<and>
    (\<forall>x \<in> set (cm_colors m). (cell_allocated x \<longleftrightarrow> cc_uses x \<noteq> []) \<and> (cell_writable x \<longrightarrow> cell_allocated x) \<and> distinct (cc_uses x))"
  using session_ok [OF assms(1)] assms(2,3) by (auto simp: maps_ok_def cell_ok_def)

lemma high_from_high: "from_high (high_byte v) = v AND 0xFF00"
proof -
  have e: "(0xFF00 :: u16) = push_bit 8 (mask 8)" by (simp add: mask_eq_exp_minus_1)
  have "from_high (high_byte v) = push_bit 8 (drop_bit 8 v)"
    by (rule bit_word_eqI) (auto simp: from_high_def high_byte_def bit_simps)
  also have "\<dots> = v AND push_bit 8 (mask 8)" 
    by (rule bit_word_eqI) (simp add: bit_push_bit_iff bit_and_iff bit_mask_iff bit_drop_bit_eq del: mask_numeral push_bit_numeral, auto)
  finally show ?thesis by (simp only: e)
qed

lemma alloc_color_done:
  assumes "op_ALLOC_COLOR c h = (1, c1, h1)" "maps_ok h"
  obtains d dd ca color cb m' i where "displayFor (arg c 0) c h = (Some (d, dd), ca)" "readColor (arg ca 2) ca = (Some color, cb)"
    "h_write64 (arg ca 2 + of_nat xc_off_pixel) (of_nat i) cb = (True, c1)" "i < MAX_COLORMAP_SIZE"
    "colorMaps h1 (uarg ca 1) = Some m'" "length (cm_colors m') = MAX_COLORMAP_SIZE"
    "shared_by d (high_byte (xc_red color), high_byte (xc_green color), high_byte (xc_blue color)) (cm_colors m' ! i)"
proof -
  obtain d dd ca where disp: "displayFor (arg c 0) c h = (Some (d, dd), ca)"
    using assms(1) by (auto simp: op_ALLOC_COLOR_def color_op_simps E_DISPLAY_def E_ARGS_def split: prod.splits option.splits if_splits)
  obtain m where m: "getColorMap (uarg ca 1) h = Some m"
    using assms(1) disp by (auto simp: op_ALLOC_COLOR_def color_op_simps E_ARGS_def split: option.splits if_splits)
  obtain color cb where color: "readColor (arg ca 2) ca = (Some color, cb)"
    using assms(1) disp m by (auto simp: op_ALLOC_COLOR_def color_op_simps E_ARGS_def E_FAULT_def split: prod.splits option.splits if_splits)
  let ?rgb = "(high_byte (xc_red color), high_byte (xc_green color), high_byte (xc_blue color))"
  have len: "length (cm_colors m) = MAX_COLORMAP_SIZE" using assms(2) m by (simp add: maps_ok_def getColorMap_def)
  obtain i m' where i: "i < MAX_COLORMAP_SIZE" "h_write64 (arg ca 2 + of_nat xc_off_pixel) (of_nat i) cb = (True, c1)"
      "h1 = put_colormap (uarg ca 1) m' h" "length (cm_colors m') = MAX_COLORMAP_SIZE" "shared_by d ?rgb (cm_colors m' ! i)"
  proof (cases "first_cell (same_color (high_byte (xc_red color)) (high_byte (xc_green color)) (high_byte (xc_blue color))) m")
    case (Some i)
    then show ?thesis
      using assms(1) disp m color first_cell_Some [OF Some] len
      by (intro that [of i "upd_cell i (\<lambda>x. (add_use d x)\<lparr>cc_flags := COLOR_ALLOCATED\<rparr>) m"])
         (auto simp: op_ALLOC_COLOR_def color_op_simps E_ARGS_def E_FAULT_def upd_cell_def shared_by_def add_use_def same_color_def cell_flags
           split: prod.splits if_splits)
  next
    case None
    note none = this
    show ?thesis
    proof (cases "first_cell (\<lambda>x. \<not> cell_allocated x) m")
      case None
      then show ?thesis using assms(1) disp m color none by (simp add: op_ALLOC_COLOR_def color_op_simps E_ARGS_def split: if_splits)
    next
      case (Some i)
      then show ?thesis
        using assms(1) disp m color none first_cell_Some [OF Some] len
        by (intro that [of i "(upd_cell i (\<lambda>x. (add_use d x)\<lparr>cc_r := high_byte (xc_red color), cc_g := high_byte (xc_green color), cc_b := high_byte (xc_blue color), cc_flags := COLOR_ALLOCATED\<rparr>) m)\<lparr>cm_dirty := True\<rparr>"])
           (auto simp: op_ALLOC_COLOR_def color_op_simps E_ARGS_def E_FAULT_def upd_cell_def shared_by_def add_use_def cell_flags
             split: prod.splits if_splits)
    qed
  qed
  show ?thesis
    by (rule that [OF disp color i(2,1) _ i(4,5)]) (simp add: i(3) put_colormap_def)
qed

text \<open>C34: the pixel that a successful allocation of a colour writes stands for that colour, to the high byte of each
  component, whatever any client does afterwards, as long as the display that allocated it frees nothing: a query of
  the pixel by anybody writes the components with their low byte cleared.\<close>

theorem allocated_color_kept:
  assumes "color_session UNIV h0 h" "colorMaps h0 = Map.empty"
    "op_ALLOC_COLOR c h = (1, c1, h1)" "displayFor (arg c 0) c h = (Some (d, dd), ca)" "readColor (arg ca 2) ca = (Some color, cb)"
    "color_session F h1 h2" "d \<notin> F"
  shows "\<exists>i < MAX_COLORMAP_SIZE. h_write64 (arg ca 2 + of_nat xc_off_pixel) (of_nat i) cb = (True, c1) \<and>
     (\<forall>q qa asked. 3 \<le> c_count q \<and> uarg q 1 = uarg ca 1 \<and> readColor (arg q 2) q = (Some asked, qa) \<and> unat (xc_pixel asked) = i \<longrightarrow>
        op_QUERY_COLOR q h2 =
          (case writeColorRgb (arg q 2) (xc_red color AND 0xFF00) (xc_green color AND 0xFF00) (xc_blue color AND 0xFF00) qa of
             (ok, qb) \<Rightarrow> (if ok then 0 else E_FAULT, qb, h2)))"
proof -
  have "maps_ok h" using session_ok [OF assms(1)] assms(2) by (simp add: maps_ok_def)
  from alloc_color_done [OF assms(3) this] assms(4,5) obtain m i where i: "i < MAX_COLORMAP_SIZE"
      "h_write64 (arg ca 2 + of_nat xc_off_pixel) (of_nat i) cb = (True, c1)"
      "colorMaps h1 (uarg ca 1) = Some m" "length (cm_colors m) = MAX_COLORMAP_SIZE"
      "shared_by d (high_byte (xc_red color), high_byte (xc_green color), high_byte (xc_blue color)) (cm_colors m ! i)"
    by (metis Pair_inject option.inject)
  from session_shared [OF assms(6,7) i(3) _ i(5)] i(1,4) obtain m' where m': "colorMaps h2 (uarg ca 1) = Some m'"
      "shared_by d (high_byte (xc_red color), high_byte (xc_green color), high_byte (xc_blue color)) (cm_colors m' ! i)"
    by auto
  have "op_QUERY_COLOR q h2 =
          (case writeColorRgb (arg q 2) (xc_red color AND 0xFF00) (xc_green color AND 0xFF00) (xc_blue color AND 0xFF00) qa of
             (ok, qb) \<Rightarrow> (if ok then 0 else E_FAULT, qb, h2))"
    if "3 \<le> c_count q" "uarg q 1 = uarg ca 1" "readColor (arg q 2) q = (Some asked, qa)" "unat (xc_pixel asked) = i" for q qa asked
    using that m' i(1) by (auto simp: op_QUERY_COLOR_def require_args_def getColorMap_def query_color_def shared_by_def high_from_high
        split: prod.splits)
  with i(1,2) show ?thesis by blast
qed

text \<open>C36: a cell that a client holds for itself, writable, is handed to whoever allocates the colour it has at the moment,
  and is then writable no more: storing a colour in it succeeded before and is refused afterwards.\<close>

theorem private_cell_given_away:
  assumes "displayFor (arg c 0) c h = (Some (d, dd), ca)" "readColor (arg ca 2) ca = (Some color, cb)" "getColorMap (uarg ca 1) h = Some m"
    "first_cell (same_color (high_byte (xc_red color)) (high_byte (xc_green color)) (high_byte (xc_blue color))) m = Some i"
    "cell_writable (cm_colors m ! i)" "length (cm_colors m) = MAX_COLORMAP_SIZE" "op_ALLOC_COLOR c h = (1, c1, h1)"
    "3 \<le> c_count q" "uarg q 1 = uarg ca 1" "readColor (arg q 2) q = (Some new, qa)" "unat (xc_pixel new) = i"
  shows "fst (op_STORE_COLOR q h) = 0 \<and> op_STORE_COLOR q h1 = (BadAccess, qa, h1)"
proof -
  have i: "i < MAX_COLORMAP_SIZE" using first_cell_Some [OF assms(4)] by simp
  have "colorMaps h1 (uarg ca 1) = Some (upd_cell i (\<lambda>x. (add_use d x)\<lparr>cc_flags := COLOR_ALLOCATED\<rparr>) m)"
    using assms(7) assms(1-4)
    by (auto simp: op_ALLOC_COLOR_def color_op_simps E_ARGS_def E_FAULT_def put_colormap_def split: prod.splits if_splits)
  moreover have "\<not> cell_writable (x\<lparr>cc_flags := COLOR_ALLOCATED\<rparr>)" for x by (simp add: cell_flags)
  ultimately show ?thesis
    using assms(3,5,6,8-11) i by (simp add: op_STORE_COLOR_def color_op_simps getColorMap_def upd_cell_def)
qed

section \<open>A display and its colours\<close>

text \<open>A display, a server without colormaps, and two colours in memory: at 0x4000 a red, at 0x5000 black.\<close>

definition color_server :: xserver where "color_server = (server process1)\<lparr>colorMaps := Map.empty\<rparr>"

definition color_call :: "u64 list \<Rightarrow> hcall" where
  "color_call as = call_for all_pages (P 8192 # as)
     (wr (wr (mem process1) 0x4000 [0,0,0,0,0,0,0,0,0x34,0x12,0,0,0,0,0,0]) 0x5000 ([0,0,0,0,0,0,0,0,0,0,0,0,0,0,0,0]))"

lemma color_displayFor:
  assumes "displays h = displays color_server"
  shows "displayFor (arg (color_call as) 0) (color_call as) h = (Some (1, display1), color_call as)"
proof -
  have "display_at all_pages 8192 1 (c_mem (color_call as)) h display1"
    using process1_ready(1) assms
    by (simp add: display_at_def color_call_def call_for_def color_server_def DISPLAY_ID_OFFSET_def DISPLAY_PRIVATE_BYTES_def rd_wr_other)
  moreover have "arg (color_call as) 0 = P 8192" by (simp add: color_call_def call_for_def arg_def)
  ultimately show ?thesis using displayFor_known [of all_pages 8192 1 "c_mem (color_call as)" h display1 "color_call as"]
    by (simp add: color_call_def call_for_def)
qed

lemma create_plain: "op_CREATE_COLORMAP (color_call [1, 0, 2]) color_server =
   (3, color_call [1, 0, 2], color_server\<lparr>nextId := 3, colorMaps := [3 \<mapsto> new_colormap]\<rparr>)"
  using color_displayFor [of color_server "[1, 0, 2]"]
  by (simp add: op_CREATE_COLORMAP_def color_op_simps) (simp add: color_call_def call_for_def arg_def uarg_def AllocNone_def AllocAll_def createColorMap_def color_server_def process1_def set_display_def server0_def)

definition color_server1 :: xserver where "color_server1 = color_server\<lparr>nextId := 3, colorMaps := [3 \<mapsto> new_colormap]\<rparr>"

lemma session_plain: "color_session F color_server color_server1"
  using color_session.creation [OF color_session.start _ create_plain, where F = F]
  by (simp add: color_server1_def) (simp add: color_server_def)

theorem color_cells_invariant_witness:
  "colorMaps color_server1 3 = Some new_colormap \<and> length (cm_colors new_colormap) = MAX_COLORMAP_SIZE"
  using color_cells_invariant [OF session_plain, of 3 new_colormap] by (simp add: color_server_def color_server1_def)

lemma first_cell_None: "(\<And>i. i < MAX_COLORMAP_SIZE \<Longrightarrow> \<not> q (cm_colors m ! i)) \<Longrightarrow> first_cell q m = None"
  by (auto simp: first_cell_def find_None_iff)

lemma first_cell_0: "q (cm_colors m ! 0) \<Longrightarrow> first_cell q m = Some 0"
  by (simp add: first_cell_def MAX_COLORMAP_SIZE_def upt_conv_Cons)

lemma color_call_read:
  "readColor (arg (color_call [m, 0x4000]) 2) (color_call [m, 0x4000]) =
     (Some \<lparr>xc_pixel = 0, xc_red = 0x1234, xc_green = 0, xc_blue = 0\<rparr>, color_call [m, 0x4000])"
  "readColor (arg (color_call [m, 0x5000]) 2) (color_call [m, 0x5000]) =
     (Some \<lparr>xc_pixel = 0, xc_red = 0, xc_green = 0, xc_blue = 0\<rparr>, color_call [m, 0x5000])"
proof -
  have acc: "x11Bridge64RangeAccessible all_pages 0x4000 16 False" "x11Bridge64RangeAccessible all_pages 0x5000 16 False"
    by (simp_all add: x11Bridge64RangeAccessible_iff bytes_accessible_def all_pages_def)
  have m: "rd (c_mem (color_call as)) 0x4000 16 = [0,0,0,0,0,0,0,0,0x34,0x12,0,0,0,0,0,0]"
    "rd (c_mem (color_call as)) 0x5000 16 = [0,0,0,0,0,0,0,0,0,0,0,0,0,0,0,0]" for as
    by (simp_all add: color_call_def rd_wr_other)
  have c: "c_probe (color_call as) = all_pages" for as by (simp add: color_call_def)
  have a: "arg (color_call [m, x]) 2 = x" for x by (simp add: color_call_def call_for_def arg_def)
  note eqs = readColor_def a h_read_def c acc m color_at_def get64_def get16_def xc_offsets le_word_def
  show "readColor (arg (color_call [m, 0x4000]) 2) (color_call [m, 0x4000]) =
     (Some \<lparr>xc_pixel = 0, xc_red = 0x1234, xc_green = 0, xc_blue = 0\<rparr>, color_call [m, 0x4000])" by (simp add: eqs)
  show "readColor (arg (color_call [m, 0x5000]) 2) (color_call [m, 0x5000]) =
     (Some \<lparr>xc_pixel = 0, xc_red = 0, xc_green = 0, xc_blue = 0\<rparr>, color_call [m, 0x5000])" by (simp add: eqs)
qed

lemma color_write: "h_write64 (0x4000 + of_nat xc_off_pixel) v (color_call as) =
    (True, (color_call as)\<lparr>c_mem := wr (c_mem (color_call as)) 0x4000 (le_bytes 8 v)\<rparr>)"
  "h_write64 (0x5000 + of_nat xc_off_pixel) v (color_call as) =
    (True, (color_call as)\<lparr>c_mem := wr (c_mem (color_call as)) 0x5000 (le_bytes 8 v)\<rparr>)"
proof -
  have "x11Bridge64RangeAccessible all_pages 0x4000 8 True" "x11Bridge64RangeAccessible all_pages 0x5000 8 True"
    by (simp_all add: x11Bridge64RangeAccessible_iff bytes_accessible_def all_pages_def)
  moreover have "le_bytes 8 v \<noteq> []" by (metis length_le_bytes list.size(3) zero_neq_numeral)
  ultimately show "h_write64 (0x4000 + of_nat xc_off_pixel) v (color_call as) =
    (True, (color_call as)\<lparr>c_mem := wr (c_mem (color_call as)) 0x4000 (le_bytes 8 v)\<rparr>)"
    "h_write64 (0x5000 + of_nat xc_off_pixel) v (color_call as) =
    (True, (color_call as)\<lparr>c_mem := wr (c_mem (color_call as)) 0x5000 (le_bytes 8 v)\<rparr>)"
    by (simp_all add: h_write64_def h_write_def xc_offsets color_call_def)
qed

lemma color_args: "uarg (color_call [m, a]) 1 = ucast m" "arg (color_call [m, a]) 2 = a" "c_count (color_call [m, a]) = 3"
  by (simp_all add: color_call_def call_for_def arg_def uarg_def)

theorem allocated_color_kept_witness:
  "\<exists>i < MAX_COLORMAP_SIZE. h_write64 (0x4000 + of_nat xc_off_pixel) (of_nat i) (color_call [3, 0x4000]) =
     (True, fst (snd (op_ALLOC_COLOR (color_call [3, 0x4000]) color_server1)))"
proof -
  have D: "displayFor (arg (color_call [3, 0x4000]) 0) (color_call [3, 0x4000]) color_server1 = (Some (1, display1), color_call [3, 0x4000])"
    by (rule color_displayFor) (simp add: color_server1_def)
  have cells: "cm_colors new_colormap ! i = new_cell" if "i < MAX_COLORMAP_SIZE" for i using that by (simp add: new_colormap_def)
  have none: "first_cell (same_color r g b) new_colormap = None" for r g b
    by (rule first_cell_None) (simp add: cells same_color_def cell_flags new_cell_def)
  have free: "first_cell (\<lambda>x. \<not> cell_allocated x) new_colormap = Some 0"
    by (rule first_cell_0) (simp add: cells MAX_COLORMAP_SIZE_def cell_flags new_cell_def)
  obtain c1 h1 where op: "op_ALLOC_COLOR (color_call [3, 0x4000]) color_server1 = (1, c1, h1)"
    using D none free color_call_read(1) [of 3] color_write(1)
    by (simp add: op_ALLOC_COLOR_def color_op_simps color_args color_args(1) [unfolded One_nat_def] getColorMap_def color_server1_def)
  from allocated_color_kept [OF session_plain _ op D color_call_read(1) color_session.start, of "{}"]
  show ?thesis by (auto simp: op color_args color_server_def)
qed

text \<open>A map whose cells all belong to the display, and black.\<close>

definition color_server2 :: xserver where
  "color_server2 = color_server\<lparr>colorMaps := [3 \<mapsto> new_colormap\<lparr>cm_colors := map (\<lambda>x. add_use 1
     (x\<lparr>cc_flags := cc_flags x OR (COLOR_ALLOCATED OR COLOR_WRITE)\<rparr>)) (cm_colors new_colormap)\<rparr>]\<rparr>"

theorem private_cell_given_away_witness:
  "fst (op_STORE_COLOR (color_call [3, 0x5000]) color_server2) = 0 \<and>
   fst (op_STORE_COLOR (color_call [3, 0x5000]) (snd (snd (op_ALLOC_COLOR (color_call [3, 0x5000]) color_server2)))) = BadAccess"
proof -
  let ?c = "color_call [3, 0x5000]" and ?m = "the (colorMaps color_server2 3)"
  have D: "displayFor (arg ?c 0) ?c color_server2 = (Some (1, display1), ?c)"
    by (rule color_displayFor) (simp add: color_server2_def)
  have m: "getColorMap 3 color_server2 = Some ?m" "length (cm_colors ?m) = MAX_COLORMAP_SIZE"
    by (simp_all add: color_server2_def getColorMap_def new_colormap_def)
  have cell: "cm_colors ?m ! 0 = add_use 1 (new_cell\<lparr>cc_flags := COLOR_ALLOCATED OR COLOR_WRITE\<rparr>)"
    by (simp add: color_server2_def new_colormap_def MAX_COLORMAP_SIZE_def) (simp add: new_cell_def)
  have first: "first_cell (same_color 0 0 0) ?m = Some 0"
    by (rule first_cell_0) (simp add: cell same_color_def cell_flags new_cell_def add_use_def)
  have w: "cell_writable (cm_colors ?m ! 0)" by (simp add: cell cell_flags add_use_def)
  obtain c1 h1 where op: "op_ALLOC_COLOR ?c color_server2 = (1, c1, h1)"
    using D m first color_call_read(2) [of 3] color_write(2)
    by (simp add: op_ALLOC_COLOR_def color_op_simps color_args color_args(1) [unfolded One_nat_def] high_byte_def)
  show ?thesis
    using private_cell_given_away [OF D color_call_read(2) _ _ w m(2) op _ _ color_call_read(2)] m first op
    by (simp add: color_args color_args(1) [unfolded One_nat_def] high_byte_def)
qed
end
