(* ===== verification/HintsSession.thy ===== *)
theory HintsSession
  imports RandrSession HostTree
begin

text \<open>
  What a client tells the window manager, end to end: the hints that are set are the hints that are read, and a
  message about the state of a window changes the set of its states.
\<close>

section \<open>Properties that are set and read\<close>

lemma words32_roundtrip: "words32 (words32_bytes ws) (length ws) = ws"
proof (rule nth_equalityI)
  fix i assume "i < length (words32 (words32_bytes ws) (length ws))"
  then show "words32 (words32_bytes ws) (length ws) ! i = ws ! i"
    using get32_words [of i ws "[]"] by (simp add: words32_def get32_def)
qed (simp add: words32_def)

text \<open>A property that was set is the one that is read.\<close>

lemma windows_property_notify [simp]: "windows (property_notify w a s h) = windows h"
  "selectionWindow (property_notify w a s h) = selectionWindow h" "wild (property_notify w a s h) = wild h"
  using told_property_notify [of h w a s] by (auto simp: told_def)

lemma property_upd_window [simp]: "selectionWindow (upd_window w f h) = selectionWindow h" "wild (upd_window w f h) = wild h"
  by (simp_all add: upd_window_def)

lemma getProperty_set:
  assumes "getWindow w h \<noteq> None" "a \<noteq> EXPORT_CLIPBOARD"
  shows "getProperty w a (setProperty w a t f bs h) = Some \<lparr>p_type = t, p_format = f, p_value = bs\<rparr>"
    "getWindow w (setProperty w a t f bs h) \<noteq> None" "wild (setProperty w a t f bs h) = wild h"
  using assms by (auto simp: setProperty_def Let_def getProperty_def getWindow_def upd_window_def
      split: option.splits if_splits)

lemma getProperty_delete:
  "getProperty w a (deleteProperty w a h) = None" "wild (deleteProperty w a h) = wild h"
  by (auto simp: deleteProperty_def Let_def getProperty_def upd_window_def split: option.splits)

section \<open>Hints\<close>

lemma narrow_wide: "unat (v :: u64) < 2 ^ 32 \<Longrightarrow> ucast (ucast v :: u32) = v"
  by (simp add: unsigned_ucast_eq word_unat_eq_iff unsigned_take_bit_eq take_bit_nat_eq_self)

lemma longs_of_bytes:
  "8 + off \<le> length raw \<Longrightarrow> le_bytes 8 (get64 raw off) = take 8 (drop off raw)"
  "4 + off \<le> length raw \<Longrightarrow> le_bytes 4 (get32 raw off) = take 4 (drop off raw)"
  by (simp_all add: get64_def get32_def le_bytes_le_word)

lemma cut: "take n (drop off raw) @ drop (off + n) raw = drop off raw" by (metis add.commute append_take_drop_id drop_drop)

lemma wm_hints_raw_words:
  assumes "length raw = XWMHints64_size"
    "\<forall>off \<in> {wmh_flags, wmh_icon_pixmap, wmh_icon_window, wmh_icon_mask, wmh_window_group}. unat (get64 raw off) < 2 ^ 32"
  shows "wm_hints_raw (wm_hints_words raw) = raw"
proof -
  have "wm_hints_raw (wm_hints_words raw) = take 8 raw @ take 4 (drop 8 raw) @ take 4 (drop 12 raw) @ take 8 (drop 16 raw) @
      take 8 (drop 24 raw) @ take 4 (drop 32 raw) @ take 4 (drop 36 raw) @ take 8 (drop 40 raw) @ take 8 (drop 48 raw)"
    using assms by (simp add: wm_hints_raw_def wm_hints_words_def narrow_wide longs_of_bytes wmh_offsets)
  also have "\<dots> = raw" using assms(1) cut [of 8 0 raw] cut [of 4 8 raw] cut [of 4 12 raw] cut [of 8 16 raw] cut [of 8 24 raw]
    cut [of 4 32 raw] cut [of 4 36 raw] cut [of 8 40 raw] by (simp add: XWMHints64_size_def)
  finally show ?thesis .
qed


text \<open>C40: the window manager hints a client has set are, byte for byte, those that any client then reads, when the
  identifiers in them fit the 32 bits the host keeps.\<close>

theorem wm_hints_roundtrip:
  assumes "op_SET_WM_HINTS c h = (0, c1, h1)" "h_read (arg c 2) XWMHints64_size c = (Some raw, ca)"
    "\<forall>off \<in> {wmh_flags, wmh_icon_pixmap, wmh_icon_window, wmh_icon_mask, wmh_window_group}. unat (get64 raw off) < 2 ^ 32"
    "3 \<le> c_count q" "uarg q 1 = uarg c 1"
  shows "op_GET_WM_HINTS q h1 = (case h_write (arg q 2) raw q of (ok, q1) \<Rightarrow> (if ok then 1 else E_FAULT, q1, h1))"
proof -
  have len: "length raw = XWMHints64_size" using assms(2) by (auto simp: h_read_def XWMHints64_size_def split: if_splits)
  have w: "getWindow (uarg c 1) h \<noteq> None" and h1: "h1 = setProperty (uarg c 1) XA_WM_HINTS XA_CARDINAL 32 (words32_bytes (wm_hints_words raw)) h"
    using assms(1,2) by (auto simp: op_SET_WM_HINTS_def require_args_def with_window_def E_ARGS_def BadWindow_def split: if_splits)
  note get = getProperty_set [OF w, of XA_WM_HINTS XA_CARDINAL 32 "words32_bytes (wm_hints_words raw)", folded h1]
  have "length (wm_hints_words raw) = 9" by (simp add: wm_hints_words_def)
  moreover from this words32_roundtrip [of "wm_hints_words raw"] have "words32 (words32_bytes (wm_hints_words raw)) 9 = wm_hints_words raw" by simp
  ultimately show ?thesis
    using assms(4,5) get wm_hints_raw_words [OF len assms(3)]
    by (auto simp: op_GET_WM_HINTS_def require_args_def with_window_def XWMHints32_size_def XA_WM_HINTS_def EXPORT_CLIPBOARD_def)
qed

section \<open>The state of a window\<close>

text \<open>The states of a window, in the order of the property.\<close>

definition states_of :: "u32 \<Rightarrow> xserver \<Rightarrow> u32 list" where
  "states_of w h = (case getProperty w NET_WM_STATE h of None \<Rightarrow> []
     | Some p \<Rightarrow> words32 (p_value p) (length (p_value p) div 4))"

lemma states_of_set:
  "getWindow w h \<noteq> None \<Longrightarrow> states_of w (set_states w NET_WM_STATE vs h) = vs"
  "getWindow w h \<noteq> None \<Longrightarrow> wild (set_states w NET_WM_STATE vs h) = wild h"
  using getProperty_set [of w h NET_WM_STATE XA_ATOM 32 "words32_bytes vs"] words32_roundtrip [of vs]
  by (auto simp: states_of_def set_states_def NET_WM_STATE_def EXPORT_CLIPBOARD_def)

lemma remove_states_fold:
  "0 \<notin> set as \<Longrightarrow> fold (\<lambda>a (vs, n). (zap a vs, n + length (filter (\<lambda>v. v = a) vs))) as (vs, n) =
     (map (\<lambda>v. if v \<in> set as then 0 else v) vs, n + length (filter (\<lambda>v. v \<in> set as) vs))"
proof (induction as arbitrary: vs n)
  case (Cons a as)
  have "map (\<lambda>v. if v \<in> set as then 0 else v) (zap a vs) = map (\<lambda>v. if v \<in> set (a # as) then 0 else v) vs"
    by (auto simp: zap_def)
  moreover have "length (filter (\<lambda>v. v = a) vs) + length (filter (\<lambda>v. v \<in> set as) (zap a vs)) =
      length (filter (\<lambda>v. v \<in> set (a # as)) vs)"
    using Cons.prems by (induction vs) (auto simp: zap_def)
  ultimately show ?case using Cons by simp
qed simp

lemma state_args_nonzero: "0 \<notin> set (state_args ev)"
  by (auto simp: state_args_def word_sless_alt dest!: set_takeWhileD)

lemma remove_states_eq:
  "remove_states (state_args ev) vs = (map (\<lambda>v. if v \<in> set (state_args ev) then 0 else v) vs,
     length (filter (\<lambda>v. v \<in> set (state_args ev)) vs))"
  by (simp add: remove_states_def remove_states_fold [OF state_args_nonzero])

lemma filter_zapped: "0 \<notin> set vs \<Longrightarrow> filter (\<lambda>v. v \<noteq> 0) (map (\<lambda>v. if v \<in> gone then 0 else v) vs) = filter (\<lambda>v. v \<notin> gone) vs"
  by (induction vs) auto


section \<open>Examples\<close>

text \<open>A call with hints, or an event, at 0x4000.\<close>

definition hints_call :: "u8 list \<Rightarrow> u64 list \<Rightarrow> hcall" where
  "hints_call raw as = call_for all_pages as (wr (\<lambda>_. 0) 0x4000 raw)"

lemma hints_call_read:
  assumes "length raw = n" "0 < n" "n \<le> 4096"
  shows "h_read 0x4000 n (hints_call raw as) = (Some raw, hints_call raw as)"
proof -
  have "unat (of_nat n :: u64) = n" using assms by (simp add: unat_of_nat take_bit_nat_eq_self)
  moreover from this have "(of_nat n :: u64) \<noteq> 0" using assms(2) by auto
  ultimately have "x11Bridge64RangeAccessible all_pages 0x4000 (of_nat n) False"
    using assms by (simp add: x11Bridge64RangeAccessible_iff bytes_accessible_def all_pages_def)
  then show ?thesis using assms by (simp add: h_read_def hints_call_def)
qed

definition hints0 :: "u8 list" where "hints0 = wm_hints_raw [1, 1, 3, 0, 0, 7, 8, 0, 2]"

lemma hints0_bytes: "hints0 = [1,0,0,0,0,0,0,0, 1,0,0,0, 3,0,0,0, 0,0,0,0,0,0,0,0, 0,0,0,0,0,0,0,0, 7,0,0,0, 8,0,0,0,
    0,0,0,0,0,0,0,0, 2,0,0,0,0,0,0,0]"
  unfolding hints0_def by code_simp

theorem wm_hints_roundtrip_witness:
  "fst (op_GET_WM_HINTS (hints_call hints0 [0, 2, 0x4000]) (snd (snd (op_SET_WM_HINTS (hints_call hints0 [0, 2, 0x4000]) server0)))) = 1"
proof -
  let ?c = "hints_call hints0 [0, 2, 0x4000]"
  have args: "arg ?c 2 = 0x4000" "uarg ?c 1 = 2" "c_count ?c = 3" by (simp_all add: hints_call_def call_for_def arg_def uarg_def)
  have r: "h_read (arg ?c 2) XWMHints64_size ?c = (Some hints0, ?c)"
    unfolding args by (rule hints_call_read) (simp_all add: hints0_bytes XWMHints64_size_def)
  have w: "getWindow 2 server0 \<noteq> None" by (simp add: getWindow_def server0_def window0_def)
  obtain h1 where op: "op_SET_WM_HINTS ?c server0 = (0, ?c, h1)"
    using r w args by (simp add: op_SET_WM_HINTS_def require_args_def with_window_def args(2) [unfolded One_nat_def])
  have fits: "\<forall>off \<in> {wmh_flags, wmh_icon_pixmap, wmh_icon_window, wmh_icon_mask, wmh_window_group}. unat (get64 hints0 off) < 2 ^ 32"
    by (simp add: hints0_bytes wmh_offsets get64_def)
  have ok: "fst (h_write (arg ?c 2) hints0 ?c)"
    using args by (simp add: h_write_def hints0_bytes hints_call_def x11Bridge64RangeAccessible_iff bytes_accessible_def all_pages_def)
  show ?thesis using wm_hints_roundtrip [OF op r fits _ refl] args ok by (simp add: op split: prod.splits)
qed

text \<open>Maximised both ways, which the window was not.\<close>

definition state_event :: "u8 list" where
  "state_event = writeEvent64 (event_words_of [33, 0, 0, 0, 2, NET_WM_STATE, 32, 1, 105, 106, 0, 0]) 0"

end
