(* ===== verification/Spec2Isabelle.thy ===== *)
theory Spec2Isabelle
  imports X11Context X11Text X11Image SizedOperations HostQueue HostRequests RandrSession DisplaySession SurfaceImages TableMap KeyLookups ColorSession HintsSession
begin

text \<open>
  The X11 path of BoxedVN: how a 64-bit Wine running in the emulator draws windows.  The guest process links
  \<^verbatim>\<open>libX11.so\<close> and \<^verbatim>\<open>libXrandr.so\<close> shims (\<^verbatim>\<open>src/tools/x11-64/X11.c\<close>, \<^verbatim>\<open>xrandr.c\<close>).  Each function packs its
  arguments in an array on the stack and makes one private system call; the host
  (\<^verbatim>\<open>src/source/x11/x11bridge64.cpp\<close>) checks the call, reads and writes guest memory through a page probe, and runs
  the operation on an X server that lives in the emulator (\<^verbatim>\<open>src/source/x11\<close>).  The development models both ends,
  the wire between them and the server behind it, and composes them: a theorem about a guest function is a theorem
  about the shim, the bridge, the dispatch table and the handler together.

  \<^bold>\<open>Conventions\<close> (\<^verbatim>\<open>Prelude\<close>, \<^verbatim>\<open>World\<close>).  Integers are words of the width the source declares, so additions wrap;
  a size or an index that the code bounds is a \<^verbatim>\<open>nat\<close>.  Structures are records, or byte images when they cross the
  bridge, with the offsets of \<^verbatim>\<open>x11layout64.h\<close>.  The guest is a record of flat memory, a heap whose allocator may
  refuse, a stack, descriptors and the server.  Errors are values: the negative status of the bridge, an X error code,
  \<^verbatim>\<open>None\<close> or a sum type.  A loop of the source is structural recursion, a \<^verbatim>\<open>function\<close> with a measure, or
  \<^verbatim>\<open>partial_function (option)\<close> where it has no bound of its own; then a property says that it ends.  Two flags of the
  server record what a total function could hide: \<^verbatim>\<open>wild\<close>, an access outside a host array, and \<^verbatim>\<open>stuck\<close>, a walk along
  the parents of a window that would not end.  A walk is given as many steps as the table has windows; in a tree no
  walk is longer, so \<^verbatim>\<open>stuck\<close> means a cycle, and the properties of window sessions show that it stays false.

  \<^bold>\<open>The bridge.\<close>  \<^verbatim>\<open>X11Protocol\<close> is the operation table and the admission of a call
  (\<^verbatim>\<open>boxedwine_x64_x11_bridge.h\<close>, \<^verbatim>\<open>x11_bridge64_policy.h\<close>): the range check over pages is the check of every byte.
  \<^verbatim>\<open>X11Bridge\<close> is \<^verbatim>\<open>bw_call\<close>, \<^verbatim>\<open>bw_sized\<close>, the class \<^verbatim>\<open>Call\<close> and \<^verbatim>\<open>x11Bridge64\<close>; its locales \<^verbatim>\<open>sized_operation\<close> and
  \<^verbatim>\<open>sized_handler\<close> state the protocol of results whose size the host decides, and \<^verbatim>\<open>SizedOperations\<close> interprets them
  on the host's handlers for atom names, keyboard maps and keysym names.  \<^verbatim>\<open>HostTable\<close> is the dispatch table \<^verbatim>\<open>kOps\<close>.

  \<^bold>\<open>The guest libraries.\<close>  \<^verbatim>\<open>X11Display\<close> (opening, closing, accessors), \<^verbatim>\<open>X11Visuals\<close>, \<^verbatim>\<open>X11Requests\<close> and \<^verbatim>\<open>X11Drawing\<close>
  (requests that are one call), \<^verbatim>\<open>X11Keyboard\<close>, \<^verbatim>\<open>X11Context\<close> (the hash table of contexts, shown to be a finite map over
  sessions), \<^verbatim>\<open>X11Text\<close> (string lists and text properties, shown to round-trip but for a last empty string), \<^verbatim>\<open>X11Events\<close>
  (the scan of the host's queue and the waiting loops; \<^verbatim>\<open>poll\<close> is a parameter) and \<^verbatim>\<open>X11Image\<close> (pixels of an XImage).
  \<^verbatim>\<open>XRandr\<close> is libXrandr with its one output and its static tables.

  \<^bold>\<open>The server.\<close>  \<^verbatim>\<open>HostState\<close> is its state, the event queue of a display with the wake-up socket, and properties
  (\<^verbatim>\<open>displaydata.cpp\<close>, \<^verbatim>\<open>xserver.cpp\<close>, \<^verbatim>\<open>xwindow.cpp\<close>, \<^verbatim>\<open>xproperties.cpp\<close>).  \<^verbatim>\<open>HostEvents\<close> converts events between the
  layouts.  \<^verbatim>\<open>HostServer\<close> has the handlers of displays, events, atoms and properties; \<^verbatim>\<open>HostQueue\<close> interprets the
  contract of \<^verbatim>\<open>X11Events\<close> on them, so that taking an event by predicate is proved from the guest function to the host
  queue, and shows that a display is changed only by callers that pass its address.  \<^verbatim>\<open>HostPointer\<close>, \<^verbatim>\<open>HostWindows\<close> and
  \<^verbatim>\<open>HostWindowCalls\<close> are the pointer, grabs and focus, the windows, and their handlers.  \<^verbatim>\<open>HostTree\<close> has the invariant
  of the window tree and the search under a point against its declarative reading, \<^verbatim>\<open>HostSession\<close> shows that every
  request keeps the invariant and returns, \<^verbatim>\<open>HostRequests\<close> what requests do: order of events, geometry, creation and
  destruction, and the cycles that reparenting permits.  \<^verbatim>\<open>HostOpen\<close> lays out the structures a client reads
  (\<^verbatim>\<open>op_OPEN_DISPLAY\<close>, \<^verbatim>\<open>xpixmapformats.cpp\<close>); \<^verbatim>\<open>DisplaySession\<close> shows that \<^verbatim>\<open>XOpenDisplay\<close> then sees the server's screen,
  depths, visuals and formats.  \<^verbatim>\<open>HostRandr\<close> is the mode policy (\<^verbatim>\<open>xrandr.cpp\<close>), \<^verbatim>\<open>RandrModes\<close> its reference and
  \<^verbatim>\<open>RandrSession\<close> the composition with libXrandr.  \<^verbatim>\<open>HostSurface\<close> is the graphics context and the pixels of a drawable
  (\<^verbatim>\<open>xgc.cpp\<close>, \<^verbatim>\<open>xdrawable.cpp\<close>), \<^verbatim>\<open>HostDrawing\<close> its handlers, \<^verbatim>\<open>SurfaceDrawing\<close> and \<^verbatim>\<open>SurfaceImages\<close> what they do to
  each pixel.  \<^verbatim>\<open>HostColors\<close> is colormaps (\<^verbatim>\<open>xcolormap.cpp\<close>), \<^verbatim>\<open>ColorSession\<close> who holds which cell for how long.
  \<^verbatim>\<open>HostKeyboard\<close> is the keyboard (\<^verbatim>\<open>xkeyboard.cpp\<close>), \<^verbatim>\<open>HostInput\<close> the key lookups, \<^verbatim>\<open>KeyLookups\<close> what they give.
  \<^verbatim>\<open>HostHints\<close> is hints, sent events, window states and the clipboard selection, \<^verbatim>\<open>HintsSession\<close> their round trips.

  \<^bold>\<open>The hash table\<close> (\<^verbatim>\<open>BHashTable\<close>, \<^verbatim>\<open>source/util/bhashtable.h\<close>) in which the host keeps its objects: \<^verbatim>\<open>TableMap\<close> shows that
  it is a finite map over any session, for any hash function and whenever the allocator refuses, and that its loops
  end.  Its contract is the locale \<^verbatim>\<open>object_store\<close>, interpreted on the table; the keyboard is built on it.  Elsewhere
  the server's tables are maps, as \<^verbatim>\<open>TableMap\<close> justifies, with the order of displays kept where the code depends on it.

  \<^bold>\<open>Assumptions.\<close>  One guest process, and requests one at a time: the host serialises them with its locks, which are
  modelled where a path could leave one locked.  The build is the one without \<^verbatim>\<open>BOXEDWINE_IOS\<close>.  The product of a
  size by \<^verbatim>\<open>0.2646\<close>, cut to an integer, is computed as \<^verbatim>\<open>w * 1323 div 5000\<close>.  The page table is a probe and the memory a
  map from addresses to bytes.  Allocation on the host succeeds except where the table handles it.

  \<^bold>\<open>Bounds.\<close>  The answer of \<^verbatim>\<open>RANDR_GET_STATE\<close> has at most 27 modes, of the 64 the shim has room for; strings are read up
  to the limit the handler passes; a session has any length.  Where ids are drawn from a 32-bit counter, a session is
  one in which the counter has not wrapped round to an id in use, and the rules of the session say so.

  \<^bold>\<open>Not modelled.\<close>  The native back end (windows, cursors, presentation, clipboard) beyond what the server keeps of it:
  the four cursor operations and the pointer warp are a parameter of the dispatch table.  The full-screen stand-in
  window of iOS, XInput2, the second event mask, the lifetime of shared pointers, log lines and diagnostics.  The
  IA-32 lane (\<^verbatim>\<open>x11common.cpp\<close>, \<^verbatim>\<open>x11.cpp\<close>) reaches the same server through other entry points.  Vulkan and OpenGL
  forwarding is generated marshalling; the CPU emulators, guest memory, the Linux kernel emulation, the iOS host, the
  user interface and vendored libraries are programs of their own.
\<close>

end
